(* ===== verification/Komenci_Prelude.thy ===== *)
theory Komenci_Prelude
  imports Complex_Main "HOL-Library.Char_ord" "HOL-Library.Sublist"
begin

text \<open>
  What the component theories share: the effect type of an asynchronous TypeScript function
  (a state, an exception or a value), the combinators the code composes such functions with
  (sequencing, \<open>try/catch\<close>, \<open>try/finally\<close>, \<open>Promise.all\<close>), the \<open>Result\<close> type, the
  operations of JavaScript strings, ordered sets and numbers that the code uses, and the
  rules by which the component theories reason about them.
\<close>

named_theorems io_defs \<open>unfolding rules of the effect combinators\<close>
named_theorems no_throw \<open>programs that never reject\<close>
named_theorems keeps \<open>programs that preserve a predicate of the state\<close>

section \<open>Results\<close>

text \<open>
  \<open>Result<T, E>\<close>: an operation of the code that can fail returns \<open>Ok(value)\<close> or \<open>Err(error)\<close>.
\<close>

datatype ('e, 'a) result = Err (the_err: 'e) | Ok (the_ok: 'a)

primrec is_ok :: "('e, 'a) result \<Rightarrow> bool" where
  "is_ok (Err e) = False"
| "is_ok (Ok x) = True"

lemma is_ok_iff: "is_ok r \<longleftrightarrow> (\<exists>x. r = Ok x)"
  by (cases r) auto

lemma not_is_ok_iff: "\<not> is_ok r \<longleftrightarrow> (\<exists>e. r = Err e)"
  by (cases r) auto

section \<open>Effects\<close>

text \<open>
  An asynchronous function of the code is a state transformer that either rejects with an
  exception (\<open>Inl\<close>) or resolves with a value (\<open>Inr\<close>). The state is kept in both cases:
  effects made before an exception are not undone.
\<close>

type_synonym ('w, 'e, 'a) io = "'w \<Rightarrow> ('e + 'a) \<times> 'w"

definition ret :: "'a \<Rightarrow> ('w, 'e, 'a) io" where
  "ret x = (\<lambda>w. (Inr x, w))"

definition throw :: "'e \<Rightarrow> ('w, 'e, 'a) io" where
  "throw e = (\<lambda>w. (Inl e, w))"

definition andThen :: "('w, 'e, 'a) io \<Rightarrow> ('a \<Rightarrow> ('w, 'e, 'b) io) \<Rightarrow> ('w, 'e, 'b) io" where
  "andThen m f = (\<lambda>w. case m w of (Inl e, w') \<Rightarrow> (Inl e, w') | (Inr x, w') \<Rightarrow> f x w')"

text \<open>\<open>try { m } catch (e) { h(e) }\<close>\<close>

definition catching :: "('w, 'e, 'a) io \<Rightarrow> ('e \<Rightarrow> ('w, 'f, 'a) io) \<Rightarrow> ('w, 'f, 'a) io" where
  "catching m h = (\<lambda>w. case m w of (Inl e, w') \<Rightarrow> h e w' | (Inr x, w') \<Rightarrow> (Inr x, w'))"

text \<open>\<open>try { m } finally { s = g(s) }\<close>, for a clean-up that only writes the state\<close>

definition finallyDo :: "('w, 'e, 'a) io \<Rightarrow> ('w \<Rightarrow> 'w) \<Rightarrow> ('w, 'e, 'a) io" where
  "finallyDo m g = (\<lambda>w. case m w of (r, w') \<Rightarrow> (r, g w'))"

definition gets :: "('w \<Rightarrow> 'a) \<Rightarrow> ('w, 'e, 'a) io" where
  "gets f = (\<lambda>w. (Inr (f w), w))"

definition modify :: "('w \<Rightarrow> 'w) \<Rightarrow> ('w, 'e, unit) io" where
  "modify g = (\<lambda>w. (Inr (), g w))"

text \<open>The outcome of a program as a value: a rejection is caught and returned.\<close>

definition attempt :: "('w, 'e, 'a) io \<Rightarrow> ('w, 'f, 'e + 'a) io" where
  "attempt m = (\<lambda>w. case m w of (r, w') \<Rightarrow> (Inr r, w'))"

text \<open>
  A component with its own state runs on a pair: its state and the outside world (the chain,
  the database, the clock, remote services), of which nothing is known. \<open>ext\<close> is a call to
  the outside.
\<close>

definition ext :: "('w, 'e, 'a) io \<Rightarrow> ('s \<times> 'w, 'e, 'a) io" where
  "ext m = (\<lambda>(s, w). case m w of (r, w') \<Rightarrow> (r, (s, w')))"

definition getS :: "('s \<Rightarrow> 'a) \<Rightarrow> ('s \<times> 'w, 'e, 'a) io" where
  "getS f = (\<lambda>(s, w). (Inr (f s), (s, w)))"

definition modS :: "('s \<Rightarrow> 's) \<Rightarrow> ('s \<times> 'w, 'e, unit) io" where
  "modS g = (\<lambda>(s, w). (Inr (), (g s, w)))"

lemmas io_combinators [io_defs] =
  ret_def throw_def andThen_def catching_def finallyDo_def gets_def modify_def attempt_def
  ext_def getS_def modS_def

text \<open>
  \<open>throwIfError\<close> turns a failed result into a rejection.
\<close>

definition throwIfError :: "('e, 'a) result \<Rightarrow> ('w, 'e, 'a) io" where
  "throwIfError r = (case r of Err e \<Rightarrow> throw e | Ok x \<Rightarrow> ret x)"

text \<open>
  \<open>if (r.ok === false) { return r }\<close> and go on with the value; \<open>mapErr\<close> embeds the errors of a callee
  in those of its caller.
\<close>

definition andThenOk ::
    "('w, 'x, ('e, 'a) result) io \<Rightarrow> ('a \<Rightarrow> ('w, 'x, ('e, 'b) result) io) \<Rightarrow> ('w, 'x, ('e, 'b) result) io"
  where
  "andThenOk m f = andThen m (\<lambda>r. case r of Err e \<Rightarrow> ret (Err e) | Ok x \<Rightarrow> f x)"

definition mapErr :: "('e \<Rightarrow> 'f) \<Rightarrow> ('w, 'x, ('e, 'a) result) io \<Rightarrow> ('w, 'x, ('f, 'a) result) io" where
  "mapErr g m = andThen m (\<lambda>r. case r of Err e \<Rightarrow> ret (Err (g e)) | Ok x \<Rightarrow> ret (Ok x))"

text \<open>\<open>for (const x of xs) { await f(x) }\<close>: stops at the first rejection.\<close>

primrec forEach :: "('a \<Rightarrow> ('w, 'e, unit) io) \<Rightarrow> 'a list \<Rightarrow> ('w, 'e, unit) io" where
  "forEach f [] = ret ()"
| "forEach f (x # xs) = andThen (f x) (\<lambda>_. forEach f xs)"

text \<open>
  \<open>Promise.all(ms)\<close>: every promise has been started when it is called, so every program runs,
  and the whole rejects when one of them rejects. The programs run here one after the other,
  in the order of the list, and the rejection reported is the first of that order.
\<close>

primrec settleAll :: "('w, 'e, 'a) io list \<Rightarrow> ('w, 'f, ('e + 'a) list) io" where
  "settleAll [] = ret []"
| "settleAll (m # ms) = andThen (attempt m) (\<lambda>r. andThen (settleAll ms) (\<lambda>rs. ret (r # rs)))"

primrec firstRejection :: "('e + 'a) list \<Rightarrow> 'e + 'a list" where
  "firstRejection [] = Inr []"
| "firstRejection (r # rs) =
     (case r of
        Inl e \<Rightarrow> Inl e
      | Inr x \<Rightarrow> (case firstRejection rs of Inl e \<Rightarrow> Inl e | Inr xs \<Rightarrow> Inr (x # xs)))"

definition promiseAll :: "('w, 'e, 'a) io list \<Rightarrow> ('w, 'e, 'a list) io" where
  "promiseAll ms =
     andThen (settleAll ms)
       (\<lambda>rs. case firstRejection rs of Inl e \<Rightarrow> throw e | Inr xs \<Rightarrow> ret xs)"

subsection \<open>Laws of sequencing\<close>

lemma andThen_ret [simp]: "andThen (ret x) f = f x"
  by (simp add: io_defs)

lemma andThen_throw [simp]: "andThen (throw e) f = throw e"
  by (simp add: io_defs)

lemma andThen_ret_right [simp]: "andThen m ret = m"
  by (simp add: io_defs fun_eq_iff split: prod.split sum.split)

lemma andThen_assoc: "andThen (andThen m f) g = andThen m (\<lambda>x. andThen (f x) g)"
  by (simp add: io_defs fun_eq_iff split: prod.split sum.split)

lemma catching_ret [simp]: "catching (ret x) h = ret x"
  by (simp add: io_defs)

lemma catching_throw [simp]: "catching (throw e) h = h e"
  by (simp add: io_defs)

text \<open>Running a program from a state given as a pair; for any state, \<open>io_run\<close>.\<close>

lemma ret_app_pair [simp]: "ret x (s, w) = (Inr x, (s, w))"
  by (simp add: ret_def)

lemma throw_app_pair [simp]: "throw e (s, w) = (Inl e, (s, w))"
  by (simp add: throw_def)

lemma ret_app: "ret x w = (Inr x, w)"
  by (simp add: ret_def)

lemma throw_app: "throw e w = (Inl e, w)"
  by (simp add: throw_def)

lemma ret_eq_iff [simp]: "ret x w = (r, w') \<longleftrightarrow> r = Inr x \<and> w' = w"
  by (auto simp: ret_def)

lemma throw_eq_iff [simp]: "throw e w = (r, w') \<longleftrightarrow> r = Inl e \<and> w' = w"
  by (auto simp: throw_def)

lemma andThen_app_Inr: "m w = (Inr x, w') \<Longrightarrow> andThen m f w = f x w'"
  by (simp add: andThen_def)

lemma andThen_app_Inl: "m w = (Inl e, w') \<Longrightarrow> andThen m f w = (Inl e, w')"
  by (simp add: andThen_def)

lemma andThen_eq_Inr:
  "andThen m f w = (Inr y, w'') \<longleftrightarrow> (\<exists>x w'. m w = (Inr x, w') \<and> f x w' = (Inr y, w''))"
  by (auto simp: andThen_def split: prod.splits sum.splits)

lemma andThen_eq_Inl:
  "andThen m f w = (Inl e, w'') \<longleftrightarrow>
     m w = (Inl e, w'') \<or> (\<exists>x w'. m w = (Inr x, w') \<and> f x w' = (Inl e, w''))"
  by (auto simp: andThen_def split: prod.splits sum.splits)

lemma catching_Inr:
  "catching m h w = (Inr x, w') \<longleftrightarrow>
     m w = (Inr x, w') \<or> (\<exists>e u. m w = (Inl e, u) \<and> h e u = (Inr x, w'))"
  by (auto simp: catching_def split: prod.splits sum.splits)

lemma run_of_fst: "fst z = r \<Longrightarrow> \<exists>s w. z = (r, (s, w))"
  by (metis prod.collapse)

lemma getS_app [simp]: "getS f (s, w) = (Inr (f s), (s, w))"
  by (simp add: getS_def)

lemma modS_app [simp]: "modS g (s, w) = (Inr (), (g s, w))"
  by (simp add: modS_def)

lemma ext_app: "ext m (s, w) = (fst (m w), (s, snd (m w)))"
  by (simp add: ext_def split: prod.split)

lemma ext_eq_iff: "ext m (s, w) = (r, (s', w')) \<longleftrightarrow> m w = (r, w') \<and> s' = s"
  by (auto simp: ext_def split: prod.splits)

lemma andThenOk_Ok:
  "andThenOk m f w = (Inr (Ok y), w'') \<longleftrightarrow>
     (\<exists>x w'. m w = (Inr (Ok x), w') \<and> f x w' = (Inr (Ok y), w''))"
proof -
  have "(\<exists>r w'. m w = (Inr r, w') \<and>
          (case r of Err e \<Rightarrow> ret (Err e) | Ok x \<Rightarrow> f x) w' = (Inr (Ok y), w'')) \<longleftrightarrow>
        (\<exists>x w'. m w = (Inr (Ok x), w') \<and> f x w' = (Inr (Ok y), w''))" (is "?l \<longleftrightarrow> ?r")
  proof
    assume ?l
    then obtain r w' where "m w = (Inr r, w')"
      "(case r of Err e \<Rightarrow> ret (Err e) | Ok x \<Rightarrow> f x) w' = (Inr (Ok y), w'')" by blast
    then show ?r by (cases r) auto
  next
    assume ?r
    then show ?l by fastforce
  qed
  then show ?thesis by (simp add: andThenOk_def andThen_eq_Inr)
qed

lemma mapErr_Ok: "mapErr g m w = (Inr (Ok y), w') \<longleftrightarrow> m w = (Inr (Ok y), w')"
  by (cases "m w", cases "fst (m w)")
    (auto simp: mapErr_def andThen_def ret_app split: result.splits)

text \<open>
  A run of a program that branches is a run of one of its branches: with \<open>andThen_eq_Inr\<close>, these
  rules turn a run that returned into the chain of its steps.
\<close>

named_theorems runs \<open>what a run that returned went through\<close>

lemma case_result_run [runs]:
  "(case r of Err e \<Rightarrow> f e | Ok x \<Rightarrow> g x) w = z \<longleftrightarrow>
     (\<exists>e. r = Err e \<and> f e w = z) \<or> (\<exists>x. r = Ok x \<and> g x w = z)"
  by (cases r) auto

lemma case_option_run [runs]:
  "(case r of None \<Rightarrow> m | Some x \<Rightarrow> g x) w = z \<longleftrightarrow>
     r = None \<and> m w = z \<or> (\<exists>x. r = Some x \<and> g x w = z)"
  by (cases r) auto

lemma case_sum_run [runs]:
  "(case r of Inl e \<Rightarrow> f e | Inr x \<Rightarrow> g x) w = z \<longleftrightarrow>
     (\<exists>e. r = Inl e \<and> f e w = z) \<or> (\<exists>x. r = Inr x \<and> g x w = z)"
  by (cases r) auto

lemma case_prod_run [runs]: "(case p of (x, y) \<Rightarrow> f x y) w = z \<longleftrightarrow> f (fst p) (snd p) w = z"
  by (cases p) auto

lemma if_run [runs]: "(if b then m else n) w = z \<longleftrightarrow> b \<and> m w = z \<or> \<not> b \<and> n w = z"
  by simp

lemmas sequencing_runs [runs] = andThen_eq_Inr andThenOk_Ok mapErr_Ok ext_eq_iff Let_def

lemma throwIfError_simps [simp]:
  "throwIfError (Ok x) = ret x"
  "throwIfError (Err e) = throw e"
  by (simp_all add: throwIfError_def)

subsection \<open>Programs that never reject\<close>

definition never_throws :: "('w, 'e, 'a) io \<Rightarrow> bool" where
  "never_throws m \<longleftrightarrow> (\<forall>w. \<exists>x w'. m w = (Inr x, w'))"

lemma never_throwsE:
  assumes "never_throws m"
  obtains x w' where "m w = (Inr x, w')"
  using assms unfolding never_throws_def by blast

lemma never_throws_not_Inl: "never_throws m \<Longrightarrow> m w \<noteq> (Inl e, w')"
  by (metis never_throws_def prod.inject sum.distinct(1))

lemma never_throws_ret [no_throw]: "never_throws (ret x)"
  by (simp add: never_throws_def ret_def)

lemma never_throws_andThen [no_throw]:
  "never_throws m \<Longrightarrow> (\<And>x. never_throws (f x)) \<Longrightarrow> never_throws (andThen m f)"
  unfolding never_throws_def andThen_def
  by (metis (mono_tags, lifting) case_prod_conv sum.simps(6))

lemma never_throws_catching [no_throw]:
  assumes h: "\<And>e. never_throws (h e)"
  shows "never_throws (catching m h)"
  unfolding never_throws_def
proof
  fix w
  show "\<exists>x w'. catching m h w = (Inr x, w')"
  proof (cases "m w")
    case (Pair r w')
    show ?thesis
    proof (cases r)
      case (Inl e)
      from h [of e] obtain x w'' where "h e w' = (Inr x, w'')"
        by (rule never_throwsE)
      with Pair Inl show ?thesis by (simp add: catching_def)
    next
      case (Inr x)
      with Pair show ?thesis by (simp add: catching_def)
    qed
  qed
qed

lemma never_throws_getS [no_throw]: "never_throws (getS f)"
  by (auto simp: never_throws_def)

lemma never_throws_modS [no_throw]: "never_throws (modS g)"
  by (auto simp: never_throws_def)

lemma never_throws_attempt [no_throw]: "never_throws (attempt m)"
  by (auto simp: never_throws_def attempt_def split: prod.split)

lemma never_throws_ext [no_throw]: "never_throws m \<Longrightarrow> never_throws (ext m)"
  unfolding never_throws_def ext_def by (metis (mono_tags, lifting) case_prod_conv surj_pair)

lemma never_throws_if [no_throw]:
  "(b \<Longrightarrow> never_throws m) \<Longrightarrow> (\<not> b \<Longrightarrow> never_throws n) \<Longrightarrow> never_throws (if b then m else n)"
  by simp

lemma never_throws_andThenOk [no_throw]:
  "never_throws m \<Longrightarrow> (\<And>x. never_throws (f x)) \<Longrightarrow> never_throws (andThenOk m f)"
  unfolding andThenOk_def by (auto intro!: no_throw split: result.split)

lemma never_throws_mapErr [no_throw]: "never_throws m \<Longrightarrow> never_throws (mapErr g m)"
  unfolding mapErr_def by (auto intro!: no_throw split: result.split)

lemma never_throws_forEach [no_throw]:
  "(\<And>x. never_throws (f x)) \<Longrightarrow> never_throws (forEach f xs)"
  by (induction xs) (auto intro: no_throw)

lemma never_throws_settleAll [no_throw]: "never_throws (settleAll ms)"
  by (induction ms) (auto intro: no_throw)

subsection \<open>Programs that preserve a predicate\<close>

definition preserves :: "('w \<Rightarrow> bool) \<Rightarrow> ('w, 'e, 'a) io \<Rightarrow> bool" where
  "preserves P m \<longleftrightarrow> (\<forall>w. P w \<longrightarrow> P (snd (m w)))"

lemma preservesD: "preserves P m \<Longrightarrow> P w \<Longrightarrow> m w = (r, w') \<Longrightarrow> P w'"
  by (auto simp: preserves_def)

lemma preservesI: "(\<And>w r w'. P w \<Longrightarrow> m w = (r, w') \<Longrightarrow> P w') \<Longrightarrow> preserves P m"
  unfolding preserves_def by (metis prod.collapse)

lemma preserves_ret [keeps]: "preserves P (ret x)"
  by (simp add: preserves_def ret_def)

lemma preserves_throw [keeps]: "preserves P (throw e)"
  by (simp add: preserves_def throw_def)

lemma preserves_andThen [keeps]:
  assumes m: "preserves P m" and f: "\<And>x. preserves P (f x)"
  shows "preserves P (andThen m f)"
proof (rule preservesI)
  fix w r w'
  assume P: "P w" and eq: "andThen m f w = (r, w')"
  obtain q u where mw: "m w = (q, u)" by (cases "m w")
  with m P have "P u" by (rule preservesD)
  with eq mw show "P w'"
    by (cases q) (auto simp: andThen_def dest: preservesD [OF f])
qed

lemma preserves_catching [keeps]:
  assumes m: "preserves P m" and h: "\<And>e. preserves P (h e)"
  shows "preserves P (catching m h)"
proof (rule preservesI)
  fix w r w'
  assume P: "P w" and eq: "catching m h w = (r, w')"
  obtain q u where mw: "m w = (q, u)" by (cases "m w")
  with m P have "P u" by (rule preservesD)
  with eq mw show "P w'"
    by (cases q) (auto simp: catching_def dest: preservesD [OF h])
qed

lemma preserves_getS [keeps]: "preserves P (getS f)"
  by (auto simp: preserves_def)

lemma preserves_gets [keeps]: "preserves P (gets f)"
  by (auto simp: preserves_def gets_def)

lemma preserves_modS [keeps]: "(\<And>s w. P (s, w) \<Longrightarrow> P (g s, w)) \<Longrightarrow> preserves P (modS g)"
  by (auto simp: preserves_def)

lemma preserves_ext [keeps]:
  "(\<And>s w w'. P (s, w) \<Longrightarrow> P (s, w')) \<Longrightarrow> preserves P (ext m)"
  by (auto simp: preserves_def ext_app)

lemma preserves_if [keeps]:
  "(b \<Longrightarrow> preserves P m) \<Longrightarrow> (\<not> b \<Longrightarrow> preserves P n) \<Longrightarrow> preserves P (if b then m else n)"
  by simp

lemma preserves_case_result [keeps]:
  "(\<And>e. r = Err e \<Longrightarrow> preserves P (f e)) \<Longrightarrow> (\<And>x. r = Ok x \<Longrightarrow> preserves P (g x)) \<Longrightarrow>
   preserves P (case r of Err e \<Rightarrow> f e | Ok x \<Rightarrow> g x)"
  by (cases r) auto

lemma preserves_case_option [keeps]:
  "(r = None \<Longrightarrow> preserves P m) \<Longrightarrow> (\<And>x. r = Some x \<Longrightarrow> preserves P (g x)) \<Longrightarrow>
   preserves P (case r of None \<Rightarrow> m | Some x \<Rightarrow> g x)"
  by (cases r) auto

lemma preserves_case_sum [keeps]:
  "(\<And>e. r = Inl e \<Longrightarrow> preserves P (f e)) \<Longrightarrow> (\<And>x. r = Inr x \<Longrightarrow> preserves P (g x)) \<Longrightarrow>
   preserves P (case r of Inl e \<Rightarrow> f e | Inr x \<Rightarrow> g x)"
  by (cases r) auto

lemma preserves_throwIfError [keeps]: "preserves P (throwIfError r)"
  by (cases r) (auto intro: keeps)

lemma preserves_attempt [keeps]: "preserves P m \<Longrightarrow> preserves P (attempt m)"
  by (rule preservesI) (auto simp: attempt_def split: prod.splits dest: preservesD)

lemma preserves_andThenOk [keeps]:
  "preserves P m \<Longrightarrow> (\<And>x. preserves P (f x)) \<Longrightarrow> preserves P (andThenOk m f)"
  unfolding andThenOk_def by (intro keeps)

lemma preserves_mapErr [keeps]: "preserves P m \<Longrightarrow> preserves P (mapErr g m)"
  unfolding mapErr_def by (intro keeps)

lemma preserves_forEach [keeps]:
  "(\<And>x. x \<in> set xs \<Longrightarrow> preserves P (f x)) \<Longrightarrow> preserves P (forEach f xs)"
  by (induction xs) (auto intro!: keeps)

lemma preserves_settleAll [keeps]:
  "(\<And>m. m \<in> set ms \<Longrightarrow> preserves P m) \<Longrightarrow> preserves P (settleAll ms)"
  by (induction ms) (auto intro!: keeps)

lemma preserves_promiseAll [keeps]:
  "(\<And>m. m \<in> set ms \<Longrightarrow> preserves P m) \<Longrightarrow> preserves P (promiseAll ms)"
  unfolding promiseAll_def by (intro keeps) auto

lemma preserves_finallyDo [keeps]:
  "preserves P m \<Longrightarrow> (\<And>w. P w \<Longrightarrow> P (g w)) \<Longrightarrow> preserves P (finallyDo m g)"
  by (rule preservesI) (auto simp: finallyDo_def split: prod.splits dest: preservesD)

text \<open>A run that breaks what its first step keeps went through that step.\<close>

lemma andThen_breaks:
  assumes "preserves Q m" and "Q w" and "andThen m f w = (r, w')" and "\<not> Q w'"
  obtains x u where "m w = (Inr x, u)" "Q u" "f x u = (r, w')"
proof -
  obtain q u where mw: "m w = (q, u)" by (cases "m w")
  with assms(1,2) have "Q u" by (rule preservesD)
  with mw assms(3,4) that show thesis by (cases q) (auto simp: andThen_def)
qed

lemma preserves_andThen_result:
  assumes "preserves P m" and "\<And>x u u'. m u = (Inr x, u') \<Longrightarrow> preserves P (f x)"
  shows "preserves P (andThen m f)"
proof (rule preservesI)
  fix w r w'
  assume P: "P w" and eq: "andThen m f w = (r, w')"
  obtain q u where mw: "m w = (q, u)" by (cases "m w")
  with assms(1) P have "P u" by (rule preservesD)
  with eq mw show "P w'"
    by (cases q) (auto simp: andThen_def dest: preservesD [OF assms(2)])
qed

subsection \<open>Outcomes of \<open>Promise.all\<close>\<close>

lemma firstRejection_Inr_iff: "firstRejection rs = Inr xs \<longleftrightarrow> rs = map Inr xs"
proof (induction rs arbitrary: xs)
  case Nil
  then show ?case by auto
next
  case (Cons r rs)
  show ?case
  proof (cases r)
    case (Inl e)
    then show ?thesis by auto
  next
    case (Inr x)
    show ?thesis
    proof (cases "firstRejection rs")
      case (Inl e)
      with Cons.IH have "\<And>ys. rs \<noteq> map Inr ys" by fastforce
      with Inl \<open>r = Inr x\<close> show ?thesis by (cases xs) auto
    next
      case (Inr ys)
      with Cons.IH have "rs = map Inr ys" by blast
      with Inr \<open>r = Inr x\<close> Cons.IH show ?thesis by (cases xs) auto
    qed
  qed
qed

lemma firstRejection_Inl_in: "firstRejection rs = Inl e \<Longrightarrow> Inl e \<in> set rs"
  by (induction rs) (auto split: sum.splits)

text \<open>Each outcome is that of a run of its program, from a state in which what all of them preserve holds.\<close>

lemma settleAll_results_under:
  assumes "\<And>m. m \<in> set ms \<Longrightarrow> preserves P m" and "P w" and "settleAll ms w = (Inr rs :: 'f + _, w')"
  shows "list_all2 (\<lambda>m r. \<exists>u u'. P u \<and> m u = (r, u')) ms rs"
  using assms
proof (induction ms arbitrary: w rs)
  case Nil
  then show ?case by (simp add: ret_def)
next
  case (Cons m ms)
  from Cons.prems(3) obtain r u rs' where m: "m w = (r, u)" and "settleAll ms u = (Inr rs' :: 'f + _, w')" "rs = r # rs'"
    by (auto simp: andThen_eq_Inr attempt_def split: prod.splits)
  moreover have "P u" using Cons.prems(1,2) m by (auto dest: preservesD)
  ultimately show ?case using Cons by auto
qed

lemma promiseAll_results_under:
  fixes ms :: "('w, 'e, 'a) io list"
  assumes "\<And>m. m \<in> set ms \<Longrightarrow> preserves P m" and "P w" and "promiseAll ms w = (Inr xs, w')"
  shows "list_all2 (\<lambda>m x. \<exists>u u'. P u \<and> m u = (Inr x, u')) ms xs"
proof -
  from assms(3) obtain rs where "settleAll ms w = (Inr rs :: 'e + _, w')" "firstRejection rs = Inr xs"
    by (auto simp: promiseAll_def andThen_eq_Inr case_sum_run)
  then have "list_all2 (\<lambda>m r. \<exists>u u'. P u \<and> m u = (r, u')) ms (map Inr xs)"
    using settleAll_results_under [OF assms(1,2)] firstRejection_Inr_iff [of rs xs] by simp
  then show ?thesis by (simp add: list_all2_map2)
qed

lemma promiseAll_results:
  fixes ms :: "('w, 'e, 'a) io list"
  assumes "promiseAll ms w = (Inr xs, w')"
  shows "list_all2 (\<lambda>m x. \<exists>u u'. m u = (Inr x, u')) ms xs"
  using promiseAll_results_under [where P = "\<lambda>_. True", OF _ _ assms] by (simp add: preserves_def)

text \<open>What one of the programs establishes and none of them breaks holds at the end.\<close>

lemma settleAll_establishes:
  assumes "\<And>m. m \<in> set ms \<Longrightarrow> preserves Q m"
    and "m \<in> set ms" and "\<And>u r u'. m u = (r, u') \<Longrightarrow> Q u'"
    and "settleAll ms w = (q :: 'f + _, w')"
  shows "Q w'"
  using assms
proof (induction ms arbitrary: w q)
  case Nil
  then show ?case by simp
next
  case (Cons n ms)
  obtain r u where n: "n w = (r, u)" by (cases "n w")
  obtain q' where run: "settleAll ms u = (q' :: 'f + _, w')"
    using Cons.prems(4) n by (auto simp: andThen_def attempt_def ret_def split: prod.splits sum.splits)
  show ?case
  proof (cases "m \<in> set ms")
    case True
    from Cons.IH [OF Cons.prems(1) True Cons.prems(3) run] show ?thesis by simp
  next
    case False
    with Cons.prems n have "Q u" by auto
    moreover have "preserves Q (settleAll ms :: ('a, 'f, _) io)"
      using Cons.prems(1) by (intro keeps) auto
    ultimately show ?thesis using run by (metis preservesD)
  qed
qed

lemma promiseAll_establishes:
  fixes ms :: "('w, 'e, 'a) io list"
  assumes "\<And>m. m \<in> set ms \<Longrightarrow> preserves Q m"
    and "m \<in> set ms" and "\<And>u r u'. m u = (r, u') \<Longrightarrow> Q u'"
    and run: "promiseAll ms w = (r, w')"
  shows "Q w'"
proof -
  obtain q where "settleAll ms w = (q :: 'e + _, w')"
    using run by (auto simp: promiseAll_def andThen_def ret_def throw_def split: prod.splits sum.splits)
  with assms(1-3) show ?thesis by (rule settleAll_establishes)
qed

section \<open>Logs of what was accepted\<close>

text \<open>
  \<open>sent\<close> reads from the state the list of what the outside has accepted so far (transfers, deployments). A
  program \<open>sends\<close> a list if it adds a part of it, in its order, and all of it when it returns.
\<close>

definition sends :: "('w \<Rightarrow> 'b list) \<Rightarrow> 'b list \<Rightarrow> ('w, 'e, 'a) io \<Rightarrow> bool" where
  "sends sent full m \<longleftrightarrow>
     (\<forall>w r w'. m w = (r, w') \<longrightarrow>
        (\<exists>new. sent w' = sent w @ new \<and> subseq new full \<and> (\<forall>x. r = Inr x \<longrightarrow> new = full)))"

lemma sendsD:
  assumes "sends sent full m" and "m w = (r, w')"
  obtains new where "sent w' = sent w @ new" "subseq new full" "\<And>x. r = Inr x \<Longrightarrow> new = full"
  using assms unfolding sends_def by blast

named_theorems sending

lemma sends_ret [sending]: "sends sent [] (ret x)"
  by (simp add: sends_def)

lemma sends_throw [sending]: "sends sent full (throw e)"
  by (simp add: sends_def)

lemma sends_andThen [sending]:
  assumes "sends sent as m" and "\<And>x. sends sent bs (k x)"
  shows "sends sent (as @ bs) (andThen m k)"
  unfolding sends_def
proof (intro allI impI)
  fix w r w'
  assume run: "andThen m k w = (r, w')"
  obtain q u where m: "m w = (q, u)" by fastforce
  obtain new where new: "sent u = sent w @ new" "subseq new as" "\<And>x. q = Inr x \<Longrightarrow> new = as"
    using assms(1) m by (rule sendsD) blast
  show "\<exists>new. sent w' = sent w @ new \<and> subseq new (as @ bs) \<and> (\<forall>x. r = Inr x \<longrightarrow> new = as @ bs)"
  proof (cases q)
    case (Inl e)
    with run m new show ?thesis by (auto simp: andThen_def intro: subseq_order.trans)
  next
    case (Inr x)
    with run m have "k x u = (r, w')" by (simp add: andThen_def)
    with assms(2) obtain new' where "sent w' = sent u @ new'" "subseq new' bs" "\<And>y. r = Inr y \<Longrightarrow> new' = bs"
      by (rule sendsD) blast
    with new Inr show ?thesis by (auto intro: list_emb_append_mono)
  qed
qed

lemma sends_quiet:
  assumes "\<And>L. preserves (\<lambda>w. sent w = L) m"
  shows "sends sent [] m"
  using preservesD [OF assms refl] by (fastforce simp: sends_def)

lemma sends_after_quiet [sending]:
  "sends sent [] m \<Longrightarrow> (\<And>x. sends sent bs (k x)) \<Longrightarrow> sends sent bs (andThen m k)"
  using sends_andThen [of sent "[]" m bs k] by simp

lemma sends_nothing: "sends sent [] m \<Longrightarrow> m w = (r, w') \<Longrightarrow> sent w' = sent w"
  by (auto elim: sendsD)

lemma sends_settleAll:
  fixes m :: "'i \<Rightarrow> ('w, 'e, 'a) io"
  assumes "\<And>i. i \<in> set is \<Longrightarrow> sends sent (full i) (m i)"
    and "(settleAll (map m is) :: ('w, 'f, ('e + 'a) list) io) w = (r, w')"
  shows "\<exists>rs new. r = Inr rs \<and> sent w' = sent w @ new \<and> subseq new (concat (map full is))
      \<and> ((\<forall>q \<in> set rs. \<exists>x. q = Inr x) \<longrightarrow> new = concat (map full is))"
  using assms
proof (induction "is" arbitrary: w r w')
  case Nil
  then show ?case by simp
next
  case (Cons i "is")
  obtain q u where one: "m i w = (q, u)" by fastforce
  obtain new where new: "sent u = sent w @ new" "subseq new (full i)" "\<And>x. q = Inr x \<Longrightarrow> new = full i"
    using Cons.prems(1) [of i] one by (auto elim: sendsD)
  obtain r' v where rest: "(settleAll (map m is) :: ('w, 'f, ('e + 'a) list) io) u = (r', v)" by fastforce
  from Cons.IH [OF _ rest] Cons.prems(1) obtain rs new' where
    rs: "r' = Inr rs" "sent v = sent u @ new'" "subseq new' (concat (map full is))"
      "(\<forall>q \<in> set rs. \<exists>x. q = Inr x) \<longrightarrow> new' = concat (map full is)" by auto
  from Cons.prems(2) one rest rs(1) have "r = Inr (q # rs)" "w' = v"
    by (auto simp: andThen_def attempt_def ret_def)
  with new rs show ?case by (auto intro!: exI [of _ "new @ new'"] list_emb_append_mono)
qed

lemma sends_promiseAll [sending]:
  fixes m :: "'i \<Rightarrow> ('w, 'e, 'a) io"
  assumes "\<And>i. i \<in> set is \<Longrightarrow> sends sent (full i) (m i)"
  shows "sends sent (concat (map full is)) (promiseAll (map m is))"
  unfolding sends_def
proof (intro allI impI)
  fix w r w'
  assume run: "promiseAll (map m is) w = (r, w')"
  obtain q u where all: "(settleAll (map m is) :: ('w, 'e, ('e + 'a) list) io) w = (q, u)" by fastforce
  from sends_settleAll [OF assms all] obtain rs new where
    rs: "q = Inr rs" "sent u = sent w @ new" "subseq new (concat (map full is))"
      "(\<forall>q \<in> set rs. \<exists>x. q = Inr x) \<longrightarrow> new = concat (map full is)" by auto
  from run all rs(1) have "(case firstRejection rs of Inl e \<Rightarrow> throw e | Inr xs \<Rightarrow> ret xs) u = (r, w')"
    by (simp add: promiseAll_def andThen_def)
  then have "w' = u" "\<And>x. r = Inr x \<Longrightarrow> firstRejection rs = Inr x" by (auto split: sum.splits)
  with rs show "\<exists>new. sent w' = sent w @ new \<and> subseq new (concat (map full is)) \<and> (\<forall>x. r = Inr x \<longrightarrow> new = concat (map full is))"
    by (auto simp: firstRejection_Inr_iff)
qed

lemma sends_promiseBoth [sending]:
  assumes "sends sent as m" and "sends sent bs n"
  shows "sends sent (as @ bs) (promiseAll [m, n])"
  using sends_promiseAll [of "[True, False]" sent "\<lambda>b. if b then as else bs" "\<lambda>b. if b then m else n"] assms
  by simp

section \<open>A re-entrancy flag\<close>

text \<open>
  Several periodic jobs of the code open with the same lines: if the flag says that an earlier
  run is still going on, log and return; otherwise set the flag, run the body in a
  \<open>try\<close>, and clear the flag in its \<open>finally\<close>. The flag is a boolean field of the
  component, given by its reader and writer.
\<close>

definition guardedRun ::
    "('s \<Rightarrow> bool) \<Rightarrow> (bool \<Rightarrow> 's \<Rightarrow> 's) \<Rightarrow> ('s \<times> 'w, 'e, unit) io \<Rightarrow>
     ('s \<times> 'w, 'e, unit) io \<Rightarrow> ('s \<times> 'w, 'e, unit) io" where
  "guardedRun get set_flag skipped body =
     andThen (getS get) (\<lambda>running.
       if running then skipped
       else andThen (modS (set_flag True)) (\<lambda>_.
              finallyDo body (\<lambda>(s, w). (set_flag False s, w))))"

locale running_flag =
  fixes get :: "'s \<Rightarrow> bool"
    and set_flag :: "bool \<Rightarrow> 's \<Rightarrow> 's"
  assumes get_set [simp]: "get (set_flag b s) = b"
begin

lemma skips_when_running:
  "get s \<Longrightarrow> guardedRun get set_flag skipped body (s, w) = skipped (s, w)"
  by (simp add: guardedRun_def io_defs)

lemma runs_when_idle:
  assumes "\<not> get s" and "body (set_flag True s, w) = (r, (s', w'))"
  shows "guardedRun get set_flag skipped body (s, w) = (r, (set_flag False s', w'))"
  using assms by (simp add: guardedRun_def io_defs)

lemma idle_after_run:
  assumes idle: "\<not> get s" and run: "guardedRun get set_flag skipped body (s, w) = (r, (s', w'))"
  shows "\<not> get s'"
proof -
  obtain q t v where b: "body (set_flag True s, w) = (q, (t, v))"
    by (metis prod.collapse)
  with idle have "guardedRun get set_flag skipped body (s, w) = (q, (set_flag False t, v))"
    by (rule runs_when_idle)
  with run show ?thesis by auto
qed

text \<open>Two runs never overlap: the body only ever starts from a state whose flag was clear.\<close>

lemma body_sees_flag_set:
  assumes "\<not> get s"
  shows "guardedRun get set_flag skipped body (s, w)
       = finallyDo body (\<lambda>(s, w). (set_flag False s, w)) (set_flag True s, w)"
  using assms by (simp add: guardedRun_def io_defs)

end

section \<open>JavaScript strings\<close>

text \<open>
  A string is a list of characters; HOL's characters are the code points below 256, on which
  \<open>toLowerCase\<close> moves A-Z and the Latin-1 capitals.
\<close>

definition js_lower_char :: "char \<Rightarrow> char" where
  "js_lower_char c =
     (let n = (of_char c :: nat)
      in if 65 \<le> n \<and> n \<le> 90 \<or> 192 \<le> n \<and> n \<le> 222 \<and> n \<noteq> 215 then char_of (n + 32) else c)"

definition js_lower :: "string \<Rightarrow> string" where
  "js_lower s = map js_lower_char s"

lemma js_lower_char_idem [simp]: "js_lower_char (js_lower_char c) = js_lower_char c"
proof -
  have "(of_char c :: nat) < 256" by simp
  then show ?thesis
    unfolding js_lower_char_def Let_def by auto
qed

lemma js_lower_idem [simp]: "js_lower (js_lower s) = js_lower s"
  by (simp add: js_lower_def)

lemma js_lower_Nil [simp]: "js_lower [] = []"
  by (simp add: js_lower_def)

lemma js_lower_Cons: "js_lower (c # s) = js_lower_char c # js_lower s"
  by (simp add: js_lower_def)

lemma js_lower_append [simp]: "js_lower (s @ t) = js_lower s @ js_lower t"
  by (simp add: js_lower_def)

lemma js_lower_take: "js_lower (take n s) = take n (js_lower s)"
  by (simp add: js_lower_def take_map)

lemma length_js_lower [simp]: "length (js_lower s) = length s"
  by (simp add: js_lower_def)

text \<open>\<open>hay.includes(needle)\<close>, and \<open>hay.match(/needle/)\<close> for a literal pattern\<close>

fun js_includes :: "string \<Rightarrow> string \<Rightarrow> bool" where
  "js_includes [] needle = (needle = [])"
| "js_includes (c # cs) needle =
     (take (length needle) (c # cs) = needle \<or> js_includes cs needle)"

lemma js_includes_iff: "js_includes hay needle \<longleftrightarrow> (\<exists>pre post. hay = pre @ needle @ post)"
proof (induction hay)
  case Nil
  then show ?case by auto
next
  case (Cons c cs)
  show ?case
  proof
    assume "js_includes (c # cs) needle"
    then consider "take (length needle) (c # cs) = needle" | "js_includes cs needle" by auto
    then show "\<exists>pre post. c # cs = pre @ needle @ post"
    proof cases
      case 1
      then have "c # cs = [] @ needle @ drop (length needle) (c # cs)"
        by (metis append_Nil append_take_drop_id)
      then show ?thesis by blast
    next
      case 2
      with Cons.IH obtain pre post where "cs = pre @ needle @ post" by blast
      then have "c # cs = (c # pre) @ needle @ post" by simp
      then show ?thesis by blast
    qed
  next
    assume "\<exists>pre post. c # cs = pre @ needle @ post"
    then obtain pre post where eq: "c # cs = pre @ needle @ post" by blast
    show "js_includes (c # cs) needle"
    proof (cases pre)
      case Nil
      with eq have "take (length needle) (c # cs) = needle" by simp
      then show ?thesis by simp
    next
      case (Cons d pre')
      with eq have "cs = pre' @ needle @ post" by simp
      with Cons.IH have "js_includes cs needle" by blast
      then show ?thesis by simp
    qed
  qed
qed

text \<open>\<open>s.split(sep)[0]\<close>: what comes before the first occurrence of a non-empty separator\<close>

fun js_before :: "string \<Rightarrow> string \<Rightarrow> string" where
  "js_before sep [] = []"
| "js_before sep (c # cs) =
     (if take (length sep) (c # cs) = sep then [] else c # js_before sep cs)"

lemma js_before_prefix: "\<exists>rest. s = js_before sep s @ rest"
  by (induction s) auto

section \<open>JavaScript's ordered sets\<close>

text \<open>
  A \<open>Set\<close> keeps its elements in the order they were first added, and the code iterates over it:
  it is a list without repetitions.
\<close>

definition set_add :: "'a \<Rightarrow> 'a list \<Rightarrow> 'a list" where
  "set_add x xs = (if x \<in> set xs then xs else xs @ [x])"

definition set_delete :: "'a \<Rightarrow> 'a list \<Rightarrow> 'a list" where
  "set_delete x xs = filter (\<lambda>y. y \<noteq> x) xs"

lemma set_set_add [simp]: "set (set_add x xs) = insert x (set xs)"
  by (auto simp: set_add_def)

lemma set_set_delete [simp]: "set (set_delete x xs) = set xs - {x}"
  by (auto simp: set_delete_def)

lemma distinct_set_add [simp]: "distinct (set_add x xs) = distinct xs"
  by (auto simp: set_add_def)

lemma distinct_set_delete [intro]: "distinct xs \<Longrightarrow> distinct (set_delete x xs)"
  by (simp add: set_delete_def)

section \<open>JavaScript numbers\<close>

text \<open>
  A whole number of the code is an IEEE double: whole numbers up to \<open>2^53\<close> are exact, a larger
  one is rounded to 53 significant bits, ties to even.
\<close>

fun bit_length :: "nat \<Rightarrow> nat" where
  "bit_length n = (if n = 0 then 0 else Suc (bit_length (n div 2)))"

declare bit_length.simps [simp del]

definition js_round_nat :: "nat \<Rightarrow> nat" where
  "js_round_nat n =
     (if n < 2 ^ 53 then n
      else let e = bit_length n - 53; q = n div 2 ^ e; r = n mod 2 ^ e; half = 2 ^ (e - 1)
           in (if r > half \<or> r = half \<and> odd q then q + 1 else q) * 2 ^ e)"

definition js_mul :: "nat \<Rightarrow> nat \<Rightarrow> nat" where
  "js_mul a b = js_round_nat (a * b)"

lemma js_mul_exact: "a * b < 2 ^ 53 \<Longrightarrow> js_mul a b = a * b"
  by (simp add: js_mul_def js_round_nat_def)

text \<open>
  \<open>BigNumber\<close> values are decimals, computed exactly; \<open>toFixed(0)\<close> rounds to a whole number,
  half away from zero.
\<close>

definition toFixed0 :: "rat \<Rightarrow> int" where
  "toFixed0 x = (if 0 \<le> x then \<lfloor>x + 1/2\<rfloor> else - \<lfloor>- x + 1/2\<rfloor>)"

lemma toFixed0_of_int [simp]: "toFixed0 (of_int n) = n"
proof -
  have a: "\<lfloor>of_int n + (1/2 :: rat)\<rfloor> = n" by (simp add: floor_unique)
  have b: "\<lfloor>- of_int n + (1/2 :: rat)\<rfloor> = - n"
    by (rule floor_unique) simp_all
  show ?thesis unfolding toFixed0_def a b by simp
qed

lemma toFixed0_mono: "0 \<le> x \<Longrightarrow> x \<le> y \<Longrightarrow> toFixed0 x \<le> toFixed0 y"
  by (simp add: toFixed0_def floor_mono)

text \<open>The decimal digits of a whole number\<close>

fun show_nat :: "nat \<Rightarrow> string" where
  "show_nat n = (if n < 10 then [char_of (48 + n)] else show_nat (n div 10) @ [char_of (48 + n mod 10)])"

declare show_nat.simps [simp del]

definition show_int :: "int \<Rightarrow> string" where
  "show_int n = (if n < 0 then CHR ''-'' # show_nat (nat (- n)) else show_nat (nat n))"

end
