(* ===== verification/Core_Lib.thy ===== *)
theory Core_Lib
  imports Komenci_Prelude "HOL-Library.AList"
begin

text \<open>
  \<open>packages/libs/core\<close>: the error classes every service throws and returns (\<open>errors.ts\<close>), the
  method identifiers of transaction data (\<open>hex.ts\<close>) and the network configuration
  (\<open>network.config.ts\<close>). The address functions of \<open>@celo/base\<close> are parameters, gathered in a
  record; what their documentation states of them is the predicate \<open>celo_base_documented\<close>.
\<close>

section \<open>Third-party address functions\<close>

record celo_base =
  trimLeading0x :: "string \<Rightarrow> string"
  ensureLeading0x :: "string \<Rightarrow> string"
  normalizeAddress :: "string \<Rightarrow> string"
  normalizeAddressWith0x :: "string \<Rightarrow> string"

definition celo_base_documented :: "celo_base \<Rightarrow> bool" where
  "celo_base_documented cb \<longleftrightarrow>
     (\<forall>s. trimLeading0x cb s = (if take 2 s = ''0x'' then drop 2 s else s)) \<and>
     (\<forall>s. ensureLeading0x cb s = (if take 2 s = ''0x'' then s else ''0x'' @ s)) \<and>
     (\<forall>s. normalizeAddress cb s = js_lower (trimLeading0x cb s)) \<and>
     (\<forall>s. normalizeAddressWith0x cb s = js_lower (ensureLeading0x cb s))"

text \<open>Functions that do what is documented\<close>

definition celo_base_std :: celo_base where
  "celo_base_std =
     (let trim = (\<lambda>s. if take 2 s = ''0x'' then drop 2 s else s);
          ensure = (\<lambda>s. if take 2 s = ''0x'' then s else ''0x'' @ s)
      in \<lparr>trimLeading0x = trim, ensureLeading0x = ensure,
          normalizeAddress = (\<lambda>s. js_lower (trim s)), normalizeAddressWith0x = (\<lambda>s. js_lower (ensure s))\<rparr>)"

lemma celo_base_std_documented: "celo_base_documented celo_base_std"
  by (simp add: celo_base_documented_def celo_base_std_def Let_def)

section \<open>Values carried by errors and log records\<close>

text \<open>JSON-like values: what an error keeps in its fields and a log record in its payload\<close>

datatype js_value =
    JUndefined
  | JNull
  | JBool bool
  | JNum rat
  | JStr string
  | JArr "js_value list"
  | JObj "(string \<times> js_value) list"

section \<open>Error classes (errors.ts)\<close>

text \<open>
  \<open>RootError\<close> carries an \<open>errorType\<close>; \<open>MetadataError\<close> and \<open>ApiError\<close> mark themselves with a
  symbol and name the fields that are their metadata; an \<open>ApiError\<close> has an HTTP status. A plain
  \<open>Error\<close> has a message only, and any other value may be thrown.
\<close>

datatype error_class = PlainError | RootError | MetadataError | ApiError int

record error_object =
  errorClass :: error_class
  errorType :: "string option"
  message :: string
  metadataProps :: "string list"
  ownProps :: "(string \<times> js_value) list"

datatype thrown = ErrorObject error_object | NonError js_value

definition getMetadata :: "error_object \<Rightarrow> (string \<times> js_value) list" where
  "getMetadata e =
     fold (\<lambda>key metadata.
             case map_of (ownProps e) key of
               Some v \<Rightarrow> AList.update key v metadata
             | None \<Rightarrow> metadata)
       (metadataProps e) []"

definition toJSON :: "error_object \<Rightarrow> (string \<times> js_value) list" where
  "toJSON e =
     [(''statusCode'', JNum (case errorClass e of ApiError code \<Rightarrow> of_int code | _ \<Rightarrow> 0)),
      (''errorType'', (case errorType e of Some t \<Rightarrow> JStr t | None \<Rightarrow> JUndefined)),
      (''message'', JStr (message e))] @
     (if metadataProps e \<noteq> [] then [(''metadata'', JObj (getMetadata e))] else [])"

fun isRootError :: "thrown \<Rightarrow> bool" where
  "isRootError (ErrorObject e) = (errorType e \<noteq> None)"
| "isRootError (NonError (JObj kvs)) = (map_of kvs ''errorType'' \<notin> {None, Some JUndefined})"
| "isRootError (NonError _) = False"

fun isMetadataError :: "thrown \<Rightarrow> bool" where
  "isMetadataError (ErrorObject e) = (errorClass e = MetadataError)"
| "isMetadataError (NonError _) = False"

fun isApiError :: "thrown \<Rightarrow> bool" where
  "isApiError (ErrorObject e) = (case errorClass e of ApiError _ \<Rightarrow> True | _ \<Rightarrow> False)"
| "isApiError (NonError _) = False"

lemma error_classes_disjoint: "isApiError t \<Longrightarrow> \<not> isMetadataError t"
  by (cases t) (auto split: error_class.splits)

lemma fold_metadata:
  "map_of (fold (\<lambda>key metadata. case map_of fs key of
               Some v \<Rightarrow> AList.update key v metadata | None \<Rightarrow> metadata) ks acc) k
   = (if k \<in> set ks \<and> map_of fs k \<noteq> None then map_of fs k else map_of acc k)"
  by (induction ks arbitrary: acc) (auto simp: update_conv' split: option.split)

text \<open>The metadata of an error are exactly its own properties named in \<open>metadataProps\<close>.\<close>

lemma map_of_getMetadata:
  "map_of (getMetadata e) k = (if k \<in> set (metadataProps e) then map_of (ownProps e) k else None)"
  by (simp add: getMetadata_def fold_metadata)

text \<open>Error objects of the usual shapes\<close>

definition plain_error :: "string \<Rightarrow> error_object" where
  "plain_error msg = \<lparr>errorClass = PlainError, errorType = None, message = msg,
     metadataProps = [], ownProps = []\<rparr>"

definition root_error :: "string \<Rightarrow> string \<Rightarrow> error_object" where
  "root_error typ msg = \<lparr>errorClass = RootError, errorType = Some typ, message = msg,
     metadataProps = [], ownProps = []\<rparr>"

definition metadata_error ::
    "string \<Rightarrow> string \<Rightarrow> (string \<times> js_value) list \<Rightarrow> error_object" where
  "metadata_error typ msg fs = \<lparr>errorClass = MetadataError, errorType = Some typ, message = msg,
     metadataProps = map fst fs, ownProps = fs\<rparr>"

definition api_error ::
    "int \<Rightarrow> string \<Rightarrow> string \<Rightarrow> (string \<times> js_value) list \<Rightarrow> error_object" where
  "api_error code typ msg fs = \<lparr>errorClass = ApiError code, errorType = Some typ, message = msg,
     metadataProps = map fst fs, ownProps = fs\<rparr>"

text \<open>A \<open>TypeError\<close> of the language: a property of \<open>undefined\<close> or \<open>null\<close> was read.\<close>

definition typeError :: "string \<Rightarrow> thrown" where
  "typeError msg = ErrorObject (plain_error msg)"

text \<open>
  The message of what was caught, when it is a string: \<open>e.message.match\<close> throws a \<open>TypeError\<close> for
  anything else.
\<close>

definition thrown_message :: "thrown \<Rightarrow> string option" where
  "thrown_message t =
     (case t of
        ErrorObject e \<Rightarrow> Some (message e)
      | NonError (JObj kvs) \<Rightarrow> (case map_of kvs ''message'' of Some (JStr m) \<Rightarrow> Some m | _ \<Rightarrow> None)
      | NonError _ \<Rightarrow> None)"

text \<open>\<open>`${err.message}`\<close>\<close>

definition message_text :: "thrown \<Rightarrow> string" where
  "message_text t = (case thrown_message t of Some m \<Rightarrow> m | None \<Rightarrow> ''undefined'')"

text \<open>\<open>throwIfError\<close> for errors that are classes of their own\<close>

definition throwErr :: "('e \<Rightarrow> error_object) \<Rightarrow> ('e, 'a) result \<Rightarrow> ('w, thrown, 'a) io" where
  "throwErr obj r = (case r of Err e \<Rightarrow> throw (ErrorObject (obj e)) | Ok x \<Rightarrow> ret x)"

lemmas error_shapes = plain_error_def root_error_def metadata_error_def api_error_def

section \<open>Raw transactions\<close>

text \<open>\<open>RawTransactionDto\<close> (and contractkit's \<open>RawTransaction\<close>): destination, value and data\<close>

record raw_transaction =
  destination :: string
  txValue :: string
  data :: string

definition raw_to_value :: "raw_transaction \<Rightarrow> js_value" where
  "raw_to_value tx = JObj [(''destination'', JStr (destination tx)),
     (''value'', JStr (txValue tx)), (''data'', JStr (data tx))]"

section \<open>Method identifiers (hex.ts)\<close>

definition extractMethodId :: "celo_base \<Rightarrow> string \<Rightarrow> string" where
  "extractMethodId cb calldata = js_lower (take 8 (trimLeading0x cb calldata))"

definition normalizeMethodId :: "celo_base \<Rightarrow> string \<Rightarrow> string" where
  "normalizeMethodId cb methodId = js_lower (trimLeading0x cb methodId)"

lemma length_extractMethodId: "length (extractMethodId cb d) \<le> 8"
  by (simp add: extractMethodId_def)

lemma js_lower_extractMethodId [simp]: "js_lower (extractMethodId cb d) = extractMethodId cb d"
  by (simp add: extractMethodId_def)

lemma js_lower_normalizeMethodId [simp]:
  "js_lower (normalizeMethodId cb m) = normalizeMethodId cb m"
  by (simp add: normalizeMethodId_def)

section \<open>Network configuration (network.config.ts)\<close>

datatype network = alfajores | alfajoresstaging | baklava | baklavastaging | rc1

record relayer_accounts =
  relayerAccount :: string
  relayerWallet :: string

record network_config =
  relayers :: "relayer_accounts list"
  MetaTransactionWalletDeployer :: string
  MetaTransactionWalletVersions :: "(string \<times> string) list"
  fornoURL :: string
  odisPublicKey :: string
  odisUrl :: string

fun configs :: "network \<Rightarrow> network_config" where
  "configs alfajores =
     \<lparr>relayers =
       [relayer_accounts.make ''0xa7d74cb4fca9458757cfc8b90d9b38a126f68b47''
          ''0xcb361f5852eefdd5ddfc593924405c86c79840b2'',
        relayer_accounts.make ''0x00454cac6dae53f8800f71395b9a174f07a784b1''
          ''0x56ccb8e62b2a751df7c0298281845df155ba8539'',
        relayer_accounts.make ''0xc6f0f9bfb1aed83620ece3eac0add98a65a8574e''
          ''0xdd648cae0302acd1da9114518b8f52732a10e47c'',
        relayer_accounts.make ''0x0f812be74511b90ea6b2f80e77bea047e69a0b2a''
          ''0x41f7cDa0367A6C3739dA2958681FF90f7E499b06'',
        relayer_accounts.make ''0xb354d3d2908ba6a2b791683b0f454a38f69cb282''
          ''0xE329d3103EF8D8f3D376Ab9A86De3e51b5439f40'',
        relayer_accounts.make ''0xd7fc8227642bfab9aa927066e5952fece574f0d6''
          ''0x3363D06380d92b60AcFc1429A67B9c5dF1A0cb9d'',
        relayer_accounts.make ''0xbb5932e6b6a588cd1c6764f50d1fe410e6a2d71e''
          ''0xe3CA53b083D2bDb539282810B25472BFbcB51EBA'',
        relayer_accounts.make ''0xc934bff63a0db800acdf7061eb5cc03211e7bccf''
          ''0x54faF22d680E1255587aAb48BF00cdae82b61cC4'',
        relayer_accounts.make ''0x409832bd2d72017f12cfaa3d6dc0103767bb7e7e''
          ''0x8b3013F2A2CD2661a5083b839443aaeA0f4604B8'',
        relayer_accounts.make ''0x75222b1aed66393fa43c6454000e097363d85c73''
          ''0x7e9C6a7D24aE1260F0993b5BAe09f715d7B196AE'',
        relayer_accounts.make ''0xefbc10d42f77c778431043bd3a34b283f90f3979''
          ''0x49dd16cF30cF8BED55ef29917E93EfA871983028'',
        relayer_accounts.make ''0x70b69157973cd31dae5dc68ee1891b9eae379c42''
          ''0x122FdAc181afF98De634cd8686975Ae9A070924e'',
        relayer_accounts.make ''0x04a444af9a79b6784bcd57c50ba1e051ba536ed4''
          ''0x7D6655c13AAE83329A3507d9F4Ca7Ca4A9eCF2ca'',
        relayer_accounts.make ''0xb04390478A57E3C2147599D5380434f25fa5234d''
          ''0x4D9a25EC8A9E80295262d49f85B3D35D6b8dc823''],
      MetaTransactionWalletDeployer = ''0x4cda887Bce324109535814D49b74c6a560fAe1D9'',
      MetaTransactionWalletVersions =
       [(''0x88a2b9B8387A1823D821E406b4e951337fa1D46D'', ''1.1.0.0-p1''),
        (''0x786ec5A4F8DCad3A58D5B1A04cc99B019E426065'', ''1.1.0.0-p2''),
        (''0x5C9a6E3c3E862eD306E2E3348EBC8b8310A99e5A'', ''1.1.0.0-p3'')],
      fornoURL = ''https://alfajores-forno.celo-testnet.org'',
      odisPublicKey =
        ''kPoRxWdEdZ/Nd3uQnp3FJFs54zuiS+ksqvOm9x8vY6KHPG8jrfqysvIRU0wtqYsBKA7SoAsICMBv8C/Fb2ZpDOqhSqvr/sZbZoHmQfvbqrzbtDIPvUIrHgRS0ydJCMsA'',
      odisUrl = ''https://us-central1-celo-phone-number-privacy.cloudfunctions.net''\<rparr>"
| "configs alfajoresstaging =
     \<lparr>relayers =
       [],
      MetaTransactionWalletDeployer = ''0x5ee40856c2a73e08B645044B6B8466310640DA9E'',
      MetaTransactionWalletVersions =
       [(''0x786ec5A4F8DCad3A58D5B1A04cc99B019E426065'', ''1.0.0'')],
      fornoURL = ''https://alfajoresstaging-forno.celo-testnet.org'',
      odisPublicKey =
        ''7FsWGsFnmVvRfMDpzz95Np76wf/1sPaK0Og9yiB+P8QbjiC8FV67NBans9hzZEkBaQMhiapzgMR6CkZIZPvgwQboAxl65JWRZecGe5V3XO4sdKeNemdAZ2TzQuWkuZoA'',
      odisUrl = ''https://us-central1-celo-phone-number-privacy-stg.cloudfunctions.net''\<rparr>"
| "configs baklava =
     \<lparr>relayers =
       [],
      MetaTransactionWalletDeployer = ''0x0'',
      MetaTransactionWalletVersions =
       [(''0x0'', ''1.0.0'')],
      fornoURL = ''https://baklava-forno.celo-testnet.org'',
      odisPublicKey =
        [],
      odisUrl = []\<rparr>"
| "configs baklavastaging =
     \<lparr>relayers =
       [],
      MetaTransactionWalletDeployer = ''0x0'',
      MetaTransactionWalletVersions =
       [(''0x0'', ''1.0.0'')],
      fornoURL = ''https://baklavastaging-forno.celo-testnet.org'',
      odisPublicKey =
        [],
      odisUrl = []\<rparr>"
| "configs rc1 =
     \<lparr>relayers =
       [relayer_accounts.make ''0x21888ae301658cdff7ce8c33cdf83a330a5e6273''
          ''0xD787384d91a7fFaC85d51C63EF71580df6C677B7'',
        relayer_accounts.make ''0x1438128a2dcc645f0b9706350c1f5dad04845fe6''
          ''0xC90CC3A0D10aA1F827fAD4eC39DfE2Aa78cF07bB'',
        relayer_accounts.make ''0x1e36bf42272a0693eba69332a6f623ce37694a27''
          ''0x582C91AD7bdAE0c48739d0eb5A753Ed715e649C8'',
        relayer_accounts.make ''0xd5afaaa7256c9eb86376c4214635dd56dffbd3a8''
          ''0x7885c25834aAA32B86be10BF3C6ed766a1f3D79A'',
        relayer_accounts.make ''0xb09eba8bc1c8bedadd634a8219c0b09042170903''
          ''0x63e1fcB88713aAEA8bD88Fc968c12403AB3F796F'',
        relayer_accounts.make ''0x85a1e716608a84f455d7e07befb76c9b540ac040''
          ''0xf4453DF9C6fa1b0C00462D901C68cFb5517CBD84'',
        relayer_accounts.make ''0x2a094e77acf3faebb63279eb60e26d144b9048a2''
          ''0xA555a7561B9440AE118B0a3153B4d4bDFA1cF5C7'',
        relayer_accounts.make ''0x2f23f9a8f68294a9d6b479c3dbe3dff4de510ced''
          ''0x3d8730341E2eD43B4b5A10252E3A90f1DCDe555f'',
        relayer_accounts.make ''0x3db3150c1267d3adeb7f960f3eef11c1dd47a38b''
          ''0x7941A0096e98303072E4D39E54517a348D89A00a'',
        relayer_accounts.make ''0xe170915ce32bb8e2ce2a4fcd9113e5298a2e10d2''
          ''0x51FA7e8FE48a2968aC08Ef72374137Fd3a9Fda76'',
        relayer_accounts.make ''0x198e0D8601AB509ABf1B0B99Fd8f234583Ef1309''
          ''0x95E381523ab6B566e20D56870cB9f00864F04220'',
        relayer_accounts.make ''0xbDD68B64e288171B37F01346042BEe6Eb7dFAE4f''
          ''0xF696152400FC3BFC96a793263c0B0b91E7153EC1''],
      MetaTransactionWalletDeployer = ''0xbDb92Ca42559adc5adC20a1E4985dC7c476483be'',
      MetaTransactionWalletVersions =
       [(''0x63004Acf0Ace666651E191ad17BC8D85077A09e6'', ''1.1.0.0-p1''),
        (''0x6511FB5DBfe95859d8759AdAd5503D656E2555d7'', ''1.1.0.0-p2'')],
      fornoURL = ''https://forno.celo.org'',
      odisPublicKey =
        ''FvreHfLmhBjwxHxsxeyrcOLtSonC9j7K3WrS4QapYsQH6LdaDTaNGmnlQMfFY04Bp/K4wAvqQwO9/bqPVCKf8Ze8OZo8Frmog4JY4xAiwrsqOXxug11+htjEe1pj4uMA'',
      odisUrl = ''https://us-central1-celo-pgpnp-mainnet.cloudfunctions.net''\<rparr>"

text \<open>
  \<open>Network[process.env.NETWORK]\<close> looks the variable up as a key of the enum, whose keys are the
  values; an unknown or absent name gives \<open>undefined\<close> and the factory throws.
\<close>

fun network_of_env :: "string option \<Rightarrow> network option" where
  "network_of_env None = None"
| "network_of_env (Some s) =
     map_of [(''alfajores'', alfajores), (''alfajoresstaging'', alfajoresstaging),
             (''baklava'', baklava), (''baklavastaging'', baklavastaging), (''rc1'', rc1)] s"

definition networkConfig :: "string option \<Rightarrow> error_object + network_config" where
  "networkConfig env_network =
     (case network_of_env env_network of
        None \<Rightarrow> Inl (plain_error (''Unknown network: '' @
                  (case env_network of None \<Rightarrow> ''undefined'' | Some s \<Rightarrow> s)))
      | Some n \<Rightarrow> Inr (configs n))"

end
