(* ===== verification/Retry.thy ===== *)
theory Retry
  imports Core_Lib
begin

text \<open>
  The \<open>@retry\<close> decorator of \<open>packages/libs/komencikit/src/retry.ts\<close>, which the kit, its client, the
  relayer's transaction service and its ODIS service put on their methods. The loop of the source
  is \<open>while (true)\<close>: it is modelled as a partial function (\<open>retry_loop\<close>, where \<open>None\<close> is a
  call that never returns) and, for the options the code uses, as the total function \<open>retried\<close>.
\<close>

section \<open>Options\<close>

text \<open>
  \<open>RetryOptions\<close>; the decorated call's arguments, which \<open>onRetry\<close> also receives, are fixed in the
  closures. \<open>'t\<close> is the type of \<open>errorType\<close>.
\<close>

record ('w, 'x, 'e, 't) retry_options =
  tries :: int
  bailOnErrorTypes :: "'t list option"
  shouldRetry :: "('e \<Rightarrow> bool) option"
  onRetry :: "('e \<Rightarrow> int \<Rightarrow> ('w, 'x, unit) io) option"

definition callOnRetry ::
    "('w, 'x, 'e, 't) retry_options \<Rightarrow> 'e \<Rightarrow> int \<Rightarrow> ('w, 'x, unit) io" where
  "callOnRetry opts e k = (case onRetry opts of None \<Rightarrow> ret () | Some f \<Rightarrow> f e k)"

text \<open>The three reasons, tested in this order, to give up after a failed attempt\<close>

definition givesUp :: "('w, 'x, 'e, 't) retry_options \<Rightarrow> ('e \<Rightarrow> 't) \<Rightarrow> 'e \<Rightarrow> int \<Rightarrow> bool" where
  "givesUp opts etype e k \<longleftrightarrow>
     k = tries opts \<or>
     (case bailOnErrorTypes opts of None \<Rightarrow> False | Some ts \<Rightarrow> etype e \<in> set ts) \<or>
     (case shouldRetry opts of None \<Rightarrow> False | Some p \<Rightarrow> \<not> p e)"

section \<open>The loop\<close>

partial_function (option) retry_loop ::
    "('w, 'x, 'e, 't) retry_options \<Rightarrow> ('e \<Rightarrow> 't) \<Rightarrow> ('w, 'x, ('e, 'a) result) io \<Rightarrow>
     int \<Rightarrow> 'w \<Rightarrow> (('x + ('e, 'a) result) \<times> 'w) option" where
  "retry_loop opts etype actual k w =
     (case actual w of
        (Inl x, w1) \<Rightarrow> Some (Inl x, w1)
      | (Inr (Ok v), w1) \<Rightarrow> Some (Inr (Ok v), w1)
      | (Inr (Err e), w1) \<Rightarrow>
          (case callOnRetry opts e k w1 of
             (Inl x, w2) \<Rightarrow> Some (Inl x, w2)
           | (Inr u, w2) \<Rightarrow>
               if givesUp opts etype e k then Some (Inr (Err e), w2)
               else retry_loop opts etype actual (k + 1) w2))"

text \<open>
  The same loop with the number of attempts that remain after this one, for options with at
  least one try.
\<close>

fun retry_rest ::
    "('w, 'x, 'e, 't) retry_options \<Rightarrow> ('e \<Rightarrow> 't) \<Rightarrow> ('w, 'x, ('e, 'a) result) io \<Rightarrow>
     nat \<Rightarrow> int \<Rightarrow> ('w, 'x, ('e, 'a) result) io" where
  "retry_rest opts etype actual rest k =
     andThen actual (\<lambda>res.
       case res of
         Ok v \<Rightarrow> ret (Ok v)
       | Err e \<Rightarrow> andThen (callOnRetry opts e k) (\<lambda>_.
           if givesUp opts etype e k then ret (Err e)
           else (case rest of
                   0 \<Rightarrow> ret (Err e)
                 | Suc rest' \<Rightarrow> retry_rest opts etype actual rest' (k + 1))))"

declare retry_rest.simps [simp del]

definition retried ::
    "('w, 'x, 'e, 't) retry_options \<Rightarrow> ('e \<Rightarrow> 't) \<Rightarrow> ('w, 'x, ('e, 'a) result) io \<Rightarrow>
     ('w, 'x, ('e, 'a) result) io" where
  "retried opts etype actual = retry_rest opts etype actual (nat (tries opts - 1)) 1"

text \<open>
  What the decorator itself checks: it throws when it receives no descriptor or a descriptor
  without a method.
\<close>

definition retry ::
    "('w, 'x, 'e, 't) retry_options \<Rightarrow> ('e \<Rightarrow> 't) \<Rightarrow> ('w, 'x, ('e, 'a) result) io option option \<Rightarrow>
     error_object + ('w \<Rightarrow> (('x + ('e, 'a) result) \<times> 'w) option)" where
  "retry opts etype descriptor =
     (case descriptor of
        None \<Rightarrow> Inl (plain_error
          ''@retry did not receive a descriptor - this should never happen'')
      | Some None \<Rightarrow> Inl (plain_error ''@retry used on an method which is undefined'')
      | Some (Some actual) \<Rightarrow> Inr (retry_loop opts etype actual 1))"

section \<open>The loop returns, and is the total function\<close>

lemma givesUp_last: "k = tries opts \<Longrightarrow> givesUp opts etype e k"
  by (simp add: givesUp_def)

lemma retry_loop_rest:
  "k \<le> tries opts \<Longrightarrow> rest = nat (tries opts - k) \<Longrightarrow>
   retry_loop opts etype actual k w = Some (retry_rest opts etype actual rest k w)"
proof (induction rest arbitrary: k w)
  case 0
  then have k: "k = tries opts" by simp
  show ?case
    by (subst retry_loop.simps, subst retry_rest.simps)
      (auto simp: andThen_def ret_app givesUp_last [OF k] split: prod.splits sum.splits result.splits)
next
  case (Suc rest)
  then have "k + 1 \<le> tries opts" "rest = nat (tries opts - (k + 1))" by auto
  then have IH: "retry_loop opts etype actual (k + 1) u = Some (retry_rest opts etype actual rest (k + 1) u)"
    for u by (rule Suc.IH)
  show ?case
    by (subst retry_loop.simps, subst retry_rest.simps)
      (auto simp: andThen_def ret_app IH split: prod.splits sum.splits result.splits)
qed

lemma retry_loop_retried:
  "1 \<le> tries opts \<Longrightarrow> retry_loop opts etype actual 1 w = Some (retried opts etype actual w)"
  unfolding retried_def by (rule retry_loop_rest) simp_all

text \<open>
  With no try allowed the test \<open>tries === options.tries\<close> is never met: a method that always fails
  with an error that is not in the bail list is called for ever.
\<close>

definition always_fails ::
    "('w, 'x, 'e, 't) retry_options \<Rightarrow> ('e \<Rightarrow> 't) \<Rightarrow> ('w, 'x, ('e, 'a) result) io \<Rightarrow> bool" where
  "always_fails opts etype actual \<longleftrightarrow>
     (\<forall>e k. callOnRetry opts e k = ret ()) \<and>
     (\<forall>w. \<exists>e w1. actual w = (Inr (Err e), w1) \<and>
        (\<forall>k. givesUp opts etype e k \<longrightarrow> k = tries opts))"

lemma retry_loop_diverges_aux:
  fixes opts :: "('w, 'x, 'e, 't) retry_options" and actual :: "('w, 'x, ('e, 'a) result) io"
  assumes returns: "retry_loop opts etype actual k w = Some r"
  shows "always_fails opts etype actual \<longrightarrow> \<not> tries opts < k"
proof (rule retry_loop.raw_induct
    [where P = "\<lambda>opts etype actual k w r. always_fails opts etype actual \<longrightarrow> \<not> tries opts < k",
     OF _ returns])
  fix f :: "('w, 'x, 'e, 't) retry_options \<Rightarrow> ('e \<Rightarrow> 't) \<Rightarrow> ('w, 'x, ('e, 'a) result) io \<Rightarrow>
     int \<Rightarrow> 'w \<Rightarrow> (('x + ('e, 'a) result) \<times> 'w) option"
  fix opts :: "('w, 'x, 'e, 't) retry_options" and etype
    and actual :: "('w, 'x, ('e, 'a) result) io" and k w r
  assume IH: "\<And>opts etype actual k w r. f opts etype actual k w = Some r \<Longrightarrow>
      always_fails opts etype actual \<longrightarrow> \<not> tries opts < k"
    and eq: "(case actual w of
        (Inl x, w1) \<Rightarrow> Some (Inl x, w1)
      | (Inr (Ok v), w1) \<Rightarrow> Some (Inr (Ok v), w1)
      | (Inr (Err e), w1) \<Rightarrow>
          (case callOnRetry opts e k w1 of
             (Inl x, w2) \<Rightarrow> Some (Inl x, w2)
           | (Inr u, w2) \<Rightarrow>
               if givesUp opts etype e k then Some (Inr (Err e), w2)
               else f opts etype actual (k + 1) w2)) = Some r"
  show "always_fails opts etype actual \<longrightarrow> \<not> tries opts < k"
  proof (intro impI notI)
    assume af: "always_fails opts etype actual" and k: "tries opts < k"
    then obtain e w1 where w1: "actual w = (Inr (Err e), w1)"
      and g: "\<not> givesUp opts etype e k" and quiet: "callOnRetry opts e k = ret ()"
      unfolding always_fails_def by (metis less_irrefl)
    from eq have "f opts etype actual (k + 1) w1 = Some r"
      by (simp add: w1 g quiet ret_app)
    with af have "\<not> tries opts < k + 1" using IH by blast
    with k show False by simp
  qed
qed

lemma retry_loop_diverges:
  assumes "always_fails opts etype actual" and "tries opts < k"
  shows "retry_loop opts etype actual k w = None"
  using retry_loop_diverges_aux [of opts etype actual k w] assms by (cases "retry_loop opts etype actual k w") auto

section \<open>Attempts\<close>

text \<open>
  A method whose outcomes are known in advance: its \<open>n\<close>-th call, made in the state \<open>st n\<close>, gives
  \<open>outcome n\<close> and leaves the state \<open>st (n + 1)\<close>. What \<open>retried\<close> returns and how often it called
  follow from the outcomes alone: it stops at the first outcome that is a success or at which
  it gives up.
\<close>

definition scripted ::
    "(nat \<Rightarrow> 'w) \<Rightarrow> (nat \<Rightarrow> ('e, 'a) result) \<Rightarrow> ('w, 'x, ('e, 'a) result) io \<Rightarrow> bool" where
  "scripted st outcome actual \<longleftrightarrow> (\<forall>n. actual (st n) = (Inr (outcome n), st (Suc n)))"

definition stops ::
    "('w, 'x, 'e, 't) retry_options \<Rightarrow> ('e \<Rightarrow> 't) \<Rightarrow> ('e, 'a) result \<Rightarrow> int \<Rightarrow> bool" where
  "stops opts etype r k = (case r of Ok v \<Rightarrow> True | Err e \<Rightarrow> givesUp opts etype e k)"

lemma retry_rest_scripted:
  assumes script: "scripted st outcome actual" and quiet: "\<And>e k. callOnRetry opts e k = ret ()"
    and "rest = nat (tries opts - k)" and "k \<le> tries opts"
  shows "\<exists>j \<le> rest. retry_rest opts etype actual rest k (st n) = (Inr (outcome (n + j)), st (Suc (n + j)))
           \<and> stops opts etype (outcome (n + j)) (k + int j)
           \<and> (\<forall>i < j. \<not> stops opts etype (outcome (n + i)) (k + int i))"
  using assms(3,4)
proof (induction rest arbitrary: k n)
  case 0
  then have "k = tries opts" by simp
  then show ?case using script
    by (subst retry_rest.simps)
      (auto simp: andThen_def scripted_def quiet stops_def givesUp_last ret_app split: result.split)
next
  case (Suc rest)
  have once: "actual (st n) = (Inr (outcome n), st (Suc n))"
    using script by (simp add: scripted_def)
  show ?case
  proof (cases "stops opts etype (outcome n) k")
    case True
    then show ?thesis
      by (subst retry_rest.simps)
        (auto simp: andThen_def once quiet stops_def ret_app split: result.splits
           intro!: exI [of _ 0])
  next
    case False
    then obtain e where e: "outcome n = Err e" "\<not> givesUp opts etype e k"
      by (auto simp: stops_def split: result.splits)
    from Suc.prems have "rest = nat (tries opts - (k + 1))" "k + 1 \<le> tries opts" by auto
    from Suc.IH [OF this, of "Suc n"] obtain j where
      j: "j \<le> rest"
         "retry_rest opts etype actual rest (k + 1) (st (Suc n)) = (Inr (outcome (Suc n + j)), st (Suc (Suc n + j)))"
         "stops opts etype (outcome (Suc n + j)) (k + 1 + int j)"
         "\<forall>i < j. \<not> stops opts etype (outcome (Suc n + i)) (k + 1 + int i)" by blast
    have step: "retry_rest opts etype actual (Suc rest) k (st n)
              = retry_rest opts etype actual rest (k + 1) (st (Suc n))"
      by (subst retry_rest.simps) (simp add: andThen_def once quiet e ret_app)
    have "\<forall>i < Suc j. \<not> stops opts etype (outcome (n + i)) (k + int i)"
    proof (intro allI impI)
      fix i assume "i < Suc j"
      then show "\<not> stops opts etype (outcome (n + i)) (k + int i)"
        using False j(4) by (cases i) (auto simp: algebra_simps)
    qed
    with step j(1-3) show ?thesis
      by (intro exI [of _ "Suc j"]) (auto simp: algebra_simps)
  qed
qed

lemma retried_scripted:
  assumes "scripted st outcome actual" and "\<And>e k. callOnRetry opts e k = ret ()"
    and "1 \<le> tries opts"
  obtains j where "int j < tries opts"
    and "retried opts etype actual (st n) = (Inr (outcome (n + j)), st (Suc (n + j)))"
    and "stops opts etype (outcome (n + j)) (1 + int j)"
    and "\<forall>i < j. \<not> stops opts etype (outcome (n + i)) (1 + int i)"
proof -
  from retry_rest_scripted [OF assms(1,2) refl assms(3), of etype n]
  obtain j where "j \<le> nat (tries opts - 1)"
    "retry_rest opts etype actual (nat (tries opts - 1)) 1 (st n) = (Inr (outcome (n + j)), st (Suc (n + j)))"
    "stops opts etype (outcome (n + j)) (1 + int j)"
    "\<forall>i < j. \<not> stops opts etype (outcome (n + i)) (1 + int i)" by blast
  with assms(3) show thesis by (intro that [of j]) (auto simp: retried_def)
qed

section \<open>The contract of a method that only returns results\<close>

text \<open>
  Most decorated methods catch what they call and report a failure as an \<open>Err\<close>: they never
  reject. Callers rely on it, and a retried method keeps it.
\<close>

locale result_method =
  fixes meth :: "'i \<Rightarrow> ('w, 'x, ('e, 'a) result) io"
  assumes no_reject: "never_throws (meth i)"
begin

lemma outcome_cases:
  obtains (ok) v w' where "meth i w = (Inr (Ok v), w')"
        | (err) e w' where "meth i w = (Inr (Err e), w')"
proof -
  obtain r w' where "meth i w = (Inr r, w')" using no_reject by (rule never_throwsE)
  with that show thesis by (cases r) auto
qed

end

locale retried_method = result_method meth for meth :: "'i \<Rightarrow> ('w, 'x, ('e, 'a) result) io" +
  fixes opts :: "('w, 'x, 'e, 't) retry_options"
    and etype :: "'e \<Rightarrow> 't"
  assumes some_try: "1 \<le> tries opts"
    and quiet: "\<And>e k. never_throws (callOnRetry opts e k)"
begin

lemma retry_rest_no_reject: "never_throws (retry_rest opts etype (meth i) rest k)"
proof (induction rest arbitrary: k)
  case 0
  show ?case
    by (subst retry_rest.simps)
      (auto intro!: no_throw no_reject quiet split: result.split)
next
  case (Suc rest)
  then show ?case
    by (subst retry_rest.simps)
      (auto intro!: no_throw no_reject quiet split: result.split)
qed

lemma retried_no_reject: "never_throws (retried opts etype (meth i))"
  unfolding retried_def by (rule retry_rest_no_reject)

lemma loop_returns: "\<exists>r w'. retry_loop opts etype (meth i) 1 w = Some (Inr r, w')"
proof -
  obtain r w' where "retried opts etype (meth i) w = (Inr r, w')"
    using retried_no_reject by (rule never_throwsE)
  with some_try show ?thesis by (simp add: retry_loop_retried)
qed

end

sublocale retried_method \<subseteq> decorated: result_method "\<lambda>i. retried opts etype (meth i)"
  by unfold_locales (rule retried_no_reject)

lemma preserves_retry_rest [keeps]:
  assumes "preserves P actual" and "\<And>e k. preserves P (callOnRetry opts e k)"
  shows "preserves P (retry_rest opts etype actual rest k)"
proof (induction rest arbitrary: k)
  case 0
  show ?case by (subst retry_rest.simps) (auto intro!: keeps assms split: result.split)
next
  case (Suc rest)
  then show ?case by (subst retry_rest.simps) (auto intro!: keeps assms split: result.split)
qed

lemma preserves_retried [keeps]:
  "preserves P actual \<Longrightarrow> (\<And>e k. preserves P (callOnRetry opts e k)) \<Longrightarrow>
   preserves P (retried opts etype actual)"
  unfolding retried_def by (rule preserves_retry_rest)

text \<open>
  The value a retried method returns is the value of one of its attempts, made in a state that
  satisfies whatever the attempts preserve.
\<close>

lemma retry_rest_from_attempt:
  assumes P: "preserves P actual" "\<And>e k. preserves P (callOnRetry opts e k)"
  shows "retry_rest opts etype actual rest k w = (Inr (Ok v), w') \<Longrightarrow> P w \<Longrightarrow>
    \<exists>u. P u \<and> actual u = (Inr (Ok v), w')"
proof (induction rest arbitrary: k w)
  case 0
  from 0(1) obtain r w1 where "actual w = (Inr r, w1)"
    by (subst (asm) retry_rest.simps) (auto simp: andThen_eq_Inr)
  with 0 show ?case
    by (subst (asm) retry_rest.simps)
      (cases r; auto simp: andThen_def split: prod.splits sum.splits if_splits)
next
  case (Suc rest)
  from Suc.prems(1) obtain r w1 where r: "actual w = (Inr r, w1)"
    by (subst (asm) retry_rest.simps) (auto simp: andThen_eq_Inr)
  show ?case
  proof (cases r)
    case (Ok x)
    with r Suc.prems show ?thesis
      by (subst (asm) (1) retry_rest.simps) (auto simp: andThen_def)
  next
    case (Err e)
    with r Suc.prems(1) obtain w2 where w2: "callOnRetry opts e k w1 = (Inr (), w2)"
      "retry_rest opts etype actual rest (k + 1) w2 = (Inr (Ok v), w')"
      by (subst (asm) retry_rest.simps)
        (auto simp: andThen_def split: prod.splits sum.splits if_splits)
    have "P w2"
      using P(1) Suc.prems(2) r P(2) w2(1) by (blast dest: preservesD)
    with w2(2) show ?thesis by (rule Suc.IH)
  qed
qed

lemma retried_from_attempt:
  "retried opts etype actual w = (Inr (Ok v), w') \<Longrightarrow> preserves P actual \<Longrightarrow>
   (\<And>e k. preserves P (callOnRetry opts e k)) \<Longrightarrow> P w \<Longrightarrow>
   \<exists>u. P u \<and> actual u = (Inr (Ok v), w')"
  unfolding retried_def by (rule retry_rest_from_attempt)

text \<open>An attempt that succeeds at once is the whole call.\<close>

lemma retried_first_Ok:
  "actual w = (Inr (Ok v), w') \<Longrightarrow> retried opts etype actual w = (Inr (Ok v), w')"
  unfolding retried_def by (subst retry_rest.simps) (simp add: andThen_def)

section \<open>Properties\<close>

text \<open>
  C19. With at least one try allowed, the decorator's \<open>while (true)\<close> loop returns: it calls the method
  until the first outcome that is a success or at which it gives up (the last try, an error type
  of the bail list, or a refusal of \<open>shouldRetry\<close>), never more often than \<open>tries\<close>, and returns
  that outcome.
\<close>

lemma retry_outcome:
  assumes "scripted st outcome actual" and "\<And>e k. callOnRetry opts e k = ret ()" and "1 \<le> tries opts"
  shows "\<exists>j. int j < tries opts
           \<and> retry_loop opts etype actual 1 (st 0) = Some (Inr (outcome j), st (Suc j))
           \<and> stops opts etype (outcome j) (1 + int j)
           \<and> (\<forall>i < j. \<not> stops opts etype (outcome i) (1 + int i))"
  using retried_scripted [OF assms, of etype 0] retry_loop_retried [OF assms(3), of etype actual "st 0"]
  by (metis add_0)

lemma retry_outcome_witness:
  "\<exists>j. int j < (5::int)
     \<and> retry_loop \<lparr>tries = 5, bailOnErrorTypes = Some [''fatal''], shouldRetry = None, onRetry = None\<rparr>
         (\<lambda>e. e) (\<lambda>n. (Inr (if n < 2 then Err ''busy'' else Ok n) :: unit + _, Suc n)) 1 0
       = Some (Inr (if j < 2 then Err ''busy'' else Ok j), Suc j)"
  using retry_outcome [of "\<lambda>n. n" "\<lambda>n. if n < 2 then Err ''busy'' else Ok n"
      "\<lambda>n. (Inr (if n < 2 then Err ''busy'' else Ok n) :: unit + _, Suc n)"
      "\<lparr>tries = 5, bailOnErrorTypes = Some [''fatal''], shouldRetry = None, onRetry = None\<rparr>" "\<lambda>e. e"]
  by (auto simp: scripted_def callOnRetry_def)

text \<open>
  With \<open>tries: 0\<close> the test for the last try is never met: a method that keeps failing with an
  error that is neither in the bail list nor refused by \<open>shouldRetry\<close> is called for ever.
\<close>

lemma retry_without_tries_diverges:
  assumes "always_fails opts etype actual" and "tries opts \<le> 0"
  shows "retry_loop opts etype actual 1 w = None"
  by (rule retry_loop_diverges [OF assms(1)]) (use assms(2) in simp)

lemma retry_without_tries_diverges_witness:
  "retry_loop \<lparr>tries = 0, bailOnErrorTypes = None, shouldRetry = None, onRetry = None\<rparr>
     (\<lambda>e. e) (\<lambda>w. (Inr (Err ''busy'' :: (string, unit) result) :: unit + _, w)) 1 () = None"
  by (rule retry_without_tries_diverges) (auto simp: always_fails_def callOnRetry_def givesUp_def)

end
