(* ===== verification/Kit_Client.thy ===== *)
theory Kit_Client
  imports Retry
begin

text \<open>
  \<open>packages/libs/komencikit/src\<close>: the errors of the kit (\<open>errors.ts\<close>), the actions it sends to the
  API (\<open>actions.ts\<close>) and the HTTP client (\<open>client.ts\<close>). The \<open>fetch\<close> function and the io-ts decoders
  of the responses are parameters.
\<close>

section \<open>Errors (errors.ts)\<close>

datatype fetch_error =
    Unauthorised
  | RequestError js_value
  | ServiceUnavailable
  | UnexpectedStatus int
  | NetworkError string
  | ResponseDecodeError js_value
  | NotFoundError string
  | QuotaExceededError

text \<open>The \<open>errorType\<close> of an error, a string of its enum\<close>

fun fetch_errorType :: "fetch_error \<Rightarrow> string" where
  "fetch_errorType Unauthorised = ''Unauthorised''"
| "fetch_errorType (RequestError _) = ''RequestError''"
| "fetch_errorType ServiceUnavailable = ''ServiceUnavailable''"
| "fetch_errorType (UnexpectedStatus _) = ''UnexpectedStatus''"
| "fetch_errorType (NetworkError _) = ''NetworkError''"
| "fetch_errorType (ResponseDecodeError _) = ''DecodeError''"
| "fetch_errorType (NotFoundError _) = ''NotFoundError''"
| "fetch_errorType QuotaExceededError = ''QuotaExceededError''"

datatype tx_error =
    TxTimeoutError
  | TxRevertError string string
  | TxEventNotFound string string

fun tx_errorType :: "tx_error \<Rightarrow> string" where
  "tx_errorType TxTimeoutError = ''Timeout''"
| "tx_errorType (TxRevertError _ _) = ''Revert''"
| "tx_errorType (TxEventNotFound _ _) = ''EventNotFound''"

fun tx_message :: "tx_error \<Rightarrow> string" where
  "tx_message TxTimeoutError = ''TxTimeoutError''"
| "tx_message (TxRevertError txHash reason) =
     ''Transaction reverted (reason: '' @ (if reason = [] then ''n/a'' else reason) @ '')''"
| "tx_message (TxEventNotFound txHash event) = ''Transaction should have emitted '' @ event"

text \<open>
  \<open>WalletValidationError\<close>. All three classes pass \<open>WalletVerificationErrorTypes.InvalidBytecode\<close> to
  their super constructor.
\<close>

datatype wallet_validation_error =
    InvalidBytecode string
  | InvalidSigner string string string
  | InvalidImplementation string string "string list"

fun wallet_errorType :: "wallet_validation_error \<Rightarrow> string" where
  "wallet_errorType (InvalidBytecode _) = ''InvalidBytecode''"
| "wallet_errorType (InvalidSigner _ _ _) = ''InvalidBytecode''"
| "wallet_errorType (InvalidImplementation _ _ _) = ''InvalidBytecode''"

text \<open>A template literal prints an array as its elements joined by commas.\<close>

fun join_commas :: "string list \<Rightarrow> string" where
  "join_commas [] = []"
| "join_commas [x] = x"
| "join_commas (x # xs) = x @ '','' @ join_commas xs"

fun wallet_message :: "wallet_validation_error \<Rightarrow> string" where
  "wallet_message (InvalidBytecode _) = ''Invalid wallet bytecode, should be a Proxy''"
| "wallet_message (InvalidSigner _ actual expected) =
     ''Invalid signer got '' @ actual @ '', expected: '' @ expected"
| "wallet_message (InvalidImplementation _ actual expected) =
     ''Invalid implementation got '' @ actual @ '', expected one of: '' @ join_commas expected"

datatype kit_error =
    FetchErr fetch_error
  | TxErr tx_error
  | InvalidWalletErr wallet_validation_error
  | AuthenticationFailed
  | LoginSignatureError thrown
  | KomenciDown

fun kit_errorType :: "kit_error \<Rightarrow> string" where
  "kit_errorType (FetchErr e) = fetch_errorType e"
| "kit_errorType (TxErr e) = tx_errorType e"
| "kit_errorType (InvalidWalletErr _) = ''InvalidWallet''"
| "kit_errorType AuthenticationFailed = ''AuthenticationFailed''"
| "kit_errorType (LoginSignatureError _) = ''LoginSignatureError''"
| "kit_errorType KomenciDown = ''KomenciDown''"

section \<open>Actions (actions.ts)\<close>

datatype request_method = POST | GET

datatype action_type =
    StartSession
  | DeployWallet
  | DistributedBlindedPepper
  | SubmitMetaTransaction
  | RequestSubsidisedAttestation
  | CheckService
  | CheckSession

text \<open>
  An action: its codec is the decoder of the response, with \<open>None\<close> for a payload it rejects;
  \<open>None\<close> as the payload is \<open>null\<close>.
\<close>

record 'r action =
  actMethod :: request_method
  actType :: action_type
  actPath :: string
  actPayload :: "js_value option"
  actCodec :: "js_value \<Rightarrow> 'r option"

record check_session_resp =
  distributedBlindedPepperLeft :: rat
  requestSubsidisedAttestationLeft :: rat
  submitMetaTransactionLeft :: rat
  metaTxWalletAddress :: "string option"

record start_session_resp =
  respToken :: string
  respCallbackUrl :: "string option"

datatype deploy_wallet_resp = DeployWalletDeployed string | DeployWalletInProgress string string

record codecs =
  CheckServiceResponse :: "js_value \<Rightarrow> string option"
  CheckSessionResp :: "js_value \<Rightarrow> check_session_resp option"
  StartSessionResp :: "js_value \<Rightarrow> start_session_resp option"
  GetCombinedSignatureResp :: "js_value \<Rightarrow> string option"
  DeployWalletResp :: "js_value \<Rightarrow> deploy_wallet_resp option"
  SubmitMetaTransactionResp :: "js_value \<Rightarrow> string option"

definition checkServiceAction :: "codecs \<Rightarrow> string action" where
  "checkServiceAction cs = \<lparr>actMethod = GET, actType = CheckService, actPath = ''v1/health'',
     actPayload = None, actCodec = CheckServiceResponse cs\<rparr>"

definition checkSessionAction :: "codecs \<Rightarrow> check_session_resp action" where
  "checkSessionAction cs = \<lparr>actMethod = GET, actType = CheckSession, actPath = ''v1/checkSession'',
     actPayload = None, actCodec = CheckSessionResp cs\<rparr>"

definition startSessionAction :: "codecs \<Rightarrow> string \<Rightarrow> string \<Rightarrow> string \<Rightarrow> start_session_resp action" where
  "startSessionAction cs captchaResponseToken externalAccount signature =
     \<lparr>actMethod = POST, actType = StartSession, actPath = ''v1/startSession'',
      actPayload = Some (JObj [(''captchaResponseToken'', JStr captchaResponseToken),
        (''externalAccount'', JStr externalAccount), (''signature'', JStr signature)]),
      actCodec = StartSessionResp cs\<rparr>"

definition getDistributedBlindedPepperAction :: "codecs \<Rightarrow> string \<Rightarrow> string \<Rightarrow> string action" where
  "getDistributedBlindedPepperAction cs blindedPhoneNumber clientVersion =
     \<lparr>actMethod = POST, actType = DistributedBlindedPepper, actPath = ''v1/distributedBlindedPepper'',
      actPayload = Some (JObj [(''blindedPhoneNumber'', JStr blindedPhoneNumber),
        (''clientVersion'', JStr clientVersion)]),
      actCodec = GetCombinedSignatureResp cs\<rparr>"

definition deployWalletAction :: "codecs \<Rightarrow> string \<Rightarrow> deploy_wallet_resp action" where
  "deployWalletAction cs implementationAddress =
     \<lparr>actMethod = POST, actType = DeployWallet, actPath = ''v1/deployWallet'',
      actPayload = Some (JObj [(''implementationAddress'', JStr implementationAddress)]),
      actCodec = DeployWalletResp cs\<rparr>"

definition submitMetaTransactionAction :: "codecs \<Rightarrow> raw_transaction \<Rightarrow> string action" where
  "submitMetaTransactionAction cs tx =
     \<lparr>actMethod = POST, actType = SubmitMetaTransaction, actPath = ''v1/submitMetaTransaction'',
      actPayload = Some (raw_to_value tx), actCodec = SubmitMetaTransactionResp cs\<rparr>"

definition requestSubsidisedAttestationsAction ::
    "codecs \<Rightarrow> string \<Rightarrow> rat \<Rightarrow> string \<Rightarrow> raw_transaction \<Rightarrow> raw_transaction \<Rightarrow> string action" where
  "requestSubsidisedAttestationsAction cs identifier attestationsRequested walletAddress requestTx approveTx =
     \<lparr>actMethod = POST, actType = RequestSubsidisedAttestation, actPath = ''v1/requestSubsidisedAttestations'',
      actPayload = Some (JObj [(''identifier'', JStr identifier),
        (''attestationsRequested'', JNum attestationsRequested),
        (''walletAddress'', JStr walletAddress),
        (''requestTx'', raw_to_value requestTx), (''approveTx'', raw_to_value approveTx)]),
      actCodec = SubmitMetaTransactionResp cs\<rparr>"

section \<open>The client (client.ts)\<close>

record client_state =
  clientToken :: "string option"
  callbackUrl :: string

record fetch_request =
  reqUrl :: string
  reqMethod :: request_method
  reqBody :: "js_value option"
  reqHeaders :: "(string \<times> string) list"

text \<open>A response: its status, and what \<open>json()\<close> gives (a rejection with a message, or the body)\<close>

record fetch_response =
  httpStatus :: int
  respJson :: "string + js_value"

type_synonym 'w fetch = "fetch_request \<Rightarrow> ('w, string, fetch_response) io"

definition setToken :: "string \<Rightarrow> client_state \<Rightarrow> client_state" where
  "setToken t c = c\<lparr>clientToken := Some t\<rparr>"

text \<open>\<open>callbackUrl.replace(/\/$/, '') + '/'\<close>: one slash at the end is dropped, one is added.\<close>

definition setCallbackUrl :: "string \<Rightarrow> client_state \<Rightarrow> client_state" where
  "setCallbackUrl url c =
     c\<lparr>callbackUrl := (if url \<noteq> [] \<and> last url = CHR ''/'' then butlast url else url) @ ''/''\<rparr>"

definition newClient :: "string \<Rightarrow> string option \<Rightarrow> client_state" where
  "newClient url t = setCallbackUrl url \<lparr>clientToken = t, callbackUrl = []\<rparr>"

text \<open>\<open>if (this.token)\<close>: an empty token is falsy.\<close>

definition buildRequest :: "client_state \<Rightarrow> 'r action \<Rightarrow> fetch_request" where
  "buildRequest c act =
     \<lparr>reqUrl = callbackUrl c @ actPath act,
      reqMethod = actMethod act,
      reqBody = actPayload act,
      reqHeaders =
        [(''Accept'', ''application/json''), (''Content-Type'', ''application/json'')] @
        (case clientToken c of
           None \<Rightarrow> []
         | Some t \<Rightarrow> if t = [] then [] else [(''Authorization'', ''Bearer '' @ t)])\<rparr>"

definition handleResponse ::
    "client_state \<Rightarrow> 'r action \<Rightarrow> fetch_response \<Rightarrow> ('w, string, (fetch_error, 'r) result) io" where
  "handleResponse c act resp =
     (if 200 \<le> httpStatus resp \<and> httpStatus resp \<le> 299 then
        (case respJson resp of
           Inl msg \<Rightarrow> throw msg
         | Inr body \<Rightarrow>
             (case actCodec act body of
                Some r \<Rightarrow> ret (Ok r)
              | None \<Rightarrow> ret (Err (ResponseDecodeError body))))
      else if httpStatus resp = 401 then ret (Err Unauthorised)
      else if httpStatus resp = 404 then ret (Err (NotFoundError (callbackUrl c @ actPath act)))
      else if httpStatus resp = 429 then ret (Err QuotaExceededError)
      else if httpStatus resp = 400 then
        (case respJson resp of
           Inl msg \<Rightarrow> throw msg
         | Inr body \<Rightarrow> ret (Err (RequestError body)))
      else if 500 \<le> httpStatus resp \<and> httpStatus resp \<le> 599 then ret (Err ServiceUnavailable)
      else ret (Err (UnexpectedStatus (httpStatus resp))))"

text \<open>
  One attempt: whatever is thrown inside the \<open>try\<close> becomes a \<open>NetworkError\<close>. The client is a part
  of the caller's state, read when the attempt starts.
\<close>

definition exec_once ::
    "('s \<Rightarrow> client_state) \<Rightarrow> 'w fetch \<Rightarrow> 'r action \<Rightarrow> ('s \<times> 'w, 'x, (fetch_error, 'r) result) io" where
  "exec_once cl fetch act =
     catching
       (andThen (getS cl) (\<lambda>c.
        andThen (ext (fetch (buildRequest c act))) (handleResponse c act)))
       (\<lambda>e. ret (Err (NetworkError e)))"

definition client_retry :: "('w, 'x, fetch_error, string) retry_options" where
  "client_retry =
     \<lparr>tries = 3,
      bailOnErrorTypes = Some [''Unauthorised'', ''RequestError''],
      shouldRetry = None,
      onRetry = Some (\<lambda>error attempt. ret ())\<rparr>"

definition exec ::
    "('s \<Rightarrow> client_state) \<Rightarrow> 'w fetch \<Rightarrow> 'r action \<Rightarrow> ('s \<times> 'w, 'x, (fetch_error, 'r) result) io" where
  "exec cl fetch act = retried client_retry fetch_errorType (exec_once cl fetch act)"

subsection \<open>Contract: a request is never rejected\<close>

lemma callOnRetry_client [simp]: "callOnRetry client_retry e k = ret ()"
  by (simp add: callOnRetry_def client_retry_def)

lemma tries_client [simp]: "tries client_retry = 3"
  by (simp add: client_retry_def)

interpretation client: retried_method "exec_once cl fetch" client_retry fetch_errorType for cl fetch
  by unfold_locales (auto simp: exec_once_def intro: no_throw)

lemma exec_no_reject [no_throw]: "never_throws (exec cl fetch act)"
  unfolding exec_def by (rule client.retried_no_reject)

text \<open>A request does not write the caller's own state.\<close>

lemma exec_once_frame: "exec_once cl fetch act (s, w) = (r, (s', w')) \<Longrightarrow> s' = s"
  by (auto simp: exec_once_def io_defs handleResponse_def split: prod.splits sum.splits if_splits option.splits)

lemma preserves_exec [keeps]:
  assumes "\<And>s w w'. P (s, w) \<Longrightarrow> P (s, w')"
  shows "preserves P (exec cl fetch act)"
  unfolding exec_def exec_once_def handleResponse_def
  by (intro keeps) (auto intro!: keeps dest: assms split: sum.split option.split)

lemma exec_frame: "exec cl fetch act (s, w) = (r, (s', w')) \<Longrightarrow> s' = s"
  using preservesD [OF preserves_exec [of "\<lambda>(t, _). t = s" cl fetch act], of "(s, w)" r "(s', w')"]
  by simp

subsection \<open>Requests made\<close>

text \<open>
  What one attempt reports for a response: the classification of the status codes.
\<close>

definition classify :: "client_state \<Rightarrow> 'r action \<Rightarrow> fetch_response \<Rightarrow> (fetch_error, 'r) result" where
  "classify c act resp =
     (let body_error = (\<lambda>f. case respJson resp of Inl msg \<Rightarrow> Err (NetworkError msg) | Inr body \<Rightarrow> f body)
      in if httpStatus resp \<in> {200..299} then
           body_error (\<lambda>body. case actCodec act body of None \<Rightarrow> Err (ResponseDecodeError body) | Some r \<Rightarrow> Ok r)
         else if httpStatus resp = 400 then body_error (\<lambda>body. Err (RequestError body))
         else if httpStatus resp = 401 then Err Unauthorised
         else if httpStatus resp = 404 then Err (NotFoundError (callbackUrl c @ actPath act))
         else if httpStatus resp = 429 then Err QuotaExceededError
         else if httpStatus resp \<in> {500..599} then Err ServiceUnavailable
         else Err (UnexpectedStatus (httpStatus resp)))"

lemma exec_once_classify:
  assumes "fetch (buildRequest (cl s) act) w = (Inr resp, w')"
  shows "exec_once cl fetch act (s, w) = (Inr (classify (cl s) act resp), (s, w'))"
  using assms
  by (auto simp: exec_once_def io_defs handleResponse_def classify_def Let_def
      split: sum.splits option.splits)

lemma exec_once_network:
  assumes "fetch (buildRequest (cl s) act) w = (Inl msg, w')"
  shows "exec_once cl fetch act (s, w) = (Inr (Err (NetworkError msg)), (s, w'))"
  using assms by (simp add: exec_once_def io_defs)

lemma givesUp_client:
  "givesUp client_retry fetch_errorType e k \<longleftrightarrow>
     k = 3 \<or> e = Unauthorised \<or> (\<exists>v. e = RequestError v)"
  by (cases e) (auto simp: givesUp_def client_retry_def)

section \<open>Properties\<close>

text \<open>An outcome after which the client does not try again, whatever the attempt\<close>

definition conclusive :: "(fetch_error, 'r) result \<Rightarrow> bool" where
  "conclusive r \<longleftrightarrow> is_ok r \<or> r = Err Unauthorised \<or> (\<exists>v. r = Err (RequestError v))"

lemma stops_client:
  "stops client_retry fetch_errorType r k \<longleftrightarrow> k = 3 \<or> conclusive r \<or> is_ok r"
  by (cases r) (auto simp: stops_def givesUp_client conclusive_def)

text \<open>
  C20. A request to a server that answers its \<open>n\<close>-th attempt with the response \<open>resp n\<close> is made at
  most three times; the result is the classification of the response of the first attempt that is
  conclusive (a success, a 401 or a 400), or of the third; the caller's state is not written.
\<close>

lemma exec_outcome:
  assumes "\<And>n. fetch (buildRequest (cl s) act) (st n) = (Inr (resp n), st (Suc n))"
  shows "\<exists>j < 3. exec cl fetch act (s, st 0)
             = (Inr (classify (cl s) act (resp j)) :: 'x + _, (s, st (Suc j)))
         \<and> (j = 2 \<or> conclusive (classify (cl s) act (resp j)))
         \<and> (\<forall>i < j. \<not> conclusive (classify (cl s) act (resp i)))"
proof -
  have script: "scripted (\<lambda>n. (s, st n)) (\<lambda>n. classify (cl s) act (resp n))
      (exec_once cl fetch act :: (_, 'x, _) io)"
    using assms by (auto simp: scripted_def intro: exec_once_classify)
  have one: "1 \<le> tries client_retry" by simp
  show ?thesis
  proof (rule retried_scripted [OF script callOnRetry_client one, of fetch_errorType 0])
    fix j
    assume "int j < tries client_retry"
      and "retried client_retry fetch_errorType (exec_once cl fetch act) (s, st 0)
         = (Inr (classify (cl s) act (resp (0 + j))) :: 'x + _, (s, st (Suc (0 + j))))"
      and "stops client_retry fetch_errorType (classify (cl s) act (resp (0 + j))) (1 + int j)"
      and "\<forall>i < j. \<not> stops client_retry fetch_errorType (classify (cl s) act (resp (0 + i))) (1 + int i)"
    then show ?thesis
      by (intro exI [of _ j]) (auto simp: stops_client conclusive_def exec_def)
  qed
qed

definition flaky :: "nat \<Rightarrow> fetch_response" where
  "flaky n = \<lparr>httpStatus = if n < 1 then 503 else 401, respJson = Inl ''''\<rparr>"

definition idleClient :: client_state where
  "idleClient = \<lparr>clientToken = None, callbackUrl = ''/''\<rparr>"

definition probe :: "js_value action" where
  "probe = \<lparr>actMethod = GET, actType = CheckService, actPath = ''v1/health'', actPayload = None, actCodec = Some\<rparr>"

lemma exec_outcome_witness:
  "\<exists>j < 3. exec id (\<lambda>req n. (Inr (flaky n), Suc n)) probe (idleClient, 0)
     = (Inr (classify idleClient probe (flaky j)) :: unit + _, (idleClient, Suc j))"
  using exec_outcome [of "\<lambda>req n. (Inr (flaky n), Suc n)" id idleClient probe "\<lambda>n. n" flaky, where 'x = unit]
  by auto

end
