(* ===== verification/Wallet_Verify.thy ===== *)
theory Wallet_Verify
  imports Kit_Client
begin

text \<open>
  \<open>packages/libs/komencikit/src/verifyWallet.ts\<close>: the checks that a contract really is a
  meta-transaction wallet (a proxy of the known bytecode) with an allowed implementation and the
  expected signer. The kit applies them to every wallet it deploys; the API and the rewards service
  reuse them. The chain is a port of functions, of which nothing is assumed.
\<close>

section \<open>The chain as the verification sees it\<close>

text \<open>
  \<open>'m\<close> is the type of contractkit's wallet wrappers. \<open>soliditySha3\<close> gives \<open>null\<close> for an empty string;
  \<open>decodeAddress\<close> is the ABI decoder at type \<open>address\<close>, which can throw.
\<close>

record ('w, 'm) wallet_chain =
  getCode :: "string \<Rightarrow> ('w, thrown, string) io"
  soliditySha3 :: "string \<Rightarrow> string option"
  ethCall :: "string \<Rightarrow> string \<Rightarrow> ('w, thrown, string) io"
  getImplementationSignature :: string
  decodeAddress :: "string \<Rightarrow> thrown + string"
  getMetaTransactionWallet :: "string \<Rightarrow> ('w, thrown, 'm) io"
  walletSigner :: "'m \<Rightarrow> ('w, thrown, string) io"

text \<open>The \<open>WalletDeployed\<close> event of the deployer contract\<close>

record wallet_deployed_event =
  evOwner :: string
  evWallet :: string
  evImplementation :: string

definition PROXY_BYTECODE_SHA3 :: string where
  "PROXY_BYTECODE_SHA3 = ''0x69f56de93d0b1eb15364c67a2756afbc0b3112e544f64c4bf2c7bcdf287f0a91''"

definition stripBzz :: "string \<Rightarrow> string" where
  "stripBzz bytecode = js_before ''a265627a7a72315820'' bytecode"

text \<open>A sum as a program: the left side is thrown.\<close>

definition liftSum :: "'e + 'a \<Rightarrow> ('w, 'e, 'a) io" where
  "liftSum r = (case r of Inl e \<Rightarrow> throw e | Inr x \<Rightarrow> ret x)"

lemma liftSum_eq_Inr [simp]: "liftSum r w = (Inr x, w') \<longleftrightarrow> r = Inr x \<and> w' = w"
  by (auto simp: liftSum_def split: sum.splits)

lemma preserves_liftSum [keeps]: "preserves P (liftSum r)"
  by (cases r) (auto simp: liftSum_def intro: keeps)

definition verifyWallet ::
    "celo_base \<Rightarrow> ('w, 'm) wallet_chain \<Rightarrow> string \<Rightarrow> string list \<Rightarrow> string \<Rightarrow>
     ('w, thrown, (wallet_validation_error, unit) result) io" where
  "verifyWallet cb ch walletAddress allowedImplementations expectedSigner =
     andThen (getCode ch walletAddress) (\<lambda>code.
     if soliditySha3 ch (stripBzz code) \<noteq> Some PROXY_BYTECODE_SHA3
     then ret (Err (InvalidBytecode walletAddress))
     else
     andThen (ethCall ch walletAddress (getImplementationSignature ch)) (\<lambda>raw.
     andThen (liftSum (decodeAddress ch raw)) (\<lambda>decoded.
     let actualImplementation = normalizeAddress cb decoded;
         normalizedAllowed = map (normalizeAddress cb) allowedImplementations
     in if actualImplementation \<notin> set normalizedAllowed
        then ret (Err (InvalidImplementation walletAddress actualImplementation normalizedAllowed))
        else
        andThen (getMetaTransactionWallet ch walletAddress) (\<lambda>wallet.
        andThen (walletSigner ch wallet) (\<lambda>signer.
        let actualSigner = normalizeAddress cb signer;
            normalizedExpected = normalizeAddress cb expectedSigner
        in if actualSigner \<noteq> normalizedExpected
           then ret (Err (InvalidSigner walletAddress actualSigner normalizedExpected))
           else ret (Ok ()))))))"

section \<open>What a wallet that passes is\<close>

text \<open>
  The specification over a chain that answers a fixed state: the code, the implementation and the
  signer of the contract at an address, with no mention of the order of the checks.
\<close>

record wallet_facts =
  factCode :: string
  factImplementation :: string
  factSigner :: string

definition valid_wallet ::
    "celo_base \<Rightarrow> (string \<Rightarrow> string option) \<Rightarrow> wallet_facts \<Rightarrow> string list \<Rightarrow> string \<Rightarrow> bool" where
  "valid_wallet cb sha facts allowed signer \<longleftrightarrow>
     sha (stripBzz (factCode facts)) = Some PROXY_BYTECODE_SHA3 \<and>
     normalizeAddress cb (factImplementation facts) \<in> normalizeAddress cb ` set allowed \<and>
     normalizeAddress cb (factSigner facts) = normalizeAddress cb signer"

text \<open>The chain answers those facts for the contract at \<open>addr\<close>, in every state.\<close>

definition answers ::
    "('w, 'm) wallet_chain \<Rightarrow> string \<Rightarrow> wallet_facts \<Rightarrow> bool" where
  "answers ch addr facts \<longleftrightarrow>
     (\<exists>raw wallet. (\<forall>w. \<exists>w'. getCode ch addr w = (Inr (factCode facts), w')) \<and>
        (\<forall>w. \<exists>w'. ethCall ch addr (getImplementationSignature ch) w = (Inr raw, w')) \<and>
        decodeAddress ch raw = Inr (factImplementation facts) \<and>
        (\<forall>w. \<exists>w'. getMetaTransactionWallet ch addr w = (Inr wallet, w')) \<and>
        (\<forall>w. \<exists>w'. walletSigner ch wallet w = (Inr (factSigner facts), w')))"

text \<open>
  Without any assumption on the chain: an accepted wallet passed all three checks on what the chain
  answered.
\<close>

lemma verifyWallet_Ok:
  assumes "verifyWallet cb ch addr allowed signer w = (Inr (Ok u), w')"
  obtains code w1 raw w2 impl wallet w3 actual where
    "getCode ch addr w = (Inr code, w1)"
    "ethCall ch addr (getImplementationSignature ch) w1 = (Inr raw, w2)"
    "decodeAddress ch raw = Inr impl"
    "getMetaTransactionWallet ch addr w2 = (Inr wallet, w3)"
    "walletSigner ch wallet w3 = (Inr actual, w')"
    "valid_wallet cb (soliditySha3 ch) \<lparr>factCode = code, factImplementation = impl, factSigner = actual\<rparr> allowed signer"
  using assms
  by (auto simp: verifyWallet_def andThen_eq_Inr valid_wallet_def Let_def split: if_splits)

lemma verifyWallet_decides:
  assumes "answers ch addr facts"
  shows "\<exists>r w'. verifyWallet cb ch addr allowed signer w = (Inr r, w') \<and>
           (is_ok r \<longleftrightarrow> valid_wallet cb (soliditySha3 ch) facts allowed signer)"
proof -
  from assms obtain raw wallet where
    c: "\<And>w. \<exists>w'. getCode ch addr w = (Inr (factCode facts), w')" and
    e: "\<And>w. \<exists>w'. ethCall ch addr (getImplementationSignature ch) w = (Inr raw, w')" and
    d: "decodeAddress ch raw = Inr (factImplementation facts)" and
    m: "\<And>w. \<exists>w'. getMetaTransactionWallet ch addr w = (Inr wallet, w')" and
    s: "\<And>w. \<exists>w'. walletSigner ch wallet w = (Inr (factSigner facts), w')"
    unfolding answers_def by blast
  from c obtain w1 where 1: "getCode ch addr w = (Inr (factCode facts), w1)" by blast
  from e obtain w2 where 2: "ethCall ch addr (getImplementationSignature ch) w1 = (Inr raw, w2)" by blast
  from m obtain w3 where 3: "getMetaTransactionWallet ch addr w2 = (Inr wallet, w3)" by blast
  from s obtain w4 where 4: "walletSigner ch wallet w3 = (Inr (factSigner facts), w4)" by blast
  show ?thesis
    by (simp add: verifyWallet_def andThen_def liftSum_def 1 2 3 4 d valid_wallet_def Let_def
        ret_app image_iff)
qed

lemma wallet_errors_share_type: "wallet_errorType e = ''InvalidBytecode''"
  by (cases e) simp_all

end
