(* ===== verification/Kit.thy ===== *)
theory Kit
  imports Wallet_Verify
begin

text \<open>
  \<open>packages/libs/komencikit/src/kit.ts\<close> and \<open>login.ts\<close>: the client library a mobile wallet runs. Its
  state is the HTTP client, the options, the user's account and the last wallet wrapper it
  created. What it calls of contractkit, of the ODIS client and of the runtime is the port
  \<open>kit_port\<close>. The polling loop of \<open>waitForReceipt\<close> is the partial function \<open>receipt_loop\<close>, and for a positive
  polling interval the total function \<open>receiptWithin\<close>. With an interval of 0 or less the loop of the code never
  times out, which is \<open>receipt_loop\<close> without a result; the functions built on \<open>waitForReceipt\<close> are those of the
  code for the positive intervals only (the default is 100).
\<close>

section \<open>Login data (login.ts)\<close>

definition buildLoginTypedData :: "string \<Rightarrow> string \<Rightarrow> js_value" where
  "buildLoginTypedData account captchaToken =
     JObj [
       (''types'', JObj [
          (''EIP712Domain'', JArr [
             JObj [(''name'', JStr ''name''), (''type'', JStr ''string'')],
             JObj [(''name'', JStr ''version''), (''type'', JStr ''string'')]]),
          (''Login'', JArr [
             JObj [(''name'', JStr ''account''), (''type'', JStr ''address'')],
             JObj [(''name'', JStr ''captcha''), (''type'', JStr ''bytes'')]])]),
       (''primaryType'', JStr ''Login''),
       (''domain'', JObj [(''name'', JStr ''Komenci''), (''version'', JStr ''1.0'')]),
       (''message'', JObj [(''account'', JStr account), (''captcha'', JStr captchaToken)])]"

text \<open>The login data determine the account and the captcha token they were built for.\<close>

lemma buildLoginTypedData_inj:
  "buildLoginTypedData a c = buildLoginTypedData a' c' \<longleftrightarrow> a = a' \<and> c = c'"
  by (simp add: buildLoginTypedData_def)

section \<open>State and port\<close>

record komenci_options =
  kitUrl :: string
  kitToken :: "string option"
  txRetryTimeoutMs :: int
  txPollingIntervalMs :: int

text \<open>\<open>KomenciOptionsInput\<close>: an option that is not given falls back to \<open>DEFAULT_OPTIONS\<close>.\<close>

record komenci_options_input =
  inUrl :: string
  inToken :: "string option"
  inTxRetryTimeoutMs :: "int option"
  inTxPollingIntervalMs :: "int option"

record 'm kit_state =
  kitClient :: client_state
  kitOptions :: komenci_options
  kitAccount :: string
  kitWallet :: "'m option"

record receipt =
  receiptStatus :: bool
  receiptTo :: string
  receiptBlockNumber :: int

text \<open>
  The operations of contractkit the kit uses. Handles of contracts, transaction objects and
  signatures are opaque values.
\<close>

record ('w, 'm) kit_port =
  kpFetch :: "'w fetch"
  kpCodecs :: codecs
  kpChain :: "('w, 'm) wallet_chain"
  getTransactionReceipt :: "string \<Rightarrow> ('w, thrown, receipt option) io"
  kpSleep :: "int \<Rightarrow> ('w, thrown, unit) io"
  mtwAddress :: "'m \<Rightarrow> string"
  mtwNonce :: "'m \<Rightarrow> ('w, thrown, int) io"
  signMetaTransaction :: "'m \<Rightarrow> js_value \<Rightarrow> int option \<Rightarrow> ('w, thrown, js_value) io"
  executeMetaTransaction :: "'m \<Rightarrow> js_value \<Rightarrow> js_value \<Rightarrow> js_value"
  toRawTransaction :: "js_value \<Rightarrow> raw_transaction"
  getAttestations :: "('w, thrown, js_value) io"
  approveAttestationFee :: "js_value \<Rightarrow> rat \<Rightarrow> ('w, thrown, js_value) io"
  attRequest :: "js_value \<Rightarrow> string \<Rightarrow> rat \<Rightarrow> ('w, thrown, js_value) io"
  waitForSelectingIssuers :: "js_value \<Rightarrow> string \<Rightarrow> string \<Rightarrow> ('w, thrown, unit) io"
  attSelectIssuers :: "js_value \<Rightarrow> string \<Rightarrow> js_value"
  attComplete :: "js_value \<Rightarrow> string \<Rightarrow> string \<Rightarrow> string \<Rightarrow> string \<Rightarrow> ('w, thrown, js_value) io"
  getAccounts :: "('w, thrown, js_value) io"
  generateProofOfKeyPossession :: "js_value \<Rightarrow> string \<Rightarrow> string \<Rightarrow> ('w, thrown, js_value) io"
  accSetAccount :: "js_value \<Rightarrow> string \<Rightarrow> string \<Rightarrow> string \<Rightarrow> js_value \<Rightarrow> js_value"
  getWalletDeployer :: "string \<Rightarrow> ('w, thrown, js_value) io"
  walletDeployedEventType :: "js_value \<Rightarrow> string"
  getWalletDeployedEvents :: "js_value \<Rightarrow> int \<Rightarrow> int \<Rightarrow> ('w, thrown, wallet_deployed_event list) io"
  signTypedData :: "string \<Rightarrow> js_value \<Rightarrow> ('w, thrown, js_value) io"
  serializeSignature :: "js_value \<Rightarrow> string"
  getBlindedPhoneNumber :: "string \<Rightarrow> js_value \<Rightarrow> ('w, thrown, string) io"
  getPhoneNumberIdentifierFromSignature ::
    "string \<Rightarrow> string \<Rightarrow> js_value \<Rightarrow> ('w, thrown, string \<times> string) io"

definition newKit :: "celo_base \<Rightarrow> string \<Rightarrow> komenci_options_input \<Rightarrow> 'm kit_state" where
  "newKit cb account input =
     (let opts = \<lparr>kitUrl = inUrl input, kitToken = inToken input,
                  txRetryTimeoutMs = (case inTxRetryTimeoutMs input of None \<Rightarrow> 20000 | Some n \<Rightarrow> n),
                  txPollingIntervalMs = (case inTxPollingIntervalMs input of None \<Rightarrow> 100 | Some n \<Rightarrow> n)\<rparr>
      in \<lparr>kitClient = newClient (kitUrl opts) (kitToken opts), kitOptions = opts,
          kitAccount = normalizeAddressWith0x cb account, kitWallet = None\<rparr>)"

section \<open>Requests without a transaction\<close>

definition kitCheckService ::
    "('w, 'm) kit_port \<Rightarrow> ('m kit_state \<times> 'w, thrown, (kit_error, unit) result) io" where
  "kitCheckService p =
     andThen (exec kitClient (kpFetch p) (checkServiceAction (kpCodecs p))) (\<lambda>resp.
     case resp of
       Ok status \<Rightarrow> if status = ''OK'' then ret (Ok ()) else ret (Err KomenciDown)
     | Err e \<Rightarrow> ret (Err KomenciDown))"

definition kitCheckSession ::
    "('w, 'm) kit_port \<Rightarrow> ('m kit_state \<times> 'w, thrown, (fetch_error, check_session_resp) result) io" where
  "kitCheckSession p = exec kitClient (kpFetch p) (checkSessionAction (kpCodecs p))"

definition getLoginSignature ::
    "('w, 'm) kit_port \<Rightarrow> string \<Rightarrow> ('m kit_state \<times> 'w, thrown, (kit_error, string) result) io" where
  "getLoginSignature p captchaToken =
     catching
       (andThen (getS kitAccount) (\<lambda>account.
        andThen (ext (signTypedData p account (buildLoginTypedData account captchaToken))) (\<lambda>signature.
        ret (Ok (serializeSignature p signature)))))
       (\<lambda>e. ret (Err (LoginSignatureError e)))"

definition kitStartSession ::
    "('w, 'm) kit_port \<Rightarrow> string \<Rightarrow> ('m kit_state \<times> 'w, thrown, (kit_error, start_session_resp) result) io" where
  "kitStartSession p captchaToken =
     andThenOk (getLoginSignature p captchaToken) (\<lambda>signature.
     andThen (getS kitAccount) (\<lambda>account.
     andThen (exec kitClient (kpFetch p) (startSessionAction (kpCodecs p) captchaToken account signature)) (\<lambda>resp.
     case resp of
       Ok r \<Rightarrow>
         andThen (modS (\<lambda>s. s\<lparr>kitClient := setToken (respToken r) (kitClient s)\<rparr>)) (\<lambda>_.
         andThen
           (case respCallbackUrl r of
              None \<Rightarrow> ret ()
            | Some url \<Rightarrow>
                if url = [] then ret ()
                else modS (\<lambda>s. s\<lparr>kitClient := setCallbackUrl url (kitClient s)\<rparr>)) (\<lambda>_.
         ret (Ok r)))
     | Err e \<Rightarrow>
         if fetch_errorType e = ''Unauthorised'' then ret (Err AuthenticationFailed)
         else ret (Err (FetchErr e)))))"

text \<open>The options of the four retried methods; \<open>onRetry\<close> only writes to the console.\<close>

definition kitRetry :: "string list \<Rightarrow> ('w, thrown, kit_error, string) retry_options" where
  "kitRetry bail =
     \<lparr>tries = 3, bailOnErrorTypes = Some bail, shouldRetry = None,
      onRetry = Some (\<lambda>error attempt. ret ())\<rparr>"

definition pepperOnce ::
    "('w, 'm) kit_port \<Rightarrow> string \<Rightarrow> string \<Rightarrow> js_value \<Rightarrow>
     ('m kit_state \<times> 'w, thrown, (kit_error, string \<times> string) result) io" where
  "pepperOnce p e164Number clientVersion bls =
     andThen (ext (getBlindedPhoneNumber p e164Number bls)) (\<lambda>blinded.
     andThenOk
       (mapErr FetchErr (exec kitClient (kpFetch p)
          (getDistributedBlindedPepperAction (kpCodecs p) blinded clientVersion))) (\<lambda>combinedSignature.
     andThen (ext (getPhoneNumberIdentifierFromSignature p e164Number combinedSignature bls))
       (\<lambda>(phoneHash, pepper). ret (Ok (phoneHash, pepper)))))"

definition kitGetDistributedBlindedPepper ::
    "('w, 'm) kit_port \<Rightarrow> string \<Rightarrow> string \<Rightarrow> js_value \<Rightarrow>
     ('m kit_state \<times> 'w, thrown, (kit_error, string \<times> string) result) io" where
  "kitGetDistributedBlindedPepper p e164Number clientVersion bls =
     retried (kitRetry [''Unauthorised'', ''ServiceUnavailable'', ''QuotaExceededError'']) kit_errorType
       (pepperOnce p e164Number clientVersion bls)"

section \<open>Waiting for a receipt\<close>

text \<open>
  The \<open>while\<close> loop: poll, and sleep when there is no receipt yet, until \<open>waited\<close> reaches the
  timeout. \<open>None\<close> is a loop that never ends.
\<close>

partial_function (option) receipt_loop ::
    "('w, 'm) kit_port \<Rightarrow> komenci_options \<Rightarrow> string \<Rightarrow> int \<Rightarrow> 'w \<Rightarrow>
     ((thrown + receipt option) \<times> 'w) option" where
  "receipt_loop p opts txHash waited w =
     (if \<not> waited < txRetryTimeoutMs opts then Some (Inr None, w)
      else (case getTransactionReceipt p txHash w of
              (Inl e, w1) \<Rightarrow> Some (Inl e, w1)
            | (Inr (Some r), w1) \<Rightarrow> Some (Inr (Some r), w1)
            | (Inr None, w1) \<Rightarrow>
                (case kpSleep p (txPollingIntervalMs opts) w1 of
                   (Inl e, w2) \<Rightarrow> Some (Inl e, w2)
                 | (Inr u, w2) \<Rightarrow> receipt_loop p opts txHash (waited + txPollingIntervalMs opts) w2)))"

text \<open>The same loop with the number of polls that remain\<close>

primrec receiptWithin ::
    "('w, 'm) kit_port \<Rightarrow> komenci_options \<Rightarrow> string \<Rightarrow> nat \<Rightarrow> ('w, thrown, receipt option) io" where
  "receiptWithin p opts txHash 0 = ret None"
| "receiptWithin p opts txHash (Suc n) =
     andThen (getTransactionReceipt p txHash) (\<lambda>r.
       case r of
         Some receipt \<Rightarrow> ret (Some receipt)
       | None \<Rightarrow> andThen (kpSleep p (txPollingIntervalMs opts)) (\<lambda>_. receiptWithin p opts txHash n))"

text \<open>The polls that fit in the timeout: \<open>\<lceil>timeout / interval\<rceil>\<close>\<close>

definition maxPolls :: "komenci_options \<Rightarrow> nat" where
  "maxPolls opts =
     nat ((txRetryTimeoutMs opts + txPollingIntervalMs opts - 1) div txPollingIntervalMs opts)"

text \<open>\<open>waitForReceipt\<close>, for a positive interval\<close>

definition waitForReceipt ::
    "('w, 'm) kit_port \<Rightarrow> string \<Rightarrow> ('m kit_state \<times> 'w, thrown, (kit_error, receipt) result) io" where
  "waitForReceipt p txHash =
     andThen (getS kitOptions) (\<lambda>opts.
     andThen (ext (receiptWithin p opts txHash (maxPolls opts))) (\<lambda>r.
     case r of
       None \<Rightarrow> ret (Err (TxErr TxTimeoutError))
     | Some receipt \<Rightarrow>
         if \<not> receiptStatus receipt then ret (Err (TxErr (TxRevertError txHash [])))
         else ret (Ok receipt)))"

section \<open>Wallet deployment\<close>

definition getAddressFromDeploy ::
    "celo_base \<Rightarrow> ('w, 'm) kit_port \<Rightarrow> string \<Rightarrow>
     ('m kit_state \<times> 'w, thrown, (kit_error, string) result) io" where
  "getAddressFromDeploy cb p txHash =
     andThenOk (waitForReceipt p txHash) (\<lambda>receipt.
     andThen (ext (getWalletDeployer p (receiptTo receipt))) (\<lambda>deployer.
     andThen (ext (getWalletDeployedEvents p deployer (receiptBlockNumber receipt) (receiptBlockNumber receipt))) (\<lambda>events.
     andThen (getS kitAccount) (\<lambda>account.
     case find (\<lambda>ev. normalizeAddressWith0x cb (evOwner ev) = account) events of
       None \<Rightarrow> ret (Err (TxErr (TxEventNotFound txHash (walletDeployedEventType p deployer))))
     | Some ev \<Rightarrow> ret (Ok (evWallet ev))))))"

definition deployWalletOnce ::
    "celo_base \<Rightarrow> ('w, 'm) kit_port \<Rightarrow> string \<Rightarrow>
     ('m kit_state \<times> 'w, thrown, (kit_error, string) result) io" where
  "deployWalletOnce cb p implementationAddress =
     andThenOk
       (mapErr FetchErr (exec kitClient (kpFetch p) (deployWalletAction (kpCodecs p) implementationAddress))) (\<lambda>resp.
     andThenOk
       (case resp of
          DeployWalletDeployed walletAddress \<Rightarrow> ret (Ok walletAddress)
        | DeployWalletInProgress txHash deployerAddress \<Rightarrow> getAddressFromDeploy cb p txHash) (\<lambda>walletAddress.
     andThen (getS kitAccount) (\<lambda>account.
     andThenOk
       (mapErr InvalidWalletErr (ext (verifyWallet cb (kpChain p) walletAddress [implementationAddress] account))) (\<lambda>_.
     ret (Ok walletAddress)))))"

definition kitDeployWallet ::
    "celo_base \<Rightarrow> ('w, 'm) kit_port \<Rightarrow> string \<Rightarrow>
     ('m kit_state \<times> 'w, thrown, (kit_error, string) result) io" where
  "kitDeployWallet cb p implementationAddress =
     retried (kitRetry [''Unauthorised'', ''ServiceUnavailable'', ''Revert'', ''InvalidWallet'']) kit_errorType
       (deployWalletOnce cb p implementationAddress)"

section \<open>Meta-transactions\<close>

text \<open>The wrapper of the last wallet used is kept, and created again for another address.\<close>

definition kitGetWallet ::
    "('w, 'm) kit_port \<Rightarrow> string \<Rightarrow> ('m kit_state \<times> 'w, thrown, 'm) io" where
  "kitGetWallet p address =
     andThen (getS kitWallet) (\<lambda>cached.
     case cached of
       Some m \<Rightarrow>
         if mtwAddress p m = address then ret m
         else andThen (ext (getMetaTransactionWallet (kpChain p) address)) (\<lambda>m'.
              andThen (modS (\<lambda>s. s\<lparr>kitWallet := Some m'\<rparr>)) (\<lambda>_. ret m'))
     | None \<Rightarrow>
         andThen (ext (getMetaTransactionWallet (kpChain p) address)) (\<lambda>m'.
         andThen (modS (\<lambda>s. s\<lparr>kitWallet := Some m'\<rparr>)) (\<lambda>_. ret m')))"

definition submitOnce ::
    "('w, 'm) kit_port \<Rightarrow> string \<Rightarrow> js_value \<Rightarrow> int option \<Rightarrow>
     ('m kit_state \<times> 'w, thrown, (kit_error, receipt) result) io" where
  "submitOnce p walletAddress txo nonce =
     andThen (kitGetWallet p walletAddress) (\<lambda>wallet.
     andThen (ext (signMetaTransaction p wallet txo nonce)) (\<lambda>signature.
     let rawMetaTx = toRawTransaction p (executeMetaTransaction p wallet txo signature)
     in andThenOk
          (mapErr FetchErr (exec kitClient (kpFetch p) (submitMetaTransactionAction (kpCodecs p) rawMetaTx)))
          (\<lambda>txHash. waitForReceipt p txHash)))"

definition kitSubmitMetaTransaction ::
    "('w, 'm) kit_port \<Rightarrow> string \<Rightarrow> js_value \<Rightarrow> int option \<Rightarrow>
     ('m kit_state \<times> 'w, thrown, (kit_error, receipt) result) io" where
  "kitSubmitMetaTransaction p walletAddress txo nonce =
     retried (kitRetry [''Unauthorised'', ''ServiceUnavailable'', ''QuotaExceededError'', ''Revert''])
       kit_errorType (submitOnce p walletAddress txo nonce)"

definition requestAttestationsOnce ::
    "('w, 'm) kit_port \<Rightarrow> string \<Rightarrow> string \<Rightarrow> rat \<Rightarrow>
     ('m kit_state \<times> 'w, thrown, (kit_error, receipt) result) io" where
  "requestAttestationsOnce p walletAddress identifier attestationsRequested =
     andThen (ext (getAttestations p)) (\<lambda>attestations.
     andThen (kitGetWallet p walletAddress) (\<lambda>wallet.
     andThen (ext (mtwNonce p wallet)) (\<lambda>nonce.
     andThen (ext (approveAttestationFee p attestations attestationsRequested)) (\<lambda>approveTx.
     andThen (ext (signMetaTransaction p wallet approveTx (Some nonce))) (\<lambda>approveTxSig.
     andThen (ext (attRequest p attestations identifier attestationsRequested)) (\<lambda>requestTx.
     andThen (ext (signMetaTransaction p wallet requestTx (Some (nonce + 1)))) (\<lambda>requestTxSig.
     andThenOk
       (mapErr FetchErr (exec kitClient (kpFetch p)
         (requestSubsidisedAttestationsAction (kpCodecs p) identifier attestationsRequested walletAddress
            (toRawTransaction p (executeMetaTransaction p wallet requestTx requestTxSig))
            (toRawTransaction p (executeMetaTransaction p wallet approveTx approveTxSig)))))
       (\<lambda>txHash. waitForReceipt p txHash))))))))"

definition kitRequestAttestations ::
    "('w, 'm) kit_port \<Rightarrow> string \<Rightarrow> string \<Rightarrow> rat \<Rightarrow>
     ('m kit_state \<times> 'w, thrown, (kit_error, receipt) result) io" where
  "kitRequestAttestations p walletAddress identifier attestationsRequested =
     retried (kitRetry [''Unauthorised'', ''ServiceUnavailable'', ''QuotaExceededError'', ''Revert''])
       kit_errorType (requestAttestationsOnce p walletAddress identifier attestationsRequested)"

definition kitApproveAttestations ::
    "('w, 'm) kit_port \<Rightarrow> string \<Rightarrow> rat \<Rightarrow> ('m kit_state \<times> 'w, thrown, (kit_error, receipt) result) io" where
  "kitApproveAttestations p walletAddress attestationsRequested =
     andThen (ext (getAttestations p)) (\<lambda>attestations.
     andThen (ext (approveAttestationFee p attestations attestationsRequested)) (\<lambda>approveTx.
     kitSubmitMetaTransaction p walletAddress approveTx None))"

definition kitSelectIssuers ::
    "('w, 'm) kit_port \<Rightarrow> string \<Rightarrow> string \<Rightarrow> ('m kit_state \<times> 'w, thrown, (kit_error, receipt) result) io" where
  "kitSelectIssuers p walletAddress identifier =
     andThen (ext (getAttestations p)) (\<lambda>attestations.
     andThen (ext (waitForSelectingIssuers p attestations identifier walletAddress)) (\<lambda>_.
     kitSubmitMetaTransaction p walletAddress (attSelectIssuers p attestations identifier) None))"

definition kitCompleteAttestation ::
    "('w, 'm) kit_port \<Rightarrow> string \<Rightarrow> string \<Rightarrow> string \<Rightarrow> string \<Rightarrow>
     ('m kit_state \<times> 'w, thrown, (kit_error, receipt) result) io" where
  "kitCompleteAttestation p walletAddress identifier issuer code =
     andThen (ext (getAttestations p)) (\<lambda>attestations.
     andThen (ext (attComplete p attestations identifier walletAddress issuer code)) (\<lambda>txo.
     kitSubmitMetaTransaction p walletAddress txo None))"

definition kitSetAccount ::
    "('w, 'm) kit_port \<Rightarrow> string \<Rightarrow> string \<Rightarrow> string \<Rightarrow> string \<Rightarrow>
     ('m kit_state \<times> 'w, thrown, (kit_error, receipt) result) io" where
  "kitSetAccount p metaTxWallet name dataEncryptionKey walletAddress =
     andThen (ext (getAccounts p)) (\<lambda>accounts.
     andThen (ext (generateProofOfKeyPossession p accounts metaTxWallet walletAddress)) (\<lambda>proofOfPossession.
     kitSubmitMetaTransaction p metaTxWallet
       (accSetAccount p accounts name dataEncryptionKey walletAddress proofOfPossession) None))"

section \<open>The polling loop ends\<close>

lemma ceiling_div_step: "0 < (i::int) \<Longrightarrow> (t - w + i - 1) div i = (t - (w + i) + i - 1) div i + 1"
  using div_add_self2 [of i "t - (w + i) + i - 1"] by (simp add: algebra_simps)

lemma ceiling_div_pos: "0 < (i::int) \<Longrightarrow> 0 < (t - w + i - 1) div i \<longleftrightarrow> w < t"
  by (simp add: pos_imp_zdiv_pos_iff)

lemma receipt_loop_within:
  assumes i: "0 < txPollingIntervalMs opts"
  shows "n = nat ((txRetryTimeoutMs opts - waited + txPollingIntervalMs opts - 1) div txPollingIntervalMs opts) \<Longrightarrow>
    receipt_loop p opts txHash waited w = Some (receiptWithin p opts txHash n w)"
proof (induction n arbitrary: waited w)
  case 0
  then have "\<not> waited < txRetryTimeoutMs opts"
    using ceiling_div_pos [OF i, of "txRetryTimeoutMs opts" waited] by simp
  then show ?case by (subst receipt_loop.simps) (simp add: ret_app)
next
  case (Suc n)
  let ?i = "txPollingIntervalMs opts" and ?t = "txRetryTimeoutMs opts"
  have "0 < (?t - waited + ?i - 1) div ?i" using Suc.prems by linarith
  then have w: "waited < ?t" using ceiling_div_pos [OF i] by blast
  have n: "n = nat ((?t - (waited + ?i) + ?i - 1) div ?i)"
    using Suc.prems ceiling_div_step [OF i, of ?t waited] by linarith
  show ?case using w
    by (subst receipt_loop.simps)
      (auto simp: andThen_def Suc.IH [OF n] ret_app split: prod.split sum.split option.split)
qed

lemma receipt_loop_returns:
  "0 < txPollingIntervalMs opts \<Longrightarrow>
   receipt_loop p opts txHash 0 w = Some (receiptWithin p opts txHash (maxPolls opts) w)"
  by (rule receipt_loop_within) (simp_all add: maxPolls_def)

lemma maxPolls_iff: "0 < txPollingIntervalMs opts \<Longrightarrow>
   k < maxPolls opts \<longleftrightarrow> int k * txPollingIntervalMs opts < txRetryTimeoutMs opts"
proof -
  assume i: "0 < txPollingIntervalMs opts"
  let ?i = "txPollingIntervalMs opts" and ?t = "txRetryTimeoutMs opts"
  have "(?t - int k * ?i + ?i - 1) div ?i = (?t + ?i - 1) div ?i - int k"
    using div_mult_self1 [of ?i "?t + ?i - 1" "- int k"] i by (simp add: algebra_simps)
  moreover have "k < maxPolls opts \<longleftrightarrow> 0 < (?t + ?i - 1) div ?i - int k"
    unfolding maxPolls_def by linarith
  ultimately show ?thesis using ceiling_div_pos [OF i, of ?t "int k * ?i"] by simp
qed

text \<open>
  A chain that has the receipt of \<open>txHash\<close> from the poll number \<open>k\<close> on: \<open>pollsOf\<close> reads the number
  of polls made from the state.
\<close>

definition receipt_at ::
    "('w, 'm) kit_port \<Rightarrow> ('w \<Rightarrow> nat) \<Rightarrow> string \<Rightarrow> nat \<Rightarrow> receipt \<Rightarrow> bool" where
  "receipt_at p pollsOf txHash k r \<longleftrightarrow>
     (\<forall>w. \<exists>w'. getTransactionReceipt p txHash w = (Inr (if pollsOf w < k then None else Some r), w')
            \<and> pollsOf w' = Suc (pollsOf w)) \<and>
     (\<forall>ms w. \<exists>w'. kpSleep p ms w = (Inr (), w') \<and> pollsOf w' = pollsOf w)"

lemma receiptWithin_polls:
  assumes at: "receipt_at p pollsOf txHash k r"
  shows "\<exists>w'. receiptWithin p opts txHash n w
            = (Inr (if k < pollsOf w + n \<and> 0 < n then Some r else None), w')
          \<and> pollsOf w' = (if k < pollsOf w + n \<and> 0 < n then Suc (max k (pollsOf w)) else pollsOf w + n)"
proof (induction n arbitrary: w)
  case 0
  show ?case by simp
next
  case (Suc n)
  from at obtain w1 where poll: "getTransactionReceipt p txHash w = (Inr (if pollsOf w < k then None else Some r), w1)"
    "pollsOf w1 = Suc (pollsOf w)" unfolding receipt_at_def by blast
  show ?case
  proof (cases "pollsOf w < k")
    case False
    with poll show ?thesis by (auto simp: andThen_def max_def)
  next
    case True
    from at obtain w2 where sleep: "kpSleep p (txPollingIntervalMs opts) w1 = (Inr (), w2)"
      "pollsOf w2 = pollsOf w1" unfolding receipt_at_def by blast
    from Suc.IH [of w2] obtain w3 where
      "receiptWithin p opts txHash n w2 = (Inr (if k < pollsOf w2 + n \<and> 0 < n then Some r else None), w3)"
      "pollsOf w3 = (if k < pollsOf w2 + n \<and> 0 < n then Suc (max k (pollsOf w2)) else pollsOf w2 + n)" by blast
    with True poll sleep show ?thesis
      by (auto simp: andThen_def max_def)
  qed
qed

lemma waitForReceipt_polls:
  assumes at: "receipt_at p pollsOf txHash k r" and i: "0 < txPollingIntervalMs (kitOptions s)"
    and w: "pollsOf w = 0"
  shows "\<exists>w'. waitForReceipt p txHash (s, w) =
           (Inr (if int k * txPollingIntervalMs (kitOptions s) < txRetryTimeoutMs (kitOptions s)
                 then if receiptStatus r then Ok r else Err (TxErr (TxRevertError txHash []))
                 else Err (TxErr TxTimeoutError)), (s, w'))
         \<and> pollsOf w' \<le> maxPolls (kitOptions s)"
proof -
  from receiptWithin_polls [OF at, of "kitOptions s" "maxPolls (kitOptions s)" w] w
  obtain w' where run: "receiptWithin p (kitOptions s) txHash (maxPolls (kitOptions s)) w
      = (Inr (if k < maxPolls (kitOptions s) then Some r else None), w')"
    and le: "pollsOf w' \<le> maxPolls (kitOptions s)"
    by (auto split: if_splits)
  show ?thesis
  proof (cases "k < maxPolls (kitOptions s)")
    case True
    with run le maxPolls_iff [OF i, of k] show ?thesis
      by (auto simp: waitForReceipt_def andThen_def ext_def intro!: exI [of _ w'])
  next
    case False
    with run le maxPolls_iff [OF i, of k] show ?thesis
      by (auto simp: waitForReceipt_def andThen_def ext_def intro!: exI [of _ w'])
  qed
qed

section \<open>What the operations keep and return\<close>

text \<open>Only \<open>startSession\<close> writes the client; nothing writes the account or the options.\<close>

definition sameIdentity :: "'m kit_state \<Rightarrow> 'm kit_state \<Rightarrow> bool" where
  "sameIdentity s t \<longleftrightarrow> kitAccount t = kitAccount s \<and> kitOptions t = kitOptions s"

lemma preserves_waitForReceipt [keeps]:
  "(\<And>s w w'. P (s, w) \<Longrightarrow> P (s, w')) \<Longrightarrow> preserves P (waitForReceipt p h)"
  unfolding waitForReceipt_def by (intro keeps) auto

lemma preserves_getAddressFromDeploy [keeps]:
  "(\<And>s w w'. P (s, w) \<Longrightarrow> P (s, w')) \<Longrightarrow> preserves P (getAddressFromDeploy cb p h)"
  unfolding getAddressFromDeploy_def by (intro keeps) auto

lemma deploy_frame:
  assumes "deployWalletOnce cb p impl (s, w) = (r, (s', w'))"
  shows "s' = s"
proof -
  have "preserves (\<lambda>(t, _). t = s) (deployWalletOnce cb p impl)"
    unfolding deployWalletOnce_def
    by (intro keeps; (intro preserves_exec preserves_getAddressFromDeploy)?)
      (auto intro!: keeps split: deploy_wallet_resp.split)
  from preservesD [OF this _ assms] show ?thesis by simp
qed

lemma getAddressFromDeploy_frame:
  "getAddressFromDeploy cb p h (s, w) = (r, (s', w')) \<Longrightarrow> s' = s"
  using preservesD [OF preserves_getAddressFromDeploy [of "\<lambda>(t, _). t = s" cb p h], of "(s, w)" r "(s', w')"]
  by simp

lemma deployWalletOnce_verified:
  assumes "deployWalletOnce cb p impl (s, w) = (Inr (Ok addr), (s', w'))"
  shows "\<exists>u v. verifyWallet cb (kpChain p) addr [impl] (kitAccount s) u = (Inr (Ok ()), v)"
proof -
  from assms obtain resp s1 w1 s2 w2 s3 w3 where
    1: "exec kitClient (kpFetch p) (deployWalletAction (kpCodecs p) impl) (s, w) = (Inr (Ok resp) :: thrown + _, (s1, w1))" and
    2: "(case resp of DeployWalletDeployed walletAddress \<Rightarrow> ret (Ok walletAddress)
         | DeployWalletInProgress txHash deployerAddress \<Rightarrow> getAddressFromDeploy cb p txHash) (s1, w1)
        = (Inr (Ok addr), (s2, w2))" and
    3: "ext (verifyWallet cb (kpChain p) addr [impl] (kitAccount s2)) (s2, w2) = (Inr (Ok ()), (s3, w3))"
    by (auto simp: deployWalletOnce_def andThenOk_Ok mapErr_Ok andThen_eq_Inr)
  from 1 have "s1 = s" by (rule exec_frame)
  moreover from 2 have "s2 = s1"
    by (cases resp) (auto dest: getAddressFromDeploy_frame)
  ultimately show ?thesis using 3 by (auto simp: ext_eq_iff)
qed

section \<open>Properties\<close>

lemma callOnRetry_kit [simp]: "callOnRetry (kitRetry bail) e k = ret ()"
  by (simp add: callOnRetry_def kitRetry_def)

text \<open>
  A concrete environment for the witnesses: the world counts the polls made; the receipt of a
  transaction is there from the third poll on, the service answers every request with a deployed
  wallet or the hash of a transaction, and the chain holds a valid wallet at every address.
\<close>

definition demoFetch :: "nat fetch" where
  "demoFetch req =
     (let body = (if drop (length (reqUrl req) - 12) (reqUrl req) = ''startSession''
                  then JStr ''session-token'' else JStr ''0xAA'')
      in ret \<lparr>httpStatus = 200, respJson = Inr body\<rparr>)"

fun demoString :: "js_value \<Rightarrow> string option" where
  "demoString (JStr s) = Some s"
| "demoString _ = None"

definition demoCodecs :: codecs where
  "demoCodecs = \<lparr>CheckServiceResponse = demoString, CheckSessionResp = (\<lambda>_. None),
     StartSessionResp = (\<lambda>v. map_option (\<lambda>s. \<lparr>respToken = s, respCallbackUrl = Some ''http://b/''\<rparr>) (demoString v)),
     GetCombinedSignatureResp = demoString,
     DeployWalletResp = (\<lambda>v. map_option DeployWalletDeployed (demoString v)),
     SubmitMetaTransactionResp = demoString\<rparr>"

definition demoChain :: "(nat, string) wallet_chain" where
  "demoChain = \<lparr>getCode = (\<lambda>a. ret ''proxy''), soliditySha3 = (\<lambda>s. Some PROXY_BYTECODE_SHA3),
     ethCall = (\<lambda>a d. ret ''raw''), getImplementationSignature = ''0x42404e07'',
     decodeAddress = (\<lambda>raw. Inr ''0x1M''), getMetaTransactionWallet = ret,
     walletSigner = (\<lambda>m. ret ''0xAcc'')\<rparr>"

definition demoPort :: "(nat, string) kit_port" where
  "demoPort = \<lparr>kpFetch = demoFetch, kpCodecs = demoCodecs, kpChain = demoChain,
     getTransactionReceipt = (\<lambda>h w. (Inr (if w < 2 then None
        else Some \<lparr>receiptStatus = True, receiptTo = ''0xDD'', receiptBlockNumber = 7\<rparr>), Suc w)),
     kpSleep = (\<lambda>ms. ret ()),
     mtwAddress = id, mtwNonce = (\<lambda>m. ret 5),
     signMetaTransaction = (\<lambda>m txo nonce. ret (JArr [txo, case nonce of None \<Rightarrow> JNull | Some n \<Rightarrow> JNum (of_int n)])),
     executeMetaTransaction = (\<lambda>m txo sig. JArr [txo, sig]),
     toRawTransaction = (\<lambda>txo. \<lparr>destination = ''0xAA'', txValue = ''0'', data = ''0x''\<rparr>),
     getAttestations = ret JNull, approveAttestationFee = (\<lambda>a n. ret (JStr ''approve'')),
     attRequest = (\<lambda>a i n. ret (JStr ''request'')), waitForSelectingIssuers = (\<lambda>a i m. ret ()),
     attSelectIssuers = (\<lambda>a i. JStr ''select''), attComplete = (\<lambda>a i m is c. ret (JStr ''complete'')),
     getAccounts = ret JNull, generateProofOfKeyPossession = (\<lambda>a m w. ret JNull),
     accSetAccount = (\<lambda>a n d w q. JStr ''setAccount''),
     getWalletDeployer = (\<lambda>a. ret JNull), walletDeployedEventType = (\<lambda>d. ''WalletDeployed''),
     getWalletDeployedEvents = (\<lambda>d f t. ret []),
     signTypedData = (\<lambda>a d. ret JNull), serializeSignature = (\<lambda>s. ''0xsig''),
     getBlindedPhoneNumber = (\<lambda>n c. ret ''blinded''),
     getPhoneNumberIdentifierFromSignature = (\<lambda>n s c. ret (''hash'', ''pepper''))\<rparr>"

definition demoKit :: "string kit_state" where
  "demoKit = newKit celo_base_std ''0xACC''
     \<lparr>inUrl = ''http://a'', inToken = None, inTxRetryTimeoutMs = None, inTxPollingIntervalMs = None\<rparr>"

lemma deployed_verified:
  assumes "kitDeployWallet cb p impl (s, w) = (Inr (Ok addr), (s', w'))"
  shows "s' = s \<and> (\<exists>u v. verifyWallet cb (kpChain p) addr [impl] (kitAccount s) u = (Inr (Ok ()), v))"
proof -
  have frame: "preserves (\<lambda>(t, _). t = s) (deployWalletOnce cb p impl)"
    by (rule preservesI) (auto dest: deploy_frame)
  from retried_from_attempt [OF assms [unfolded kitDeployWallet_def] frame] obtain u v where
    "deployWalletOnce cb p impl (s, u) = (Inr (Ok addr), (s', w'))"
    by (auto intro: keeps)
  then show ?thesis by (auto dest: deploy_frame deployWalletOnce_verified)
qed

text \<open>
  C17. A wallet address that \<open>deployWallet\<close> returns, after any number of retries, is the address of
  a contract that passed the verification against the requested implementation and the user's own
  account; no field of the kit was written.
\<close>

lemma kitDeployWallet_verified:
  assumes "kitDeployWallet cb p impl (s, w) = (Inr (Ok addr), (s', w'))"
  shows "s' = s \<and> (\<exists>u v. verifyWallet cb (kpChain p) addr [impl] (kitAccount s) u = (Inr (Ok ()), v))"
  using assms by (rule deployed_verified)

lemma demoKit_account: "kitAccount demoKit = ''0xacc''"
  by code_simp

lemma demoPort_chain: "kpChain demoPort = demoChain"
  by (simp add: demoPort_def)

lemma kitDeployWallet_verified_witness:
  "\<exists>u v. verifyWallet celo_base_std demoChain ''0xAA'' [''0x1m''] ''0xacc'' u = (Inr (Ok ()), v)"
proof -
  have "kitDeployWallet celo_base_std demoPort ''0x1m'' (demoKit, 0) = (Inr (Ok ''0xAA''), (demoKit, 0))"
    by code_simp
  from kitDeployWallet_verified [OF this] show ?thesis
    unfolding demoPort_chain demoKit_account by blast
qed

text \<open>
  C18. With a positive polling interval, the \<open>while\<close> loop of \<open>waitForReceipt\<close> always ends, and on a
  chain that has the receipt from the poll number \<open>k\<close> on it returns it exactly when that poll is
  made before the timeout (\<open>k * interval < timeout\<close>), as a success or a revert by its status, and the
  timeout error otherwise, after at most \<open>\<lceil>timeout / interval\<rceil>\<close> polls.
\<close>

lemma waitForReceipt_outcome:
  assumes "receipt_at p pollsOf txHash k r" and "0 < txPollingIntervalMs (kitOptions s)"
    and "pollsOf w = 0"
  shows "receipt_loop p (kitOptions s) txHash 0 w
           = Some (receiptWithin p (kitOptions s) txHash (maxPolls (kitOptions s)) w)
       \<and> (\<exists>w'. waitForReceipt p txHash (s, w) =
           (Inr (if int k * txPollingIntervalMs (kitOptions s) < txRetryTimeoutMs (kitOptions s)
                 then if receiptStatus r then Ok r else Err (TxErr (TxRevertError txHash []))
                 else Err (TxErr TxTimeoutError)), (s, w'))
         \<and> pollsOf w' \<le> maxPolls (kitOptions s))"
  by (intro conjI receipt_loop_returns [OF assms(2)] waitForReceipt_polls [OF assms])

lemma demoPort_receipt_at:
  "receipt_at demoPort id h 2 \<lparr>receiptStatus = True, receiptTo = ''0xDD'', receiptBlockNumber = 7\<rparr>"
  by (auto simp: receipt_at_def demoPort_def)

lemma waitForReceipt_outcome_witness:
  "\<exists>w'. waitForReceipt demoPort ''0xAA'' (demoKit, 0) =
     (Inr (Ok \<lparr>receiptStatus = True, receiptTo = ''0xDD'', receiptBlockNumber = 7\<rparr>), (demoKit, w'))"
proof -
  have opts: "txPollingIntervalMs (kitOptions demoKit) = 100" "txRetryTimeoutMs (kitOptions demoKit) = 20000"
    by code_simp+
  show ?thesis
    using waitForReceipt_outcome [OF demoPort_receipt_at, of demoKit 0 "''0xAA''"] by (auto simp: opts)
qed

lemma getLoginSignature_frame:
  "getLoginSignature p t (s, w) = (r, (s', w')) \<Longrightarrow> s' = s"
proof -
  have "preserves (\<lambda>(u, _). u = s) (getLoginSignature p t)"
    unfolding getLoginSignature_def by (intro keeps) auto
  then show "getLoginSignature p t (s, w) = (r, (s', w')) \<Longrightarrow> s' = s"
    by (auto dest: preservesD)
qed

lemma butlast_slash: "s \<noteq> [] \<Longrightarrow> last s = CHR ''/'' \<Longrightarrow> butlast s @ ''/'' = s"
  by (metis append_butlast_last_id)

text \<open>
  A session that starts gives the kit the token the service issued: the request the client
  builds next for any action carries it as a bearer token, is sent to the callback URL when the
  service gave one, and to the URL configured before otherwise; account, options and wallet are
  those from before.
\<close>

lemma kitStartSession_authenticates:
  assumes "kitStartSession p captcha (s, w) = (Inr (Ok r), (s', w'))" and "respToken r \<noteq> []"
  shows "(''Authorization'', ''Bearer '' @ respToken r) \<in> set (reqHeaders (buildRequest (kitClient s') act))
       \<and> reqUrl (buildRequest (kitClient s') act) =
           (case respCallbackUrl r of
              None \<Rightarrow> callbackUrl (kitClient s)
            | Some url \<Rightarrow> if url = [] then callbackUrl (kitClient s)
                         else if last url = CHR ''/'' then url else url @ ''/'') @ actPath act
       \<and> sameIdentity s s' \<and> kitWallet s' = kitWallet s"
proof -
  from assms(1) obtain sig s1 w1 s2 w2 where
    1: "getLoginSignature p captcha (s, w) = (Inr (Ok sig), (s1, w1))" and
    2: "exec kitClient (kpFetch p) (startSessionAction (kpCodecs p) captcha (kitAccount s1) sig) (s1, w1)
        = (Inr (Ok r) :: thrown + _, (s2, w2))" and
    3: "s' = s2\<lparr>kitClient := (case respCallbackUrl r of None \<Rightarrow> setToken (respToken r) (kitClient s2)
             | Some url \<Rightarrow> if url = [] then setToken (respToken r) (kitClient s2)
                 else setCallbackUrl url (setToken (respToken r) (kitClient s2)))\<rparr>"
    by (auto simp: kitStartSession_def runs)
  from 1 2 have "s2 = s" by (auto dest: getLoginSignature_frame exec_frame)
  with 3 assms(2) show ?thesis
    by (auto simp: buildRequest_def setToken_def setCallbackUrl_def sameIdentity_def butlast_slash split: option.split)
qed

lemma kitStartSession_authenticates_witness:
  "\<exists>s'. (''Authorization'', ''Bearer session-token'')
      \<in> set (reqHeaders (buildRequest (kitClient (s' :: string kit_state)) (checkSessionAction demoCodecs)))"
proof -
  have "\<exists>s' w'. kitStartSession demoPort ''captcha'' (demoKit, 0)
      = (Inr (Ok \<lparr>respToken = ''session-token'', respCallbackUrl = Some ''http://b/''\<rparr>), (s', w'))"
    by (intro exI) code_simp
  then obtain s' w' where "kitStartSession demoPort ''captcha'' (demoKit, 0)
      = (Inr (Ok \<lparr>respToken = ''session-token'', respCallbackUrl = Some ''http://b/''\<rparr>), (s', w'))" by blast
  from kitStartSession_authenticates [OF this, of "checkSessionAction demoCodecs"] show ?thesis
    by auto
qed

definition sameConfig :: "'m kit_state \<Rightarrow> 'm kit_state \<Rightarrow> bool" where
  "sameConfig s t \<longleftrightarrow>
     kitAccount t = kitAccount s \<and> kitOptions t = kitOptions s \<and> kitClient t = kitClient s"

lemma kitGetWallet_wallet:
  "kitGetWallet p addr (s, w) = (Inr m, (s', w')) \<Longrightarrow>
   mtwAddress p m = addr \<or> (\<exists>v v'. getMetaTransactionWallet (kpChain p) addr v = (Inr m, v'))"
  by (auto simp: kitGetWallet_def runs)

lemma preserves_kitGetWallet:
  assumes "\<And>s w w'. P (s, w) \<Longrightarrow> P (s, w')" and "\<And>s w m. P (s, w) \<Longrightarrow> P (s\<lparr>kitWallet := m\<rparr>, w)"
  shows "preserves P (kitGetWallet p addr)"
  unfolding kitGetWallet_def by (intro keeps) (auto dest: assms)

text \<open>
  The two meta-transactions of \<open>requestAttestations\<close> are signed by the wallet at the requested
  address with consecutive nonces, the wallet's current one for the approval and the next one for
  the request, and are sent together in one request with the number of attestations asked for.
\<close>

lemma requestAttestations_nonces:
  assumes "kitRequestAttestations p addr identifier n (s, w) = (Inr (Ok r), (s', w'))"
  shows "\<exists>t u m nonce approveTx approveSig requestTx requestSig txHash v1 v2 v3 v4 v5 v6.
           sameConfig s t
         \<and> (mtwAddress p m = addr \<or> (\<exists>v v'. getMetaTransactionWallet (kpChain p) addr v = (Inr m, v')))
         \<and> mtwNonce p m v1 = (Inr nonce, v2)
         \<and> signMetaTransaction p m approveTx (Some nonce) v3 = (Inr approveSig, v4)
         \<and> signMetaTransaction p m requestTx (Some (nonce + 1)) v5 = (Inr requestSig, v6)
         \<and> exec kitClient (kpFetch p)
             (requestSubsidisedAttestationsAction (kpCodecs p) identifier n addr
               (toRawTransaction p (executeMetaTransaction p m requestTx requestSig))
               (toRawTransaction p (executeMetaTransaction p m approveTx approveSig))) (t, v6)
           = (Inr (Ok txHash) :: thrown + _, (t, u))
         \<and> waitForReceipt p txHash (t, u) = (Inr (Ok r), (s', w'))"
proof -
  have frame: "preserves (\<lambda>(t, _). sameConfig s t) (requestAttestationsOnce p addr identifier n)"
    unfolding requestAttestationsOnce_def
    by (intro keeps preserves_exec preserves_kitGetWallet) (auto simp: Let_def sameConfig_def)
  from retried_from_attempt [OF assms [unfolded kitRequestAttestations_def] frame] obtain t0 w0 where
    same: "sameConfig s t0" and
    run: "requestAttestationsOnce p addr identifier n (t0, w0) = (Inr (Ok r), (s', w'))"
    by (auto intro: keeps simp: sameConfig_def)
  from run obtain atts w1 m t w2 nonce w3 approveTx w4 approveSig w5 requestTx w6 requestSig w7 txHash t' u where
    "getAttestations p w0 = (Inr atts, w1)" and
    m: "kitGetWallet p addr (t0, w1) = (Inr m, (t, w2))" and
    "mtwNonce p m w2 = (Inr nonce, w3)"
    "approveAttestationFee p atts n w3 = (Inr approveTx, w4)"
    "signMetaTransaction p m approveTx (Some nonce) w4 = (Inr approveSig, w5)"
    "attRequest p atts identifier n w5 = (Inr requestTx, w6)"
    "signMetaTransaction p m requestTx (Some (nonce + 1)) w6 = (Inr requestSig, w7)" and
    ex: "exec kitClient (kpFetch p)
       (requestSubsidisedAttestationsAction (kpCodecs p) identifier n addr
         (toRawTransaction p (executeMetaTransaction p m requestTx requestSig))
         (toRawTransaction p (executeMetaTransaction p m approveTx approveSig))) (t, w7)
     = (Inr (Ok txHash) :: thrown + _, (t', u))" and
    "waitForReceipt p txHash (t', u) = (Inr (Ok r), (s', w'))"
    by (auto simp: requestAttestationsOnce_def runs)
  moreover from ex have "t' = t" by (rule exec_frame)
  moreover have "sameConfig s t"
    using preservesD [OF preserves_kitGetWallet [of "\<lambda>(t, _). sameConfig s t"] _ m] same
    by (auto simp: sameConfig_def)
  ultimately show ?thesis using kitGetWallet_wallet [OF m] by blast
qed


lemma requestAttestations_nonces_witness:
  "\<exists>m sig v v'. signMetaTransaction demoPort m (JStr ''request'') (Some 6) v = (Inr sig, v')"
proof -
  have "\<exists>s' w'. kitRequestAttestations demoPort ''0xW'' ''id'' 3 (demoKit, 0)
      = (Inr (Ok \<lparr>receiptStatus = True, receiptTo = ''0xDD'', receiptBlockNumber = 7\<rparr>), (s', w'))"
    by (intro exI) code_simp
  then obtain s' w' where "kitRequestAttestations demoPort ''0xW'' ''id'' 3 (demoKit, 0)
      = (Inr (Ok \<lparr>receiptStatus = True, receiptTo = ''0xDD'', receiptBlockNumber = 7\<rparr>), (s', w'))" by blast
  from requestAttestations_nonces [OF this] show ?thesis
    by (auto simp: demoPort_def)
qed

end
