(* ===== verification/Logger_Lib.thy ===== *)
theory Logger_Lib
  imports Core_Lib
begin

text \<open>
  \<open>packages/libs/logger\<close> and \<open>packages/libs/analytics\<close>: the application events with their
  payloads (\<open>events.ts\<close>), the calls the logger service makes to pino
  (\<open>komenci-logger.service.ts\<close>), the exception filters that turn a thrown error into a response
  (\<open>filters/\<close>), the severity labels (\<open>logger-config.factory.ts\<close>) and the table names of
  \<open>analytics.service.ts\<close>. The component theories record what they log as a list of entries.
\<close>

section \<open>Events (events.ts)\<close>

datatype not_rewarded_reason =
    NotStableTokenInvite
  | NotKomenciRedeem
  | NoInviteeFound
  | InviterNotVerified
  | InviteeNotVerified
  | InviterReachedWeeklyLimit
  | InviteeAlreadyInvited

datatype sending_status = SendSubmitted | SendCompleted | SendFailed | SendDeadLettered

fun reason_name :: "not_rewarded_reason \<Rightarrow> string" where
  "reason_name NotStableTokenInvite = ''NotStableTokenInvite''"
| "reason_name NotKomenciRedeem = ''NotKomenciRedeem''"
| "reason_name NoInviteeFound = ''NoInviteeFound''"
| "reason_name InviterNotVerified = ''InviterNotVerified''"
| "reason_name InviteeNotVerified = ''InviteeNotVerified''"
| "reason_name InviterReachedWeeklyLimit = ''InviterReachedWeeklyLimit''"
| "reason_name InviteeAlreadyInvited = ''InviteeAlreadyInvited''"

fun sending_status_name :: "sending_status \<Rightarrow> string" where
  "sending_status_name SendSubmitted = ''Submitted''"
| "sending_status_name SendCompleted = ''Completed''"
| "sending_status_name SendFailed = ''Failed''"
| "sending_status_name SendDeadLettered = ''DeadLettered''"

text \<open>One constructor per event type, with the fields of its payload in order\<close>

datatype (plugins only: code size) event =
    EvRelayerProxyInit string int
  | EvSessionStart string string
  | EvSessionStartFailure string string
  | EvRuleVerified string string bool
  | EvDeployWalletTxSent string string string
  | EvPepperRequested string string string string "string option"
  | EvAttestationsRequested string string string string rat string
  | EvMetaTransactionSubmitted string string string string string int
  | EvChildMetaTransactionSubmitted string string string string string string string string string
  | EvRelayerMTWInit string
  | EvTxSubmitted string string int rat int int
  | EvTxConfirmed string string int string int int int
  | EvRelayerBalance rat rat
  | EvTxDeadletter string string int string string
  | EvTxSpeedUp string string int string
  | EvGasPriceUpdate rat bool
  | EvUnexpectedError string string
  | EvEscrowWithdrawalEventsFetched int int
  | EvInviteRewardCreated string string string string string
  | EvInviteNotRewarded string string "string option" string not_rewarded_reason
  | EvRewardSendingStatus sending_status "string option" string
  | EvRelayerSendingError string string
  | EvAttestationEventsFetched int int
  | EvAttestationCompleted string string string string
  | EvAddressMappingsEventsFetched int int
  | EvAccountWalletAddressSet string string string

fun event_name :: "event \<Rightarrow> string" where
  "event_name (EvRelayerProxyInit _ _) = ''RelayerProxyInit''"
| "event_name (EvSessionStart _ _) = ''SessionStart''"
| "event_name (EvSessionStartFailure _ _) = ''SessionStartFailure''"
| "event_name (EvRuleVerified _ _ _) = ''RuleVerified''"
| "event_name (EvDeployWalletTxSent _ _ _) = ''DeployWalletTxSent''"
| "event_name (EvPepperRequested _ _ _ _ _) = ''PepperRequested''"
| "event_name (EvAttestationsRequested _ _ _ _ _ _) = ''AttestationsRequested''"
| "event_name (EvMetaTransactionSubmitted _ _ _ _ _ _) = ''MetaTransactionSubmitted''"
| "event_name (EvChildMetaTransactionSubmitted _ _ _ _ _ _ _ _ _) = ''ChildMetaTransactionSubmitted''"
| "event_name (EvRelayerMTWInit _) = ''RelayerMTWInit''"
| "event_name (EvTxSubmitted _ _ _ _ _ _) = ''TxSubmitted''"
| "event_name (EvTxConfirmed _ _ _ _ _ _ _) = ''TxConfirmed''"
| "event_name (EvRelayerBalance _ _) = ''RelayerBalance''"
| "event_name (EvTxDeadletter _ _ _ _ _) = ''TxDeadletter''"
| "event_name (EvTxSpeedUp _ _ _ _) = ''TxSpeedUp''"
| "event_name (EvGasPriceUpdate _ _) = ''GasPriceUpdate''"
| "event_name (EvUnexpectedError _ _) = ''UnexpectedError''"
| "event_name (EvEscrowWithdrawalEventsFetched _ _) = ''EscrowWithdrawalEventsFetched''"
| "event_name (EvInviteRewardCreated _ _ _ _ _) = ''InviteRewardCreated''"
| "event_name (EvInviteNotRewarded _ _ _ _ _) = ''InviteNotRewarded''"
| "event_name (EvRewardSendingStatus _ _ _) = ''RewardSendingStatus''"
| "event_name (EvRelayerSendingError _ _) = ''RelayerSendingError''"
| "event_name (EvAttestationEventsFetched _ _) = ''AttestationEventsFetched''"
| "event_name (EvAttestationCompleted _ _ _ _) = ''AttestationCompleted''"
| "event_name (EvAddressMappingsEventsFetched _ _) = ''AddressMappingsEventsFetched''"
| "event_name (EvAccountWalletAddressSet _ _ _) = ''AccountWalletAddressSet''"

fun nullable :: "string option \<Rightarrow> js_value" where
  "nullable None = JNull"
| "nullable (Some s) = JStr s"

fun payload :: "event \<Rightarrow> (string \<times> js_value) list" where
  "payload (EvRelayerProxyInit a b) =
     [(''host'', JStr a), (''port'', JNum (of_int b))]"
| "payload (EvSessionStart a b) =
     [(''externalAccount'', JStr a), (''sessionId'', JStr b)]"
| "payload (EvSessionStartFailure a b) =
     [(''externalAccount'', JStr a), (''sessionId'', JStr b)]"
| "payload (EvRuleVerified a b c) =
     [(''externalAccount'', JStr a), (''ruleId'', JStr b), (''result'', JBool c)]"
| "payload (EvDeployWalletTxSent a b c) =
     [(''externalAccount'', JStr a), (''sessionId'', JStr b), (''txHash'', JStr c)]"
| "payload (EvPepperRequested a b c d e) =
     [(''externalAccount'', JStr a), (''sessionId'', JStr b), (''relayerAddress'', JStr c),
      (''blindedPhoneNumber'', JStr d),
      (''clientVersion'', (case e of None \<Rightarrow> JUndefined | Some v \<Rightarrow> JStr v))]"
| "payload (EvAttestationsRequested a b c d e f) =
     [(''externalAccount'', JStr a), (''sessionId'', JStr b), (''relayerAddress'', JStr c),
      (''txHash'', JStr d), (''attestationsRequested'', JNum e), (''identifier'', JStr f)]"
| "payload (EvMetaTransactionSubmitted a b c d e f) =
     [(''externalAccount'', JStr a), (''sessionId'', JStr b), (''relayerAddress'', JStr c),
      (''txHash'', JStr d), (''destination'', JStr e), (''childTxsCount'', JNum (of_int f))]"
| "payload (EvChildMetaTransactionSubmitted a b c d e f g h i) =
     [(''externalAccount'', JStr a), (''sessionId'', JStr b), (''relayerAddress'', JStr c),
      (''txHash'', JStr d), (''destination'', JStr e), (''value'', JStr f), (''methodId'',
      JStr g), (''methodName'', JStr h), (''contractName'', JStr i)]"
| "payload (EvRelayerMTWInit a) =
     [(''mtwAddress'', JStr a)]"
| "payload (EvTxSubmitted a b c d e f) =
     [(''destination'', JStr a), (''txHash'', JStr b), (''nonce'', JNum (of_int c)),
      (''gasPrice'', JNum d), (''lockAcquiredDuration'', JNum (of_int e)), (''sendDuration'',
      JNum (of_int f))]"
| "payload (EvTxConfirmed a b c d e f g) =
     [(''destination'', JStr a), (''txHash'', JStr b), (''nonce'', JNum (of_int c)),
      (''status'', JStr d), (''gasPrice'', JNum (of_int e)), (''gasUsed'', JNum (of_int f)),
      (''gasCost'', JNum (of_int g))]"
| "payload (EvRelayerBalance a b) =
     [(''cUSD'', JNum a), (''celo'', JNum b)]"
| "payload (EvTxDeadletter a b c d e) =
     [(''destination'', JStr a), (''txHash'', JStr b), (''nonce'', JNum (of_int c)),
      (''reason'', JStr d), (''deadLetterHash'', JStr e)]"
| "payload (EvTxSpeedUp a b c d) =
     [(''destination'', JStr a), (''txHash'', JStr b), (''nonce'', JNum (of_int c)),
      (''prevTxHash'', JStr d)]"
| "payload (EvGasPriceUpdate a b) =
     [(''gasPriceGwei'', JNum a), (''cappedAtMax'', JBool b)]"
| "payload (EvUnexpectedError a b) =
     [(''origin'', JStr a), (''error'', JStr b)]"
| "payload (EvEscrowWithdrawalEventsFetched a b) =
     [(''eventCount'', JNum (of_int a)), (''fromBlock'', JNum (of_int b))]"
| "payload (EvInviteRewardCreated a b c d e) =
     [(''txHash'', JStr a), (''inviteId'', JStr b), (''inviter'', JStr c), (''invitee'', JStr
      d), (''paymentId'', JStr e)]"
| "payload (EvInviteNotRewarded a b c d e) =
     [(''txHash'', JStr a), (''inviter'', JStr b), (''invitee'', nullable c), (''paymentId'',
      JStr d), (''reason'', JStr (reason_name e))]"
| "payload (EvRewardSendingStatus a b c) =
     [(''status'', JStr (sending_status_name a)), (''txHash'', nullable b), (''inviteId'',
      JStr c)]"
| "payload (EvRelayerSendingError a b) =
     [(''inviteId'', JStr a), (''error'', JStr b)]"
| "payload (EvAttestationEventsFetched a b) =
     [(''eventCount'', JNum (of_int a)), (''fromBlock'', JNum (of_int b))]"
| "payload (EvAttestationCompleted a b c d) =
     [(''txHash'', JStr a), (''issuer'', JStr b), (''address'', JStr c), (''identifier'', JStr
      d)]"
| "payload (EvAddressMappingsEventsFetched a b) =
     [(''eventCount'', JNum (of_int a)), (''fromBlock'', JNum (of_int b))]"
| "payload (EvAccountWalletAddressSet a b c) =
     [(''txHash'', JStr a), (''walletAddress'', JStr b), (''accountAddress'', JStr c)]"

section \<open>Log entries and their rendering (komenci-logger.service.ts)\<close>

text \<open>\<open>RelayerTraceContext\<close>: a trace id and labels\<close>

record trace_context =
  traceId :: string
  labels :: "(string \<times> string) list"

datatype log_level = LTrace | LDebug | LInfo | LWarn | LError

text \<open>What a component asks the logger to do\<close>

datatype log_entry =
    LogEvent event "trace_context option"
  | LogThrown log_level thrown
  | LogThrownCtx log_level thrown "trace_context option"
  | LogText log_level string

text \<open>
  A call of a pino method: its level and its arguments. The object spread \<open>{...a, ...b}\<close>
  overwrites the keys of \<open>a\<close> by those of \<open>b\<close>.
\<close>

datatype pino_call = PinoCall log_level "js_value list"

definition spread :: "(string \<times> js_value) list \<Rightarrow> (string \<times> js_value) list \<Rightarrow> (string \<times> js_value) list"
  where "spread a b = fold (\<lambda>(k, v) acc. AList.update k v acc) b a"

lemma map_of_fold_update:
  "map_of (fold (\<lambda>(k, v) acc. AList.update k v acc) b a) k =
     (case map_of (rev b) k of Some v \<Rightarrow> Some v | None \<Rightarrow> map_of a k)"
proof (induction b arbitrary: a)
  case Nil
  then show ?case by simp
next
  case (Cons x b)
  obtain k' v' where x: "x = (k', v')" by (cases x)
  show ?case
    by (auto simp: x Cons.IH update_conv' map_add_def split: option.split)
qed

lemma map_of_spread:
  "map_of (spread a b) k = (case map_of (rev b) k of Some v \<Rightarrow> Some v | None \<Rightarrow> map_of a k)"
  by (simp add: spread_def map_of_fold_update)

definition expandContext :: "trace_context \<Rightarrow> (string \<times> js_value) list" where
  "expandContext ctx =
     spread [(''logging.googleapis.com/trace'', JStr (traceId ctx))]
       (map (\<lambda>(k, v). (k, JStr v)) (labels ctx))"

definition contextProps :: "trace_context option \<Rightarrow> (string \<times> js_value) list" where
  "contextProps ctx = (case ctx of None \<Rightarrow> [] | Some c \<Rightarrow> expandContext c)"

definition errorTypeValue :: "error_object \<Rightarrow> js_value" where
  "errorTypeValue e = (case errorType e of Some t \<Rightarrow> JStr t | None \<Rightarrow> JUndefined)"

text \<open>
  \<open>logError\<close> and \<open>logWithContext\<close>; the stack of an error and nest's \<open>isError\<close> are parameters.
  An error that is none of the four classes is logged as it is by the first and not logged at
  all by the second.
\<close>

definition logError ::
    "(error_object \<Rightarrow> js_value) \<Rightarrow> (thrown \<Rightarrow> bool) \<Rightarrow> (thrown \<Rightarrow> js_value) \<Rightarrow>
     log_level \<Rightarrow> thrown \<Rightarrow> pino_call" where
  "logError stack isError toValue level t =
     (case t of
        ErrorObject e \<Rightarrow>
          if isApiError t \<or> isMetadataError t
          then PinoCall level [JObj (spread [(''error'', errorTypeValue e)] (getMetadata e)), stack e]
          else if isRootError t
          then PinoCall level [JObj [(''error'', errorTypeValue e)], stack e]
          else if isError t then PinoCall level [stack e, JUndefined]
          else PinoCall level [toValue t, JUndefined]
      | NonError v \<Rightarrow>
          if isRootError t
          then PinoCall level [JObj [(''error'', (case v of JObj kvs \<Rightarrow>
                  (case map_of kvs ''errorType'' of Some x \<Rightarrow> x | None \<Rightarrow> JUndefined)
                | _ \<Rightarrow> JUndefined))], JUndefined]
          else PinoCall level [toValue t, JUndefined])"

definition logWithContext ::
    "(error_object \<Rightarrow> js_value) \<Rightarrow> (thrown \<Rightarrow> bool) \<Rightarrow>
     log_level \<Rightarrow> error_object \<Rightarrow> trace_context option \<Rightarrow> pino_call option" where
  "logWithContext stack isError level e ctx =
     (let t = ErrorObject e; context = contextProps ctx
      in if isApiError t \<or> isMetadataError t
         then Some (PinoCall level
                [JObj (spread (spread [(''error'', errorTypeValue e), (''message'', JStr (message e))]
                                      (getMetadata e)) context)])
         else if isRootError t
         then Some (PinoCall level
                [JObj (spread [(''error'', errorTypeValue e), (''message'', JStr (message e))] context),
                 stack e])
         else if isError t
         then Some (PinoCall level
                [JObj (spread [(''message'', JStr (message e))] context), stack e])
         else None)"

definition logEvent :: "event \<Rightarrow> trace_context option \<Rightarrow> pino_call" where
  "logEvent ev ctx =
     PinoCall LInfo
       [JObj (spread (spread [(''event'', JStr (event_name ev))] (payload ev)) (contextProps ctx)),
        JStr (event_name ev)]"

text \<open>An event keeps its name whatever its payload and labels hold, unless they name that key.\<close>

lemma payload_no_event_key: "''event'' \<notin> fst ` set (payload ev)"
  by (cases ev) simp_all

section \<open>Exception filters (filters/)\<close>

text \<open>
  \<open>ApiErrorFilter.handleUnknownError\<close>: the HTTP reply, status and body, to an error that is not
  one of nest's own HTTP exceptions.
\<close>

definition UNKNOWN_EXCEPTION_BODY :: "string \<Rightarrow> (string \<times> js_value) list" where
  "UNKNOWN_EXCEPTION_BODY unknown_message =
     [(''statusCode'', JNum 500), (''message'', JStr unknown_message)]"

definition handleUnknownError :: "string \<Rightarrow> thrown \<Rightarrow> int \<times> (string \<times> js_value) list" where
  "handleUnknownError unknown_message t =
     (case t of
        ErrorObject e \<Rightarrow>
          (case errorClass e of
             ApiError code \<Rightarrow> (code, toJSON e)
           | _ \<Rightarrow> (500, UNKNOWN_EXCEPTION_BODY unknown_message))
      | NonError _ \<Rightarrow> (500, UNKNOWN_EXCEPTION_BODY unknown_message))"

text \<open>
  \<open>RpcErrorFilter.catch\<close>: what the relayer sends back over TCP for a thrown error.
\<close>

definition rpcErrorPayload :: "(thrown \<Rightarrow> bool) \<Rightarrow> thrown \<Rightarrow> js_value" where
  "rpcErrorPayload isError t =
     (case t of
        ErrorObject e \<Rightarrow>
          if isMetadataError t
          then JObj [(''errorType'', errorTypeValue e), (''message'', JStr (message e)),
                     (''metadata'', JObj (getMetadata e))]
          else if isRootError t
          then JObj [(''errorType'', errorTypeValue e), (''message'', JStr (message e))]
          else if isError t
          then JObj [(''errorType'', JStr ''Exception''), (''message'', JStr (message e))]
          else JObj (ownProps e)
      | NonError v \<Rightarrow>
          if isRootError t
          then (case v of JObj kvs \<Rightarrow>
                  JObj [(''errorType'', the (map_of kvs ''errorType'')),
                        (''message'', (case map_of kvs ''message'' of
                                         Some m \<Rightarrow> m | None \<Rightarrow> JUndefined))]
                | _ \<Rightarrow> v)
          else if isError t
          then JObj [(''errorType'', JStr ''Exception''),
                     (''message'', (case v of JObj kvs \<Rightarrow>
                          (case map_of kvs ''message'' of Some m \<Rightarrow> m | None \<Rightarrow> JUndefined)
                        | _ \<Rightarrow> JUndefined))]
          else v)"

section \<open>Severity and labels (logger-config.factory.ts)\<close>

record service_config =
  svcVersion :: string
  svcName :: string

fun levelToSeverity :: "string \<Rightarrow> js_value" where
  "levelToSeverity label =
     (case map_of [(''trace'', ''DEBUG''), (''debug'', ''DEBUG''), (''info'', ''INFO''),
                   (''warn'', ''WARNING''), (''error'', ''ERROR''), (''fatal'', ''CRITICAL'')] label of
        Some s \<Rightarrow> JStr s | None \<Rightarrow> JUndefined)"

definition levelFormatter :: "service_config \<Rightarrow> string \<Rightarrow> (string \<times> js_value) list" where
  "levelFormatter cfg label =
     (''severity'', levelToSeverity label) #
     (if label = ''error'' \<or> label = ''fatal''
      then [(''@type'', JStr (''type.googleapis.com/google.devtools.'' @
               ''clouderrorreporting.v1beta1.ReportedErrorEvent'')),
            (''serviceContext'', JObj [(''service'', JStr (svcName cfg)),
                                       (''version'', JStr (svcVersion cfg))])]
      else [])"

definition buildLabels :: "service_config \<Rightarrow> (string \<times> js_value) list \<Rightarrow> (string \<times> js_value) list"
  where "buildLabels cfg extra =
     [(''logging.googleapis.com/labels'',
       JObj (spread [(''service'', JStr (svcName cfg)), (''version'', JStr (svcVersion cfg))] extra))]"

section \<open>Analytics table names (analytics.service.ts)\<close>

definition is_upper_az :: "char \<Rightarrow> bool" where
  "is_upper_az c \<longleftrightarrow> 65 \<le> (of_char c :: nat) \<and> (of_char c :: nat) \<le> 90"

definition is_lower_az :: "char \<Rightarrow> bool" where
  "is_lower_az c \<longleftrightarrow> 97 \<le> (of_char c :: nat) \<and> (of_char c :: nat) \<le> 122"

text \<open>\<open>event.replace(/([A-Z])/g, ' $1')\<close>\<close>

fun space_capitals :: "string \<Rightarrow> string" where
  "space_capitals [] = []"
| "space_capitals (c # cs) =
     (if is_upper_az c then CHR '' '' # c # space_capitals cs else c # space_capitals cs)"

text \<open>\<open>trim()\<close> for the white space among these characters\<close>

definition is_space :: "char \<Rightarrow> bool" where
  "is_space c \<longleftrightarrow> (of_char c :: nat) \<in> {9, 10, 11, 12, 13, 32, 160}"

definition js_trim :: "string \<Rightarrow> string" where
  "js_trim s = rev (dropWhile is_space (rev (dropWhile is_space s)))"

definition toTableName :: "string \<Rightarrow> string" where
  "toTableName ev =
     js_lower (map (\<lambda>c. if c = CHR '' '' then CHR ''_'' else c) (js_trim (space_capitals ev)))"

text \<open>\<open>trackEvent\<close>: the event is logged, and sent to Segment when an API key was configured.\<close>

record segment_track =
  anonymousId :: string
  trackedEvent :: string
  properties :: "(string \<times> js_value) list"

definition trackEvent :: "bool \<Rightarrow> rat \<Rightarrow> event \<Rightarrow> log_entry list \<times> segment_track list" where
  "trackEvent hasApiKey now_ms ev =
     ([LogEvent ev None],
      if hasApiKey
      then [\<lparr>anonymousId = ''rewards-service'', trackedEvent = toTableName (event_name ev),
             properties = spread [(''timestamp'', JNum (now_ms / 1000))] (payload ev)\<rparr>]
      else [])"

end
