(* ===== verification/Session.thy ===== *)
theory Session
  imports Logger_Lib
begin

text \<open>
  \<open>packages/apps/api/src/session\<close> and \<open>config/quota.config.ts\<close>: the session entity, its service, and
  the quota guard. The repository of TypeORM, the clock and the UUID generator are the port
  \<open>session_port\<close>; what the theorems need of a repository is the predicate \<open>stores_in\<close>, and
  \<open>table_port\<close> is a repository over a list of rows that satisfies it.
\<close>

section \<open>Tracked actions (quota.config.ts)\<close>

datatype tracked_action =
    DistributedBlindedPepperAction
  | RequestSubsidisedAttestationAction
  | SubmitMetaTransactionAction

text \<open>\<open>Object.values(TrackedAction)\<close> enumerates the actions in the order of their declaration.\<close>

instantiation tracked_action :: enum
begin

definition enum_tracked_action :: "tracked_action list" where
  "enum_tracked_action =
     [DistributedBlindedPepperAction, RequestSubsidisedAttestationAction, SubmitMetaTransactionAction]"

definition enum_all_tracked_action :: "(tracked_action \<Rightarrow> bool) \<Rightarrow> bool" where
  "enum_all_tracked_action P \<longleftrightarrow> list_all P enum_class.enum"

definition enum_ex_tracked_action :: "(tracked_action \<Rightarrow> bool) \<Rightarrow> bool" where
  "enum_ex_tracked_action P \<longleftrightarrow> list_ex P enum_class.enum"

instance
proof
  have all: "(UNIV :: tracked_action set) = set enum_class.enum"
    by (auto simp: enum_tracked_action_def intro: tracked_action.exhaust)
  then show "(UNIV :: tracked_action set) = set enum_class.enum" .
  show "distinct (enum_class.enum :: tracked_action list)"
    by (simp add: enum_tracked_action_def)
  show "enum_class.enum_all P = Ball UNIV P" for P :: "tracked_action \<Rightarrow> bool"
    unfolding enum_all_tracked_action_def all by (simp add: list_all_iff)
  show "enum_class.enum_ex P = Bex UNIV P" for P :: "tracked_action \<Rightarrow> bool"
    unfolding enum_ex_tracked_action_def all by (simp add: list_ex_iff)
qed

end

fun trackedActionValue :: "tracked_action \<Rightarrow> string" where
  "trackedActionValue DistributedBlindedPepperAction = ''distributedBlindedPepper''"
| "trackedActionValue RequestSubsidisedAttestationAction = ''requestSubsidisedAttestation''"
| "trackedActionValue SubmitMetaTransactionAction = ''submitMetaTransaction''"

text \<open>
  \<open>numberFromEnv\<close> gives the parsed variable, or the default of the action when it is not set; the
  environment is given as the parsed numbers.
\<close>

definition quotaConfig :: "(string \<Rightarrow> rat option) \<Rightarrow> tracked_action \<Rightarrow> rat" where
  "quotaConfig env action =
     (case action of
        DistributedBlindedPepperAction \<Rightarrow>
          (case env ''QUOTA_DISTRIBUTED_BLINDED_PEPPER'' of Some n \<Rightarrow> n | None \<Rightarrow> 1)
      | RequestSubsidisedAttestationAction \<Rightarrow>
          (case env ''QUOTA_REQUEST_SUBSIDISED_ATTESTATION'' of Some n \<Rightarrow> n | None \<Rightarrow> 10)
      | SubmitMetaTransactionAction \<Rightarrow>
          (case env ''QUOTA_SUBMIT_META_TRANSACTION'' of Some n \<Rightarrow> n | None \<Rightarrow> 20))"

section \<open>The entity (session.entity.ts)\<close>

type_synonym action_counts = "tracked_action \<Rightarrow> rat option"

record wallet_deploy =
  startedAt :: int
  deployTxHash :: string
  deployImplementation :: string

text \<open>\<open>None\<close> as the call counts is a \<open>meta\<close> object without the property.\<close>

record session_meta =
  walletDeploy :: "wallet_deploy option"
  callCount :: "action_counts option"

record session =
  sessionId :: string
  sessionAccount :: string
  sessionMeta :: "session_meta option"
  createdAt :: int
  expiredAt :: "int option"
  completedAt :: "int option"

text \<open>
  \<open>this.meta?.callCount[action] || 0\<close>: the optional chaining guards against a missing \<open>meta\<close> only.
\<close>

definition getActionCount :: "session \<Rightarrow> tracked_action \<Rightarrow> thrown + rat" where
  "getActionCount s action =
     (case sessionMeta s of
        None \<Rightarrow> Inr 0
      | Some m \<Rightarrow>
          (case callCount m of
             None \<Rightarrow> Inl (typeError ''Cannot read property of undefined'')
           | Some counts \<Rightarrow> Inr (case counts action of None \<Rightarrow> 0 | Some n \<Rightarrow> n)))"

section \<open>The service (session.service.ts)\<close>

record 'w session_port =
  repoSave :: "session \<Rightarrow> ('w, thrown, session) io"
  repoUpdateMeta :: "string \<Rightarrow> session_meta \<Rightarrow> ('w, thrown, unit) io"
  repoFindOne :: "string \<Rightarrow> ('w, thrown, session option) io"
  repoFindLast :: "string \<Rightarrow> ('w, thrown, session option) io"
  repoDelete :: "string \<Rightarrow> ('w, thrown, unit) io"
  uuidv4 :: "('w, thrown, string) io"
  dateNow :: "('w, thrown, int) io"

definition createSession :: "celo_base \<Rightarrow> 'w session_port \<Rightarrow> string \<Rightarrow> ('w, thrown, session) io" where
  "createSession cb p account =
     andThen (uuidv4 p) (\<lambda>sid.
     andThen (dateNow p) (\<lambda>now.
     repoSave p \<lparr>sessionId = sid, sessionAccount = normalizeAddress cb account, sessionMeta = None,
                 createdAt = now, expiredAt = None, completedAt = None\<rparr>))"

text \<open>The callers of \<open>update\<close> only pass the attribute \<open>meta\<close>.\<close>

definition updateSession :: "'w session_port \<Rightarrow> string \<Rightarrow> session_meta \<Rightarrow> ('w, thrown, unit) io" where
  "updateSession p sid m = repoUpdateMeta p sid m"

definition findOneSession :: "'w session_port \<Rightarrow> string \<Rightarrow> ('w, thrown, session option) io" where
  "findOneSession p sid = repoFindOne p sid"

definition findLastForAccount ::
    "celo_base \<Rightarrow> 'w session_port \<Rightarrow> string \<Rightarrow> ('w, thrown, session option) io" where
  "findLastForAccount cb p account = repoFindLast p (trimLeading0x cb account)"

definition removeSession :: "'w session_port \<Rightarrow> string \<Rightarrow> ('w, thrown, unit) io" where
  "removeSession p sid = repoDelete p sid"

text \<open>What is left of every quota, in the order of the enumeration; it throws when a count does.\<close>

definition quotaLeft :: "(tracked_action \<Rightarrow> rat) \<Rightarrow> session \<Rightarrow> thrown + (tracked_action \<times> rat) list" where
  "quotaLeft cfg s =
     fold (\<lambda>action quota.
             case quota of
               Inl e \<Rightarrow> Inl e
             | Inr q \<Rightarrow> (case getActionCount s action of
                          Inl e \<Rightarrow> Inl e
                        | Inr n \<Rightarrow> Inr (q @ [(action, cfg action - n)])))
       enum_class.enum (Inr [])"

definition hasQuota :: "(tracked_action \<Rightarrow> rat) \<Rightarrow> session \<Rightarrow> thrown + bool" where
  "hasQuota cfg s =
     (case quotaLeft cfg s of
        Inl e \<Rightarrow> Inl e
      | Inr quota \<Rightarrow> Inr (list_all (\<lambda>(action, q). 0 < q) quota))"

definition findOrCreateForAccount ::
    "celo_base \<Rightarrow> (tracked_action \<Rightarrow> rat) \<Rightarrow> 'w session_port \<Rightarrow> string \<Rightarrow> ('w, thrown, session) io" where
  "findOrCreateForAccount cb cfg p account =
     andThen (findLastForAccount cb p account) (\<lambda>existing.
     case existing of
       None \<Rightarrow> createSession cb p account
     | Some s \<Rightarrow>
         (case hasQuota cfg s of
            Inl e \<Rightarrow> throw e
          | Inr left \<Rightarrow> if \<not> left then createSession cb p account else ret s))"

definition incrementedMeta :: "session \<Rightarrow> tracked_action \<Rightarrow> rat \<Rightarrow> session_meta" where
  "incrementedMeta s action uses =
     \<lparr>walletDeploy = (case sessionMeta s of None \<Rightarrow> None | Some m \<Rightarrow> walletDeploy m),
      callCount = Some ((case sessionMeta s of
                           None \<Rightarrow> Map.empty
                         | Some m \<Rightarrow> (case callCount m of None \<Rightarrow> Map.empty | Some c \<Rightarrow> c))
                        (action \<mapsto> uses))\<rparr>"

definition incrementUsage ::
    "'w session_port \<Rightarrow> session \<Rightarrow> tracked_action \<Rightarrow> rat \<Rightarrow> ('w, thrown, unit) io" where
  "incrementUsage p s action n =
     (case getActionCount s action of
        Inl e \<Rightarrow> throw e
      | Inr used \<Rightarrow> updateSession p (sessionId s) (incrementedMeta s action (used + n)))"

section \<open>The guard (quota.guard.ts)\<close>

definition quotaExceededError :: "tracked_action \<Rightarrow> thrown" where
  "quotaExceededError action =
     ErrorObject (api_error 429 ''QuotaExceededError''
       (''Quota exceeded on '' @ trackedActionValue action)
       [(''action'', JStr (trackedActionValue action))])"

text \<open>The action of a handler is the metadata its decorator set, if it has one.\<close>

definition canActivate ::
    "(tracked_action \<Rightarrow> rat) \<Rightarrow> tracked_action option \<Rightarrow> session \<Rightarrow> thrown + bool" where
  "canActivate cfg tracked s =
     (case tracked of
        None \<Rightarrow> Inr True
      | Some action \<Rightarrow>
          (case getActionCount s action of
             Inl e \<Rightarrow> Inl e
           | Inr usage \<Rightarrow> if cfg action \<le> usage then Inl (quotaExceededError action) else Inr True))"

text \<open>The session handed to a handler; \<open>data\<close> is the decorator's argument.\<close>

definition sessionDecorator :: "bool \<Rightarrow> session option \<Rightarrow> session option + int option" where
  "sessionDecorator completion s =
     (if completion then Inr (case s of None \<Rightarrow> None | Some t \<Rightarrow> completedAt t) else Inl s)"

section \<open>A repository as a table\<close>

text \<open>
  What the service relies on: \<open>save\<close> adds or replaces the row of its primary key, \<open>update\<close> sets the
  attribute on the row of the id, \<open>findOne\<close> returns the row of the id, or of the latest \<open>createdAt\<close>
  among those of the account. \<open>tbl\<close> reads the rows from the state.
\<close>

definition latest_of :: "string \<Rightarrow> session list \<Rightarrow> session option \<Rightarrow> bool" where
  "latest_of account rows r \<longleftrightarrow>
     (case r of
        None \<Rightarrow> \<forall>s \<in> set rows. sessionAccount s \<noteq> account
      | Some s \<Rightarrow> s \<in> set rows \<and> sessionAccount s = account \<and>
          (\<forall>t \<in> set rows. sessionAccount t = account \<longrightarrow> createdAt t \<le> createdAt s))"

definition setMeta :: "string \<Rightarrow> session_meta \<Rightarrow> session \<Rightarrow> session" where
  "setMeta sid m r = (if sessionId r = sid then r\<lparr>sessionMeta := Some m\<rparr> else r)"

definition stores_in :: "'w session_port \<Rightarrow> ('w \<Rightarrow> session list) \<Rightarrow> bool" where
  "stores_in p tbl \<longleftrightarrow>
     (\<forall>s w. \<exists>w'. repoSave p s w = (Inr s, w')
        \<and> tbl w' = s # filter (\<lambda>r. sessionId r \<noteq> sessionId s) (tbl w)) \<and>
     (\<forall>sid m w. \<exists>w'. repoUpdateMeta p sid m w = (Inr (), w') \<and> tbl w' = map (setMeta sid m) (tbl w)) \<and>
     (\<forall>sid w. \<exists>w'. repoFindOne p sid w = (Inr (find (\<lambda>r. sessionId r = sid) (tbl w)), w') \<and> tbl w' = tbl w) \<and>
     (\<forall>account w. \<exists>r w'. repoFindLast p account w = (Inr r, w') \<and> latest_of account (tbl w) r \<and> tbl w' = tbl w) \<and>
     (\<forall>sid w. \<exists>w'. repoDelete p sid w = (Inr (), w') \<and> tbl w' = filter (\<lambda>r. sessionId r \<noteq> sid) (tbl w)) \<and>
     (\<forall>w. \<exists>sid w'. uuidv4 p w = (Inr sid, w') \<and> tbl w' = tbl w) \<and>
     (\<forall>w. \<exists>t w'. dateNow p w = (Inr t, w') \<and> tbl w' = tbl w)"

text \<open>A table of rows with a clock that counts\<close>

primrec latestRow :: "string \<Rightarrow> session list \<Rightarrow> session option" where
  "latestRow account [] = None"
| "latestRow account (s # rows) =
     (if sessionAccount s \<noteq> account then latestRow account rows
      else case latestRow account rows of
             None \<Rightarrow> Some s
           | Some t \<Rightarrow> if createdAt t \<le> createdAt s then Some s else Some t)"

definition table_port :: "(session list \<times> int) session_port" where
  "table_port =
     \<lparr>repoSave = (\<lambda>s (rows, t). (Inr s, (s # filter (\<lambda>r. sessionId r \<noteq> sessionId s) rows, t))),
      repoUpdateMeta = (\<lambda>sid m (rows, t). (Inr (), (map (setMeta sid m) rows, t))),
      repoFindOne = (\<lambda>sid (rows, t). (Inr (find (\<lambda>r. sessionId r = sid) rows), (rows, t))),
      repoFindLast = (\<lambda>account (rows, t). (Inr (latestRow account rows), (rows, t))),
      repoDelete = (\<lambda>sid (rows, t). (Inr (), (filter (\<lambda>r. sessionId r \<noteq> sid) rows, t))),
      uuidv4 = (\<lambda>(rows, t). (Inr (replicate (nat t) CHR ''i''), (rows, t))),
      dateNow = (\<lambda>(rows, t). (Inr t, (rows, t + 1)))\<rparr>"

lemma latest_of_latestRow: "latest_of account rows (latestRow account rows)"
  by (induction rows) (auto simp: latest_of_def split: option.splits)

lemma stores_in_table_port: "stores_in table_port fst"
  unfolding stores_in_def by (auto simp: table_port_def latest_of_latestRow)

lemma stores_inD:
  assumes "stores_in p tbl"
  shows "\<exists>w'. repoSave p s w = (Inr s, w') \<and> tbl w' = s # filter (\<lambda>r. sessionId r \<noteq> sessionId s) (tbl w)"
    and "\<exists>w'. repoUpdateMeta p sid m w = (Inr (), w') \<and> tbl w' = map (setMeta sid m) (tbl w)"
    and "\<exists>w'. repoFindOne p sid w = (Inr (find (\<lambda>r. sessionId r = sid) (tbl w)), w') \<and> tbl w' = tbl w"
    and "\<exists>r w'. repoFindLast p account w = (Inr r, w') \<and> latest_of account (tbl w) r \<and> tbl w' = tbl w"
    and "\<exists>sid w'. uuidv4 p w = (Inr sid, w') \<and> tbl w' = tbl w"
    and "\<exists>t w'. dateNow p w = (Inr t, w') \<and> tbl w' = tbl w"
  using assms unfolding stores_in_def by blast+

section \<open>Usage\<close>

lemma getActionCount_incremented:
  assumes "getActionCount s action = Inr used"
  shows "getActionCount (s\<lparr>sessionMeta := Some (incrementedMeta s action uses)\<rparr>) b
       = (if b = action then Inr uses else getActionCount s b)"
  using assms by (auto simp: getActionCount_def incrementedMeta_def split: option.splits)

lemma find_setMeta:
  "find (\<lambda>r. sessionId r = sid) (map (setMeta sid m) rows)
   = map_option (\<lambda>r. r\<lparr>sessionMeta := Some m\<rparr>) (find (\<lambda>r. sessionId r = sid) rows)"
  by (induction rows) (auto simp: setMeta_def)

lemma incrementUsage_run:
  assumes st: "stores_in p tbl" and used: "getActionCount s action = Inr used"
  shows "\<exists>w'. incrementUsage p s action n w = (Inr (), w')
           \<and> tbl w' = map (setMeta (sessionId s) (incrementedMeta s action (used + n))) (tbl w)"
  using stores_inD(2) [OF st] used by (simp add: incrementUsage_def updateSession_def)

lemma canActivate_iff:
  "canActivate cfg (Some action) s = Inr b \<longleftrightarrow>
     b \<and> (\<exists>used. getActionCount s action = Inr used \<and> used < cfg action)"
  by (auto simp: canActivate_def split: sum.splits)

section \<open>Concurrent requests\<close>

text \<open>
  Several requests of one session in flight: each loads the row and passes the guard when it
  arrives, and writes the incremented counts, computed from the row it loaded, when its work is
  done. The state has the row, the sessions the requests in flight carry, and the number of
  requests admitted.
\<close>

record usage_state =
  usageRow :: session
  inFlight :: "nat \<Rightarrow> session option"
  admitted :: nat

inductive usage_step ::
    "(tracked_action \<Rightarrow> rat) \<Rightarrow> tracked_action \<Rightarrow> rat \<Rightarrow> usage_state \<Rightarrow> usage_state \<Rightarrow> bool"
  for cfg :: "tracked_action \<Rightarrow> rat" and action :: tracked_action and n :: rat where
  arrive: "inFlight st i = None \<Longrightarrow> canActivate cfg (Some action) (usageRow st) = Inr True \<Longrightarrow>
     usage_step cfg action n st
       (st\<lparr>inFlight := (inFlight st)(i \<mapsto> usageRow st), admitted := Suc (admitted st)\<rparr>)"
| finish: "inFlight st i = Some s \<Longrightarrow> getActionCount s action = Inr used \<Longrightarrow>
     usage_step cfg action n st
       (st\<lparr>usageRow := (usageRow st)\<lparr>sessionMeta := Some (incrementedMeta s action (used + n))\<rparr>,
           inFlight := (inFlight st)(i := None)\<rparr>)"

definition fresh_usage :: "session \<Rightarrow> usage_state" where
  "fresh_usage s = \<lparr>usageRow = s, inFlight = Map.empty, admitted = 0\<rparr>"

text \<open>
  Whatever the interleaving, the recorded usage stays below the quota plus one increment.
\<close>

definition usage_inv :: "(tracked_action \<Rightarrow> rat) \<Rightarrow> tracked_action \<Rightarrow> rat \<Rightarrow> usage_state \<Rightarrow> bool" where
  "usage_inv cfg action n st \<longleftrightarrow>
     (\<exists>used. getActionCount (usageRow st) action = Inr used \<and> used < cfg action + n) \<and>
     (\<forall>i s. inFlight st i = Some s \<longrightarrow> (\<exists>used. getActionCount s action = Inr used \<and> used < cfg action))"

lemma usage_inv_arrive:
  "usage_inv cfg action n st \<Longrightarrow> canActivate cfg (Some action) (usageRow st) = Inr True \<Longrightarrow>
   usage_inv cfg action n
     (st\<lparr>inFlight := (inFlight st)(i \<mapsto> usageRow st), admitted := Suc (admitted st)\<rparr>)"
  by (auto simp: usage_inv_def canActivate_iff)

lemma usage_inv_finish:
  assumes inv: "usage_inv cfg action n st" and i: "inFlight st i = Some s"
    and used: "getActionCount s action = Inr used"
  shows "usage_inv cfg action n
     (st\<lparr>usageRow := (usageRow st)\<lparr>sessionMeta := Some (incrementedMeta s action (used + n))\<rparr>,
         inFlight := (inFlight st)(i := None)\<rparr>)"
proof -
  from inv i obtain u where "getActionCount s action = Inr u" "u < cfg action"
    unfolding usage_inv_def by blast
  with used have "used + n < cfg action + n" by simp
  moreover have "getActionCount ((usageRow st)\<lparr>sessionMeta := Some (incrementedMeta s action (used + n))\<rparr>) action
      = Inr (used + n)"
    using getActionCount_incremented [OF used, of "used + n" action] by (simp add: getActionCount_def)
  ultimately show ?thesis using inv by (auto simp: usage_inv_def)
qed

lemma usage_inv_step:
  "usage_step cfg action n st st' \<Longrightarrow> usage_inv cfg action n st \<Longrightarrow> usage_inv cfg action n st'"
  by (induction rule: usage_step.induct) (auto intro: usage_inv_arrive usage_inv_finish)

lemma usage_inv_reachable:
  "(usage_step cfg action n)\<^sup>*\<^sup>* st st' \<Longrightarrow> usage_inv cfg action n st \<Longrightarrow> usage_inv cfg action n st'"
  by (induction rule: rtranclp_induct) (auto dest: usage_inv_step)

text \<open>
  But the requests admitted are not bounded: any number may arrive before the first one writes,
  and each write overwrites the others.
\<close>

lemma usage_arrivals:
  assumes guard: "canActivate cfg (Some action) s = Inr True"
  shows "(usage_step cfg action n)\<^sup>*\<^sup>* (fresh_usage s)
     \<lparr>usageRow = s, inFlight = (\<lambda>i. if i < k then Some s else None), admitted = k\<rparr>"
proof (induction k)
  case 0
  show ?case by (simp add: fresh_usage_def)
next
  case (Suc k)
  have grow: "(\<lambda>i. if i < k then Some s else None)(k \<mapsto> s) = (\<lambda>i. if i < Suc k then Some s else None)"
    by (auto simp: fun_eq_iff)
  have "usage_step cfg action n
     \<lparr>usageRow = s, inFlight = (\<lambda>i. if i < k then Some s else None), admitted = k\<rparr>
     \<lparr>usageRow = s, inFlight = (\<lambda>i. if i < Suc k then Some s else None), admitted = Suc k\<rparr>"
    using usage_step.arrive [of "\<lparr>usageRow = s, inFlight = (\<lambda>i. if i < k then Some s else None), admitted = k\<rparr>" k cfg action n]
      guard by (simp add: grow)
  with Suc show ?case by (rule rtranclp.rtrancl_into_rtrancl)
qed

section \<open>Properties\<close>

text \<open>
  Counting a use adds exactly \<open>n\<close> to the action's count in the stored row of the session, leaves
  its other counts and a wallet deployment recorded in it as they were, and writes no other row.
\<close>

lemma incrementUsage_counts:
  assumes "stores_in p tbl" and "getActionCount s action = Inr used"
    and "find (\<lambda>r. sessionId r = sessionId s) (tbl w) = Some s"
  shows "\<exists>w'. incrementUsage p s action n w = (Inr (), w')
     \<and> (\<exists>s'. find (\<lambda>r. sessionId r = sessionId s) (tbl w') = Some s'
          \<and> (\<forall>b. getActionCount s' b = (if b = action then Inr (used + n) else getActionCount s b))
          \<and> map_option walletDeploy (sessionMeta s') =
              Some (case sessionMeta s of None \<Rightarrow> None | Some m \<Rightarrow> walletDeploy m)
          \<and> sessionAccount s' = sessionAccount s)
     \<and> filter (\<lambda>r. sessionId r \<noteq> sessionId s) (tbl w') = filter (\<lambda>r. sessionId r \<noteq> sessionId s) (tbl w)"
proof -
  let ?m = "incrementedMeta s action (used + n)"
  obtain w' where w': "incrementUsage p s action n w = (Inr (), w')"
    "tbl w' = map (setMeta (sessionId s) ?m) (tbl w)"
    using incrementUsage_run [OF assms(1,2)] by blast
  have "filter (\<lambda>r. sessionId r \<noteq> sessionId s) (map (setMeta (sessionId s) ?m) rows)
      = filter (\<lambda>r. sessionId r \<noteq> sessionId s) rows" for rows
    by (induction rows) (auto simp: setMeta_def)
  with w' show ?thesis
    by (intro exI [of _ w'])
      (simp add: find_setMeta assms(3) getActionCount_incremented [OF assms(2)],
       simp add: incrementedMeta_def)
qed

definition rowWith :: "rat \<Rightarrow> session" where
  "rowWith n = \<lparr>sessionId = ''i'', sessionAccount = ''acc'',
     sessionMeta = Some \<lparr>walletDeploy = None, callCount = Some [SubmitMetaTransactionAction \<mapsto> n]\<rparr>,
     createdAt = 1, expiredAt = None, completedAt = None\<rparr>"

lemma rowWith_count: "getActionCount (rowWith n) SubmitMetaTransactionAction = Inr n"
  by (simp add: getActionCount_def rowWith_def)

lemma incrementUsage_counts_witness:
  "\<exists>w' s'. incrementUsage table_port (rowWith 3) SubmitMetaTransactionAction 1 ([rowWith 3], 7) = (Inr (), w')
     \<and> find (\<lambda>r. sessionId r = sessionId (rowWith 3)) (fst w') = Some s'
     \<and> getActionCount s' SubmitMetaTransactionAction = Inr 4"
  using incrementUsage_counts [OF stores_in_table_port rowWith_count, of 3 "([rowWith 3], 7)" 1] by auto

text \<open>
  C11. However the requests of a session interleave, the usage recorded for an action never reaches
  the quota plus one increment; yet the requests admitted are unbounded: from a row with quota
  left, any number \<open>k\<close> of requests can be admitted before the first of them is counted.
\<close>

lemma usage_under_concurrency:
  assumes "getActionCount s action = Inr used" and "used < cfg action" and "0 \<le> n"
  shows "(\<forall>st. (usage_step cfg action n)\<^sup>*\<^sup>* (fresh_usage s) st \<longrightarrow>
            (\<exists>u. getActionCount (usageRow st) action = Inr u \<and> u < cfg action + n))
       \<and> (\<forall>k. \<exists>st. (usage_step cfg action n)\<^sup>*\<^sup>* (fresh_usage s) st \<and> admitted st = k
            \<and> getActionCount (usageRow st) action = Inr used)"
proof (intro conjI allI impI)
  fix st assume run: "(usage_step cfg action n)\<^sup>*\<^sup>* (fresh_usage s) st"
  have "usage_inv cfg action n (fresh_usage s)"
    using assms by (auto simp: usage_inv_def fresh_usage_def)
  from usage_inv_reachable [OF run this]
  show "\<exists>u. getActionCount (usageRow st) action = Inr u \<and> u < cfg action + n"
    by (simp add: usage_inv_def)
next
  fix k
  have "canActivate cfg (Some action) s = Inr True"
    using assms by (auto simp: canActivate_iff)
  from usage_arrivals [OF this, of n k] assms(1)
  show "\<exists>st. (usage_step cfg action n)\<^sup>*\<^sup>* (fresh_usage s) st \<and> admitted st = k
      \<and> getActionCount (usageRow st) action = Inr used" by fastforce
qed

lemma usage_under_concurrency_witness:
  "\<exists>st. (usage_step (quotaConfig (\<lambda>_. None)) SubmitMetaTransactionAction 1)\<^sup>*\<^sup>* (fresh_usage (rowWith 19)) st
     \<and> admitted st = 50 \<and> getActionCount (usageRow st) SubmitMetaTransactionAction = Inr 19"
  using usage_under_concurrency [OF rowWith_count, of 19 "quotaConfig (\<lambda>_. None)" 1]
  by (simp add: quotaConfig_def)

lemma getActionCount_throws_iff:
  "getActionCount s a = Inl e \<longleftrightarrow>
     e = typeError ''Cannot read property of undefined'' \<and> (\<exists>m. sessionMeta s = Some m \<and> callCount m = None)"
  by (auto simp: getActionCount_def split: option.splits)

lemma hasQuota_iff:
  "hasQuota cfg s = Inr True \<longleftrightarrow> (\<forall>a. \<exists>u. getActionCount s a = Inr u \<and> u < cfg a)"
proof (cases "\<exists>m. sessionMeta s = Some m \<and> callCount m = None")
  case True
  then have throws: "\<And>a. getActionCount s a = Inl (typeError ''Cannot read property of undefined'')"
    using getActionCount_throws_iff by blast
  then show ?thesis by (simp add: hasQuota_def quotaLeft_def enum_tracked_action_def)
next
  case False
  then have "\<forall>a. \<exists>u. getActionCount s a = Inr u"
    using getActionCount_throws_iff by (metis sum.exhaust)
  then obtain u where u: "\<And>a. getActionCount s a = Inr (u a)" by metis
  have "(\<forall>a. u a < cfg a) \<longleftrightarrow> u DistributedBlindedPepperAction < cfg DistributedBlindedPepperAction
      \<and> u RequestSubsidisedAttestationAction < cfg RequestSubsidisedAttestationAction
      \<and> u SubmitMetaTransactionAction < cfg SubmitMetaTransactionAction"
    by (metis tracked_action.exhaust)
  with u show ?thesis by (simp add: hasQuota_def quotaLeft_def enum_tracked_action_def)
qed

lemma createSession_run:
  assumes "stores_in p tbl"
  shows "\<exists>s w'. createSession cb p account w = (Inr s, w')
           \<and> sessionAccount s = normalizeAddress cb account \<and> sessionMeta s = None
           \<and> tbl w' = s # filter (\<lambda>r. sessionId r \<noteq> sessionId s) (tbl w)"
proof -
  obtain sid w1 where 1: "uuidv4 p w = (Inr sid, w1)" "tbl w1 = tbl w"
    using stores_inD(5) [OF assms] by blast
  obtain t w2 where 2: "dateNow p w1 = (Inr t, w2)" "tbl w2 = tbl w1"
    using stores_inD(6) [OF assms] by blast
  let ?s = "\<lparr>sessionId = sid, sessionAccount = normalizeAddress cb account, sessionMeta = None,
              createdAt = t, expiredAt = None, completedAt = None\<rparr>"
  obtain w3 where 3: "repoSave p ?s w2 = (Inr ?s, w3)"
    "tbl w3 = ?s # filter (\<lambda>r. sessionId r \<noteq> sid) (tbl w2)"
    using stores_inD(1) [OF assms, of ?s w2] by auto
  from 1 2 3 show ?thesis
    by (intro exI [of _ ?s] exI [of _ w3]) (simp add: createSession_def andThen_def)
qed

text \<open>Every row of the table was created by the service, so its account is normalized.\<close>

definition accounts_normalized :: "celo_base \<Rightarrow> session list \<Rightarrow> bool" where
  "accounts_normalized cb rows \<longleftrightarrow> (\<forall>s \<in> set rows. \<exists>account. sessionAccount s = normalizeAddress cb account)"

definition countable_rows :: "session list \<Rightarrow> bool" where
  "countable_rows rows \<longleftrightarrow> (\<forall>s \<in> set rows. \<forall>m. sessionMeta s = Some m \<longrightarrow> callCount m \<noteq> None)"

lemma findOrCreate_run:
  assumes st: "stores_in p tbl" and meta: "countable_rows (tbl w)"
  shows "\<exists>s w'. findOrCreateForAccount cb cfg p account w = (Inr s, w')
     \<and> ((s \<in> set (tbl w) \<and> sessionAccount s = trimLeading0x cb account \<and> hasQuota cfg s = Inr True \<and> tbl w' = tbl w)
       \<or> (latest_of (trimLeading0x cb account) (tbl w) None
            \<or> (\<exists>t. latest_of (trimLeading0x cb account) (tbl w) (Some t) \<and> hasQuota cfg t = Inr False))
          \<and> sessionAccount s = normalizeAddress cb account \<and> sessionMeta s = None
          \<and> tbl w' = s # filter (\<lambda>r. sessionId r \<noteq> sessionId s) (tbl w))"
proof -
  obtain r w1 where r: "repoFindLast p (trimLeading0x cb account) w = (Inr r, w1)"
    "latest_of (trimLeading0x cb account) (tbl w) r" "tbl w1 = tbl w"
    using stores_inD(4) [OF st] by blast
  obtain s w2 where s: "createSession cb p account w1 = (Inr s, w2)"
    "sessionAccount s = normalizeAddress cb account" "sessionMeta s = None"
    "tbl w2 = s # filter (\<lambda>r. sessionId r \<noteq> sessionId s) (tbl w)"
    using createSession_run [OF st, of cb account w1] r(3) by auto
  show ?thesis
  proof (cases r)
    case None
    with r s show ?thesis
      by (intro exI [of _ s] exI [of _ w2])
        (simp add: findOrCreateForAccount_def findLastForAccount_def andThen_def)
  next
    case (Some t)
    with r(2) have t: "t \<in> set (tbl w)" "sessionAccount t = trimLeading0x cb account"
      by (auto simp: latest_of_def)
    with meta have "\<And>a. \<exists>u. getActionCount t a = Inr u"
      by (auto simp: countable_rows_def getActionCount_def split: option.split)
    then have "\<exists>b. hasQuota cfg t = Inr b"
      by (auto simp: hasQuota_def quotaLeft_def enum_tracked_action_def split: sum.split)
        (metis Inl_Inr_False)+
    then obtain b where b: "hasQuota cfg t = Inr b" by blast
    show ?thesis
    proof (cases b)
      case True
      with b t r Some show ?thesis
        by (intro exI [of _ t] exI [of _ w1])
          (simp add: findOrCreateForAccount_def findLastForAccount_def andThen_def ret_app)
    next
      case False
      with b r s Some show ?thesis
        by (intro exI [of _ s] exI [of _ w2])
          (auto simp: findOrCreateForAccount_def findLastForAccount_def andThen_def)
    qed
  qed
qed

lemma hasQuota_unused: "sessionMeta s = None \<Longrightarrow> (\<And>a. 0 < cfg a) \<Longrightarrow> hasQuota cfg s = Inr True"
  by (simp add: hasQuota_iff getActionCount_def)

lemma normalized_trim:
  assumes "celo_base_documented cb" and "accounts_normalized cb rows" and "s \<in> set rows"
    and "sessionAccount s = trimLeading0x cb account"
  shows "normalizeAddress cb account = trimLeading0x cb account"
proof -
  from assms obtain other where "trimLeading0x cb account = js_lower (trimLeading0x cb other)"
    unfolding accounts_normalized_def celo_base_documented_def by metis
  moreover have "normalizeAddress cb account = js_lower (trimLeading0x cb account)"
    using assms(1) unfolding celo_base_documented_def by blast
  ultimately show ?thesis by (metis js_lower_idem)
qed

text \<open>
  Starting a session gives one that belongs to the account (its normalized address) and has
  quota left for every tracked action, when all quotas are positive: an existing row, the table
  untouched, or a new one with nothing used; and every row of the table is again normalized.
\<close>

lemma findOrCreate_session:
  assumes "stores_in p tbl" and "celo_base_documented cb" and "countable_rows (tbl w)"
    and "accounts_normalized cb (tbl w)" and "\<And>a. 0 < cfg a"
  shows "\<exists>s w'. findOrCreateForAccount cb cfg p account w = (Inr s, w')
     \<and> sessionAccount s = normalizeAddress cb account
     \<and> (\<forall>a. \<exists>u. getActionCount s a = Inr u \<and> u < cfg a)
     \<and> s \<in> set (tbl w') \<and> accounts_normalized cb (tbl w') \<and> countable_rows (tbl w')
     \<and> (s \<in> set (tbl w) \<and> tbl w' = tbl w \<or> sessionMeta s = None)"
proof -
  obtain s w' where run: "findOrCreateForAccount cb cfg p account w = (Inr s, w')" and
    c: "(s \<in> set (tbl w) \<and> sessionAccount s = trimLeading0x cb account \<and> hasQuota cfg s = Inr True \<and> tbl w' = tbl w)
       \<or> (sessionAccount s = normalizeAddress cb account \<and> sessionMeta s = None
          \<and> tbl w' = s # filter (\<lambda>r. sessionId r \<noteq> sessionId s) (tbl w))"
    using findOrCreate_run [OF assms(1,3), of cb cfg account] by blast
  from c show ?thesis
  proof (elim disjE conjE)
    assume s: "s \<in> set (tbl w)" "sessionAccount s = trimLeading0x cb account"
      "hasQuota cfg s = Inr True" "tbl w' = tbl w"
    from normalized_trim [OF assms(2,4) s(1,2)] s run assms(3,4) show ?thesis
      by (intro exI [of _ s] exI [of _ w']) (simp add: hasQuota_iff)
  next
    assume s: "sessionAccount s = normalizeAddress cb account" "sessionMeta s = None"
      "tbl w' = s # filter (\<lambda>r. sessionId r \<noteq> sessionId s) (tbl w)"
    from hasQuota_unused [of s cfg, OF s(2) assms(5)] s run assms(3,4) show ?thesis
      by (intro exI [of _ s] exI [of _ w'])
        (auto simp: hasQuota_iff accounts_normalized_def countable_rows_def)
  qed
qed

lemma findOrCreate_session_witness:
  "\<exists>s w'. findOrCreateForAccount celo_base_std (quotaConfig (\<lambda>_. None)) table_port ''0xacc'' ([rowWith 19], 7)
            = (Inr s, w')
     \<and> (\<exists>u. getActionCount s SubmitMetaTransactionAction = Inr u \<and> u < 20)"
proof -
  have "countable_rows (fst ([rowWith 19], 7 :: int))"
    by (simp add: countable_rows_def rowWith_def)
  moreover have "accounts_normalized celo_base_std (fst ([rowWith 19], 7 :: int))"
    unfolding accounts_normalized_def
    by (auto simp: rowWith_def intro!: exI [of _ "''acc''"]) code_simp
  moreover have "0 < quotaConfig (\<lambda>_. None) a" for a
    by (cases a) (simp_all add: quotaConfig_def)
  ultimately show ?thesis
    using findOrCreate_session [OF stores_in_table_port celo_base_std_documented, of "([rowWith 19], 7)"
        "quotaConfig (\<lambda>_. None)" "''0xacc''"]
    by (fastforce simp: quotaConfig_def)
qed

text \<open>
  C12. An account given in mixed case never finds its sessions again, since the lookup only trims the
  \<open>0x\<close> that \<open>create\<close> also lowers: every start of a session creates a new one with nothing used,
  however much of its quota the account has used up.
\<close>

lemma mixed_case_account_bypasses_quota:
  assumes "stores_in p tbl" and "celo_base_documented cb" and "countable_rows (tbl w)"
    and "accounts_normalized cb (tbl w)" and "js_lower (trimLeading0x cb account) \<noteq> trimLeading0x cb account"
  shows "\<exists>s w'. findOrCreateForAccount cb cfg p account w = (Inr s, w')
     \<and> sessionMeta s = None \<and> (\<forall>a. getActionCount s a = Inr 0)
     \<and> tbl w' = s # filter (\<lambda>r. sessionId r \<noteq> sessionId s) (tbl w)"
proof -
  have lower: "normalizeAddress cb account = js_lower (trimLeading0x cb account)"
    using assms(2) by (simp add: celo_base_documented_def)
  obtain s w' where run: "findOrCreateForAccount cb cfg p account w = (Inr s, w')" and
    c: "(s \<in> set (tbl w) \<and> sessionAccount s = trimLeading0x cb account)
       \<or> (sessionMeta s = None \<and> tbl w' = s # filter (\<lambda>r. sessionId r \<noteq> sessionId s) (tbl w))"
    using findOrCreate_run [OF assms(1,3), of cb cfg account] by blast
  have "\<not> (s \<in> set (tbl w) \<and> sessionAccount s = trimLeading0x cb account)"
    using normalized_trim [OF assms(2,4), of s account] lower assms(5) by auto
  with c run show ?thesis by (auto simp: getActionCount_def)
qed

lemma mixed_case_account_bypasses_quota_witness:
  "\<exists>s w'. findOrCreateForAccount celo_base_std (quotaConfig (\<lambda>_. None)) table_port ''0xAcc'' ([rowWith 20], 7)
            = (Inr s, w') \<and> getActionCount s SubmitMetaTransactionAction = Inr 0"
proof -
  have "countable_rows (fst ([rowWith 20], 7 :: int))"
    by (simp add: countable_rows_def rowWith_def)
  moreover have "accounts_normalized celo_base_std (fst ([rowWith 20], 7 :: int))"
    unfolding accounts_normalized_def
    by (auto simp: rowWith_def intro!: exI [of _ "''acc''"]) code_simp
  moreover have "js_lower (trimLeading0x celo_base_std ''0xAcc'') \<noteq> trimLeading0x celo_base_std ''0xAcc''"
    by code_simp
  ultimately show ?thesis
    using mixed_case_account_bypasses_quota [OF stores_in_table_port celo_base_std_documented,
        of "([rowWith 20], 7)" "''0xAcc''" "quotaConfig (\<lambda>_. None)"]
    by auto
qed

end
