(* ===== verification/Relayer_Proxy.thy ===== *)
theory Relayer_Proxy
  imports Logger_Lib Session
begin

text \<open>
  \<open>packages/apps/api/src/relayer/relayer_proxy.service.ts\<close>: how the API (and, with the same code, the
  rewards service) calls a relayer: a command over the message transport, raced against a timeout.
  The transport is the port \<open>relaySend\<close>, whose reply carries the time at which it arrives.
\<close>

section \<open>Commands and errors\<close>

datatype relayer_cmd = SignPersonalMessage | GetPhoneNumberIdentifier | SubmitTransaction | SubmitTransactionBatch

fun relayerCmdValue :: "relayer_cmd \<Rightarrow> string" where
  "relayerCmdValue SignPersonalMessage = ''signPersonalMessage''"
| "relayerCmdValue GetPhoneNumberIdentifier = ''getPhoneNumberIdentifier''"
| "relayerCmdValue SubmitTransaction = ''submitTransaction''"
| "relayerCmdValue SubmitTransactionBatch = ''submitTransactionBatch''"

record relayer_response =
  rrPayload :: string
  rrAddress :: string

record internal_error_payload =
  ieType :: string
  ieMessage :: string
  ieMetadata :: js_value

datatype relayer_error =
    RelayerTimeout string
  | RelayerCommunicationError js_value string
  | RelayerInternalError internal_error_payload

text \<open>\<open>InternalErrorPayload.decode\<close>: the two fields are strings; the third is anything, or missing.\<close>

definition decodeInternalError :: "js_value \<Rightarrow> internal_error_payload option" where
  "decodeInternalError v =
     (case v of
        JObj kvs \<Rightarrow>
          (case (map_of kvs ''errorType'', map_of kvs ''message'') of
             (Some (JStr t), Some (JStr m)) \<Rightarrow>
               Some \<lparr>ieType = t, ieMessage = m,
                     ieMetadata = (case map_of kvs ''metadata'' of None \<Rightarrow> JUndefined | Some md \<Rightarrow> md)\<rparr>
           | _ \<Rightarrow> None)
      | _ \<Rightarrow> None)"

text \<open>\<open>err.message\<close>: reading a property of \<open>null\<close> or \<open>undefined\<close> throws.\<close>

definition errMessage :: "js_value \<Rightarrow> thrown + js_value" where
  "errMessage v =
     (case v of
        JUndefined \<Rightarrow> Inl (typeError ''Cannot read property of undefined'')
      | JNull \<Rightarrow> Inl (typeError ''Cannot read property of null'')
      | JObj kvs \<Rightarrow> Inr (case map_of kvs ''message'' of None \<Rightarrow> JUndefined | Some m \<Rightarrow> m)
      | _ \<Rightarrow> Inr JUndefined)"

definition internal_error_value :: "internal_error_payload \<Rightarrow> js_value" where
  "internal_error_value p = JObj [(''errorType'', JStr (ieType p)), (''message'', JStr (ieMessage p)),
     (''metadata'', ieMetadata p)]"

fun relayer_error_object :: "relayer_error \<Rightarrow> error_object" where
  "relayer_error_object (RelayerTimeout cmd) =
     metadata_error ''RelayerTimeout'' [] [(''cmd'', JStr cmd)]"
| "relayer_error_object (RelayerCommunicationError msg cmd) =
     metadata_error ''RelayerCommunicationError'' (case msg of JStr m \<Rightarrow> m | _ \<Rightarrow> []) [(''cmd'', JStr cmd)]"
| "relayer_error_object (RelayerInternalError p) =
     metadata_error ''RelayerInternalError''
       (''Relayer encountered an error: '' @ ieType p @ '' '' @ ieMessage p)
       [(''internalError'', internal_error_value p)]"

section \<open>Inputs and context\<close>

datatype relayer_input =
    SignPersonalMessageInput string
  | GetPhoneNumberSignatureInput string "string option"
  | SubmitTransactionInput raw_transaction
  | SubmitTransactionBatchInput "raw_transaction list"

text \<open>The request: its id and, for an authenticated one, the session\<close>

record api_request =
  reqId :: string
  reqSession :: "session option"

definition requestContext :: "api_request \<Rightarrow> trace_context" where
  "requestContext req =
     \<lparr>traceId = reqId req,
      labels = (case reqSession req of
                  None \<Rightarrow> []
                | Some s \<Rightarrow> [(''sessionId'', sessionId s), (''externalAccount'', sessionAccount s)])\<rparr>"

section \<open>The service\<close>

text \<open>
  A reply: when it arrives (\<open>None\<close> if it never does), and the response or the error received.
\<close>

record 'w relay_port =
  relaySend :: "relayer_cmd \<Rightarrow> relayer_input \<Rightarrow> trace_context \<Rightarrow> 'w \<Rightarrow>
    (int option \<times> (js_value + relayer_response)) \<times> 'w"

text \<open>
  \<open>race\<close> takes whichever of the two observables emits first; the reply's errors are turned into a
  result before the race.
\<close>

definition executeRelay ::
    "'w relay_port \<Rightarrow> int \<Rightarrow> api_request \<Rightarrow> relayer_cmd \<Rightarrow> relayer_input \<Rightarrow>
     ('w, thrown, (relayer_error, relayer_response) result) io" where
  "executeRelay p timeoutMs req cmd input = (\<lambda>w.
     case relaySend p cmd input (requestContext req) w of
       ((arrival, reply), w') \<Rightarrow>
         (if (case arrival of None \<Rightarrow> True | Some t \<Rightarrow> timeoutMs \<le> t)
          then Inr (Err (RelayerTimeout (relayerCmdValue cmd)))
          else (case reply of
                  Inr resp \<Rightarrow> Inr (Ok resp)
                | Inl err \<Rightarrow>
                    (case decodeInternalError err of
                       Some ip \<Rightarrow> Inr (Err (RelayerInternalError ip))
                     | None \<Rightarrow>
                         (case errMessage err of
                            Inl e \<Rightarrow> Inl e
                          | Inr m \<Rightarrow> Inr (Err (RelayerCommunicationError m (relayerCmdValue cmd)))))), w'))"

definition proxySignPersonalMessage where
  "proxySignPersonalMessage p t req msg = executeRelay p t req SignPersonalMessage (SignPersonalMessageInput msg)"

definition proxyGetPhoneNumberIdentifier where
  "proxyGetPhoneNumberIdentifier p t req blinded clientVersion =
     executeRelay p t req GetPhoneNumberIdentifier (GetPhoneNumberSignatureInput blinded clientVersion)"

definition proxySubmitTransaction where
  "proxySubmitTransaction p t req tx = executeRelay p t req SubmitTransaction (SubmitTransactionInput tx)"

definition proxySubmitTransactionBatch where
  "proxySubmitTransactionBatch p t req txs =
     executeRelay p t req SubmitTransactionBatch (SubmitTransactionBatchInput txs)"

text \<open>What the relayer's filter sends for an error object is an internal error to the proxy.\<close>

lemma decode_rpcErrorPayload:
  assumes "isErr (ErrorObject e)" and "errorClass e = MetadataError \<longrightarrow> errorType e \<noteq> None"
  shows "decodeInternalError (rpcErrorPayload isErr (ErrorObject e)) = Some
      \<lparr>ieType = (case errorType e of None \<Rightarrow> ''Exception'' | Some ty \<Rightarrow> ty), ieMessage = message e,
       ieMetadata = (if errorClass e = MetadataError then JObj (getMetadata e) else JUndefined)\<rparr>"
  using assms
  by (cases "errorType e") (auto simp: rpcErrorPayload_def decodeInternalError_def errorTypeValue_def)

section \<open>Properties\<close>

text \<open>
  C16. An error thrown in the relayer reaches the caller: for every error object, what the relayer's
  filter sends is decoded to an internal error with the same type (\<open>Exception\<close> for an error without
  one), the same message and, for a metadata error, the same metadata; it is reported unless the
  timeout came first.
\<close>

lemma relayer_error_roundtrip:
  assumes "relaySend p cmd input (requestContext req) w = ((Some t, Inl (rpcErrorPayload isErr (ErrorObject e))), w')"
    and "t < timeoutMs" and "isErr (ErrorObject e)" and "errorClass e = MetadataError \<longrightarrow> errorType e \<noteq> None"
  shows "executeRelay p timeoutMs req cmd input w =
     (Inr (Err (RelayerInternalError
        \<lparr>ieType = (case errorType e of None \<Rightarrow> ''Exception'' | Some ty \<Rightarrow> ty),
         ieMessage = message e,
         ieMetadata = (if errorClass e = MetadataError then JObj (getMetadata e) else JUndefined)\<rparr>)), w')"
  using assms by (simp add: executeRelay_def decode_rpcErrorPayload)

lemma relayer_error_roundtrip_witness:
  "executeRelay \<lparr>relaySend = (\<lambda>cmd input ctx w. ((Some 7, Inl (rpcErrorPayload (\<lambda>_. True)
        (ErrorObject (metadata_error ''TxSubmitError'' ''no'' [(''tx'', JNull)])))), w))\<rparr>
     10 \<lparr>reqId = ''r'', reqSession = None\<rparr> SubmitTransaction (SignPersonalMessageInput ''m'') ()
   = (Inr (Err (RelayerInternalError \<lparr>ieType = ''TxSubmitError'', ieMessage = ''no'',
        ieMetadata = JObj [(''tx'', JNull)]\<rparr>)), ())"
  using relayer_error_roundtrip [of "\<lparr>relaySend = (\<lambda>cmd input ctx w. ((Some 7, Inl (rpcErrorPayload (\<lambda>_. True)
        (ErrorObject (metadata_error ''TxSubmitError'' ''no'' [(''tx'', JNull)])))), w))\<rparr>"
      SubmitTransaction "SignPersonalMessageInput ''m''" "\<lparr>reqId = ''r'', reqSession = None\<rparr>" "()" 7 "\<lambda>_. True"
      "metadata_error ''TxSubmitError'' ''no'' [(''tx'', JNull)]" "()" 10]
  by (simp add: metadata_error_def getMetadata_def)

end
