(* ===== verification/Tx_Parser.thy ===== *)
theory Tx_Parser
  imports Wallet_Verify "HOL-Library.Word"
begin

text \<open>
  \<open>packages/apps/api/src/wallet\<close>: the decoding of meta-transactions (\<open>decode-txs.ts\<close>), the allow list
  of contract methods (\<open>method-filter.ts\<close>) and the parser that admits a meta-transaction only when
  every transaction it decodes from it is on the list (\<open>tx-parser.service.ts\<close>). The ABI decoder and the
  contract wrappers of contractkit are parameters.
\<close>

section \<open>Errors (errors.ts)\<close>

text \<open>
  A transaction decoded from call data: its destination is missing when the address array is shorter
  than the array of data lengths.
\<close>

record child_tx =
  childDestination :: "string option"
  childValue :: string
  childData :: string

definition rawChild :: "raw_transaction \<Rightarrow> child_tx" where
  "rawChild tx = \<lparr>childDestination = Some (destination tx), childValue = txValue tx, childData = data tx\<rparr>"

definition child_to_value :: "child_tx \<Rightarrow> js_value" where
  "child_to_value tx = JObj
     [(''destination'', (case childDestination tx of None \<Rightarrow> JUndefined | Some d \<Rightarrow> JStr d)),
      (''value'', JStr (childValue tx)), (''data'', JStr (childData tx))]"

datatype tx_parse_error =
    InvalidRootTransaction child_tx
  | TransactionNotAllowed child_tx
  | TransactionDecodeError child_tx string

fun tx_parse_error_object :: "tx_parse_error \<Rightarrow> error_object" where
  "tx_parse_error_object (InvalidRootTransaction tx) =
     api_error 400 ''MetaTx.InvalidRootTransaction'' [] [(''tx'', child_to_value tx)]"
| "tx_parse_error_object (TransactionNotAllowed tx) =
     api_error 400 ''MetaTx.TransactionNotAllowed'' [] [(''tx'', child_to_value tx)]"
| "tx_parse_error_object (TransactionDecodeError tx msg) =
     api_error 400 ''MetaTx.TransactionDecodeError'' msg [(''tx'', child_to_value tx)]"

section \<open>Decoding (decode-txs.ts)\<close>

text \<open>
  A decoded call: the method's name, if it was found, and its inputs as the decoder returns them. A
  \<open>Buffer\<close> is a list of bytes. A \<open>uint256\<close> is a plain number, as the casts of the source say, or an object of a
  library for big numbers, which has no primitive value and prints its decimal digits: the decoder is a
  parameter, and returns the one or the other.
\<close>

datatype abi_number = PlainNumber nat | BigObject nat

datatype abi_input =
    InAddress string
  | InUint abi_number
  | InBytes "8 word list"
  | InAddresses "string list"
  | InUints "abi_number list"

record decoded_data =
  decodedMethod :: "string option"
  decodedInputs :: "abi_input list"

type_synonym tx_decoder = "string \<Rightarrow> thrown + decoded_data"

text \<open>
  \<open>buffer.toString('hex')\<close> and the decimal \<open>toString()\<close> of a number (a plain one below \<open>10^21\<close>, where
  JavaScript starts to print an exponent)
\<close>

definition hex_digit :: "nat \<Rightarrow> char" where
  "hex_digit n = ''0123456789abcdef'' ! n"

fun bytes_hex :: "8 word list \<Rightarrow> string" where
  "bytes_hex [] = []"
| "bytes_hex (b # bs) = hex_digit (unat b div 16) # hex_digit (unat b mod 16) # bytes_hex bs"

fun decimal :: "nat \<Rightarrow> string" where
  "decimal n = (if n < 10 then [hex_digit n] else decimal (n div 10) @ [hex_digit (n mod 10)])"

declare decimal.simps [simp del]

fun abiToString :: "abi_number \<Rightarrow> string" where
  "abiToString (PlainNumber n) = decimal n"
| "abiToString (BigObject n) = decimal n"

definition bytes_slice :: "nat \<Rightarrow> nat \<Rightarrow> 'a list \<Rightarrow> 'a list" where
  "bytes_slice start stop bs = drop start (take stop bs)"

fun thrownMessage :: "thrown \<Rightarrow> string" where
  "thrownMessage (ErrorObject e) = message e"
| "thrownMessage (NonError _) = []"

definition decodeMethod ::
    "tx_decoder \<Rightarrow> child_tx \<Rightarrow> string \<Rightarrow> nat \<Rightarrow> (tx_parse_error, abi_input list) result" where
  "decodeMethod dec tx meth expectedInputsLength =
     (case dec (childData tx) of
        Inl e \<Rightarrow> Err (TransactionDecodeError tx (thrownMessage e))
      | Inr d \<Rightarrow>
          if decodedMethod d = None then Err (TransactionDecodeError tx ''Could not find method'')
          else if decodedMethod d \<noteq> Some meth then Err (TransactionDecodeError tx ''Method does not match'')
          else if length (decodedInputs d) \<noteq> expectedInputsLength
          then Err (TransactionDecodeError tx ''Invalid inputs length'')
          else Ok (decodedInputs d))"

definition EXECUTE_TRANSACTIONS_INPUTS :: nat where "EXECUTE_TRANSACTIONS_INPUTS = 4"
definition EXECUTE_META_TRANSACTION_INPUTS :: nat where "EXECUTE_META_TRANSACTION_INPUTS = 6"

definition undefinedError :: thrown where
  "undefinedError = ErrorObject (plain_error ''Cannot read property of undefined'')"

text \<open>
  The inputs are read at the types the source casts them to; an input of another type has no such
  property and reading it throws.
\<close>

definition decodeExecuteMetaTransaction ::
    "tx_decoder \<Rightarrow> child_tx \<Rightarrow> thrown + (tx_parse_error, child_tx) result" where
  "decodeExecuteMetaTransaction dec tx =
     (case decodeMethod dec tx ''executeMetaTransaction'' EXECUTE_META_TRANSACTION_INPUTS of
        Err e \<Rightarrow> Inr (Err e)
      | Ok (InAddress dest # InUint v # InBytes bs # rest) \<Rightarrow>
          Inr (Ok \<lparr>childDestination = Some dest, childValue = abiToString v, childData = bytes_hex bs\<rparr>)
      | Ok _ \<Rightarrow> Inl undefinedError)"

text \<open>
  \<open>offset\<close> starts as the number 0. \<open>offset + dataLength\<close> adds numbers, but \<open>+\<close> with an object that has no
  primitive value concatenates texts. \<open>slice\<close> converts its bounds to whole numbers.
\<close>

datatype js_offset = NumberOffset nat | TextOffset string

fun addLength :: "js_offset \<Rightarrow> abi_number \<Rightarrow> js_offset" where
  "addLength (NumberOffset n) (PlainNumber k) = NumberOffset (n + k)"
| "addLength (NumberOffset n) (BigObject k) = TextOffset (decimal n @ decimal k)"
| "addLength (TextOffset t) len = TextOffset (t @ abiToString len)"

definition digitValue :: "char \<Rightarrow> nat" where
  "digitValue c = of_char c - 48"

definition readDigits :: "string \<Rightarrow> nat" where
  "readDigits t = foldl (\<lambda>n c. 10 * n + digitValue c) 0 t"

fun readOffset :: "js_offset \<Rightarrow> nat" where
  "readOffset (NumberOffset n) = n"
| "readOffset (TextOffset t) = readDigits t"

text \<open>
  The callback of \<open>inputs[3].map\<close>, which advances the shared \<open>offset\<close>; an object is never \<open>=== 0\<close>.
\<close>

fun sliceChildren ::
    "string list \<Rightarrow> abi_number list \<Rightarrow> 8 word list \<Rightarrow> nat \<Rightarrow> js_offset \<Rightarrow> abi_number list \<Rightarrow> thrown + child_tx list" where
  "sliceChildren dests vals buf idx offset [] = Inr []"
| "sliceChildren dests vals buf idx offset (len # lens) =
     (let offset' = (if len = PlainNumber 0 then offset else addLength offset len);
          d = (if len = PlainNumber 0 then [] else bytes_hex (bytes_slice (readOffset offset) (readOffset offset') buf))
      in if length vals \<le> idx then Inl undefinedError
         else case sliceChildren dests vals buf (Suc idx) offset' lens of
                Inl e \<Rightarrow> Inl e
              | Inr txs \<Rightarrow> Inr (\<lparr>childDestination = (if idx < length dests then Some (dests ! idx) else None),
                                childValue = abiToString (vals ! idx), childData = d\<rparr> # txs))"

definition decodeExecuteTransactions ::
    "tx_decoder \<Rightarrow> child_tx \<Rightarrow> thrown + (tx_parse_error, child_tx list) result" where
  "decodeExecuteTransactions dec tx =
     (case decodeMethod dec tx ''executeTransactions'' EXECUTE_TRANSACTIONS_INPUTS of
        Err e \<Rightarrow> Inr (Err e)
      | Ok [InAddresses dests, InUints vals, InBytes buf, InUints lens] \<Rightarrow>
          map_sum id Ok (sliceChildren dests vals buf 0 (NumberOffset 0) lens)
      | Ok _ \<Rightarrow> Inl undefinedError)"

section \<open>The allow list (method-filter.ts)\<close>

text \<open>A contractkit wrapper as the filter sees it: an address and the ids of its methods\<close>

record contract_wrapper =
  wrapperAddress :: string
  wrapperMethodIds :: "string \<Rightarrow> string"

record allowed_method =
  methodName :: string
  contractName :: string

record transaction_with_metadata =
  metaRaw :: child_tx
  metaMethodId :: string
  metaMethod :: allowed_method

type_synonym method_filter = "string \<Rightarrow> allowed_method option"

definition newMethodFilter :: method_filter where
  "newMethodFilter = Map.empty"

definition buildKey :: "celo_base \<Rightarrow> string \<Rightarrow> string \<Rightarrow> string" where
  "buildKey cb contractAddress methodId =
     normalizeAddress cb contractAddress @ '':'' @ normalizeMethodId cb methodId"

definition addContract ::
    "celo_base \<Rightarrow> string \<Rightarrow> contract_wrapper \<Rightarrow> string list \<Rightarrow> method_filter \<Rightarrow> method_filter" where
  "addContract cb name wrapper meths f =
     fold (\<lambda>m g. g(buildKey cb (wrapperAddress wrapper) (wrapperMethodIds wrapper m)
                     \<mapsto> \<lparr>methodName = m, contractName = name\<rparr>)) meths f"

text \<open>\<open>find\<close>: an address that is \<open>undefined\<close> cannot be normalized.\<close>

definition findMethod ::
    "celo_base \<Rightarrow> method_filter \<Rightarrow> child_tx \<Rightarrow> thrown + transaction_with_metadata option" where
  "findMethod cb f raw =
     (let methodId = extractMethodId cb (childData raw)
      in case childDestination raw of
           None \<Rightarrow> Inl undefinedError
         | Some dest \<Rightarrow>
             Inr (map_option (\<lambda>m. \<lparr>metaRaw = raw, metaMethodId = methodId, metaMethod = m\<rparr>)
                    (f (buildKey cb dest methodId))))"

section \<open>The parser (tx-parser.service.ts)\<close>

record 'w parser_port =
  ppGetWallet :: "string \<Rightarrow> ('w, thrown, contract_wrapper) io"
  ppGetContract :: "string \<Rightarrow> ('w, thrown, contract_wrapper) io"

text \<open>\<open>onModuleInit\<close>: the default list\<close>

definition defaultFilter :: "celo_base \<Rightarrow> 'w parser_port \<Rightarrow> ('w, thrown, method_filter) io" where
  "defaultFilter cb p =
     andThen (ppGetContract p ''Attestations'') (\<lambda>attestations.
     andThen (ppGetContract p ''Accounts'') (\<lambda>accounts.
     andThen (ppGetContract p ''StableToken'') (\<lambda>stableToken.
     andThen (ppGetContract p ''StableTokenEUR'') (\<lambda>stableTokenEUR.
     andThen (ppGetContract p ''Escrow'') (\<lambda>escrow.
     ret (addContract cb ''Escrow'' escrow [''withdraw'']
         (addContract cb ''StableTokenEUR'' stableTokenEUR [''approve'', ''transfer'']
         (addContract cb ''StableToken'' stableToken [''approve'', ''transfer'']
         (addContract cb ''Accounts'' accounts [''setAccount'']
         (addContract cb ''Attestations'' attestations [''selectIssuers'', ''complete'']
            newMethodFilter))))))))))"

definition isCallTo :: "celo_base \<Rightarrow> string \<Rightarrow> string \<Rightarrow> contract_wrapper \<Rightarrow> string \<Rightarrow> bool" where
  "isCallTo cb dest calldata contract meth \<longleftrightarrow>
     normalizeAddress cb dest = normalizeAddress cb (wrapperAddress contract) \<and>
     extractMethodId cb calldata = normalizeMethodId cb (wrapperMethodIds contract meth)"

definition getChildren ::
    "celo_base \<Rightarrow> tx_decoder \<Rightarrow> raw_transaction \<Rightarrow> contract_wrapper \<Rightarrow>
     thrown + (tx_parse_error, child_tx list) result" where
  "getChildren cb dec tx wallet =
     (case decodeExecuteMetaTransaction dec (rawChild tx) of
        Inl e \<Rightarrow> Inl e
      | Inr (Err e) \<Rightarrow> Inr (Err e)
      | Inr (Ok child) \<Rightarrow>
          if isCallTo cb (the (childDestination child)) (childData child) wallet ''executeTransactions''
          then decodeExecuteTransactions dec child
          else Inr (Ok [child]))"

text \<open>The loop over the children: the first that is not on the list ends it.\<close>

fun allowedChildren ::
    "(child_tx \<Rightarrow> thrown + 'm option) \<Rightarrow> child_tx list \<Rightarrow> thrown + (tx_parse_error, 'm list) result" where
  "allowedChildren lookup [] = Inr (Ok [])"
| "allowedChildren lookup (c # cs) =
     (case lookup c of
        Inl e \<Rightarrow> Inl e
      | Inr None \<Rightarrow> Inr (Err (TransactionNotAllowed c))
      | Inr (Some m) \<Rightarrow>
          (case allowedChildren lookup cs of
             Inl e \<Rightarrow> Inl e
           | Inr (Err e) \<Rightarrow> Inr (Err e)
           | Inr (Ok ms) \<Rightarrow> Inr (Ok (m # ms))))"

definition parseTx ::
    "celo_base \<Rightarrow> tx_decoder \<Rightarrow> 'w parser_port \<Rightarrow> method_filter \<Rightarrow> raw_transaction \<Rightarrow> string \<Rightarrow>
     method_filter option \<Rightarrow> ('w, thrown, (tx_parse_error, transaction_with_metadata list) result) io" where
  "parseTx cb dec p dflt tx walletAddress methodFilter =
     andThen (ppGetWallet p walletAddress) (\<lambda>wallet.
     if \<not> isCallTo cb (destination tx) (data tx) wallet ''executeMetaTransaction''
     then ret (Err (InvalidRootTransaction (rawChild tx)))
     else
       andThenOk (liftSum (getChildren cb dec tx wallet)) (\<lambda>children.
       liftSum (allowedChildren (findMethod cb (case methodFilter of None \<Rightarrow> dflt | Some f \<Rightarrow> f)) children)))"

section \<open>The contract of an allow list\<close>

text \<open>
  What the parser relies on: a lookup that succeeds returns a method of which the list says that it
  is allowed for that transaction.
\<close>

locale allow_list =
  fixes lookup :: "child_tx \<Rightarrow> thrown + 'm option"
    and allows :: "child_tx \<Rightarrow> 'm \<Rightarrow> bool"
  assumes lookup_iff: "lookup c = Inr (Some m) \<longleftrightarrow> allows c m"
begin

lemma allowedChildren_Ok_iff:
  "allowedChildren lookup cs = Inr (Ok ms) \<longleftrightarrow> list_all2 allows cs ms"
proof (induction cs arbitrary: ms)
  case Nil
  then show ?case by (cases ms) auto
next
  case (Cons c cs)
  have "allowedChildren lookup (c # cs) = Inr (Ok ms) \<longleftrightarrow>
      (\<exists>m ms'. ms = m # ms' \<and> lookup c = Inr (Some m) \<and> allowedChildren lookup cs = Inr (Ok ms'))"
    by (auto split: sum.split option.split result.split)
  also have "\<dots> \<longleftrightarrow> list_all2 allows (c # cs) ms"
    by (auto simp: Cons.IH lookup_iff list_all2_Cons1)
  finally show ?case .
qed

lemma allowedChildren_rejects:
  assumes "allowedChildren lookup cs = Inr (Err e)"
  shows "\<exists>pre c post. cs = pre @ c # post \<and> e = TransactionNotAllowed c
           \<and> (\<forall>m. \<not> allows c m) \<and> (\<forall>c' \<in> set pre. \<exists>m. allows c' m)"
  using assms
proof (induction cs)
  case Nil
  then show ?case by simp
next
  case (Cons c cs)
  show ?case
  proof (cases "lookup c")
    case (Inl x)
    with Cons.prems show ?thesis by simp
  next
    case (Inr r)
    show ?thesis
    proof (cases r)
      case None
      with Inr Cons.prems have e: "e = TransactionNotAllowed c" by simp
      have "\<not> allows c m" for m using Inr None lookup_iff [of c m] by simp
      with e show ?thesis by (intro exI [of _ "[]"] exI [of _ c] exI [of _ cs]) simp
    next
      case (Some m)
      with Inr Cons.prems have "allowedChildren lookup cs = Inr (Err e)"
        by (auto split: sum.splits result.splits)
      from Cons.IH [OF this] obtain pre d post where d: "cs = pre @ d # post"
        "e = TransactionNotAllowed d" "\<forall>m. \<not> allows d m" "\<forall>c' \<in> set pre. \<exists>m. allows c' m" by blast
      from Inr Some have "allows c m" using lookup_iff by simp
      with d show ?thesis by (intro exI [of _ "c # pre"] exI [of _ d] exI [of _ post]) auto
    qed
  qed
qed

end

section \<open>The filter as an allow list\<close>

text \<open>
  What a filter built by \<open>addContract\<close> calls allows, said of the contracts and not of the keys: the
  transaction calls one of the methods of one of the contracts. The last contract that was added
  for a key decides.
\<close>

type_synonym contract_grant = "string \<times> contract_wrapper \<times> string list"

definition buildFilter :: "celo_base \<Rightarrow> contract_grant list \<Rightarrow> method_filter" where
  "buildFilter cb grants = fold (\<lambda>(name, wrapper, meths). addContract cb name wrapper meths) grants newMethodFilter"

definition calls :: "celo_base \<Rightarrow> child_tx \<Rightarrow> contract_wrapper \<Rightarrow> string \<Rightarrow> bool" where
  "calls cb c wrapper meth \<longleftrightarrow>
     (\<exists>dest. childDestination c = Some dest \<and> isCallTo cb dest (childData c) wrapper meth)"

lemma addContract_Some:
  "addContract cb name wrapper meths f k = Some m \<Longrightarrow>
     f k = Some m \<or> (\<exists>me \<in> set meths. k = buildKey cb (wrapperAddress wrapper) (wrapperMethodIds wrapper me)
       \<and> m = \<lparr>methodName = me, contractName = name\<rparr>)"
  unfolding addContract_def
  by (induction meths arbitrary: f) (fastforce split: if_splits)+

lemma addContract_dom:
  "k \<in> dom (addContract cb name wrapper meths f) \<longleftrightarrow>
     k \<in> dom f \<or> (\<exists>me \<in> set meths. k = buildKey cb (wrapperAddress wrapper) (wrapperMethodIds wrapper me))"
  unfolding addContract_def
  by (induction meths arbitrary: f) auto

lemma buildFilter_Some:
  "fold (\<lambda>(name, wrapper, meths). addContract cb name wrapper meths) grants f k = Some m \<Longrightarrow>
     f k = Some m \<or> (\<exists>(name, wrapper, meths) \<in> set grants. \<exists>me \<in> set meths.
       k = buildKey cb (wrapperAddress wrapper) (wrapperMethodIds wrapper me)
       \<and> m = \<lparr>methodName = me, contractName = name\<rparr>)"
proof (induction grants arbitrary: f)
  case Nil
  then show ?case by simp
next
  case (Cons g grants)
  obtain name wrapper meths where g: "g = (name, wrapper, meths)" by (cases g)
  from Cons.IH [of "addContract cb name wrapper meths f"] Cons.prems show ?case
    by (auto simp: g dest!: addContract_Some)
qed

lemma buildFilter_dom:
  "k \<in> dom (fold (\<lambda>(name, wrapper, meths). addContract cb name wrapper meths) grants f) \<longleftrightarrow>
     k \<in> dom f \<or> (\<exists>(name, wrapper, meths) \<in> set grants. \<exists>me \<in> set meths.
       k = buildKey cb (wrapperAddress wrapper) (wrapperMethodIds wrapper me))"
proof (induction grants arbitrary: f)
  case Nil
  then show ?case by simp
next
  case (Cons g grants)
  obtain name wrapper meths where g: "g = (name, wrapper, meths)" by (cases g)
  show ?case by (auto simp: g Cons.IH addContract_dom)
qed

text \<open>The colon separates address and method of a key, when neither of a granted contract has one.\<close>

definition colon_free :: "celo_base \<Rightarrow> contract_grant list \<Rightarrow> bool" where
  "colon_free cb grants \<longleftrightarrow>
     (\<forall>(name, wrapper, meths) \<in> set grants.
        CHR '':'' \<notin> set (normalizeAddress cb (wrapperAddress wrapper)) \<and>
        (\<forall>me \<in> set meths. CHR '':'' \<notin> set (normalizeMethodId cb (wrapperMethodIds wrapper me))))"

lemma one_colon:
  "CHR '':'' \<notin> set a' \<Longrightarrow> CHR '':'' \<notin> set m' \<Longrightarrow> a @ '':'' @ m = a' @ '':'' @ m' \<longleftrightarrow> a = a' \<and> m = m'"
  using append_Cons_eq_iff [of "CHR '':''" a' m' a m] by auto

text \<open>Decoded data is hexadecimal: the id read from it has no \<open>0x\<close> of its own.\<close>

definition hex_chars :: "char set" where
  "hex_chars = set ''0123456789abcdef''"

lemma hex_digit_in: "n < 16 \<Longrightarrow> hex_digit n \<in> hex_chars"
  unfolding hex_digit_def hex_chars_def by (rule nth_mem) simp

lemma bytes_hex_chars: "set (bytes_hex bs) \<subseteq> hex_chars"
proof (induction bs)
  case Nil
  then show ?case by simp
next
  case (Cons b bs)
  have "unat b < 2 ^ 8" using unsigned_less [of b] by simp
  then have "unat b div 16 < 16" by simp
  with Cons show ?case by (auto intro: hex_digit_in)
qed

lemma hex_not_0x: "set s \<subseteq> hex_chars \<Longrightarrow> take 2 s \<noteq> ''0x''"
proof
  assume hex: "set s \<subseteq> hex_chars" and "take 2 s = ''0x''"
  then have "CHR ''x'' \<in> set (take 2 s)" by simp
  then have "CHR ''x'' \<in> set s" by (rule in_set_takeD)
  with hex show False by (auto simp: hex_chars_def)
qed

lemma js_lower_hex: "set s \<subseteq> hex_chars \<Longrightarrow> js_lower s = s"
  unfolding js_lower_def hex_chars_def
  by (induction s) (auto simp: js_lower_char_def)

lemma extractMethodId_hex:
  assumes "celo_base_documented cb" and "set s \<subseteq> hex_chars"
  shows "extractMethodId cb s = take 8 s"
proof -
  have "set (take 8 s) \<subseteq> hex_chars" using assms(2) by (meson order_trans set_take_subset)
  then show ?thesis
    using assms hex_not_0x [OF assms(2)] js_lower_hex [of "take 8 s"]
    by (simp add: extractMethodId_def celo_base_documented_def)
qed

definition permits :: "celo_base \<Rightarrow> method_filter \<Rightarrow> child_tx \<Rightarrow> transaction_with_metadata \<Rightarrow> bool" where
  "permits cb f c m \<longleftrightarrow>
     metaRaw m = c \<and> metaMethodId m = extractMethodId cb (childData c) \<and>
     (\<exists>dest. childDestination c = Some dest \<and>
        f (buildKey cb dest (extractMethodId cb (childData c))) = Some (metaMethod m))"

interpretation filter_list: allow_list "findMethod cb f" "permits cb f" for cb f
  by unfold_locales
    (auto simp: findMethod_def permits_def Let_def split: option.splits)

lemma normalize_extract:
  assumes "celo_base_documented cb"
  shows "normalizeMethodId cb (extractMethodId cb d) = extractMethodId cb d \<or> take 2 (extractMethodId cb d) = ''0x''"
  using assms by (auto simp: celo_base_documented_def normalizeMethodId_def)

definition plain_data :: "celo_base \<Rightarrow> child_tx \<Rightarrow> bool" where
  "plain_data cb c \<longleftrightarrow> take 2 (extractMethodId cb (childData c)) \<noteq> ''0x''"

lemma plain_data_hex:
  assumes "celo_base_documented cb" and "set (childData c) \<subseteq> hex_chars"
  shows "plain_data cb c"
proof -
  have "set (take 8 (childData c)) \<subseteq> hex_chars" using assms(2) by (meson order_trans set_take_subset)
  from hex_not_0x [OF this] extractMethodId_hex [OF assms] show ?thesis
    by (simp add: plain_data_def)
qed

lemma permits_grants:
  assumes cb: "celo_base_documented cb" and free: "colon_free cb grants" and plain: "plain_data cb c"
    and perm: "permits cb (buildFilter cb grants) c m"
  shows "\<exists>(name, wrapper, meths) \<in> set grants. \<exists>me \<in> set meths. calls cb c wrapper me
           \<and> metaMethod m = \<lparr>methodName = me, contractName = name\<rparr>"
proof -
  from perm obtain dest where dest: "childDestination c = Some dest" and
    f: "buildFilter cb grants (buildKey cb dest (extractMethodId cb (childData c))) = Some (metaMethod m)"
    by (auto simp: permits_def)
  from buildFilter_Some [OF f [unfolded buildFilter_def]] obtain name wrapper meths me where
    g: "(name, wrapper, meths) \<in> set grants" "me \<in> set meths" and
    key: "buildKey cb dest (extractMethodId cb (childData c))
        = buildKey cb (wrapperAddress wrapper) (wrapperMethodIds wrapper me)" and
    m: "metaMethod m = \<lparr>methodName = me, contractName = name\<rparr>"
    by (auto simp: newMethodFilter_def)
  have n: "normalizeMethodId cb (extractMethodId cb (childData c)) = extractMethodId cb (childData c)"
    using normalize_extract [OF cb] plain by (auto simp: plain_data_def)
  from free g have "CHR '':'' \<notin> set (normalizeAddress cb (wrapperAddress wrapper))"
    "CHR '':'' \<notin> set (normalizeMethodId cb (wrapperMethodIds wrapper me))"
    by (auto simp: colon_free_def)
  from key [unfolded buildKey_def one_colon [OF this] n] dest g m show ?thesis
    by (auto simp: calls_def isCallTo_def intro!: bexI [of _ "(name, wrapper, meths)"] bexI [of _ me])
qed

lemma calls_permitted:
  assumes cb: "celo_base_documented cb" and g: "(name, wrapper, meths) \<in> set grants" "me \<in> set meths"
    and call: "calls cb c wrapper me" and plain: "plain_data cb c"
  shows "\<exists>m. permits cb (buildFilter cb grants) c m"
proof -
  from call obtain dest where dest: "childDestination c = Some dest"
    "normalizeAddress cb dest = normalizeAddress cb (wrapperAddress wrapper)"
    "extractMethodId cb (childData c) = normalizeMethodId cb (wrapperMethodIds wrapper me)"
    by (auto simp: calls_def isCallTo_def)
  have "normalizeMethodId cb (extractMethodId cb (childData c)) = extractMethodId cb (childData c)"
    using normalize_extract [OF cb] plain by (auto simp: plain_data_def)
  with dest have "buildKey cb dest (extractMethodId cb (childData c))
      = buildKey cb (wrapperAddress wrapper) (wrapperMethodIds wrapper me)"
    by (simp add: buildKey_def)
  then have "buildKey cb dest (extractMethodId cb (childData c)) \<in> dom (buildFilter cb grants)"
    unfolding buildFilter_def buildFilter_dom using g by (auto intro!: bexI [of _ "(name, wrapper, meths)"])
  then obtain am where "buildFilter cb grants (buildKey cb dest (extractMethodId cb (childData c))) = Some am"
    by blast
  with dest(1) show ?thesis
    by (intro exI [of _ "\<lparr>metaRaw = c, metaMethodId = extractMethodId cb (childData c), metaMethod = am\<rparr>"])
      (simp add: permits_def)
qed

section \<open>Decoded children\<close>

definition hexData :: "child_tx \<Rightarrow> bool" where
  "hexData c \<longleftrightarrow> set (childData c) \<subseteq> hex_chars"

lemma map_sum_Ok [simp]: "map_sum id Ok r = Inr (Ok cs) \<longleftrightarrow> r = Inr cs"
  by (cases r) auto

lemma hexData_bytes [simp]: "hexData \<lparr>childDestination = d, childValue = v, childData = bytes_hex bs\<rparr>"
  using bytes_hex_chars by (simp add: hexData_def)

lemma hexData_Nil [simp]: "hexData \<lparr>childDestination = d, childValue = v, childData = []\<rparr>"
  by (simp add: hexData_def)

lemma sliceChildren_hex:
  "sliceChildren dests vals buf idx offset lens = Inr cs \<Longrightarrow> list_all hexData cs"
  by (induction lens arbitrary: idx offset cs) (auto simp: Let_def split: if_splits sum.splits)

lemma decodeExecuteTransactions_hex:
  "decodeExecuteTransactions dec tx = Inr (Ok cs) \<Longrightarrow> list_all hexData cs"
  by (auto simp: decodeExecuteTransactions_def dest: sliceChildren_hex
      split: result.splits list.splits abi_input.splits)

lemma decodeExecuteMetaTransaction_hex:
  "decodeExecuteMetaTransaction dec tx = Inr (Ok c) \<Longrightarrow> hexData c"
  by (auto simp: decodeExecuteMetaTransaction_def split: result.splits list.splits abi_input.splits)

lemma getChildren_hex:
  "getChildren cb dec tx wallet = Inr (Ok cs) \<Longrightarrow> list_all hexData cs"
  by (auto simp: getChildren_def split: sum.splits result.splits if_splits
      dest: decodeExecuteMetaTransaction_hex decodeExecuteTransactions_hex)

subsection \<open>Slices\<close>

text \<open>
  What \<open>executeTransactions\<close> encodes: the data of the transactions one after the other, and their
  lengths, as numbers of either kind.
\<close>

record plain_tx =
  plainDestination :: string
  plainValue :: nat
  plainBytes :: "8 word list"

definition encodeInputs :: "(nat \<Rightarrow> abi_number) \<Rightarrow> plain_tx list \<Rightarrow> abi_input list" where
  "encodeInputs num txs =
     [InAddresses (map plainDestination txs), InUints (map (num \<circ> plainValue) txs),
      InBytes (concat (map plainBytes txs)), InUints (map (num \<circ> length \<circ> plainBytes) txs)]"

definition plainChild :: "plain_tx \<Rightarrow> child_tx" where
  "plainChild t = \<lparr>childDestination = Some (plainDestination t), childValue = decimal (plainValue t),
     childData = bytes_hex (plainBytes t)\<rparr>"

lemma sliceChildren_plain:
  "sliceChildren (map plainDestination (pre @ txs)) (map (PlainNumber \<circ> plainValue) (pre @ txs))
     (concat (map plainBytes pre) @ concat (map plainBytes txs))
     (length pre) (NumberOffset (length (concat (map plainBytes pre)))) (map (PlainNumber \<circ> length \<circ> plainBytes) txs)
   = Inr (map plainChild txs)"
proof (induction txs arbitrary: pre)
  case Nil
  show ?case by simp
next
  case (Cons t txs)
  have "bytes_slice (length (concat (map plainBytes pre)))
      (length (concat (map plainBytes pre)) + length (plainBytes t))
      (concat (map plainBytes pre) @ plainBytes t @ concat (map plainBytes txs)) = plainBytes t"
    by (simp add: bytes_slice_def)
  with Cons.IH [of "pre @ [t]"] show ?case
    by (auto simp: Let_def plainChild_def nth_append)
qed

subsection \<open>Texts as offsets\<close>

lemma digitValue_hex_digit: "n < 10 \<Longrightarrow> digitValue (hex_digit n) = n"
  by (auto simp: less_Suc_eq numeral_eq_Suc digitValue_def hex_digit_def)

lemma readDigits_from: "foldl (\<lambda>n c. 10 * n + digitValue c) k t = k * 10 ^ length t + readDigits t"
proof (induction t arbitrary: k)
  case (Cons c t)
  show ?case
    using Cons [of "10 * k + digitValue c"] Cons [of "digitValue c"]
    by (simp add: readDigits_def algebra_simps)
qed (simp add: readDigits_def)

lemma readDigits_append: "readDigits (s @ t) = readDigits s * 10 ^ length t + readDigits t"
  using readDigits_from [of "readDigits s" t] by (simp add: readDigits_def)

lemma readDigits_decimal [simp]: "readDigits (decimal n) = n"
proof (induction n rule: decimal.induct)
  case (1 n)
  show ?case
  proof (cases "n < 10")
    case True
    then show ?thesis
      by (subst decimal.simps) (simp add: readDigits_def digitValue_hex_digit)
  next
    case False
    have "readDigits (decimal n) = readDigits (decimal (n div 10)) * 10 ^ 1 + readDigits [hex_digit (n mod 10)]"
      using False by (subst decimal.simps) (simp add: readDigits_append)
    also have "\<dots> = n div 10 * 10 + n mod 10"
      using 1 [OF False] by (simp add: readDigits_def digitValue_hex_digit)
    finally show ?thesis by simp
  qed
qed

lemma readDigits_grows: "readDigits s + n \<le> readDigits (s @ decimal n)"
  by (simp add: readDigits_append)

text \<open>Lengths that are objects: the offsets are read from the digits of the lengths so far, one after the other.\<close>

definition lengthDigits :: "plain_tx list \<Rightarrow> string" where
  "lengthDigits txs = decimal 0 @ concat (map (decimal \<circ> length \<circ> plainBytes) txs)"

definition misreadChild :: "8 word list \<Rightarrow> plain_tx list \<Rightarrow> plain_tx \<Rightarrow> child_tx" where
  "misreadChild buf pre t = \<lparr>childDestination = Some (plainDestination t), childValue = decimal (plainValue t),
     childData = bytes_hex (bytes_slice (readDigits (lengthDigits pre)) (readDigits (lengthDigits (pre @ [t]))) buf)\<rparr>"

lemma sliceChildren_big:
  "pre \<noteq> [] \<Longrightarrow>
   sliceChildren (map plainDestination (pre @ txs)) (map (BigObject \<circ> plainValue) (pre @ txs)) buf
     (length pre) (TextOffset (lengthDigits pre)) (map (BigObject \<circ> length \<circ> plainBytes) txs)
   = Inr (map (\<lambda>i. misreadChild buf (pre @ take i txs) (txs ! i)) [0..<length txs])"
proof (induction txs arbitrary: pre)
  case Nil
  show ?case by simp
next
  case (Cons t txs)
  have range: "[0..<length (t # txs)] = 0 # map Suc [0..<length txs]"
    by (simp add: upt_conv_Cons map_Suc_upt del: upt_Suc)
  have next_offset: "addLength (TextOffset (lengthDigits pre)) (BigObject (length (plainBytes t))) = TextOffset (lengthDigits (pre @ [t]))"
    by (simp add: lengthDigits_def)
  show ?case
    unfolding range using Cons.IH [of "pre @ [t]"] next_offset
    by (simp add: Let_def misreadChild_def nth_append del: upt_Suc)
qed

lemma sliceChildren_big_start:
  "sliceChildren (map plainDestination txs) (map (BigObject \<circ> plainValue) txs) buf 0 (NumberOffset 0)
     (map (BigObject \<circ> length \<circ> plainBytes) txs)
   = Inr (map (\<lambda>i. misreadChild buf (take i txs) (txs ! i)) [0..<length txs])"
proof (cases txs)
  case (Cons t rest)
  have range: "[0..<length txs] = 0 # map Suc [0..<length rest]"
    by (simp add: Cons upt_conv_Cons map_Suc_upt del: upt_Suc)
  have "addLength (NumberOffset 0) (BigObject (length (plainBytes t))) = TextOffset (lengthDigits [t])"
    by (simp add: lengthDigits_def)
  moreover have "readDigits (lengthDigits []) = 0" by (simp add: lengthDigits_def)
  ultimately show ?thesis
    unfolding range using sliceChildren_big [of "[t]" rest buf]
    by (simp add: Cons Let_def misreadChild_def del: upt_Suc)
qed simp

lemma misread_first:
  "misreadChild (plainBytes t @ buf) [] t = plainChild t"
  by (simp add: misreadChild_def plainChild_def lengthDigits_def readDigits_append bytes_slice_def)

lemma misread_second:
  "misreadChild (plainBytes s @ plainBytes t) [s] t = plainChild t"
proof -
  have "readDigits (lengthDigits [s]) = length (plainBytes s)" by (simp add: lengthDigits_def readDigits_append)
  moreover from this readDigits_grows [of "lengthDigits [s]" "length (plainBytes t)"]
  have "length (plainBytes s @ plainBytes t) \<le> readDigits (lengthDigits [s, t])" by (simp add: lengthDigits_def)
  ultimately show ?thesis by (simp add: misreadChild_def plainChild_def bytes_slice_def)
qed

section \<open>Properties\<close>

lemma allowed_iff_calls:
  assumes cb: "celo_base_documented cb" and free: "colon_free cb grants" and hex: "hexData c"
  shows "(\<exists>m. permits cb (buildFilter cb grants) c m) \<longleftrightarrow>
     (\<exists>(name, wrapper, meths) \<in> set grants. \<exists>me \<in> set meths. calls cb c wrapper me)"
proof -
  have plain: "plain_data cb c" using plain_data_hex [OF cb] hex by (simp add: hexData_def)
  show ?thesis
  proof
    assume "\<exists>m. permits cb (buildFilter cb grants) c m"
    then obtain m where "permits cb (buildFilter cb grants) c m" ..
    from permits_grants [OF cb free plain this]
    show "\<exists>(name, wrapper, meths) \<in> set grants. \<exists>me \<in> set meths. calls cb c wrapper me"
      by fastforce
  next
    assume "\<exists>(name, wrapper, meths) \<in> set grants. \<exists>me \<in> set meths. calls cb c wrapper me"
    then show "\<exists>m. permits cb (buildFilter cb grants) c m"
      using calls_permitted [OF cb _ _ _ plain] by fastforce
  qed
qed

lemma findMethod_total: "childDestination c \<noteq> None \<Longrightarrow> \<exists>r. findMethod cb f c = Inr r"
  by (auto simp: findMethod_def Let_def)

lemma allowedChildren_total:
  "(\<And>c. c \<in> set cs \<Longrightarrow> \<exists>r. lookup c = Inr r) \<Longrightarrow> \<exists>r. allowedChildren lookup cs = Inr r"
proof (induction cs)
  case Nil
  then show ?case by simp
next
  case (Cons c cs)
  then obtain r r' where "lookup c = Inr r" "allowedChildren lookup cs = Inr r'" by fastforce
  then show ?case by (cases r; cases r') auto
qed

text \<open>
  C5. The parser admits a meta-transaction exactly when it is a call of \<open>executeMetaTransaction\<close> on the
  wallet and every transaction decoded from that call is a call of one of the methods granted on one of
  the granted contracts; it then returns those transactions, in order and complete. When the root is
  right and a transaction is not granted, it is refused with the first such transaction.
\<close>

lemma parseTx_admits:
  assumes "celo_base_documented cb" and "colon_free cb grants"
    and "(case mf of None \<Rightarrow> dflt | Some f \<Rightarrow> f) = buildFilter cb grants"
    and "ppGetWallet p walletAddress w = (Inr wallet, w')"
    and "getChildren cb dec tx wallet = Inr (Ok cs)" and "\<forall>c \<in> set cs. childDestination c \<noteq> None"
  shows "\<exists>r. parseTx cb dec p dflt tx walletAddress mf w = (Inr r, w')
     \<and> (is_ok r \<longleftrightarrow> isCallTo cb (destination tx) (data tx) wallet ''executeMetaTransaction''
          \<and> (\<forall>c \<in> set cs. \<exists>(name, wrapper, meths) \<in> set grants. \<exists>me \<in> set meths. calls cb c wrapper me))
     \<and> (\<forall>ms. r = Ok ms \<longrightarrow> map metaRaw ms = cs)
     \<and> (\<forall>e. r = Err e \<longrightarrow> isCallTo cb (destination tx) (data tx) wallet ''executeMetaTransaction'' \<longrightarrow>
          (\<exists>pre c post. cs = pre @ c # post \<and> e = TransactionNotAllowed c
            \<and> \<not> (\<exists>(name, wrapper, meths) \<in> set grants. \<exists>me \<in> set meths. calls cb c wrapper me)
            \<and> (\<forall>c' \<in> set pre. \<exists>(name, wrapper, meths) \<in> set grants. \<exists>me \<in> set meths. calls cb c' wrapper me)))"
proof (cases "isCallTo cb (destination tx) (data tx) wallet ''executeMetaTransaction''")
  case False
  with assms(4) show ?thesis
    by (intro exI [of _ "Err (InvalidRootTransaction (rawChild tx))"])
      (simp add: parseTx_def andThen_def ret_app)
next
  case True
  let ?f = "buildFilter cb grants"
  have hex: "\<And>c. c \<in> set cs \<Longrightarrow> hexData c"
    using getChildren_hex [OF assms(5)] by (simp add: list_all_iff)
  note granted = allowed_iff_calls [OF assms(1,2) hex]
  obtain r where r: "allowedChildren (findMethod cb ?f) cs = Inr r"
    using allowedChildren_total findMethod_total assms(6) by metis
  have run: "parseTx cb dec p dflt tx walletAddress mf w = (Inr r, w')"
    using True assms(3-5) r
    by (simp add: parseTx_def andThen_def andThenOk_def liftSum_def ret_app)
  show ?thesis
  proof (cases r)
    case (Ok ms)
    with r have all: "list_all2 (permits cb ?f) cs ms"
      by (simp add: filter_list.allowedChildren_Ok_iff)
    then have "map metaRaw ms = cs"
      by (induction rule: list_all2_induct) (auto simp: permits_def)
    moreover from all have "\<forall>c \<in> set cs. \<exists>m. permits cb ?f c m"
      by (metis in_set_conv_nth list_all2_conv_all_nth)
    ultimately show ?thesis using run Ok True granted by auto
  next
    case (Err e)
    with r obtain pre c post where c: "cs = pre @ c # post" "e = TransactionNotAllowed c"
      "\<forall>m. \<not> permits cb ?f c m" "\<forall>c' \<in> set pre. \<exists>m. permits cb ?f c' m"
      using filter_list.allowedChildren_rejects by blast
    have no: "\<not> (\<exists>(name, wrapper, meths) \<in> set grants. \<exists>me \<in> set meths. calls cb c wrapper me)"
      using granted [of c] c(1,3) by simp
    have yes: "\<forall>c' \<in> set pre. \<exists>(name, wrapper, meths) \<in> set grants. \<exists>me \<in> set meths. calls cb c' wrapper me"
      using granted c(1,4) by simp
    show ?thesis
    proof (intro exI conjI allI impI)
      show "parseTx cb dec p dflt tx walletAddress mf w = (Inr r, w')" by (rule run)
      show "is_ok r \<longleftrightarrow> isCallTo cb (destination tx) (data tx) wallet ''executeMetaTransaction''
          \<and> (\<forall>c \<in> set cs. \<exists>(name, wrapper, meths) \<in> set grants. \<exists>me \<in> set meths. calls cb c wrapper me)"
        using Err no c(1) by auto
      show "map metaRaw ms = cs" if "r = Ok ms" for ms using that Err by simp
      show "cs = pre @ c # post" by (rule c(1))
      show "e' = TransactionNotAllowed c" if "r = Err e'" for e' using that Err c(2) by simp
    qed (use no yes in auto)
  qed
qed

definition demoWallet :: contract_wrapper where
  "demoWallet = \<lparr>wrapperAddress = ''0xAB'',
     wrapperMethodIds = (\<lambda>m. if m = ''executeMetaTransaction'' then ''0x11'' else ''0x22'')\<rparr>"

definition demoGrants :: "contract_grant list" where
  "demoGrants = [(''Escrow'', \<lparr>wrapperAddress = ''0xEE'', wrapperMethodIds = (\<lambda>m. ''0x33'')\<rparr>, [''withdraw''])]"

definition demoTxs :: "plain_tx list" where
  "demoTxs = [\<lparr>plainDestination = ''ee'', plainValue = 0, plainBytes = [0x33]\<rparr>,
              \<lparr>plainDestination = ''ee'', plainValue = 5, plainBytes = [0x33]\<rparr>]"

definition demoDecoder :: tx_decoder where
  "demoDecoder d = Inr
     (if d = ''0x11'' then \<lparr>decodedMethod = Some ''executeMetaTransaction'',
        decodedInputs = [InAddress ''ab'', InUint (BigObject 0), InBytes [0x22], InUint (BigObject 0), InUint (BigObject 0),
          InUint (BigObject 0)]\<rparr>
      else \<lparr>decodedMethod = Some ''executeTransactions'', decodedInputs = encodeInputs BigObject demoTxs\<rparr>)"

definition demoParser :: "unit parser_port" where
  "demoParser = \<lparr>ppGetWallet = (\<lambda>a. ret demoWallet), ppGetContract = (\<lambda>n. ret demoWallet)\<rparr>"

definition demoMetaTx :: raw_transaction where
  "demoMetaTx = \<lparr>destination = ''0xAB'', txValue = ''0x0'', data = ''0x11''\<rparr>"

lemma parseTx_admits_witness:
  "\<exists>ms. parseTx celo_base_std demoDecoder demoParser newMethodFilter demoMetaTx ''0xAB''
          (Some (buildFilter celo_base_std demoGrants)) () = (Inr (Ok ms), ())
     \<and> map metaRaw ms = map plainChild demoTxs"
proof -
  have children: "getChildren celo_base_std demoDecoder demoMetaTx demoWallet = Inr (Ok (map plainChild demoTxs))"
    by code_simp
  have dest: "\<forall>c \<in> set (map plainChild demoTxs). childDestination c \<noteq> None"
    by (simp add: demoTxs_def plainChild_def)
  have free: "colon_free celo_base_std demoGrants" by code_simp
  have root: "isCallTo celo_base_std (destination demoMetaTx) (data demoMetaTx) demoWallet ''executeMetaTransaction''"
    by code_simp
  have granted: "\<forall>c \<in> set (map plainChild demoTxs).
      \<exists>(name, wrapper, meths) \<in> set demoGrants. \<exists>me \<in> set meths. calls celo_base_std c wrapper me"
  proof -
    have "isCallTo celo_base_std ''ee'' (bytes_hex [0x33])
        \<lparr>wrapperAddress = ''0xEE'', wrapperMethodIds = (\<lambda>m. ''0x33'')\<rparr> ''withdraw''" by code_simp
    then show ?thesis by (simp add: demoTxs_def plainChild_def demoGrants_def calls_def)
  qed
  have wallet: "ppGetWallet demoParser ''0xAB'' () = (Inr demoWallet, ())"
    by (simp add: demoParser_def ret_app)
  show ?thesis
    using parseTx_admits [OF celo_base_std_documented free _ wallet children dest,
        where mf = "Some (buildFilter celo_base_std demoGrants)" and dflt = newMethodFilter] root granted
    by (auto simp: is_ok_iff)
qed

text \<open>
  C6. Decoding \<open>executeTransactions\<close> recovers exactly the transactions whose data were concatenated
  into its third input with their lengths in its fourth, destination, value and hexadecimal data of each, those
  with no data included: whenever the lengths are plain numbers, and for at most two transactions when
  they are objects.
\<close>

lemma decodeExecuteTransactions_roundtrip:
  assumes "dec (childData tx) =
      Inr \<lparr>decodedMethod = Some ''executeTransactions'', decodedInputs = encodeInputs num txs\<rparr>"
    and "num = PlainNumber \<or> num = BigObject \<and> length txs \<le> 2"
  shows "decodeExecuteTransactions dec tx = Inr (Ok (map plainChild txs))"
  using assms(2)
proof
  assume "num = PlainNumber"
  with assms(1) sliceChildren_plain [of "[]" txs] show ?thesis
    by (simp add: decodeExecuteTransactions_def decodeMethod_def encodeInputs_def EXECUTE_TRANSACTIONS_INPUTS_def)
next
  assume num: "num = BigObject \<and> length txs \<le> 2"
  then consider "txs = []" | t where "txs = [t]" | s t where "txs = [s, t]"
    by (cases txs; cases "tl txs") auto
  then have "map (\<lambda>i. misreadChild (concat (map plainBytes txs)) (take i txs) (txs ! i)) [0..<length txs] = map plainChild txs"
    by cases (use misread_first [of _ "[]"] in \<open>simp_all add: misread_first misread_second\<close>)
  with assms(1) num sliceChildren_big_start [of txs] show ?thesis
    by (simp add: decodeExecuteTransactions_def decodeMethod_def encodeInputs_def EXECUTE_TRANSACTIONS_INPUTS_def)
qed

lemma decodeExecuteTransactions_roundtrip_witness:
  "decodeExecuteTransactions demoDecoder \<lparr>childDestination = None, childValue = [], childData = ''22''\<rparr>
   = Inr (Ok [\<lparr>childDestination = Some ''ee'', childValue = ''0'', childData = ''33''\<rparr>,
              \<lparr>childDestination = Some ''ee'', childValue = ''5'', childData = ''33''\<rparr>])"
proof -
  have "map plainChild demoTxs = [\<lparr>childDestination = Some ''ee'', childValue = ''0'', childData = ''33''\<rparr>,
              \<lparr>childDestination = Some ''ee'', childValue = ''5'', childData = ''33''\<rparr>]" by code_simp
  moreover have "length demoTxs \<le> 2" by (simp add: demoTxs_def)
  ultimately show ?thesis
    using decodeExecuteTransactions_roundtrip [of demoDecoder
        "\<lparr>childDestination = None, childValue = [], childData = ''22''\<rparr>" BigObject demoTxs]
    by (simp add: demoDecoder_def)
qed

text \<open>Three transactions, of which the first two have 4 bytes of data and the third names another method\<close>

definition hidingTxs :: "string \<Rightarrow> nat \<Rightarrow> 8 word list \<Rightarrow> 8 word list \<Rightarrow> 8 word list \<Rightarrow> plain_tx list" where
  "hidingTxs dest v good evil rest =
     [\<lparr>plainDestination = dest, plainValue = v, plainBytes = good\<rparr>,
      \<lparr>plainDestination = dest, plainValue = v, plainBytes = good\<rparr>,
      \<lparr>plainDestination = dest, plainValue = v, plainBytes = evil @ good @ rest\<rparr>]"

lemma lengthDigits_hiding:
  assumes "length good = 4" and "length evil = 36" and "txs = hidingTxs dest v good evil rest"
  shows "readDigits (lengthDigits (take 0 txs)) = 0" "readDigits (lengthDigits (take 1 txs)) = 4"
    "readDigits (lengthDigits (take 2 txs)) = 44" "440 \<le> readDigits (lengthDigits (take 3 txs))"
proof -
  show "readDigits (lengthDigits (take 0 txs)) = 0" by (simp add: lengthDigits_def)
  show "readDigits (lengthDigits (take 1 txs)) = 4"
    using assms by (simp add: lengthDigits_def hidingTxs_def readDigits_append)
  have four: "length (decimal 4) = 1" by (subst decimal.simps) simp
  have "take 2 txs = hd txs # hd txs # []" using assms(3) by (simp add: hidingTxs_def numeral_2_eq_2)
  then show two: "readDigits (lengthDigits (take 2 txs)) = 44"
    using assms four by (simp add: lengthDigits_def hidingTxs_def readDigits_append)
  have "length (decimal n) \<ge> 1" for n by (subst decimal.simps) simp
  then have long: "10 \<le> (10 :: nat) ^ length (decimal n)" for n
    by (metis self_le_power power_increasing one_le_numeral power_one_right)
  have "lengthDigits (take 3 txs) = lengthDigits (take 2 txs) @ decimal (length (plainBytes (txs ! 2)))"
    using assms(3) by (simp add: lengthDigits_def hidingTxs_def numeral_2_eq_2 numeral_3_eq_3)
  then have "readDigits (lengthDigits (take 3 txs))
      = 44 * 10 ^ length (decimal (length (plainBytes (txs ! 2)))) + length (plainBytes (txs ! 2))"
    using two by (simp add: readDigits_append)
  with long [of "length (plainBytes (txs ! 2))"]
  show "440 \<le> readDigits (lengthDigits (take 3 txs))" by linarith
qed

lemma misread_hiding:
  assumes "length good = 4" and "length evil = 36" and "txs = hidingTxs dest v good evil rest"
    and "i < 3"
  shows "\<exists>tail. misreadChild (concat (map plainBytes txs)) (take i txs) (txs ! i)
     = \<lparr>childDestination = Some dest, childValue = decimal v, childData = bytes_hex (good @ tail)\<rparr>"
proof -
  note digits = lengthDigits_hiding [OF assms(1-3)]
  have buf: "concat (map plainBytes txs) = good @ good @ evil @ good @ rest"
    using assms(3) by (simp add: hidingTxs_def)
  have len: "length txs = 3" using assms(3) by (simp add: hidingTxs_def)
  have dest: "plainDestination (txs ! i) = dest" "plainValue (txs ! i) = v"
    using assms(3,4) by (auto simp: hidingTxs_def less_Suc_eq numeral_3_eq_3)
  have up: "take i txs @ [txs ! i] = take (Suc i) txs" using assms(4) len by (simp add: take_Suc_conv_app_nth)
  have "\<exists>tail. bytes_slice (readDigits (lengthDigits (take i txs))) (readDigits (lengthDigits (take (Suc i) txs)))
      (good @ good @ evil @ good @ rest) = good @ tail"
  proof -
    consider "i = 0" | "i = 1" | "i = 2" using assms(4) by linarith
    then show ?thesis
    proof cases
      case 1
      with digits assms(1) show ?thesis by (simp add: bytes_slice_def)
    next
      case 2
      with digits assms(1) show ?thesis by (simp add: bytes_slice_def numeral_2_eq_2)
    next
      case 3
      have "(4 :: nat) \<le> readDigits (lengthDigits (take 3 txs)) - 44" using digits(4) by linarith
      with 3 digits(3) assms(1,2) show ?thesis by (simp add: bytes_slice_def numeral_3_eq_3)
    qed
  qed
  then show ?thesis by (auto simp: misreadChild_def buf up dest)
qed

lemma bytes_hex_append: "bytes_hex (xs @ ys) = bytes_hex xs @ bytes_hex ys"
  by (induction xs) simp_all

lemma length_bytes_hex: "length (bytes_hex xs) = 2 * length xs"
  by (induction xs) simp_all

lemma extract_method_bytes:
  "celo_base_documented cb \<Longrightarrow> length bs = 4 \<Longrightarrow> extractMethodId cb (bytes_hex (bs @ tail)) = bytes_hex bs"
  using bytes_hex_chars [of "bs @ tail"]
  by (simp add: extractMethodId_hex) (simp add: bytes_hex_append length_bytes_hex)

text \<open>
  C37. With lengths that are objects, the third of three transactions can name a method that no grant
  has. The offsets are then the digits of the lengths so far, 4 and 44 after two calls of 4 bytes each:
  the parser takes for the third call what stands at byte 36 of its data, admits all three as calls of the
  granted method, and the method that the wallet will call is whatever the first four bytes say.
\<close>

lemma big_lengths_hide_a_call:
  assumes cb: "celo_base_documented cb"
    and grant: "(name, wrapper, meths) \<in> set grants" "me \<in> set meths"
    and filter: "(case mf of None \<Rightarrow> dflt | Some f \<Rightarrow> f) = buildFilter cb grants"
    and wallet: "ppGetWallet p walletAddress w = (Inr wallet, w')"
    and root: "isCallTo cb (destination tx) (data tx) wallet ''executeMetaTransaction''"
    and child: "decodeExecuteMetaTransaction dec (rawChild tx) = Inr (Ok child)"
      "isCallTo cb (the (childDestination child)) (childData child) wallet ''executeTransactions''"
      "dec (childData child) = Inr \<lparr>decodedMethod = Some ''executeTransactions'',
         decodedInputs = encodeInputs BigObject (hidingTxs dest v good evil rest)\<rparr>"
    and dest: "normalizeAddress cb dest = normalizeAddress cb (wrapperAddress wrapper)"
    and good: "bytes_hex good = normalizeMethodId cb (wrapperMethodIds wrapper me)" "length good = 4"
    and evil: "length evil = 36"
  shows "\<exists>ms. parseTx cb dec p dflt tx walletAddress mf w = (Inr (Ok ms), w')
     \<and> length ms = 3 \<and> (\<forall>m \<in> set ms. calls cb (metaRaw m) wrapper me)
     \<and> extractMethodId cb (childData (plainChild (hidingTxs dest v good evil rest ! 2))) = bytes_hex (take 4 evil)"
proof -
  let ?txs = "hidingTxs dest v good evil rest" and ?f = "buildFilter cb grants"
  define cs where "cs = map (\<lambda>i. misreadChild (concat (map plainBytes ?txs)) (take i ?txs) (?txs ! i)) [0..<3]"
  have three: "length ?txs = 3" by (simp add: hidingTxs_def)
  have children: "getChildren cb dec tx wallet = Inr (Ok cs)"
    using child three sliceChildren_big_start [of ?txs]
    by (simp add: getChildren_def decodeExecuteTransactions_def decodeMethod_def encodeInputs_def
        EXECUTE_TRANSACTIONS_INPUTS_def cs_def)
  have call: "calls cb c wrapper me \<and> hexData c" if "c \<in> set cs" for c
  proof -
    from that obtain i where "i < 3"
      and c: "c = misreadChild (concat (map plainBytes ?txs)) (take i ?txs) (?txs ! i)"
      by (auto simp: cs_def)
    from misread_hiding [OF good(2) evil refl this(1), of dest v rest] obtain tail where
      "c = \<lparr>childDestination = Some dest, childValue = decimal v, childData = bytes_hex (good @ tail)\<rparr>"
      unfolding c by blast
    then show ?thesis
      using dest good extract_method_bytes [OF cb good(2), of tail] by (simp add: calls_def isCallTo_def)
  qed
  have "\<exists>m. permits cb ?f c m" if "c \<in> set cs" for c
    using calls_permitted [OF cb grant] call [OF that] plain_data_hex [OF cb] by (simp add: hexData_def)
  then have "\<forall>i < length cs. \<exists>m. permits cb ?f (cs ! i) m" by simp
  then obtain g where g: "\<forall>i < length cs. permits cb ?f (cs ! i) (g i)" by metis
  define ms where "ms = map g [0..<length cs]"
  have all: "list_all2 (permits cb ?f) cs ms"
    using g by (simp add: ms_def list_all2_conv_all_nth)
  have "allowedChildren (findMethod cb ?f) cs = Inr (Ok ms)"
    using all by (simp only: filter_list.allowedChildren_Ok_iff)
  then have "parseTx cb dec p dflt tx walletAddress mf w = (Inr (Ok ms), w')"
    using filter root children wallet
    by (simp add: parseTx_def andThen_def andThenOk_def liftSum_def ret_app)
  moreover have "\<forall>m \<in> set ms. calls cb (metaRaw m) wrapper me"
    using g call by (auto simp: ms_def permits_def)
  moreover have "length ms = 3" by (simp add: ms_def cs_def)
  moreover have "extractMethodId cb (childData (plainChild (?txs ! 2))) = bytes_hex (take 4 evil)"
    using extract_method_bytes [OF cb, of "take 4 evil" "drop 4 evil @ good @ rest"] evil
    by (simp add: hidingTxs_def plainChild_def numeral_2_eq_2) (metis append.assoc append_take_drop_id)
  ultimately show ?thesis by blast
qed

text \<open>\<open>transfer\<close> has the id \<open>a9059cbb\<close>; the third call is one of \<open>dead0001\<close>.\<close>

definition hidingWrapper :: contract_wrapper where
  "hidingWrapper = \<lparr>wrapperAddress = ''0xEE'', wrapperMethodIds = (\<lambda>m. ''0xa9059cbb'')\<rparr>"

definition hidingDecoder :: tx_decoder where
  "hidingDecoder d = Inr
     (if d = ''0x11'' then \<lparr>decodedMethod = Some ''executeMetaTransaction'',
        decodedInputs = [InAddress ''ab'', InUint (BigObject 0), InBytes [0x22], InUint (BigObject 0),
          InUint (BigObject 0), InUint (BigObject 0)]\<rparr>
      else \<lparr>decodedMethod = Some ''executeTransactions'', decodedInputs = encodeInputs BigObject
        (hidingTxs ''ee'' 0 [0xa9, 0x05, 0x9c, 0xbb] ([0xde, 0xad, 0, 1] @ replicate 32 0) [])\<rparr>)"

lemma big_lengths_hide_a_call_witness:
  "\<exists>ms. parseTx celo_base_std hidingDecoder demoParser newMethodFilter demoMetaTx ''0xAB''
          (Some (buildFilter celo_base_std [(''StableToken'', hidingWrapper, [''transfer''])])) () = (Inr (Ok ms), ())
     \<and> length ms = 3 \<and> (\<forall>m \<in> set ms. calls celo_base_std (metaRaw m) hidingWrapper ''transfer'')
     \<and> extractMethodId celo_base_std (childData (plainChild (hidingTxs ''ee'' 0 [0xa9, 0x05, 0x9c, 0xbb]
          ([0xde, 0xad, 0, 1] @ replicate 32 0) [] ! 2))) = ''dead0001''"
proof -
  let ?child = "\<lparr>childDestination = Some ''ab'', childValue = ''0'', childData = ''22''\<rparr>"
  have wallet: "ppGetWallet demoParser ''0xAB'' () = (Inr demoWallet, ())" by (simp add: demoParser_def ret_app)
  have root: "isCallTo celo_base_std (destination demoMetaTx) (data demoMetaTx) demoWallet ''executeMetaTransaction''"
    by code_simp
  have child: "decodeExecuteMetaTransaction hidingDecoder (rawChild demoMetaTx) = Inr (Ok ?child)" by code_simp
  have inner: "isCallTo celo_base_std (the (childDestination ?child)) (childData ?child) demoWallet ''executeTransactions''"
    by code_simp
  have inputs: "hidingDecoder (childData ?child) = Inr \<lparr>decodedMethod = Some ''executeTransactions'',
      decodedInputs = encodeInputs BigObject
        (hidingTxs ''ee'' 0 [0xa9, 0x05, 0x9c, 0xbb] ([0xde, 0xad, 0, 1] @ replicate 32 0) [])\<rparr>"
    by (simp add: hidingDecoder_def)
  have dest: "normalizeAddress celo_base_std ''ee'' = normalizeAddress celo_base_std (wrapperAddress hidingWrapper)"
    by code_simp
  have good: "bytes_hex [0xa9, 0x05, 0x9c, 0xbb] = normalizeMethodId celo_base_std (wrapperMethodIds hidingWrapper ''transfer'')"
    by code_simp
  have evil: "bytes_hex (take 4 ([0xde, 0xad, 0, 1] @ replicate 32 0)) = ''dead0001''" by code_simp
  show ?thesis
    using big_lengths_hide_a_call [OF celo_base_std_documented, of "''StableToken''" hidingWrapper "[''transfer'']"
        "[(''StableToken'', hidingWrapper, [''transfer''])]" "''transfer''", OF _ _ _ wallet root child inner inputs dest good,
        where mf = "Some (buildFilter celo_base_std [(''StableToken'', hidingWrapper, [''transfer''])])"
          and dflt = newMethodFilter]
    unfolding evil by simp
qed

lemma defaultFilter_granted:
  assumes "defaultFilter cb p w = (Inr f, w')"
  obtains attestations accounts stableToken stableTokenEUR escrow where
    "f = buildFilter cb
       [(''Attestations'', attestations, [''selectIssuers'', ''complete'']),
        (''Accounts'', accounts, [''setAccount'']),
        (''StableToken'', stableToken, [''approve'', ''transfer'']),
        (''StableTokenEUR'', stableTokenEUR, [''approve'', ''transfer'']),
        (''Escrow'', escrow, [''withdraw''])]"
  using assms by (auto simp: defaultFilter_def runs buildFilter_def)

text \<open>
  What a meta-transaction that was admitted is: what the parser decodes from it is granted. That this is what the
  wallet will execute holds for plain lengths, and for at most two transactions otherwise.
\<close>

definition executes ::
    "celo_base \<Rightarrow> tx_decoder \<Rightarrow> raw_transaction \<Rightarrow> contract_wrapper \<Rightarrow> contract_grant list \<Rightarrow> bool" where
  "executes cb dec tx wallet grants \<longleftrightarrow>
     isCallTo cb (destination tx) (data tx) wallet ''executeMetaTransaction'' \<and>
     (\<exists>cs. getChildren cb dec tx wallet = Inr (Ok cs) \<and>
        (\<forall>c \<in> set cs. \<exists>(name, wrapper, meths) \<in> set grants. \<exists>me \<in> set meths. calls cb c wrapper me))"

lemma parseTx_Ok:
  assumes cb: "celo_base_documented cb" and free: "colon_free cb grants"
    and mf: "(case mf of None \<Rightarrow> dflt | Some f \<Rightarrow> f) = buildFilter cb grants"
    and run: "parseTx cb dec p dflt tx addr mf w = (Inr (Ok ms), w')"
  shows "\<exists>wallet. ppGetWallet p addr w = (Inr wallet, w') \<and> executes cb dec tx wallet grants"
proof -
  from run mf obtain wallet cs where
    1: "ppGetWallet p addr w = (Inr wallet, w')"
    "isCallTo cb (destination tx) (data tx) wallet ''executeMetaTransaction''"
    "getChildren cb dec tx wallet = Inr (Ok cs)"
    "allowedChildren (findMethod cb (buildFilter cb grants)) cs = Inr (Ok ms)"
    by (auto simp: parseTx_def runs)
  from 1(4) have "\<forall>c \<in> set cs. \<exists>m. permits cb (buildFilter cb grants) c m"
    unfolding filter_list.allowedChildren_Ok_iff by (metis in_set_conv_nth list_all2_conv_all_nth)
  moreover have "\<And>c. c \<in> set cs \<Longrightarrow> hexData c"
    using getChildren_hex [OF 1(3)] by (simp add: list_all_iff)
  ultimately have "\<forall>c \<in> set cs. \<exists>(name, wrapper, meths) \<in> set grants. \<exists>me \<in> set meths. calls cb c wrapper me"
    using allowed_iff_calls [OF cb free] by simp
  with 1 show ?thesis unfolding executes_def by blast
qed

end
