(* ===== verification/Wallet_Service.thy ===== *)
theory Wallet_Service
  imports Relayer_Proxy Tx_Parser
begin

text \<open>
  \<open>packages/apps/api/src/wallet/wallet.service.ts\<close> and \<open>subsidy/subsidy.service.ts\<close>: the deployment of a
  user's wallet, recorded in the session so that it is not repeated, the check that a wallet belongs
  to a user, and the validation and batching of subsidised attestation requests. Programs run on the
  log of the request and the outside world.
\<close>

type_synonym ('w, 'a) api_io = "(log_entry list \<times> 'w, thrown, 'a) io"

definition logEv :: "event \<Rightarrow> ('w, unit) api_io" where
  "logEv ev = modS (\<lambda>l. l @ [LogEvent ev None])"

section \<open>Errors\<close>

datatype wallet_error =
    WalletNotDeployed
  | WrongImplementation string
  | WalletInvalid wallet_validation_error

fun wallet_error_type :: "wallet_error \<Rightarrow> string" where
  "wallet_error_type WalletNotDeployed = ''NotDeployed''"
| "wallet_error_type (WrongImplementation _) = ''InvalidImplementation''"
| "wallet_error_type (WalletInvalid _) = ''InvalidWallet''"

fun wallet_error_object :: "wallet_error \<Rightarrow> error_object" where
  "wallet_error_object WalletNotDeployed = root_error ''NotDeployed'' []"
| "wallet_error_object (WrongImplementation address) =
     api_error 400 ''InvalidImplementation'' ''Unexpected MetaTransactionWallet implementation address''
       [(''address'', JStr address)]"
| "wallet_error_object (WalletInvalid reason) =
     api_error 400 ''InvalidWallet'' ''Invalid wallet''
       [(''reason'', JObj [(''errorType'', JStr (wallet_errorType reason)),
                         (''message'', JStr (wallet_message reason))])]"

text \<open>Errors the subsidy module declares\<close>

datatype subsidy_error = WalletSignerMismatchError string string | InvalidMetaTransaction string

fun subsidy_error_object :: "subsidy_error \<Rightarrow> error_object" where
  "subsidy_error_object (WalletSignerMismatchError expected sess) =
     root_error ''WalletSignerMismatchError''
       (''Wallet doesn'' @ [CHR 0x27] @ ''t belong to action initiator (wallet: '' @ expected @ '', session: '' @ sess @ '')'')"
| "subsidy_error_object (InvalidMetaTransaction context) =
     root_error ''InvalidMetaTransaction'' (''Invalid meta transaction received '' @ context)"

section \<open>Configuration and port\<close>

record wallet_env =
  weBase :: celo_base
  weNetwork :: network_config
  transactionTimeoutMs :: int
  relayerRpcTimeoutMs :: int

record chain_tx =
  txBlockNumber :: "int option"

text \<open>
  \<open>wpTransaction\<close> is \<open>web3.eth.getTransaction\<close>, whose result is \<open>null\<close> (\<open>None\<close>) for an unknown hash;
  \<open>wpDeployTx\<close> builds the deployer's transaction from owner, implementation and initialization data.
\<close>

record ('w, 'm) wallet_port =
  wpChain :: "('w, 'm) wallet_chain"
  wpSession :: "'w session_port"
  wpRelay :: "'w relay_port"
  wpParser :: "'w parser_port"
  wpDecoder :: tx_decoder
  wpTransaction :: "string \<Rightarrow> ('w, thrown, chain_tx option) io"
  wpDeployedEvents :: "int \<Rightarrow> int \<Rightarrow> ('w, thrown, wallet_deployed_event list) io"
  wpDeployTx :: "string \<Rightarrow> string \<Rightarrow> string \<Rightarrow> raw_transaction"
  wpEncodeInitialize :: "string \<Rightarrow> string \<Rightarrow> string"
  wpAttestationFee :: "rat \<Rightarrow> ('w, thrown, rat) io"
  wpTransferTx :: "string \<Rightarrow> rat \<Rightarrow> raw_transaction"

section \<open>The wallet service (wallet.service.ts)\<close>

definition isValidWallet ::
    "wallet_env \<Rightarrow> ('w, 'm) wallet_port \<Rightarrow> string \<Rightarrow> string \<Rightarrow> ('w, (wallet_error, unit) result) api_io" where
  "isValidWallet env p walletAddress expectedSigner =
     mapErr WalletInvalid (ext (verifyWallet (weBase env) (wpChain p) walletAddress
       (map fst (MetaTransactionWalletVersions (weNetwork env))) expectedSigner))"

text \<open>
  \<open>new Date() < deployDeadline\<close>, for a deployment of this implementation (of any, when none is given)
\<close>

definition hasDeployInProgress :: "wallet_env \<Rightarrow> int \<Rightarrow> session \<Rightarrow> string option \<Rightarrow> bool" where
  "hasDeployInProgress env now s implementationAddress \<longleftrightarrow>
     (case sessionMeta s of
        None \<Rightarrow> False
      | Some m \<Rightarrow>
          (case walletDeploy m of
             None \<Rightarrow> False
           | Some d \<Rightarrow>
               (implementationAddress = None \<or> implementationAddress = Some (deployImplementation d)) \<and>
               now < startedAt d + transactionTimeoutMs env))"

definition deployInProgress ::
    "wallet_env \<Rightarrow> ('w, 'm) wallet_port \<Rightarrow> session \<Rightarrow> string option \<Rightarrow> ('w, bool) api_io" where
  "deployInProgress env p s implementationAddress =
     (if (case sessionMeta s of None \<Rightarrow> False
          | Some m \<Rightarrow> (case walletDeploy m of None \<Rightarrow> False
             | Some d \<Rightarrow> implementationAddress = None \<or> implementationAddress = Some (deployImplementation d)))
      then andThen (ext (dateNow (wpSession p))) (\<lambda>now. ret (hasDeployInProgress env now s implementationAddress))
      else ret False)"

definition recordedTxHash :: "session \<Rightarrow> string" where
  "recordedTxHash s = deployTxHash (the (walletDeploy (the (sessionMeta s))))"

definition getWallet ::
    "wallet_env \<Rightarrow> ('w, 'm) wallet_port \<Rightarrow> session \<Rightarrow> string option \<Rightarrow> ('w, (wallet_error, string) result) api_io" where
  "getWallet env p s implementationAddress =
     andThen (deployInProgress env p s implementationAddress) (\<lambda>inProgress.
     if \<not> inProgress then ret (Err WalletNotDeployed)
     else
       andThen (ext (wpTransaction p (recordedTxHash s))) (\<lambda>tx.
       case tx of
         None \<Rightarrow> throw (typeError ''Cannot read property of null'')
       | Some t \<Rightarrow>
           (case txBlockNumber t of
              None \<Rightarrow> ret (Err WalletNotDeployed)
            | Some n \<Rightarrow>
                andThen (ext (wpDeployedEvents p n n)) (\<lambda>events.
                case find (\<lambda>ev. normalizeAddress (weBase env) (evOwner ev)
                               = normalizeAddress (weBase env) (sessionAccount s)) events of
                  Some ev \<Rightarrow> ret (Ok (evWallet ev))
                | None \<Rightarrow> ret (Err WalletNotDeployed)))))"

text \<open>
  \<open>implementationAddress in versions\<close> also finds the properties every object inherits.
\<close>

definition objectPrototypeKeys :: "string list" where
  "objectPrototypeKeys =
     [''constructor'', ''__defineGetter__'', ''__defineSetter__'', ''hasOwnProperty'', ''__lookupGetter__'',
      ''__lookupSetter__'', ''isPrototypeOf'', ''propertyIsEnumerable'', ''toString'', ''valueOf'',
      ''__proto__'', ''toLocaleString'']"

definition isValidImplementation :: "wallet_env \<Rightarrow> string \<Rightarrow> bool" where
  "isValidImplementation env implementationAddress \<longleftrightarrow>
     implementationAddress \<in> set (map fst (MetaTransactionWalletVersions (weNetwork env))) \<or>
     implementationAddress \<in> set objectPrototypeKeys"

definition apiDeployWallet ::
    "wallet_env \<Rightarrow> ('w, 'm) wallet_port \<Rightarrow> api_request \<Rightarrow> session \<Rightarrow> string \<Rightarrow>
     ('w, (wallet_error, string) result) api_io" where
  "apiDeployWallet env p req s implementationAddress =
     (if \<not> isValidImplementation env implementationAddress
      then ret (Err (WrongImplementation implementationAddress))
      else
        andThen (deployInProgress env p s (Some implementationAddress)) (\<lambda>inProgress.
        if inProgress then ret (Ok (recordedTxHash s))
        else
          let owner = ensureLeading0x (weBase env) (sessionAccount s);
              txn = wpDeployTx p owner (ensureLeading0x (weBase env) implementationAddress)
                      (wpEncodeInitialize p implementationAddress owner)
          in
          andThen (ext (proxySubmitTransaction (wpRelay p) (relayerRpcTimeoutMs env) req txn)) (\<lambda>res.
          andThen (throwErr relayer_error_object res) (\<lambda>resp.
          andThen (logEv (EvDeployWalletTxSent (sessionAccount s) (sessionId s) (rrPayload resp))) (\<lambda>_.
          andThen (ext (dateNow (wpSession p))) (\<lambda>now.
          andThen (ext (updateSession (wpSession p) (sessionId s)
            \<lparr>walletDeploy = Some \<lparr>startedAt = now, deployTxHash = rrPayload resp,
                                  deployImplementation = implementationAddress\<rparr>,
             callCount = (case sessionMeta s of None \<Rightarrow> None | Some m \<Rightarrow> callCount m)\<rparr>)) (\<lambda>_.
          ret (Ok (rrPayload resp)))))))))"

section \<open>Subsidies (subsidy.service.ts)\<close>

record request_attestations_dto =
  dtoIdentifier :: string
  dtoAttestationsRequested :: rat
  dtoWalletAddress :: string
  dtoRequestTx :: raw_transaction
  dtoApproveTx :: "raw_transaction option"

datatype validity_error = WalletRefused wallet_error | TxRefused tx_parse_error

fun validity_error_object :: "validity_error \<Rightarrow> error_object" where
  "validity_error_object (WalletRefused e) = wallet_error_object e"
| "validity_error_object (TxRefused e) = tx_parse_error_object e"

definition parseWith ::
    "wallet_env \<Rightarrow> ('w, 'm) wallet_port \<Rightarrow> raw_transaction \<Rightarrow> string \<Rightarrow> string \<Rightarrow> string \<Rightarrow>
     ('w, (validity_error, transaction_with_metadata list) result) api_io" where
  "parseWith env p tx walletAddress contract meth =
     andThen (ext (ppGetContract (wpParser p) contract)) (\<lambda>wrapper.
     mapErr TxRefused (ext (parseTx (weBase env) (wpDecoder p) (wpParser p) newMethodFilter tx walletAddress
       (Some (addContract (weBase env) contract wrapper [meth] newMethodFilter)))))"

definition subsidyIsValid ::
    "wallet_env \<Rightarrow> ('w, 'm) wallet_port \<Rightarrow> request_attestations_dto \<Rightarrow> session \<Rightarrow>
     ('w, (validity_error, unit) result) api_io" where
  "subsidyIsValid env p input s =
     andThenOk (mapErr WalletRefused (isValidWallet env p (dtoWalletAddress input) (sessionAccount s))) (\<lambda>_.
     andThenOk (parseWith env p (dtoRequestTx input) (dtoWalletAddress input) ''Attestations'' ''request'') (\<lambda>_.
     case dtoApproveTx input of
       None \<Rightarrow> ret (Ok ())
     | Some approveTx \<Rightarrow>
         andThenOk (parseWith env p approveTx (dtoWalletAddress input) ''StableToken'' ''approve'') (\<lambda>_.
         ret (Ok ()))))"

text \<open>
  \<open>buildSubsidyTransfer\<close>: the fee of the attestations is transferred to the wallet.
\<close>

definition buildSubsidyTransfer ::
    "('w, 'm) wallet_port \<Rightarrow> rat \<Rightarrow> string \<Rightarrow> ('w, raw_transaction) api_io" where
  "buildSubsidyTransfer p attestationsRequested account =
     andThen (ext (ppGetContract (wpParser p) ''Attestations'')) (\<lambda>attestations.
     andThen (ext (ppGetContract (wpParser p) ''StableToken'')) (\<lambda>stableToken.
     andThen (ext (wpAttestationFee p attestationsRequested)) (\<lambda>fee.
     ret (wpTransferTx p account fee))))"

definition buildTransactionBatch ::
    "('w, 'm) wallet_port \<Rightarrow> request_attestations_dto \<Rightarrow> ('w, raw_transaction list) api_io" where
  "buildTransactionBatch p input =
     andThen (buildSubsidyTransfer p (dtoAttestationsRequested input) (dtoWalletAddress input)) (\<lambda>transfer.
     ret ([transfer] @ (case dtoApproveTx input of None \<Rightarrow> [] | Some tx \<Rightarrow> [tx]) @ [dtoRequestTx input]))"

section \<open>Deployment is not repeated\<close>

text \<open>The relayer does not write the table of sessions.\<close>

definition relay_frames :: "'w relay_port \<Rightarrow> ('w \<Rightarrow> session list) \<Rightarrow> bool" where
  "relay_frames rp tbl \<longleftrightarrow> (\<forall>cmd input ctx w. tbl (snd (relaySend rp cmd input ctx w)) = tbl w)"

lemma executeRelay_frame:
  assumes "relay_frames rp tbl" and "executeRelay rp t req cmd input w = (r, w')"
  shows "tbl w' = tbl w"
proof -
  obtain a q v where v: "relaySend rp cmd input (requestContext req) w = ((a, q), v)"
    by (metis prod.collapse)
  with assms(1) have "tbl v = tbl w" unfolding relay_frames_def by (metis snd_conv)
  moreover from v assms(2) have "w' = v" by (simp add: executeRelay_def)
  ultimately show ?thesis by simp
qed

lemma deployInProgress_known:
  assumes "sessionMeta s = Some m" and "walletDeploy m = Some d" and "deployImplementation d = impl"
    and "dateNow (wpSession p) u = (Inr t, u')" and "t < startedAt d + transactionTimeoutMs env"
  shows "deployInProgress env p s (Some impl) (l, u) = (Inr True, (l, u'))"
  using assms by (simp add: deployInProgress_def andThen_def ext_def hasDeployInProgress_def ret_app)

lemma apiDeployWallet_known:
  assumes "isValidImplementation env impl" and "sessionMeta s = Some m" and "walletDeploy m = Some d"
    and "deployImplementation d = impl"
    and "dateNow (wpSession p) u = (Inr t, u')" and "t < startedAt d + transactionTimeoutMs env"
  shows "apiDeployWallet env p req s impl (l, u) = (Inr (Ok (deployTxHash d)), (l, u'))"
  using assms deployInProgress_known [OF assms(2-6), of l]
  by (simp add: apiDeployWallet_def andThen_def ret_app recordedTxHash_def)

lemma dateNow_stored:
  "stores_in p tbl \<Longrightarrow> dateNow p w = (r, w') \<Longrightarrow> tbl w' = tbl w"
  using stores_inD(6) by (metis prod.inject)

lemma deployInProgress_frame:
  "stores_in (wpSession p) tbl \<Longrightarrow> deployInProgress env p s i (l, w) = (r, (l', w')) \<Longrightarrow> l' = l \<and> tbl w' = tbl w"
  by (auto simp: deployInProgress_def andThen_def ext_def ret_app dest: dateNow_stored
      split: if_splits prod.splits sum.splits)

lemma find_row_id: "find (\<lambda>r. sessionId r = sid) rows = Some s \<Longrightarrow> sessionId s = sid"
  by (auto simp: find_Some_iff)

text \<open>A deployment that was sent, not found in progress: what is stored\<close>

lemma apiDeployWallet_sent:
  assumes st: "stores_in (wpSession p) tbl" and fr: "relay_frames (wpRelay p) tbl"
    and row: "find (\<lambda>r. sessionId r = sessionId s) (tbl w) = Some s"
    and run: "apiDeployWallet env p req s impl (l, w) = (Inr (Ok h), (l', w'))"
    and idle: "\<And>t. \<not> hasDeployInProgress env t s (Some impl)"
  shows "isValidImplementation env impl \<and>
     (\<exists>t u u' s'. dateNow (wpSession p) u = (Inr t, u') \<and>
       find (\<lambda>r. sessionId r = sessionId s) (tbl w') = Some s' \<and>
       s' = s\<lparr>sessionMeta := Some
         \<lparr>walletDeploy = Some \<lparr>startedAt = t, deployTxHash = h, deployImplementation = impl\<rparr>,
          callCount = (case sessionMeta s of None \<Rightarrow> None | Some m \<Rightarrow> callCount m)\<rparr>\<rparr>)"
proof -
  from run have valid: "isValidImplementation env impl"
    by (auto simp: apiDeployWallet_def split: if_splits)
  from run valid obtain b l1 w1 where
    1: "deployInProgress env p s (Some impl) (l, w) = (Inr b, (l1, w1))"
    by (auto simp: apiDeployWallet_def runs)
  have "\<not> b" using 1 idle
    by (auto simp: deployInProgress_def runs split: if_splits)
  from run valid 1 \<open>\<not> b\<close> obtain resp w2 t w3 where
    2: "executeRelay (wpRelay p) (relayerRpcTimeoutMs env) req SubmitTransaction
          (SubmitTransactionInput (wpDeployTx p (ensureLeading0x (weBase env) (sessionAccount s))
             (ensureLeading0x (weBase env) impl)
             (wpEncodeInitialize p impl (ensureLeading0x (weBase env) (sessionAccount s))))) w1
        = (Inr (Ok resp), w2)" and
    3: "dateNow (wpSession p) w2 = (Inr t, w3)" and h: "h = rrPayload resp" and
    4: "repoUpdateMeta (wpSession p) (sessionId s)
          \<lparr>walletDeploy = Some \<lparr>startedAt = t, deployTxHash = h, deployImplementation = impl\<rparr>,
           callCount = (case sessionMeta s of None \<Rightarrow> None | Some m \<Rightarrow> callCount m)\<rparr> w3 = (Inr (), w')"
    by (auto simp: apiDeployWallet_def runs proxySubmitTransaction_def throwErr_def logEv_def updateSession_def)
  let ?m = "\<lparr>walletDeploy = Some \<lparr>startedAt = t, deployTxHash = h, deployImplementation = impl\<rparr>,
           callCount = (case sessionMeta s of None \<Rightarrow> None | Some m \<Rightarrow> callCount m)\<rparr>"
  have "tbl w3 = tbl w"
    using 1 2 3 deployInProgress_frame [OF st] executeRelay_frame [OF fr] dateNow_stored [OF st] by metis
  moreover from stores_inD(2) [OF st, of "sessionId s" ?m w3] 4
  have "tbl w' = map (setMeta (sessionId s) ?m) (tbl w3)" by auto
  ultimately have "find (\<lambda>r. sessionId r = sessionId s) (tbl w') = Some (s\<lparr>sessionMeta := Some ?m\<rparr>)"
    using row by (simp add: find_setMeta)
  with valid 3 show ?thesis by blast
qed

section \<open>Properties\<close>

text \<open>
  C7. A wallet deployment that was sent is recorded: when the user asks again for the same
  implementation, with the session loaded from the store and before the deadline, the hash of the
  first transaction is returned and nothing is sent or written.
\<close>

lemma apiDeployWallet_idempotent:
  assumes "stores_in (wpSession p) tbl" and "relay_frames (wpRelay p) tbl"
    and "find (\<lambda>r. sessionId r = sessionId s) (tbl w) = Some s"
    and "apiDeployWallet env p req s impl (l, w) = (Inr (Ok h), (l', w'))"
    and "\<And>t. \<not> hasDeployInProgress env t s (Some impl)"
  shows "\<exists>s' t u u'. find (\<lambda>r. sessionId r = sessionId s) (tbl w') = Some s'
     \<and> dateNow (wpSession p) u = (Inr t, u')
     \<and> (\<forall>req' k v t' v'. dateNow (wpSession p) v = (Inr t', v') \<longrightarrow> t' < t + transactionTimeoutMs env \<longrightarrow>
          apiDeployWallet env p req' s' impl (k, v) = (Inr (Ok h), (k, v')))"
proof -
  from apiDeployWallet_sent [OF assms] obtain t u u' s' where
    valid: "isValidImplementation env impl" and
    t: "dateNow (wpSession p) u = (Inr t, u')" and
    row: "find (\<lambda>r. sessionId r = sessionId s) (tbl w') = Some s'" and
    s': "s' = s\<lparr>sessionMeta := Some
         \<lparr>walletDeploy = Some \<lparr>startedAt = t, deployTxHash = h, deployImplementation = impl\<rparr>,
          callCount = (case sessionMeta s of None \<Rightarrow> None | Some m \<Rightarrow> callCount m)\<rparr>\<rparr>" by blast
  have "apiDeployWallet env p req' s' impl (k, v) = (Inr (Ok h), (k, v'))"
    if "dateNow (wpSession p) v = (Inr t', v')" "t' < t + transactionTimeoutMs env" for req' k v t' v'
    using apiDeployWallet_known [OF valid, of s' _ "\<lparr>startedAt = t, deployTxHash = h, deployImplementation = impl\<rparr>"
        p v t' v' req' k] that by (simp add: s')
  with row t show ?thesis by blast
qed

text \<open>An environment for the witnesses: a table of sessions and a relayer that always answers.\<close>

definition demoRelay :: "(session list \<times> int) relay_port" where
  "demoRelay = \<lparr>relaySend = (\<lambda>cmd input ctx w. ((Some 0, Inr \<lparr>rrPayload = ''0xHASH'', rrAddress = ''0xR''\<rparr>), w))\<rparr>"

definition demoWalletChain :: "(session list \<times> int, string) wallet_chain" where
  "demoWalletChain = \<lparr>getCode = (\<lambda>a. ret ''proxy''), soliditySha3 = (\<lambda>s. Some PROXY_BYTECODE_SHA3),
     ethCall = (\<lambda>a d. ret ''raw''), getImplementationSignature = ''0x42404e07'',
     decodeAddress = (\<lambda>raw. Inr ''0x88a2b9B8387A1823D821E406b4e951337fa1D46D''), getMetaTransactionWallet = ret,
     walletSigner = (\<lambda>m. ret ''0xAcc'')\<rparr>"

definition demoContracts :: "(session list \<times> int) parser_port" where
  "demoContracts = \<lparr>ppGetWallet = (\<lambda>a. ret demoWallet),
     ppGetContract = (\<lambda>n. ret \<lparr>wrapperAddress = ''0xEE'', wrapperMethodIds = (\<lambda>m. ''0x33'')\<rparr>)\<rparr>"

definition demoWalletPort :: "(session list \<times> int, string) wallet_port" where
  "demoWalletPort = \<lparr>wpChain = demoWalletChain, wpSession = table_port, wpRelay = demoRelay, wpParser = demoContracts,
     wpDecoder = demoDecoder, wpTransaction = (\<lambda>h. ret (Some \<lparr>txBlockNumber = None\<rparr>)),
     wpDeployedEvents = (\<lambda>f t. ret []),
     wpDeployTx = (\<lambda>o' i d. \<lparr>destination = ''0xDD'', txValue = ''0x0'', data = d\<rparr>),
     wpEncodeInitialize = (\<lambda>i o'. ''0x44''), wpAttestationFee = (\<lambda>n. ret (n * 5)),
     wpTransferTx = (\<lambda>a fee. \<lparr>destination = a, txValue = ''0x0'', data = ''0x55''\<rparr>)\<rparr>"

definition demoEnv :: wallet_env where
  "demoEnv = \<lparr>weBase = celo_base_std, weNetwork = configs alfajores,
     transactionTimeoutMs = 100, relayerRpcTimeoutMs = 10\<rparr>"

definition demoRequest :: api_request where
  "demoRequest = \<lparr>reqId = ''r'', reqSession = None\<rparr>"

definition freshRow :: session where
  "freshRow = \<lparr>sessionId = ''i'', sessionAccount = ''acc'', sessionMeta = None, createdAt = 1,
     expiredAt = None, completedAt = None\<rparr>"

definition demoImpl :: string where
  "demoImpl = ''0x88a2b9B8387A1823D821E406b4e951337fa1D46D''"

lemma demo_stored: "stores_in (wpSession demoWalletPort) fst"
  by (simp add: demoWalletPort_def stores_in_table_port)

lemma demo_frames: "relay_frames (wpRelay demoWalletPort) fst"
  by (simp add: relay_frames_def demoWalletPort_def demoRelay_def)

lemma demo_deploy:
  "\<exists>l' w'. apiDeployWallet demoEnv demoWalletPort demoRequest freshRow demoImpl ([], ([freshRow], 7))
      = (Inr (Ok ''0xHASH''), (l', w'))"
  by (intro exI) code_simp

lemma demo_row: "find (\<lambda>r. sessionId r = sessionId freshRow) (fst ([freshRow], 7 :: int)) = Some freshRow"
  by simp

lemma apiDeployWallet_idempotent_witness:
  "\<exists>s' t. \<forall>v. t < snd v \<longrightarrow> snd v < t + 100 \<longrightarrow>
     (\<exists>v'. apiDeployWallet demoEnv demoWalletPort demoRequest s' demoImpl ([], v) = (Inr (Ok ''0xHASH''), ([], v')))"
proof -
  obtain l' w' where run: "apiDeployWallet demoEnv demoWalletPort demoRequest freshRow demoImpl ([], ([freshRow], 7))
      = (Inr (Ok ''0xHASH''), (l', w'))" using demo_deploy by blast
  have idle: "\<And>t. \<not> hasDeployInProgress demoEnv t freshRow (Some demoImpl)"
    by (simp add: hasDeployInProgress_def freshRow_def)
  have clock: "dateNow (wpSession demoWalletPort) v = (Inr (snd v), (fst v, snd v + 1))" for v
    by (simp add: demoWalletPort_def table_port_def split_beta)
  have timeout: "transactionTimeoutMs demoEnv = 100" by (simp add: demoEnv_def)
  from apiDeployWallet_idempotent [OF demo_stored demo_frames demo_row run idle] clock timeout
  show ?thesis by (metis (no_types, lifting))
qed

text \<open>
  C8. When the stored session has no metadata yet, the deployment writes metadata without call
  counts: afterwards every check of a tracked action's quota on that session, the guard's and the
  one made when a session is started again, fails with a type error that is not an API error.
\<close>

lemma deploy_breaks_fresh_session:
  assumes "stores_in (wpSession p) tbl" and "relay_frames (wpRelay p) tbl"
    and "find (\<lambda>r. sessionId r = sessionId s) (tbl w) = Some s" and "sessionMeta s = None"
    and "apiDeployWallet env p req s impl (l, w) = (Inr (Ok h), (l', w'))"
  shows "\<exists>s' e. find (\<lambda>r. sessionId r = sessionId s) (tbl w') = Some s' \<and> \<not> isApiError e
     \<and> (\<forall>action cfg. canActivate cfg (Some action) s' = Inl e \<and> hasQuota cfg s' = Inl e)"
proof -
  have idle: "\<not> hasDeployInProgress env t s (Some impl)" for t
    using assms(4) by (simp add: hasDeployInProgress_def)
  from apiDeployWallet_sent [OF assms(1-3,5) idle] assms(4) obtain s' m where
    row: "find (\<lambda>r. sessionId r = sessionId s) (tbl w') = Some s'" and
    m: "sessionMeta s' = Some m" "callCount m = None" by auto
  have c: "getActionCount s' a = Inl (typeError ''Cannot read property of undefined'')" for a
    using getActionCount_throws_iff m by blast
  have "\<not> isApiError (typeError ''Cannot read property of undefined'')"
    by (simp add: typeError_def plain_error_def)
  moreover have "canActivate cfg (Some action) s' = Inl (typeError ''Cannot read property of undefined'')
      \<and> hasQuota cfg s' = Inl (typeError ''Cannot read property of undefined'')" for cfg action
    by (simp add: canActivate_def hasQuota_def quotaLeft_def enum_tracked_action_def c)
  ultimately show ?thesis using row by blast
qed

lemma deploy_breaks_fresh_session_witness:
  "\<exists>w' s' e. find (\<lambda>r. sessionId r = ''i'') (fst (w' :: session list \<times> int)) = Some s' \<and> \<not> isApiError e
     \<and> canActivate (quotaConfig (\<lambda>_. None)) (Some SubmitMetaTransactionAction) s' = Inl e"
proof -
  obtain l' w' where run: "apiDeployWallet demoEnv demoWalletPort demoRequest freshRow demoImpl ([], ([freshRow], 7))
      = (Inr (Ok ''0xHASH''), (l', w'))" using demo_deploy by blast
  have none: "sessionMeta freshRow = None" by (simp add: freshRow_def)
  have sid: "sessionId freshRow = ''i''" by (simp add: freshRow_def)
  from deploy_breaks_fresh_session [OF demo_stored demo_frames demo_row none run]
  show ?thesis unfolding sid by blast
qed

section \<open>Subsidised requests\<close>

text \<open>Addresses and method ids of the contracts have no colon: they are hexadecimal.\<close>

definition plain_contracts :: "wallet_env \<Rightarrow> ('w, 'm) wallet_port \<Rightarrow> bool" where
  "plain_contracts env p \<longleftrightarrow>
     (\<forall>n me u c v. ppGetContract (wpParser p) n u = (Inr c, v) \<longrightarrow> colon_free (weBase env) [(n, c, [me])])"

lemma parseWith_Ok:
  assumes cb: "celo_base_documented (weBase env)"
    and free: "plain_contracts env p"
    and run: "parseWith env p tx addr contract meth (l, w) = (Inr (Ok ms), (l', w'))"
  shows "\<exists>wrapper wallet u v. ppGetContract (wpParser p) contract w = (Inr wrapper, u)
     \<and> ppGetWallet (wpParser p) addr u = (Inr wallet, v)
     \<and> executes (weBase env) (wpDecoder p) tx wallet [(contract, wrapper, [meth])]"
proof -
  from run obtain wrapper u where
    1: "ppGetContract (wpParser p) contract w = (Inr wrapper, u)" and
    2: "parseTx (weBase env) (wpDecoder p) (wpParser p) newMethodFilter tx addr
      (Some (addContract (weBase env) contract wrapper [meth] newMethodFilter)) u = (Inr (Ok ms), w')"
    by (auto simp: parseWith_def runs)
  have "addContract (weBase env) contract wrapper [meth] newMethodFilter
      = buildFilter (weBase env) [(contract, wrapper, [meth])]"
    by (simp add: buildFilter_def)
  moreover from free 1 have "colon_free (weBase env) [(contract, wrapper, [meth])]"
    unfolding plain_contracts_def by blast
  ultimately show ?thesis using parseTx_Ok [OF cb _ _ 2] 1 by fastforce
qed

text \<open>
  C9. A request for subsidised attestations is valid only when the wallet passed the verification
  for the session's account, the request transaction is a meta-transaction of that wallet from which nothing but
  calls of \<open>request\<close> on the registry's \<open>Attestations\<close> contract are decoded, and the approval, when there is one, one
  of that wallet from which nothing but calls of \<open>approve\<close> on the registry's \<open>StableToken\<close> are; nothing of the log
  is written. What is then submitted is the transfer of the
  fee to the wallet, the approval and the request, in this order.
\<close>

lemma subsidy_valid:
  assumes "celo_base_documented (weBase env)"
    and "plain_contracts env p"
    and "subsidyIsValid env p input s (l, w) = (Inr (Ok ()), (l', w'))"
    and "buildTransactionBatch p input (l', w') = (Inr batch, (l'', w''))"
  shows "(\<exists>u v. verifyWallet (weBase env) (wpChain p) (dtoWalletAddress input)
            (map fst (MetaTransactionWalletVersions (weNetwork env))) (sessionAccount s) u = (Inr (Ok ()), v))
     \<and> (\<exists>wallet attestations u v. ppGetContract (wpParser p) ''Attestations'' u = (Inr attestations, v)
            \<and> (\<exists>u v. ppGetWallet (wpParser p) (dtoWalletAddress input) u = (Inr wallet, v))
            \<and> executes (weBase env) (wpDecoder p) (dtoRequestTx input) wallet
                 [(''Attestations'', attestations, [''request''])])
     \<and> (\<forall>tx. dtoApproveTx input = Some tx \<longrightarrow>
            (\<exists>wallet token u v. ppGetContract (wpParser p) ''StableToken'' u = (Inr token, v)
            \<and> (\<exists>u v. ppGetWallet (wpParser p) (dtoWalletAddress input) u = (Inr wallet, v))
            \<and> executes (weBase env) (wpDecoder p) tx wallet [(''StableToken'', token, [''approve''])]))
     \<and> l'' = l
     \<and> (\<exists>fee u v. wpAttestationFee p (dtoAttestationsRequested input) u = (Inr fee, v)
          \<and> batch = [wpTransferTx p (dtoWalletAddress input) fee]
              @ (case dtoApproveTx input of None \<Rightarrow> [] | Some tx \<Rightarrow> [tx]) @ [dtoRequestTx input])"
proof -
  from assms(3) obtain l1 w1 ms l2 w2 where
    1: "isValidWallet env p (dtoWalletAddress input) (sessionAccount s) (l, w) = (Inr (Ok ()), (l1, w1))" and
    2: "parseWith env p (dtoRequestTx input) (dtoWalletAddress input) ''Attestations'' ''request'' (l1, w1)
        = (Inr (Ok ms), (l2, w2))" and
    3: "dtoApproveTx input = None \<and> (l2, w2) = (l', w') \<or> (\<exists>tx ms'. dtoApproveTx input = Some tx \<and>
          parseWith env p tx (dtoWalletAddress input) ''StableToken'' ''approve'' (l2, w2) = (Inr (Ok ms'), (l', w')))"
    by (auto simp: subsidyIsValid_def runs)
  have frame: "l'' = l'" if "parseWith env p tx a c m (l', w') = (r, (l'', w''))" for tx a c m r l' w' l'' w''
    using that by (auto simp: parseWith_def mapErr_def andThen_def ext_def ret_app
        split: prod.splits sum.splits result.splits)
  from 1 have "l1 = l" by (auto simp: isValidWallet_def runs)
  moreover from 2 frame have "l2 = l1" by blast
  moreover from 3 frame have "l' = l2" by auto
  moreover from assms(4) have "l'' = l'" by (auto simp: buildTransactionBatch_def buildSubsidyTransfer_def runs)
  moreover from 1 have "\<exists>u v. verifyWallet (weBase env) (wpChain p) (dtoWalletAddress input)
            (map fst (MetaTransactionWalletVersions (weNetwork env))) (sessionAccount s) u = (Inr (Ok ()), v)"
    by (auto simp: isValidWallet_def runs)
  moreover from parseWith_Ok [OF assms(1,2) 2]
  have "\<exists>wallet attestations u v. ppGetContract (wpParser p) ''Attestations'' u = (Inr attestations, v)
            \<and> (\<exists>u v. ppGetWallet (wpParser p) (dtoWalletAddress input) u = (Inr wallet, v))
            \<and> executes (weBase env) (wpDecoder p) (dtoRequestTx input) wallet
                 [(''Attestations'', attestations, [''request''])]" by blast
  moreover have "\<exists>wallet token u v. ppGetContract (wpParser p) ''StableToken'' u = (Inr token, v)
            \<and> (\<exists>u v. ppGetWallet (wpParser p) (dtoWalletAddress input) u = (Inr wallet, v))
            \<and> executes (weBase env) (wpDecoder p) tx wallet [(''StableToken'', token, [''approve''])]"
    if "dtoApproveTx input = Some tx" for tx
  proof -
    from 3 that obtain ms' where
      "parseWith env p tx (dtoWalletAddress input) ''StableToken'' ''approve'' (l2, w2) = (Inr (Ok ms'), (l', w'))"
      by auto
    from parseWith_Ok [OF assms(1,2) this] show ?thesis by blast
  qed
  moreover from assms(4) have "\<exists>fee u v. wpAttestationFee p (dtoAttestationsRequested input) u = (Inr fee, v)
          \<and> batch = [wpTransferTx p (dtoWalletAddress input) fee]
              @ (case dtoApproveTx input of None \<Rightarrow> [] | Some tx \<Rightarrow> [tx]) @ [dtoRequestTx input]"
    by (auto simp: buildTransactionBatch_def buildSubsidyTransfer_def runs)
  ultimately show ?thesis by simp
qed

definition demoGrantDecoder :: tx_decoder where
  "demoGrantDecoder d = Inr
     (if d = ''0x11'' then \<lparr>decodedMethod = Some ''executeMetaTransaction'',
        decodedInputs = [InAddress ''ee'', InUint (BigObject 0), InBytes [0x33], InUint (BigObject 0), InUint (BigObject 0),
          InUint (BigObject 0)]\<rparr>
      else \<lparr>decodedMethod = None, decodedInputs = []\<rparr>)"

definition demoDto :: request_attestations_dto where
  "demoDto = \<lparr>dtoIdentifier = ''id'', dtoAttestationsRequested = 3, dtoWalletAddress = ''0xAB'',
     dtoRequestTx = demoMetaTx, dtoApproveTx = Some demoMetaTx\<rparr>"

definition demoSubsidyPort :: "(session list \<times> int, string) wallet_port" where
  "demoSubsidyPort = demoWalletPort\<lparr>wpDecoder := demoGrantDecoder\<rparr>"

lemma subsidy_valid_witness:
  "\<exists>u v. verifyWallet celo_base_std demoWalletChain ''0xAB''
     (map fst (MetaTransactionWalletVersions (configs alfajores))) ''acc'' u = (Inr (Ok ()), v)"
proof -
  have valid: "subsidyIsValid demoEnv demoSubsidyPort demoDto freshRow ([], ([freshRow], 7))
      = (Inr (Ok ()), ([], ([freshRow], 7)))"
    by code_simp
  have batch: "\<exists>batch. buildTransactionBatch demoSubsidyPort demoDto ([], ([freshRow], 7))
      = (Inr batch, ([], ([freshRow], 7)))"
    by (intro exI) code_simp
  have base: "celo_base_documented (weBase demoEnv)"
    by (simp add: demoEnv_def celo_base_std_documented)
  have colon: "colon_free (weBase demoEnv) [(n, c, [me])]"
    if "ppGetContract (wpParser demoSubsidyPort) n u = (Inr c, v)" for n me u c v
  proof -
    from that have "c = \<lparr>wrapperAddress = ''0xEE'', wrapperMethodIds = (\<lambda>m. ''0x33'')\<rparr>"
      by (simp add: demoSubsidyPort_def demoWalletPort_def demoContracts_def)
    moreover have "CHR '':'' \<notin> set (normalizeAddress (weBase demoEnv) ''0xEE'')"
      "CHR '':'' \<notin> set (normalizeMethodId (weBase demoEnv) ''0x33'')" by code_simp+
    ultimately show ?thesis by (simp add: colon_free_def)
  qed
  have free: "plain_contracts demoEnv demoSubsidyPort"
    unfolding plain_contracts_def using colon by blast
  have env: "weBase demoEnv = celo_base_std" "wpChain demoSubsidyPort = demoWalletChain"
    "dtoWalletAddress demoDto = ''0xAB''" "weNetwork demoEnv = configs alfajores" "sessionAccount freshRow = ''acc''"
    by (simp_all add: demoEnv_def demoSubsidyPort_def demoWalletPort_def demoDto_def freshRow_def del: configs.simps)
  from batch obtain b where "buildTransactionBatch demoSubsidyPort demoDto ([], ([freshRow], 7))
      = (Inr b, ([], ([freshRow], 7)))" by blast
  from subsidy_valid [OF base free valid this] show ?thesis
    unfolding env by blast
qed

text \<open>
  The validation does not tie the subsidy to the request: it gives the same answer for any
  number of attestations and any identifier, while the fee that is transferred is the one for the
  number given.
\<close>

lemma subsidy_ignores_count:
  "subsidyIsValid env p (input\<lparr>dtoAttestationsRequested := n, dtoIdentifier := i\<rparr>) s = subsidyIsValid env p input s
   \<and> buildSubsidyTransfer p (dtoAttestationsRequested (input\<lparr>dtoAttestationsRequested := n, dtoIdentifier := i\<rparr>)) a
     = buildSubsidyTransfer p n a"
  by (simp add: subsidyIsValid_def split: option.split)

end
