(* ===== verification/Gateway.thy ===== *)
theory Gateway
  imports Kit Wallet_Service
begin

text \<open>
  What stands in front of the API: the rules a start of a session must pass
  (\<open>packages/apps/api/src/gateway\<close>, \<open>config/rules.config.ts\<close>), authentication by token
  (\<open>auth/auth.service.ts\<close>) and the throttler (\<open>packages/libs/throttler\<close>). The HTTP services, the
  signature check of \<open>@celo/utils\<close>, the JWT library and the throttler's storage are ports.
\<close>

section \<open>Values of responses\<close>

definition js_get :: "js_value \<Rightarrow> string \<Rightarrow> thrown + js_value" where
  "js_get v key =
     (case v of
        JUndefined \<Rightarrow> Inl (typeError ''Cannot read property of undefined'')
      | JNull \<Rightarrow> Inl (typeError ''Cannot read property of null'')
      | JObj kvs \<Rightarrow> Inr (case map_of kvs key of None \<Rightarrow> JUndefined | Some x \<Rightarrow> x)
      | _ \<Rightarrow> Inr JUndefined)"

fun js_truthy :: "js_value \<Rightarrow> bool" where
  "js_truthy JUndefined = False"
| "js_truthy JNull = False"
| "js_truthy (JBool b) = b"
| "js_truthy (JNum n) = (n \<noteq> 0)"
| "js_truthy (JStr s) = (s \<noteq> [])"
| "js_truthy (JArr _) = True"
| "js_truthy (JObj _) = True"

record http_response =
  hrStatus :: int
  hrData :: js_value

section \<open>Configuration (rules.config.ts, utils.ts)\<close>

datatype rule_id = DailyCap | Captcha | DeviceAttestation | Signature

fun ruleIdValue :: "rule_id \<Rightarrow> string" where
  "ruleIdValue DailyCap = ''DAILY_CAP''"
| "ruleIdValue Captcha = ''CAPTCHA''"
| "ruleIdValue DeviceAttestation = ''DEVICE_ATTESTATION''"
| "ruleIdValue Signature = ''SIGNATURE''"

text \<open>\<open>process.env\<close>: a variable is a string or is not set. \<open>String(undefined)\<close> is ''undefined''.\<close>

type_synonym environment = "string \<Rightarrow> string option"

definition isTrue :: "string option \<Rightarrow> bool" where
  "isTrue content \<longleftrightarrow> js_lower (case content of None \<Rightarrow> ''undefined'' | Some s \<Rightarrow> s) = ''true''"

record rules_config =
  ruleEnabled :: "rule_id \<Rightarrow> bool"
  captchaBypassEnabled :: bool
  captchaBypassToken :: string

definition rulesConfig :: "environment \<Rightarrow> rules_config" where
  "rulesConfig env =
     \<lparr>ruleEnabled = (\<lambda>r. isTrue (env (case r of
          DailyCap \<Rightarrow> ''RULE_DAILY_CAP_ENABLED''
        | Captcha \<Rightarrow> ''RULE_CAPTCHA_ENABLED''
        | DeviceAttestation \<Rightarrow> ''RULE_DEVICE_ATTESTATION_ENABLED''
        | Signature \<Rightarrow> ''RULE_SIGNATURE_ENABLED''))),
      captchaBypassEnabled = isTrue (env ''RULE_CAPTCHA_CONFIG_BYPASS_ENABLED''),
      captchaBypassToken = (case env ''RULE_CAPTCHA_CONFIG_BYPASS_TOKEN'' of None \<Rightarrow> [] | Some t \<Rightarrow> t)\<rparr>"

text \<open>
  \<open>rawValue && !isNaN(+rawValue) ? +rawValue : defaultValue\<close>; the conversion of a string to a number,
  \<open>None\<close> for \<open>NaN\<close>, is a parameter.
\<close>

definition numberFromEnv :: "(string \<Rightarrow> rat option) \<Rightarrow> environment \<Rightarrow> string \<Rightarrow> rat \<Rightarrow> rat" where
  "numberFromEnv toNumber env key defaultValue =
     (case env key of
        None \<Rightarrow> defaultValue
      | Some raw \<Rightarrow> if raw = [] then defaultValue
                   else (case toNumber raw of None \<Rightarrow> defaultValue | Some n \<Rightarrow> n))"

section \<open>The rules\<close>

datatype device_type = Android | IOS

record start_session_dto =
  captchaResponseToken :: string
  startAccount :: string
  startSignature :: string
  deviceType :: "device_type option"
  iosDeviceToken :: "string option"
  androidSignedAttestation :: "string option"

record 'w gateway_port =
  gpCaptcha :: "string \<Rightarrow> ('w, thrown, js_value) io"
  gpSafetyNet :: "string \<Rightarrow> ('w, thrown, http_response) io"
  gpDeviceCheck :: "string option \<Rightarrow> ('w, thrown, http_response) io"
  typedDataHash :: "js_value \<Rightarrow> string"
  parseSignatureWithoutPrefix :: "string \<Rightarrow> string \<Rightarrow> string \<Rightarrow> thrown + unit"

type_synonym rule_result = "(error_object, unit) result"

definition httpRequestError :: error_object where
  "httpRequestError = root_error ''RequestError'' []"

definition captchaVerificationFailed :: "js_value \<Rightarrow> string \<Rightarrow> error_object" where
  "captchaVerificationFailed errorCodes t =
     metadata_error ''RecaptchaVerificationFailed'' [] [(''errorCodes'', errorCodes), (''token'', JStr t)]"

text \<open>\<open>verifyCaptcha\<close>: whatever is thrown while the response is handled is an \<open>HttpRequestError\<close>.\<close>

definition verifyCaptcha :: "'w gateway_port \<Rightarrow> string \<Rightarrow> ('w, thrown, rule_result) io" where
  "verifyCaptcha p t =
     catching
       (andThen (gpCaptcha p t) (\<lambda>body.
        andThen (liftSum (js_get body ''success'')) (\<lambda>success.
        if success = JBool True then ret (Ok ())
        else andThen (liftSum (js_get body ''error-codes'')) (\<lambda>codes.
             ret (Err (captchaVerificationFailed codes t))))))
       (\<lambda>e. ret (Err httpRequestError))"

definition captchaRule ::
    "rules_config \<Rightarrow> 'w gateway_port \<Rightarrow> start_session_dto \<Rightarrow> ('w, thrown, rule_result) io" where
  "captchaRule cfg p dto =
     (if captchaBypassEnabled cfg \<and> captchaResponseToken dto = captchaBypassToken cfg then ret (Ok ())
      else verifyCaptcha p (captchaResponseToken dto))"

definition dailyCapRule :: "start_session_dto \<Rightarrow> ('w, thrown, rule_result) io" where
  "dailyCapRule dto = ret (Ok ())"

definition safetyNetVerify :: "'w gateway_port \<Rightarrow> string option \<Rightarrow> ('w, thrown, js_value) io" where
  "safetyNetVerify p attestation =
     andThen (gpSafetyNet p (case attestation of None \<Rightarrow> [] | Some a \<Rightarrow> a)) (\<lambda>resp. ret (hrData resp))"

definition deviceCheckVerify :: "'w gateway_port \<Rightarrow> string option \<Rightarrow> ('w, thrown, bool) io" where
  "deviceCheckVerify p deviceToken =
     andThen (gpDeviceCheck p deviceToken) (\<lambda>resp.
     if hrStatus resp \<noteq> 200 then ret True else ret False)"

definition deviceAttestationRule ::
    "'w gateway_port \<Rightarrow> start_session_dto \<Rightarrow> ('w, thrown, rule_result) io" where
  "deviceAttestationRule p dto =
     (case deviceType dto of
        Some Android \<Rightarrow>
          andThen (safetyNetVerify p (androidSignedAttestation dto)) (\<lambda>result.
          andThen (liftSum (js_get result ''isValidSignature'')) (\<lambda>valid.
          if js_truthy valid then ret (Ok ()) else ret (Err (root_error ''verification-failed'' []))))
      | Some IOS \<Rightarrow>
          andThen (deviceCheckVerify p (iosDeviceToken dto)) (\<lambda>result.
          if result then ret (Ok ()) else ret (Err (root_error ''verification-failed'' [])))
      | None \<Rightarrow> ret (Err (root_error ''invalid-device'' [])))"

definition signatureRule ::
    "celo_base \<Rightarrow> 'w gateway_port \<Rightarrow> start_session_dto \<Rightarrow> ('w, thrown, rule_result) io" where
  "signatureRule cb p dto =
     (let messageHash = ensureLeading0x cb (typedDataHash p
            (buildLoginTypedData (startAccount dto) (captchaResponseToken dto)))
      in catching
           (andThen (liftSum (parseSignatureWithoutPrefix p messageHash (startSignature dto) (startAccount dto)))
              (\<lambda>_. ret (Ok ())))
           (\<lambda>e. ret (Err (root_error ''InvalidSignature'' ''Signature is not valid''))))"

fun ruleVerify ::
    "celo_base \<Rightarrow> rules_config \<Rightarrow> 'w gateway_port \<Rightarrow> start_session_dto \<Rightarrow> rule_id \<Rightarrow>
     ('w, thrown, rule_result) io" where
  "ruleVerify cb cfg p dto DailyCap = dailyCapRule dto"
| "ruleVerify cb cfg p dto Captcha = captchaRule cfg p dto"
| "ruleVerify cb cfg p dto DeviceAttestation = deviceAttestationRule p dto"
| "ruleVerify cb cfg p dto Signature = signatureRule cb p dto"

section \<open>The gateway (gateway.service.ts)\<close>

definition gatewayRules :: "rule_id list" where
  "gatewayRules = [DailyCap, Captcha, DeviceAttestation, Signature]"

definition enabledRules :: "rules_config \<Rightarrow> rule_id list" where
  "enabledRules cfg = filter (ruleEnabled cfg) gatewayRules"

text \<open>The loop over the results: each is logged; one failure makes the whole fail.\<close>

primrec logResults ::
    "string \<Rightarrow> (rule_id \<times> rule_result) list \<Rightarrow> bool \<Rightarrow> ('w, bool) api_io" where
  "logResults account [] failing = ret failing"
| "logResults account (r # rs) failing =
     andThen (logEv (EvRuleVerified account (ruleIdValue (fst r)) (is_ok (snd r)))) (\<lambda>_.
     case snd r of
       Ok u \<Rightarrow> logResults account rs failing
     | Err e \<Rightarrow> andThen (modS (\<lambda>l. l @ [LogThrown LError (ErrorObject e)])) (\<lambda>_. logResults account rs True))"

definition gatewayVerify ::
    "celo_base \<Rightarrow> rules_config \<Rightarrow> 'w gateway_port \<Rightarrow> start_session_dto \<Rightarrow> ('w, bool) api_io" where
  "gatewayVerify cb cfg p dto =
     andThen (ext (promiseAll (map (ruleVerify cb cfg p dto) (enabledRules cfg)))) (\<lambda>results.
     andThen (logResults (startAccount dto) (zip (enabledRules cfg) results) False) (\<lambda>hasFailingResult.
     ret (\<not> hasFailingResult)))"

section \<open>Authentication (auth.service.ts, jwt.strategy.ts)\<close>

definition invalidToken :: thrown where
  "invalidToken = ErrorObject (api_error 401 ''InvalidToken'' ''Invalid or outdated token'' [])"

definition sessionUnavailable :: "string \<Rightarrow> thrown" where
  "sessionUnavailable sid = ErrorObject (api_error 401 ''SessionUnavailable'' ''Session no longer available''
     [(''sessionId'', JStr sid)])"

definition decodeTokenPayload :: "js_value \<Rightarrow> string option" where
  "decodeTokenPayload v =
     (case v of
        JObj kvs \<Rightarrow> (case map_of kvs ''sessionId'' of Some (JStr s) \<Rightarrow> Some s | _ \<Rightarrow> None)
      | _ \<Rightarrow> None)"

definition tokenPayload :: "string \<Rightarrow> js_value" where
  "tokenPayload sid = JObj [(''sessionId'', JStr sid)]"

definition authStartSession ::
    "celo_base \<Rightarrow> (tracked_action \<Rightarrow> rat) \<Rightarrow> (js_value \<Rightarrow> string) \<Rightarrow> 'w session_port \<Rightarrow> string \<Rightarrow>
     ('w, thrown, string \<times> string) io" where
  "authStartSession cb quotas sign p account =
     andThen (findOrCreateForAccount cb quotas p account) (\<lambda>s.
     ret (sessionId s, sign (tokenPayload (sessionId s))))"

definition recoverSession :: "'w session_port \<Rightarrow> js_value \<Rightarrow> ('w, thrown, session) io" where
  "recoverSession p pl =
     (case decodeTokenPayload pl of
        None \<Rightarrow> throw invalidToken
      | Some sid \<Rightarrow>
          andThen (findOneSession p sid) (\<lambda>s.
          case s of Some t \<Rightarrow> ret t | None \<Rightarrow> throw (sessionUnavailable sid)))"

section \<open>The throttler (komenci-throttler.guard.ts)\<close>

text \<open>
  A record of the storage is the list of the times at which its hits expire. \<open>ignoreUserAgents\<close> is
  the list of patterns, given as predicates of the user agent, if the option is an array.
\<close>

record throttle_options =
  throttleKey :: "string option"
  throttleCheckOnly :: "bool option"

record throttler_config =
  ignoreUserAgents :: "(string \<Rightarrow> bool) list option"
  headerPrefix :: string

record 'w throttler_port =
  getRecord :: "string \<Rightarrow> ('w, thrown, int list) io"
  addRecord :: "string \<Rightarrow> int \<Rightarrow> ('w, thrown, unit) io"
  throttleNow :: "('w, thrown, int) io"
  generateKey :: "string \<Rightarrow> string"

record throttled_request =
  userAgent :: string
  tracker :: string

definition throttlerException :: thrown where
  "throttlerException = ErrorObject (plain_error ''ThrottlerException: Too Many Requests'')"

definition getCheckOnly :: "throttle_options \<Rightarrow> bool" where
  "getCheckOnly opts = (case throttleCheckOnly opts of None \<Rightarrow> False | Some b \<Rightarrow> b)"

definition getThrottleKey :: "'w throttler_port \<Rightarrow> throttle_options \<Rightarrow> throttled_request \<Rightarrow> string" where
  "getThrottleKey p opts req =
     (case throttleKey opts of Some k \<Rightarrow> k | None \<Rightarrow> generateKey p (tracker req))"

text \<open>The headers set on the response are the state of the program.\<close>

type_synonym headers = "(string \<times> int) list"

definition setHeader :: "string \<Rightarrow> int \<Rightarrow> (headers \<times> 'w, thrown, unit) io" where
  "setHeader k v = modS (\<lambda>h. h @ [(k, v)])"

definition ceil_seconds :: "int \<Rightarrow> int" where
  "ceil_seconds ms = - (- ms div 1000)"

definition handleRequest ::
    "throttler_config \<Rightarrow> 'w throttler_port \<Rightarrow> throttle_options \<Rightarrow> throttled_request \<Rightarrow> int \<Rightarrow> int \<Rightarrow>
     (headers \<times> 'w, thrown, bool) io" where
  "handleRequest cfg p opts req limit ttl =
     (if (case ignoreUserAgents cfg of None \<Rightarrow> False | Some ps \<Rightarrow> \<exists>pat \<in> set ps. pat (userAgent req))
      then ret True
      else
        let key = getThrottleKey p opts req in
        andThen (ext (getRecord p key)) (\<lambda>ttls.
        andThen (if ttls = [] then ret 0
                 else andThen (ext (throttleNow p)) (\<lambda>now. ret (ceil_seconds (hd ttls - now)))) (\<lambda>nearestExpiryTime.
        if limit \<le> int (length ttls)
        then andThen (setHeader ''Retry-After'' nearestExpiryTime) (\<lambda>_. throw throttlerException)
        else
          andThen (setHeader (headerPrefix cfg @ ''-Limit'') limit) (\<lambda>_.
          andThen (setHeader (headerPrefix cfg @ ''-Remaining'') (max 0 (limit - (int (length ttls) + 1)))) (\<lambda>_.
          andThen (setHeader (headerPrefix cfg @ ''-Reset'') nearestExpiryTime) (\<lambda>_.
          andThen (if \<not> getCheckOnly opts then ext (addRecord p key ttl) else ret ()) (\<lambda>_.
          ret True)))))))"

section \<open>What the gateway decides\<close>

definition ruleEvents :: "log_entry list \<Rightarrow> log_entry list" where
  "ruleEvents l = filter (\<lambda>e. case e of LogEvent _ _ \<Rightarrow> True | _ \<Rightarrow> False) l"

lemma logResults_run:
  "logResults account rs failing (l, w)
   = (Inr (failing \<or> (\<exists>r \<in> set rs. \<not> is_ok (snd r))),
      (l @ concat (map (\<lambda>r. LogEvent (EvRuleVerified account (ruleIdValue (fst r)) (is_ok (snd r))) None
             # (case snd r of Ok u \<Rightarrow> [] | Err e \<Rightarrow> [LogThrown LError (ErrorObject e)])) rs), w))"
proof (induction rs arbitrary: failing l)
  case Nil
  show ?case by (simp add: ret_app)
next
  case (Cons r rs)
  show ?case
    by (cases "snd r") (auto simp: andThen_def logEv_def Cons.IH)
qed

lemma logResults_events:
  "ruleEvents (concat (map (\<lambda>r. LogEvent (EvRuleVerified account (ruleIdValue (fst r)) (is_ok (snd r))) None
             # (case snd r of Ok u \<Rightarrow> [] | Err e \<Rightarrow> [LogThrown LError (ErrorObject e)])) rs))
   = map (\<lambda>(r, res). LogEvent (EvRuleVerified account (ruleIdValue r) (is_ok res)) None) rs"
  by (induction rs) (auto simp: ruleEvents_def split: result.split)

lemma gatewayVerify_run:
  assumes "gatewayVerify cb cfg p dto (l, w) = (Inr b, (l', w'))"
  shows "\<exists>results. length results = length (enabledRules cfg)
     \<and> (\<forall>i < length results. \<exists>u u'. ruleVerify cb cfg p dto (enabledRules cfg ! i) u = (Inr (results ! i), u'))
     \<and> (b \<longleftrightarrow> list_all is_ok results)
     \<and> (\<exists>added. l' = l @ added \<and> ruleEvents added =
          map (\<lambda>(r, res). LogEvent (EvRuleVerified (startAccount dto) (ruleIdValue r) (is_ok res)) None)
            (zip (enabledRules cfg) results))"
proof -
  from assms obtain results where
    run: "promiseAll (map (ruleVerify cb cfg p dto) (enabledRules cfg)) w = (Inr results, w')" and
    b: "b \<longleftrightarrow> \<not> (\<exists>r \<in> set (zip (enabledRules cfg) results). \<not> is_ok (snd r))" and
    l': "l' = l @ concat (map (\<lambda>r. LogEvent (EvRuleVerified (startAccount dto) (ruleIdValue (fst r)) (is_ok (snd r))) None
             # (case snd r of Ok u \<Rightarrow> [] | Err e \<Rightarrow> [LogThrown LError (ErrorObject e)]))
               (zip (enabledRules cfg) results))"
    by (auto simp: gatewayVerify_def runs logResults_run)
  from promiseAll_results [OF run] have all: "list_all2 (\<lambda>m x. \<exists>u u'. m u = (Inr x, u'))
      (map (ruleVerify cb cfg p dto) (enabledRules cfg)) results" .
  then have len: "length results = length (enabledRules cfg)"
    by (auto dest: list_all2_lengthD)
  have each: "\<forall>i < length results. \<exists>u u'. ruleVerify cb cfg p dto (enabledRules cfg ! i) u = (Inr (results ! i), u')"
    using all len by (auto simp: list_all2_conv_all_nth)
  have "snd ` set (zip (enabledRules cfg) results) = set results"
    using len by (metis list.set_map map_snd_zip)
  then have "b \<longleftrightarrow> list_all is_ok results" unfolding b list_all_iff by (metis (no_types, lifting) image_iff)
  then show ?thesis
    unfolding l' using len each
    by (intro exI [of _ results] conjI exI) (assumption | rule refl logResults_events)+
qed

section \<open>Properties\<close>

text \<open>
  C13. The gateway admits a start of a session exactly when every enabled rule, each consulted, accepts
  it, and logs the outcome of each of them, in the order of the rules.
\<close>

lemma gatewayVerify_all_rules:
  assumes "gatewayVerify cb cfg p dto (l, w) = (Inr b, (l', w'))"
  shows "\<exists>results. length results = length (filter (ruleEnabled cfg) [DailyCap, Captcha, DeviceAttestation, Signature])
     \<and> (\<forall>i < length results. \<exists>u u'. ruleVerify cb cfg p dto
            (filter (ruleEnabled cfg) [DailyCap, Captcha, DeviceAttestation, Signature] ! i) u = (Inr (results ! i), u'))
     \<and> (b \<longleftrightarrow> list_all is_ok results)
     \<and> (\<exists>added. l' = l @ added \<and> ruleEvents added =
          map (\<lambda>(r, res). LogEvent (EvRuleVerified (startAccount dto) (ruleIdValue r) (is_ok res)) None)
            (zip (filter (ruleEnabled cfg) [DailyCap, Captcha, DeviceAttestation, Signature]) results))"
  using gatewayVerify_run [OF assms] unfolding enabledRules_def gatewayRules_def .

definition demoGatewayPort :: "'w gateway_port" where
  "demoGatewayPort = \<lparr>gpCaptcha = (\<lambda>t. ret (JObj [(''success'', JBool (t = ''good''))])),
     gpSafetyNet = (\<lambda>a. ret \<lparr>hrStatus = 200, hrData = JObj [(''isValidSignature'', JBool True)]\<rparr>),
     gpDeviceCheck = (\<lambda>t. ret \<lparr>hrStatus = 200, hrData = JNull\<rparr>),
     typedDataHash = (\<lambda>d. ''hash''), parseSignatureWithoutPrefix = (\<lambda>h s a. Inr ())\<rparr>"

definition demoStart :: start_session_dto where
  "demoStart = \<lparr>captchaResponseToken = ''bad'', startAccount = ''0xacc'', startSignature = ''00'',
     deviceType = Some IOS, iosDeviceToken = Some ''t'', androidSignedAttestation = None\<rparr>"

definition demoRules :: rules_config where
  "demoRules = \<lparr>ruleEnabled = (\<lambda>r. r \<in> {Captcha, Signature}), captchaBypassEnabled = False, captchaBypassToken = []\<rparr>"

lemma gatewayVerify_all_rules_witness:
  "\<exists>results l'. gatewayVerify celo_base_std demoRules demoGatewayPort demoStart ([], ()) = (Inr False, (l', ()))
     \<and> length results = 2 \<and> \<not> list_all is_ok (results :: rule_result list)"
proof -
  obtain l' where run: "gatewayVerify celo_base_std demoRules demoGatewayPort demoStart ([], ()) = (Inr False, (l', ()))"
  proof -
    have "fst (gatewayVerify celo_base_std demoRules demoGatewayPort demoStart ([], ())) = Inr False"
      by code_simp
    then show thesis using that by (metis (full_types) old.unit.exhaust prod.collapse)
  qed
  have "length (filter (ruleEnabled demoRules) [DailyCap, Captcha, DeviceAttestation, Signature]) = 2"
    by (simp add: demoRules_def)
  with gatewayVerify_all_rules [OF run] run show ?thesis by metis
qed

text \<open>
  The device check accepts an iOS device exactly when Apple's answer is not a \<open>200\<close>: a device that
  Apple validates is refused, and one it does not validate is accepted.
\<close>

lemma device_check_inverted:
  assumes "deviceType dto = Some IOS" and "gpDeviceCheck p (iosDeviceToken dto) w = (Inr resp, w')"
  shows "deviceAttestationRule p dto w =
     (Inr (if hrStatus resp = 200 then Err (root_error ''verification-failed'' []) else Ok ()), w')"
  using assms by (simp add: deviceAttestationRule_def deviceCheckVerify_def andThen_def ret_app)

lemma device_check_inverted_witness:
  "deviceAttestationRule demoGatewayPort demoStart () = (Inr (Err (root_error ''verification-failed'' [])), ())"
  using device_check_inverted [of demoStart demoGatewayPort "()" "\<lparr>hrStatus = 200, hrData = JNull\<rparr>" "()"]
  by (simp add: demoStart_def demoGatewayPort_def ret_app)

text \<open>The storage of the throttler, as far as it does not expire hits during a request\<close>

definition keeps_hits :: "'w throttler_port \<Rightarrow> ('w \<Rightarrow> string \<Rightarrow> int list) \<Rightarrow> bool" where
  "keeps_hits p hits \<longleftrightarrow>
     (\<forall>k w. \<exists>w'. getRecord p k w = (Inr (hits w k), w') \<and> hits w' = hits w) \<and>
     (\<forall>k ttl w. \<exists>e w'. addRecord p k ttl w = (Inr (), w') \<and> hits w' = (hits w)(k := hits w k @ [e])) \<and>
     (\<forall>w. \<exists>t w'. throttleNow p w = (Inr t, w') \<and> hits w' = hits w)"

definition throttleClock :: "'w throttler_port \<Rightarrow> int list \<Rightarrow> ('w, thrown, int) io" where
  "throttleClock p ttls = (if ttls = [] then ret 0
     else andThen (throttleNow p) (\<lambda>now. ret (ceil_seconds (hd ttls - now))))"

lemma throttleClock_run:
  "keeps_hits p hits \<Longrightarrow> \<exists>n w'. throttleClock p ttls w = (Inr n, w') \<and> hits w' = hits w"
  unfolding keeps_hits_def throttleClock_def
  by (cases "ttls = []") (auto simp: ret_app, metis andThen_app_Inr ret_app)

lemma ext_throttleClock:
  "(if ttls = [] then ret 0 else andThen (ext (throttleNow p)) (\<lambda>now. ret (ceil_seconds (hd ttls - now))))
   = ext (throttleClock p ttls)"
  by (auto simp: throttleClock_def fun_eq_iff io_defs split: prod.split sum.split)

text \<open>
  C14. A request of an agent that is not ignored is let through exactly when fewer than \<open>limit\<close> hits
  are recorded under its key, and refused with the throttler's exception otherwise; it is counted, once
  and under that key only, exactly when it is let through by a guard that is not check-only. So the
  hits recorded under a key never exceed the limit. With a key given in the options the count is
  shared by all clients.
\<close>

lemma throttler_admits:
  assumes "keeps_hits p hits"
    and "\<not> (case ignoreUserAgents cfg of None \<Rightarrow> False | Some ps \<Rightarrow> \<exists>pat \<in> set ps. pat (userAgent req))"
  shows "\<exists>r h' w'. handleRequest cfg p opts req limit ttl (h, w) = (r, (h', w'))
     \<and> r = (if int (length (hits w (getThrottleKey p opts req))) < limit then Inr True else Inl throttlerException)
     \<and> (if int (length (hits w (getThrottleKey p opts req))) < limit \<and> \<not> getCheckOnly opts
        then \<exists>e. hits w' = (hits w)(getThrottleKey p opts req := hits w (getThrottleKey p opts req) @ [e])
        else hits w' = hits w)
     \<and> (int (length (hits w (getThrottleKey p opts req))) \<le> limit \<longrightarrow>
          int (length (hits w' (getThrottleKey p opts req))) \<le> limit)
     \<and> (\<forall>k req'. throttleKey opts = Some k \<longrightarrow> getThrottleKey p opts req' = getThrottleKey p opts req)"
proof -
  define k where "k = getThrottleKey p opts req"
  obtain w1 where 1: "getRecord p k w = (Inr (hits w k), w1)" "hits w1 = hits w"
    using assms(1) unfolding keeps_hits_def by blast
  obtain n w2 where 2: "throttleClock p (hits w k) w1 = (Inr n, w2)" "hits w2 = hits w1"
    using throttleClock_run [OF assms(1)] by blast
  obtain e w3 where 3: "addRecord p k ttl w2 = (Inr (), w3)" "hits w3 = (hits w2)(k := hits w2 k @ [e])"
    using assms(1) unfolding keeps_hits_def by blast
  have key: "\<forall>k' req'. throttleKey opts = Some k' \<longrightarrow> getThrottleKey p opts req' = k"
    by (simp add: k_def getThrottleKey_def)
  note run = handleRequest_def ext_throttleClock Let_def andThen_def ext_def setHeader_def k_def [symmetric]
  consider (refused) "\<not> int (length (hits w k)) < limit"
    | (checked) "int (length (hits w k)) < limit" "getCheckOnly opts"
    | (counted) "int (length (hits w k)) < limit" "\<not> getCheckOnly opts" by blast
  then show ?thesis
  proof cases
    case refused
    with assms(2) 1 2 key show ?thesis by (simp add: run)
  next
    case checked
    with assms(2) 1 2 key show ?thesis by (simp add: run)
  next
    case counted
    with assms(2) 1 2 3(1) have "\<exists>h'. handleRequest cfg p opts req limit ttl (h, w) = (Inr True, (h', w3))"
      by (simp add: run)
    with counted 1 2 3(2) key show ?thesis unfolding k_def [symmetric] by fastforce
  qed
qed

definition demoThrottler :: "(string \<Rightarrow> int list) throttler_port" where
  "demoThrottler = \<lparr>getRecord = (\<lambda>k w. (Inr (w k), w)), addRecord = (\<lambda>k ttl w. (Inr (), w(k := w k @ [ttl]))),
     throttleNow = ret 0, generateKey = id\<rparr>"

lemma demoThrottler_hits: "keeps_hits demoThrottler (\<lambda>w. w)"
  by (auto simp: keeps_hits_def demoThrottler_def ret_app)

lemma throttler_admits_witness:
  "\<exists>h' w'. handleRequest \<lparr>ignoreUserAgents = None, headerPrefix = ''X-RateLimit''\<rparr> demoThrottler
       \<lparr>throttleKey = Some ''start-session'', throttleCheckOnly = None\<rparr> \<lparr>userAgent = ''a'', tracker = ''ip''\<rparr> 1 60
       ([], (\<lambda>k. [7])) = (Inl throttlerException, (h', w')) \<and> w' = (\<lambda>k. [7])"
  using throttler_admits [OF demoThrottler_hits, where cfg = "\<lparr>ignoreUserAgents = None, headerPrefix = ''X-RateLimit''\<rparr>"
      and req = "\<lparr>userAgent = ''a'', tracker = ''ip''\<rparr>" and opts =
      "\<lparr>throttleKey = Some ''start-session'', throttleCheckOnly = None\<rparr>" and limit = 1 and ttl = 60 and h = "[]" and w = "\<lambda>k. [7]"]
  by simp

lemma find_key: "distinct (map f xs) \<Longrightarrow> x \<in> set xs \<Longrightarrow> find (\<lambda>r. f r = f x) xs = Some x"
  by (induction xs) (auto simp: image_iff)

text \<open>
  The token issued at the start of a session identifies that session: presenting the payload that
  was signed recovers the stored session of the account.
\<close>

lemma auth_roundtrip:
  assumes "stores_in p tbl" and "countable_rows (tbl w)" and "distinct (map sessionId (tbl w))"
    and "\<And>sid. verify (sign (tokenPayload sid)) = tokenPayload sid"
  shows "\<exists>sid t w' s. authStartSession cb quotas sign p account w = (Inr (sid, t), w')
     \<and> sessionId s = sid \<and> s \<in> set (tbl w')
     \<and> (\<exists>w''. recoverSession p (verify t) w' = (Inr s, w''))"
proof -
  obtain s w' where run: "findOrCreateForAccount cb quotas p account w = (Inr s, w')" and
    c: "s \<in> set (tbl w) \<and> tbl w' = tbl w
        \<or> tbl w' = s # filter (\<lambda>r. sessionId r \<noteq> sessionId s) (tbl w)"
    using findOrCreate_run [OF assms(1,2), of cb quotas account] by blast
  have find: "find (\<lambda>r. sessionId r = sessionId s) (tbl w') = Some s"
    using c
  proof
    assume h: "s \<in> set (tbl w) \<and> tbl w' = tbl w"
    then show ?thesis
      using find_key [OF assms(3)] by auto
  qed simp
  obtain w'' where "repoFindOne p (sessionId s) w' = (Inr (Some s), w'')"
    using stores_inD(3) [OF assms(1), of "sessionId s" w'] find by auto
  then have "recoverSession p (verify (sign (tokenPayload (sessionId s)))) w' = (Inr s, w'')"
    unfolding assms(4)
    by (simp add: recoverSession_def decodeTokenPayload_def tokenPayload_def findOneSession_def andThen_def ret_app)
  moreover have "s \<in> set (tbl w')" using c by auto
  ultimately show ?thesis
    using run by (auto simp: authStartSession_def andThen_def ret_app)
qed

definition demoSign :: "js_value \<Rightarrow> string" where
  "demoSign v = (case decodeTokenPayload v of None \<Rightarrow> [] | Some sid \<Rightarrow> sid)"

lemma auth_roundtrip_witness:
  "\<exists>sid t w' s w''. authStartSession celo_base_std (quotaConfig (\<lambda>_. None)) demoSign
       table_port ''0xacc'' ([rowWith 3], 7) = (Inr (sid, t), w') \<and> sessionId s = sid
     \<and> recoverSession table_port (tokenPayload t) w' = (Inr s, w'')"
proof -
  have rows: "countable_rows (fst ([rowWith 3], 7 :: int))"
    by (simp add: countable_rows_def rowWith_def)
  have sign: "tokenPayload (demoSign (tokenPayload sid)) = tokenPayload sid" for sid
    by (simp add: demoSign_def decodeTokenPayload_def tokenPayload_def)
  have dist: "distinct (map sessionId (fst ([rowWith 3], 7 :: int)))" by simp
  show ?thesis
    using auth_roundtrip [OF stores_in_table_port rows dist, of tokenPayload demoSign celo_base_std
        "quotaConfig (\<lambda>_. None)" "''0xacc''"] sign
    by blast
qed

end
