(* ===== verification/Api.thy ===== *)
theory Api
  imports Gateway
begin

text \<open>
  \<open>packages/apps/api/src/app.controller.ts\<close>: the endpoints of the API, each with the guards its
  decorators name, run in their order before the handler.
\<close>

section \<open>Configuration and port\<close>

record api_env =
  aeWallet :: wallet_env
  aeRules :: rules_config
  aeQuotas :: "tracked_action \<Rightarrow> rat"
  aeCallbackUrl :: string

text \<open>
  \<open>apVerifyToken\<close> is the signature check of passport-jwt, \<open>None\<close> for a token that is missing or not
  signed with the secret.
\<close>

record ('w, 'm) api_port =
  apWallet :: "('w, 'm) wallet_port"
  apGateway :: "'w gateway_port"
  apVerifyToken :: "string \<Rightarrow> js_value option"
  apSign :: "js_value \<Rightarrow> string"

definition apSession :: "('w, 'm) api_port \<Rightarrow> 'w session_port" where
  "apSession p = wpSession (apWallet p)"

definition unauthorizedException :: thrown where
  "unauthorizedException = ErrorObject (plain_error ''Unauthorized'')"

section \<open>Guards\<close>

text \<open>\<open>AuthGuard('jwt')\<close>: the session of the token is what the handler receives.\<close>

definition authGuard :: "('w, 'm) api_port \<Rightarrow> string \<Rightarrow> ('w, session) api_io" where
  "authGuard p t =
     (case apVerifyToken p t of
        None \<Rightarrow> throw unauthorizedException
      | Some pl \<Rightarrow> ext (recoverSession (apSession p) pl))"

definition quotaGuard :: "api_env \<Rightarrow> tracked_action \<Rightarrow> session \<Rightarrow> ('w, bool) api_io" where
  "quotaGuard env action s = liftSum (canActivate (aeQuotas env) (Some action) s)"

definition throttlerGuard ::
    "throttler_config \<Rightarrow> 'w throttler_port \<Rightarrow> throttle_options \<Rightarrow> throttled_request \<Rightarrow> int \<Rightarrow> int \<Rightarrow>
     (headers \<times> 'w, thrown, bool) io" where
  "throttlerGuard cfg p opts req limit ttl = handleRequest cfg p opts req limit ttl"

section \<open>Endpoints\<close>

definition apiHealth :: string where
  "apiHealth = ''OK''"

text \<open>\<open>ready\<close> only checks the limit that \<open>startSession\<close> counts against.\<close>

definition readyThrottle :: throttle_options where
  "readyThrottle = \<lparr>throttleKey = Some ''start-session'', throttleCheckOnly = Some True\<rparr>"

definition startSessionThrottle :: throttle_options where
  "startSessionThrottle = \<lparr>throttleKey = Some ''start-session'', throttleCheckOnly = None\<rparr>"

definition apiReady ::
    "throttler_config \<Rightarrow> 'w throttler_port \<Rightarrow> throttled_request \<Rightarrow> int \<Rightarrow> int \<Rightarrow>
     (headers \<times> 'w, thrown, string) io" where
  "apiReady cfg p req limit ttl =
     andThen (throttlerGuard cfg p readyThrottle req limit ttl) (\<lambda>_. ret ''Ready'')"

definition apiStartSession ::
    "api_env \<Rightarrow> ('w, 'm) api_port \<Rightarrow> start_session_dto \<Rightarrow> ('w, string \<times> string) api_io" where
  "apiStartSession env p dto =
     andThen (gatewayVerify (weBase (aeWallet env)) (aeRules env) (apGateway p) dto) (\<lambda>ok.
     if ok then
       andThen (ext (authStartSession (weBase (aeWallet env)) (aeQuotas env) (apSign p) (apSession p) (startAccount dto)))
         (\<lambda>(sid, t).
       andThen (logEv (EvSessionStart (trimLeading0x (weBase (aeWallet env)) (startAccount dto)) sid)) (\<lambda>_.
       ret (t, aeCallbackUrl env)))
     else throw unauthorizedException)"

record check_session_response =
  csQuotaLeft :: "(tracked_action \<times> rat) list"
  csWalletAddress :: "string option"

definition apiCheckSession ::
    "api_env \<Rightarrow> ('w, 'm) api_port \<Rightarrow> string \<Rightarrow> ('w, check_session_response) api_io" where
  "apiCheckSession env p t =
     andThen (authGuard p t) (\<lambda>s.
     andThen (getWallet (aeWallet env) (apWallet p) s None) (\<lambda>resp.
     andThen (liftSum (quotaLeft (aeQuotas env) s)) (\<lambda>left.
     ret \<lparr>csQuotaLeft = left, csWalletAddress = (case resp of Ok a \<Rightarrow> Some a | Err e \<Rightarrow> None)\<rparr>)))"

definition sessionRequest :: "string \<Rightarrow> session \<Rightarrow> api_request" where
  "sessionRequest rid s = \<lparr>reqId = rid, reqSession = Some s\<rparr>"

definition apiDeploy ::
    "api_env \<Rightarrow> ('w, 'm) api_port \<Rightarrow> string \<Rightarrow> string \<Rightarrow> string \<Rightarrow> ('w, deploy_wallet_resp) api_io" where
  "apiDeploy env p rid t implementationAddress =
     andThen (authGuard p t) (\<lambda>s.
     andThen (getWallet (aeWallet env) (apWallet p) s (Some implementationAddress)) (\<lambda>getResp.
     case getResp of
       Ok walletAddress \<Rightarrow> ret (DeployWalletDeployed walletAddress)
     | Err e \<Rightarrow>
         if wallet_error_type e \<noteq> ''NotDeployed'' then throw (ErrorObject (wallet_error_object e))
         else
           andThen (apiDeployWallet (aeWallet env) (apWallet p) (sessionRequest rid s) s implementationAddress) (\<lambda>res.
           andThen (throwErr wallet_error_object res) (\<lambda>txHash.
           ret (DeployWalletInProgress txHash
             (MetaTransactionWalletDeployer (weNetwork (aeWallet env))))))))"

definition apiDistributedBlindedPepper ::
    "api_env \<Rightarrow> ('w, 'm) api_port \<Rightarrow> string \<Rightarrow> string \<Rightarrow> string \<Rightarrow> string option \<Rightarrow> ('w, string) api_io" where
  "apiDistributedBlindedPepper env p rid t blindedPhoneNumber clientVersion =
     andThen (authGuard p t) (\<lambda>s.
     andThen (quotaGuard env DistributedBlindedPepperAction s) (\<lambda>_.
     andThen (ext (proxyGetPhoneNumberIdentifier (wpRelay (apWallet p)) (relayerRpcTimeoutMs (aeWallet env))
       (sessionRequest rid s) blindedPhoneNumber clientVersion)) (\<lambda>res.
     andThen (throwErr relayer_error_object res) (\<lambda>resp.
     andThen (logEv (EvPepperRequested (sessionAccount s) (sessionId s) (rrAddress resp) blindedPhoneNumber clientVersion)) (\<lambda>_.
     andThen (ext (incrementUsage (apSession p) s DistributedBlindedPepperAction 1)) (\<lambda>_.
     ret (rrPayload resp)))))))"

definition apiRequestSubsidisedAttestations ::
    "api_env \<Rightarrow> ('w, 'm) api_port \<Rightarrow> string \<Rightarrow> string \<Rightarrow> request_attestations_dto \<Rightarrow> ('w, string) api_io" where
  "apiRequestSubsidisedAttestations env p rid t dto =
     andThen (authGuard p t) (\<lambda>s.
     andThen (quotaGuard env RequestSubsidisedAttestationAction s) (\<lambda>_.
     andThen (subsidyIsValid (aeWallet env) (apWallet p) dto s) (\<lambda>valid.
     andThen (throwErr validity_error_object valid) (\<lambda>_.
     andThen (buildTransactionBatch (apWallet p) dto) (\<lambda>transactions.
     andThen (ext (proxySubmitTransactionBatch (wpRelay (apWallet p)) (relayerRpcTimeoutMs (aeWallet env))
       (sessionRequest rid s) transactions)) (\<lambda>res.
     andThen (throwErr relayer_error_object res) (\<lambda>txSubmit.
     andThen (logEv (EvAttestationsRequested (sessionAccount s) (sessionId s) (rrAddress txSubmit)
       (rrPayload txSubmit) (dtoAttestationsRequested dto) (dtoIdentifier dto))) (\<lambda>_.
     andThen (ext (incrementUsage (apSession p) s RequestSubsidisedAttestationAction (dtoAttestationsRequested dto))) (\<lambda>_.
     ret (rrPayload txSubmit))))))))))"

definition childEvent ::
    "session \<Rightarrow> relayer_response \<Rightarrow> transaction_with_metadata \<Rightarrow> event" where
  "childEvent s resp c = EvChildMetaTransactionSubmitted (sessionAccount s) (sessionId s) (rrAddress resp) (rrPayload resp)
     (the (childDestination (metaRaw c))) (childValue (metaRaw c)) (metaMethodId c)
     (methodName (metaMethod c)) (contractName (metaMethod c))"

definition logMetaTransaction ::
    "api_env \<Rightarrow> relayer_response \<Rightarrow> raw_transaction \<Rightarrow> transaction_with_metadata list \<Rightarrow> session \<Rightarrow>
     ('w, unit) api_io" where
  "logMetaTransaction env resp metaTx childTxs s =
     andThen (logEv (EvMetaTransactionSubmitted (sessionAccount s) (sessionId s) (rrAddress resp) (rrPayload resp)
       (normalizeAddress (weBase (aeWallet env)) (destination metaTx)) (int (length childTxs)))) (\<lambda>_.
     forEach (\<lambda>c. logEv (childEvent s resp c)) childTxs)"

definition apiSubmitMetaTransaction ::
    "api_env \<Rightarrow> ('w, 'm) api_port \<Rightarrow> method_filter \<Rightarrow> string \<Rightarrow> string \<Rightarrow> string \<Rightarrow> string \<Rightarrow> ('w, string) api_io" where
  "apiSubmitMetaTransaction env p dflt rid t dest calldata =
     andThen (authGuard p t) (\<lambda>s.
     andThen (quotaGuard env SubmitMetaTransactionAction s) (\<lambda>_.
     andThen (isValidWallet (aeWallet env) (apWallet p) dest (sessionAccount s)) (\<lambda>valid.
     andThen (throwErr wallet_error_object valid) (\<lambda>_.
     let metaTx = \<lparr>destination = dest, txValue = ''0x0'', data = calldata\<rparr> in
     andThen (ext (parseTx (weBase (aeWallet env)) (wpDecoder (apWallet p)) (wpParser (apWallet p)) dflt metaTx dest None)) (\<lambda>parsed.
     andThen (throwErr tx_parse_error_object parsed) (\<lambda>childTxs.
     andThen (ext (proxySubmitTransaction (wpRelay (apWallet p)) (relayerRpcTimeoutMs (aeWallet env))
       (sessionRequest rid s) metaTx)) (\<lambda>res.
     andThen (throwErr relayer_error_object res) (\<lambda>resp.
     andThen (logMetaTransaction env resp metaTx childTxs s) (\<lambda>_.
     andThen (ext (incrementUsage (apSession p) s SubmitMetaTransactionAction 1)) (\<lambda>_.
     ret (rrPayload resp)))))))))))"

section \<open>What only reads\<close>

text \<open>
  A predicate of the world that every call of the port keeps, but those that send a command to a
  relayer or write a session.
\<close>

definition calm :: "('w, 'm) wallet_port \<Rightarrow> ('w \<Rightarrow> bool) \<Rightarrow> bool" where
  "calm p P \<longleftrightarrow>
     (\<forall>a. preserves P (getCode (wpChain p) a)) \<and> (\<forall>a d. preserves P (ethCall (wpChain p) a d)) \<and>
     (\<forall>a. preserves P (getMetaTransactionWallet (wpChain p) a)) \<and> (\<forall>m. preserves P (walletSigner (wpChain p) m)) \<and>
     (\<forall>sid. preserves P (repoFindOne (wpSession p) sid)) \<and> preserves P (dateNow (wpSession p)) \<and>
     (\<forall>a. preserves P (ppGetWallet (wpParser p) a)) \<and> (\<forall>n. preserves P (ppGetContract (wpParser p) n)) \<and>
     (\<forall>h. preserves P (wpTransaction p h)) \<and> (\<forall>f t. preserves P (wpDeployedEvents p f t)) \<and>
     (\<forall>n. preserves P (wpAttestationFee p n))"

lemma preserves_ext_world: "preserves P m \<Longrightarrow> preserves (\<lambda>(l, w). P w) (ext m)"
  by (auto simp: preserves_def ext_app)

lemma preserves_let [keeps]: "(\<And>x. preserves P (f x)) \<Longrightarrow> preserves P (let x = a in f x)"
  by simp

lemma preserves_verifyWallet:
  assumes "calm p P"
  shows "preserves P (verifyWallet cb (wpChain p) a impls s)"
  unfolding verifyWallet_def Let_def using assms
  by (auto simp: calm_def intro!: keeps)

lemma preserves_parseTx:
  assumes "calm p P"
  shows "preserves P (parseTx cb dec (wpParser p) dflt tx a mf)"
  unfolding parseTx_def using assms by (auto simp: calm_def intro!: keeps)

lemma preserves_logEv [keeps]: "preserves (\<lambda>(l, w). P w) (logEv ev)"
  unfolding logEv_def by (intro keeps) auto

lemma preserves_throwErr [keeps]: "preserves P (throwErr f r)"
  unfolding throwErr_def by (intro keeps)

lemma preserves_isValidWallet:
  "calm p P \<Longrightarrow> preserves (\<lambda>(l, w). P w) (isValidWallet env p a s)"
  unfolding isValidWallet_def by (intro keeps preserves_ext_world preserves_verifyWallet)

lemma preserves_authGuard:
  assumes "calm (apWallet p) P"
  shows "preserves (\<lambda>(l, w). P w) (authGuard p t)"
  unfolding authGuard_def recoverSession_def findOneSession_def apSession_def using assms
  by (auto simp: calm_def intro!: keeps preserves_ext_world split: option.split)

lemma preserves_quotaGuard: "preserves Q (quotaGuard env a s)"
  unfolding quotaGuard_def by (intro keeps)

lemma preserves_parseWith:
  assumes "calm p P"
  shows "preserves (\<lambda>(l, w). P w) (parseWith env p tx a c m)"
proof -
  from assms have "preserves P (ppGetContract (wpParser p) c)" by (simp add: calm_def)
  then show ?thesis
    unfolding parseWith_def
    by (intro keeps preserves_ext_world preserves_parseTx [OF assms])
qed

lemma preserves_subsidyIsValid:
  "calm p P \<Longrightarrow> preserves (\<lambda>(l, w). P w) (subsidyIsValid env p dto s)"
  unfolding subsidyIsValid_def
  by (intro keeps preserves_isValidWallet preserves_parseWith)

lemma preserves_buildTransactionBatch:
  assumes "calm p P"
  shows "preserves (\<lambda>(l, w). P w) (buildTransactionBatch p dto)"
  unfolding buildTransactionBatch_def buildSubsidyTransfer_def using assms
  by (auto simp: calm_def intro!: keeps preserves_ext_world)

lemma throwErr_Inr: "throwErr f r w = (Inr x, w') \<longleftrightarrow> r = Ok x \<and> w' = w"
  by (auto simp: throwErr_def split: result.splits)

lemma authGuard_Inr:
  "authGuard p t (l, w) = (Inr s, (l', w')) \<longleftrightarrow>
     l' = l \<and> (\<exists>pl. apVerifyToken p t = Some pl \<and> recoverSession (apSession p) pl w = (Inr s, w'))"
  by (auto simp: authGuard_def runs ext_eq_iff split: option.split)

lemma quotaGuard_Inr:
  "quotaGuard env a s w = (Inr b, w') \<longleftrightarrow>
     w' = w \<and> b \<and> (\<exists>used. getActionCount s a = Inr used \<and> used < aeQuotas env a)"
  by (auto simp: quotaGuard_def canActivate_iff)

section \<open>Admission and action\<close>

text \<open>A guarded endpoint is its checks, which only read, followed by what it does.\<close>

definition submitAdmission ::
    "api_env \<Rightarrow> ('w, 'm) api_port \<Rightarrow> method_filter \<Rightarrow> string \<Rightarrow> raw_transaction \<Rightarrow>
     ('w, session \<times> transaction_with_metadata list) api_io" where
  "submitAdmission env p dflt t metaTx =
     andThen (authGuard p t) (\<lambda>s.
     andThen (quotaGuard env SubmitMetaTransactionAction s) (\<lambda>_.
     andThen (isValidWallet (aeWallet env) (apWallet p) (destination metaTx) (sessionAccount s)) (\<lambda>valid.
     andThen (throwErr wallet_error_object valid) (\<lambda>_.
     andThen (ext (parseTx (weBase (aeWallet env)) (wpDecoder (apWallet p)) (wpParser (apWallet p)) dflt metaTx
       (destination metaTx) None)) (\<lambda>parsed.
     andThen (throwErr tx_parse_error_object parsed) (\<lambda>childTxs. ret (s, childTxs)))))))"

definition submitAction ::
    "api_env \<Rightarrow> ('w, 'm) api_port \<Rightarrow> string \<Rightarrow> raw_transaction \<Rightarrow> session \<Rightarrow> transaction_with_metadata list \<Rightarrow>
     ('w, string) api_io" where
  "submitAction env p rid metaTx s childTxs =
     andThen (ext (proxySubmitTransaction (wpRelay (apWallet p)) (relayerRpcTimeoutMs (aeWallet env))
       (sessionRequest rid s) metaTx)) (\<lambda>res.
     andThen (throwErr relayer_error_object res) (\<lambda>resp.
     andThen (logMetaTransaction env resp metaTx childTxs s) (\<lambda>_.
     andThen (ext (incrementUsage (apSession p) s SubmitMetaTransactionAction 1)) (\<lambda>_.
     ret (rrPayload resp)))))"

lemma apiSubmit_split:
  "apiSubmitMetaTransaction env p dflt rid t dest calldata =
     andThen (submitAdmission env p dflt t \<lparr>destination = dest, txValue = ''0x0'', data = calldata\<rparr>)
       (\<lambda>(s, childTxs). submitAction env p rid \<lparr>destination = dest, txValue = ''0x0'', data = calldata\<rparr> s childTxs)"
  by (simp add: apiSubmitMetaTransaction_def submitAdmission_def submitAction_def andThen_assoc Let_def)

lemma preserves_submitAdmission:
  assumes "calm (apWallet p) P"
  shows "preserves (\<lambda>(l, w). P w) (submitAdmission env p dflt t tx)"
  unfolding submitAdmission_def using assms
  by (intro keeps preserves_ext_world preserves_authGuard preserves_quotaGuard preserves_isValidWallet preserves_parseTx)

lemma submitAdmission_Inr:
  assumes "submitAdmission env p dflt t tx (l, w) = (Inr (s, cs), (l', w'))"
  shows "\<exists>pl used u1 u2. apVerifyToken p t = Some pl \<and> recoverSession (apSession p) pl w = (Inr s, u1)
     \<and> getActionCount s SubmitMetaTransactionAction = Inr used \<and> used < aeQuotas env SubmitMetaTransactionAction
     \<and> verifyWallet (weBase (aeWallet env)) (wpChain (apWallet p)) (destination tx)
        (map fst (MetaTransactionWalletVersions (weNetwork (aeWallet env)))) (sessionAccount s) u1 = (Inr (Ok ()), u2)
     \<and> parseTx (weBase (aeWallet env)) (wpDecoder (apWallet p)) (wpParser (apWallet p)) dflt tx (destination tx) None u2
        = (Inr (Ok cs), w')"
  using assms
  by (fastforce simp: submitAdmission_def runs authGuard_Inr quotaGuard_Inr throwErr_Inr isValidWallet_def)

definition attestAdmission ::
    "api_env \<Rightarrow> ('w, 'm) api_port \<Rightarrow> string \<Rightarrow> request_attestations_dto \<Rightarrow>
     ('w, session \<times> raw_transaction list) api_io" where
  "attestAdmission env p t dto =
     andThen (authGuard p t) (\<lambda>s.
     andThen (quotaGuard env RequestSubsidisedAttestationAction s) (\<lambda>_.
     andThen (subsidyIsValid (aeWallet env) (apWallet p) dto s) (\<lambda>valid.
     andThen (throwErr validity_error_object valid) (\<lambda>_.
     andThen (buildTransactionBatch (apWallet p) dto) (\<lambda>transactions. ret (s, transactions))))))"

definition attestAction ::
    "api_env \<Rightarrow> ('w, 'm) api_port \<Rightarrow> string \<Rightarrow> request_attestations_dto \<Rightarrow> session \<Rightarrow> raw_transaction list \<Rightarrow>
     ('w, string) api_io" where
  "attestAction env p rid dto s transactions =
     andThen (ext (proxySubmitTransactionBatch (wpRelay (apWallet p)) (relayerRpcTimeoutMs (aeWallet env))
       (sessionRequest rid s) transactions)) (\<lambda>res.
     andThen (throwErr relayer_error_object res) (\<lambda>txSubmit.
     andThen (logEv (EvAttestationsRequested (sessionAccount s) (sessionId s) (rrAddress txSubmit)
       (rrPayload txSubmit) (dtoAttestationsRequested dto) (dtoIdentifier dto))) (\<lambda>_.
     andThen (ext (incrementUsage (apSession p) s RequestSubsidisedAttestationAction (dtoAttestationsRequested dto))) (\<lambda>_.
     ret (rrPayload txSubmit)))))"

lemma apiRequest_split:
  "apiRequestSubsidisedAttestations env p rid t dto =
     andThen (attestAdmission env p t dto) (\<lambda>(s, txs). attestAction env p rid dto s txs)"
  by (simp add: apiRequestSubsidisedAttestations_def attestAdmission_def attestAction_def andThen_assoc)

lemma preserves_attestAdmission:
  assumes "calm (apWallet p) P"
  shows "preserves (\<lambda>(l, w). P w) (attestAdmission env p t dto)"
  unfolding attestAdmission_def using assms
  by (intro keeps preserves_authGuard preserves_quotaGuard preserves_subsidyIsValid preserves_buildTransactionBatch)

lemma attestAdmission_Inr:
  assumes "attestAdmission env p t dto (l, w) = (Inr (s, txs), (l', w'))"
  shows "\<exists>pl used u x y. apVerifyToken p t = Some pl \<and> recoverSession (apSession p) pl w = (Inr s, u)
     \<and> getActionCount s RequestSubsidisedAttestationAction = Inr used
     \<and> used < aeQuotas env RequestSubsidisedAttestationAction
     \<and> subsidyIsValid (aeWallet env) (apWallet p) dto s (l, u) = (Inr (Ok ()), x)
     \<and> buildTransactionBatch (apWallet p) dto x = (Inr txs, y)"
  using assms
  by (fastforce simp: attestAdmission_def runs authGuard_Inr quotaGuard_Inr throwErr_Inr)

section \<open>Properties\<close>

text \<open>
  C1. Nothing leaves the API for a meta-transaction that was not admitted: if a request to submit one
  changed anything of the world that the reading calls keep (a command sent to a relayer, a session
  written), then its token names a session whose quota is not used up, the wallet passed the
  verification for the session's account, and every transaction decoded from it, for that wallet, is granted.
\<close>

lemma submit_needs_admission:
  assumes "calm (apWallet p) P" and "P w"
    and "celo_base_documented (weBase (aeWallet env))"
    and "dflt = buildFilter (weBase (aeWallet env)) grants" and "colon_free (weBase (aeWallet env)) grants"
    and "apiSubmitMetaTransaction env p dflt rid t dest calldata (l, w) = (r, (l', w'))" and "\<not> P w'"
  shows "\<exists>s pl used.
     apVerifyToken p t = Some pl \<and> (\<exists>u'. recoverSession (apSession p) pl w = (Inr s, u'))
   \<and> getActionCount s SubmitMetaTransactionAction = Inr used \<and> used < aeQuotas env SubmitMetaTransactionAction
   \<and> (\<exists>u u'. verifyWallet (weBase (aeWallet env)) (wpChain (apWallet p)) dest
        (map fst (MetaTransactionWalletVersions (weNetwork (aeWallet env)))) (sessionAccount s) u = (Inr (Ok ()), u'))
   \<and> (\<exists>wallet u u'. ppGetWallet (wpParser (apWallet p)) dest u = (Inr wallet, u')
        \<and> executes (weBase (aeWallet env)) (wpDecoder (apWallet p))
             \<lparr>destination = dest, txValue = ''0x0'', data = calldata\<rparr> wallet grants)"
proof -
  let ?tx = "\<lparr>destination = dest, txValue = ''0x0'', data = calldata\<rparr>"
  have Q: "(\<lambda>(l, w). P w) (l, w)" "\<not> (\<lambda>(l, w). P w) (l', w')" using assms(2,7) by simp_all
  obtain sc x where a: "submitAdmission env p dflt t ?tx (l, w) = (Inr sc, x)"
    by (rule andThen_breaks [OF preserves_submitAdmission [OF assms(1)] Q(1) assms(6) [unfolded apiSubmit_split] Q(2)])
  obtain s cs l1 w1 where "sc = (s, cs)" "x = (l1, w1)" by (metis surj_pair)
  with a have a: "submitAdmission env p dflt t ?tx (l, w) = (Inr (s, cs), (l1, w1))" by simp
  from submitAdmission_Inr [OF this] obtain pl used u1 u2 where
    facts: "apVerifyToken p t = Some pl" "recoverSession (apSession p) pl w = (Inr s, u1)"
      "getActionCount s SubmitMetaTransactionAction = Inr used" "used < aeQuotas env SubmitMetaTransactionAction"
      "verifyWallet (weBase (aeWallet env)) (wpChain (apWallet p)) dest
        (map fst (MetaTransactionWalletVersions (weNetwork (aeWallet env)))) (sessionAccount s) u1 = (Inr (Ok ()), u2)" and
    parsed: "parseTx (weBase (aeWallet env)) (wpDecoder (apWallet p)) (wpParser (apWallet p)) dflt ?tx dest None u2
        = (Inr (Ok cs), w1)" by auto
  have "\<exists>wallet u u'. ppGetWallet (wpParser (apWallet p)) dest u = (Inr wallet, u')
      \<and> executes (weBase (aeWallet env)) (wpDecoder (apWallet p)) ?tx wallet grants"
    using parseTx_Ok [OF assms(3,5) _ parsed] assms(4) by auto
  with facts show ?thesis by blast
qed

text \<open>An environment in which a request is admitted\<close>

definition demoApi :: "(session list \<times> int, string) api_port" where
  "demoApi = \<lparr>apWallet = demoWalletPort, apGateway = demoGatewayPort,
     apVerifyToken = (\<lambda>t. Some (tokenPayload t)), apSign = demoSign\<rparr>"

definition demoApiEnv :: api_env where
  "demoApiEnv = \<lparr>aeWallet = demoEnv, aeRules = demoRules, aeQuotas = quotaConfig (\<lambda>_. None), aeCallbackUrl = ''url''\<rparr>"

lemma demo_calm: "calm demoWalletPort (\<lambda>w. fst w = T)"
  by (auto simp: calm_def demoWalletPort_def demoWalletChain_def demoContracts_def table_port_def
      intro!: preservesI)

definition demoSubmit :: "(thrown + string) \<times> log_entry list \<times> session list \<times> int" where
  "demoSubmit = apiSubmitMetaTransaction demoApiEnv demoApi (buildFilter celo_base_std demoGrants)
     ''r'' ''i'' ''0xAB'' ''0x11'' ([], ([rowWith 3], 7))"

lemma demoSubmit_counts:
  "map (\<lambda>r. getActionCount r SubmitMetaTransactionAction) (fst (snd (snd demoSubmit))) = [Inr 4]"
  by code_simp

lemma demoSubmit_writes: "fst (snd (snd demoSubmit)) \<noteq> [rowWith 3]"
proof
  assume eq: "fst (snd (snd demoSubmit)) = [rowWith 3]"
  show False using demoSubmit_counts unfolding eq by (simp add: rowWith_count)
qed

lemma demoGrants_free: "colon_free (weBase (aeWallet demoApiEnv)) demoGrants"
  by code_simp

lemma demoApiEnv_base: "weBase (aeWallet demoApiEnv) = celo_base_std"
  by (simp add: demoApiEnv_def demoEnv_def)

lemma submit_needs_admission_witness:
  "\<exists>s used. getActionCount s SubmitMetaTransactionAction = Inr used \<and> used < 20
     \<and> (\<exists>wallet. executes celo_base_std demoDecoder
          \<lparr>destination = ''0xAB'', txValue = ''0x0'', data = ''0x11''\<rparr> wallet demoGrants)"
proof -
  obtain r l' w' where run: "apiSubmitMetaTransaction demoApiEnv demoApi (buildFilter celo_base_std demoGrants)
     ''r'' ''i'' ''0xAB'' ''0x11'' ([], ([rowWith 3], 7)) = (r, (l', w'))"
    by (metis prod.collapse)
  then have written: "fst w' \<noteq> [rowWith 3]"
    using demoSubmit_writes by (simp add: demoSubmit_def)
  have calm: "calm (apWallet demoApi) (\<lambda>w. fst w = [rowWith 3])"
    by (simp add: demoApi_def demo_calm)
  note admission = submit_needs_admission [of demoApi "\<lambda>w. fst w = [rowWith 3]" "([rowWith 3], 7)" demoApiEnv
      "buildFilter celo_base_std demoGrants" demoGrants "''r''" "''i''" "''0xAB''" "''0x11''" "[]" r l' w',
      unfolded demoApiEnv_base, OF calm fst_conv celo_base_std_documented refl
      demoGrants_free [unfolded demoApiEnv_base] run written]
  then have "\<exists>s used.
      getActionCount s SubmitMetaTransactionAction = Inr used \<and> used < aeQuotas demoApiEnv SubmitMetaTransactionAction
     \<and> (\<exists>wallet. executes celo_base_std (wpDecoder (apWallet demoApi))
        \<lparr>destination = ''0xAB'', txValue = ''0x0'', data = ''0x11''\<rparr> wallet demoGrants)"
    by blast
  then show ?thesis
    by (simp add: demoApiEnv_def quotaConfig_def demoApi_def demoWalletPort_def)
qed

text \<open>
  A successful request counts the number asked for on the row of the token's session, which was below its
  quota before.
\<close>

definition tokenSession :: "('w, 'm) api_port \<Rightarrow> string \<Rightarrow> string option" where
  "tokenSession p t = Option.bind (apVerifyToken p t) decodeTokenPayload"

lemma attestation_request_counts:
  assumes "stores_in (apSession p) tbl" and "relay_frames (wpRelay (apWallet p)) tbl"
    and "\<And>rows. calm (apWallet p) (\<lambda>w. tbl w = rows)"
    and "apiRequestSubsidisedAttestations env p rid t dto (l, w) = (Inr h, (l', w'))"
  shows "\<exists>sid s s' used. tokenSession p t = Some sid \<and> find (\<lambda>r. sessionId r = sid) (tbl w) = Some s
     \<and> getActionCount s RequestSubsidisedAttestationAction = Inr used
     \<and> used < aeQuotas env RequestSubsidisedAttestationAction
     \<and> find (\<lambda>r. sessionId r = sid) (tbl w') = Some s'
     \<and> getActionCount s' RequestSubsidisedAttestationAction = Inr (used + dtoAttestationsRequested dto)"
proof -
  from assms(4) obtain s txs l1 w1 where
    a: "attestAdmission env p t dto (l, w) = (Inr (s, txs), (l1, w1))" and
    b: "attestAction env p rid dto s txs (l1, w1) = (Inr h, (l', w'))"
    by (auto simp: apiRequest_split runs)
  from attestAdmission_Inr [OF a] obtain pl used u where
    verified: "apVerifyToken p t = Some pl" and pl: "recoverSession (apSession p) pl w = (Inr s, u)" and
    used: "getActionCount s RequestSubsidisedAttestationAction = Inr used"
      "used < aeQuotas env RequestSubsidisedAttestationAction" by blast
  from pl obtain sid where decoded: "decodeTokenPayload pl = Some sid"
    and sid: "repoFindOne (apSession p) sid w = (Inr (Some s), u)"
    by (auto simp: recoverSession_def findOneSession_def runs split: option.splits)
  from verified decoded have own: "tokenSession p t = Some sid" by (simp add: tokenSession_def)
  from sid stores_inD(3) [OF assms(1), of sid w] have row: "find (\<lambda>r. sessionId r = sid) (tbl w) = Some s" by auto
  then have id: "sid = sessionId s" by (auto dest: find_row_id)
  have w1: "tbl w1 = tbl w"
    using preservesD [OF preserves_attestAdmission [OF assms(3) [of "tbl w"]] _ a] by simp
  from b obtain resp w2 where
    send: "executeRelay (wpRelay (apWallet p)) (relayerRpcTimeoutMs (aeWallet env)) (sessionRequest rid s)
        SubmitTransactionBatch (SubmitTransactionBatchInput txs) w1 = (Inr (Ok resp), w2)" and
    inc: "incrementUsage (apSession p) s RequestSubsidisedAttestationAction (dtoAttestationsRequested dto) w2 = (Inr (), w')"
    by (auto simp: attestAction_def runs throwErr_Inr logEv_def proxySubmitTransactionBatch_def)
  let ?m = "incrementedMeta s RequestSubsidisedAttestationAction (used + dtoAttestationsRequested dto)"
  from incrementUsage_run [OF assms(1) used(1), of "dtoAttestationsRequested dto" w2] inc
  have "tbl w' = map (setMeta (sessionId s) ?m) (tbl w2)" by auto
  moreover have "tbl w2 = tbl w" using executeRelay_frame [OF assms(2) send] w1 by simp
  ultimately have "find (\<lambda>r. sessionId r = sessionId s) (tbl w') = Some (s\<lparr>sessionMeta := Some ?m\<rparr>)"
    using row id by (simp add: find_setMeta)
  with own row id used getActionCount_incremented [OF used(1)] show ?thesis by auto
qed

text \<open>
  A successful request for subsidised attestations counts exactly the number asked for on the
  stored session, whose usage was below the quota before; nothing bounds that number by what is left
  of the quota, so one request can exceed it at will.
\<close>

lemma attestations_counted_beyond_quota:
  assumes "stores_in (apSession p) tbl" and "relay_frames (wpRelay (apWallet p)) tbl"
    and "\<And>rows. calm (apWallet p) (\<lambda>w. tbl w = rows)"
    and "apiRequestSubsidisedAttestations env p rid t dto (l, w) = (Inr h, (l', w'))"
  shows "\<exists>s s' used. find (\<lambda>r. sessionId r = sessionId s) (tbl w) = Some s
     \<and> getActionCount s RequestSubsidisedAttestationAction = Inr used
     \<and> used < aeQuotas env RequestSubsidisedAttestationAction
     \<and> find (\<lambda>r. sessionId r = sessionId s) (tbl w') = Some s'
     \<and> getActionCount s' RequestSubsidisedAttestationAction = Inr (used + dtoAttestationsRequested dto)"
  using attestation_request_counts [OF assms] by (metis find_row_id)

definition greedyApi :: "(session list \<times> int, string) api_port" where
  "greedyApi = demoApi\<lparr>apWallet := demoSubsidyPort\<rparr>"

definition greedyDto :: request_attestations_dto where
  "greedyDto = demoDto\<lparr>dtoAttestationsRequested := 1000\<rparr>"

lemma attestations_counted_beyond_quota_witness:
  "\<exists>w' s' used. fst (apiRequestSubsidisedAttestations demoApiEnv greedyApi ''r'' ''i'' greedyDto ([], ([freshRow], 7)))
      = Inr ''0xHASH'' \<and> find (\<lambda>r. sessionId r = ''i'') (fst (w' :: session list \<times> int)) = Some s'
     \<and> getActionCount s' RequestSubsidisedAttestationAction = Inr (used + 1000)"
proof -
  have ok: "fst (apiRequestSubsidisedAttestations demoApiEnv greedyApi ''r'' ''i'' greedyDto ([], ([freshRow], 7)))
      = Inr ''0xHASH''" by code_simp
  then obtain l' w' where
    run: "apiRequestSubsidisedAttestations demoApiEnv greedyApi ''r'' ''i'' greedyDto ([], ([freshRow], 7))
      = (Inr ''0xHASH'', (l', w'))" by (metis prod.collapse)
  have port: "apWallet greedyApi = demoWalletPort\<lparr>wpDecoder := demoGrantDecoder\<rparr>"
    by (simp add: greedyApi_def demoSubsidyPort_def)
  have st: "stores_in (apSession greedyApi) fst"
    unfolding apSession_def port using demo_stored by simp
  have fr: "relay_frames (wpRelay (apWallet greedyApi)) fst"
    unfolding port using demo_frames by simp
  have cl: "calm (apWallet greedyApi) (\<lambda>w. fst w = rows)" for rows
    unfolding port using demo_calm by (simp add: calm_def)
  have n: "dtoAttestationsRequested greedyDto = 1000" by (simp add: greedyDto_def)
  from attestations_counted_beyond_quota [OF st fr cl run] obtain s s' used where
    "find (\<lambda>r. sessionId r = sessionId s) (fst ([freshRow], 7 :: int)) = Some s"
    "find (\<lambda>r. sessionId r = sessionId s) (fst w') = Some s'"
    "getActionCount s' RequestSubsidisedAttestationAction = Inr (used + 1000)"
    unfolding n by blast
  moreover from this(1) have "sessionId s = ''i''"
    by (auto simp: freshRow_def split: if_splits)
  ultimately show ?thesis using ok by auto
qed

end
