(* ===== verification/Transaction_Service.thy ===== *)
theory Transaction_Service
  imports Retry Logger_Lib
begin

text \<open>
  The relayer's transaction service (\<open>packages/apps/relayer/src/chain/transaction.service.ts\<close>) with its
  errors (\<open>chain/errors.ts\<close>) and the balance log (\<open>chain/balance.service.ts\<close>): it submits the
  transactions of the other services with the nonces of its one account, watches them until they
  are final, and replaces those that are priced too low or take too long by dead letters. The node
  is a port. Programs run on the state of the service and the outside world.
\<close>

section \<open>Errors (chain/errors.ts)\<close>

datatype chain_error =
    TxSubmitError thrown raw_transaction
  | TxNotFoundError string
  | ReceiptNotFoundError string
  | TxDeadletterError thrown string
  | GasPriceFetchError thrown
  | NonceTooLow
  | GasPriceBellowMinimum string
  | TxNotInCache string

fun chain_error_type :: "chain_error \<Rightarrow> string" where
  "chain_error_type (TxSubmitError _ _) = ''TxSubmitError''"
| "chain_error_type (TxNotFoundError _) = ''TxNotFoundError''"
| "chain_error_type (ReceiptNotFoundError _) = ''ReceiptNotFoundError''"
| "chain_error_type (TxDeadletterError _ _) = ''TxDeadletterError''"
| "chain_error_type (GasPriceFetchError _) = ''GasPriceFetchError''"
| "chain_error_type NonceTooLow = ''NonceTooLow''"
| "chain_error_type (GasPriceBellowMinimum _) = ''GasPriceBellowMinimum''"
| "chain_error_type (TxNotInCache _) = ''TxNotInCache''"

fun chain_error_object :: "chain_error \<Rightarrow> error_object" where
  "chain_error_object (TxSubmitError err tx) =
     metadata_error ''TxSubmitError'' (''TxSubmitError: '' @ message_text err) [(''tx'', raw_to_value tx)]"
| "chain_error_object (TxNotFoundError txHash) =
     root_error ''TxNotFoundError'' (''TxNotFoundError: '' @ txHash @ '' not found in node'')"
| "chain_error_object (ReceiptNotFoundError txHash) =
     root_error ''ReceiptNotFoundError'' (''Receipt not found for '' @ txHash)"
| "chain_error_object (TxDeadletterError err txHash) =
     metadata_error ''TxDeadletterError'' (''TxDeadletterError: '' @ message_text err)
       [(''txHash'', JStr txHash)]"
| "chain_error_object (GasPriceFetchError err) =
     root_error ''GasPriceFetchError'' (''GasPriceFetchError: '' @ message_text err)"
| "chain_error_object NonceTooLow = root_error ''NonceTooLow'' ''Nonce too low''"
| "chain_error_object (GasPriceBellowMinimum price) =
     root_error ''GasPriceBellowMinimum'' (''Gas price bellow minium: '' @ price)"
| "chain_error_object (TxNotInCache txHash) =
     root_error ''TxNotInCache'' (''TxNotInCache: '' @ txHash @ '' not found in cache'')"

lemma errorType_chain_error_object [simp]: "errorType (chain_error_object e) = Some (chain_error_type e)"
  by (cases e) (simp_all add: error_shapes)

section \<open>State\<close>

text \<open>
  \<open>TxCachedData\<close>; a gas price is a \<open>BigNumber\<close>, kept as the number it stands for. A time is a
  number of milliseconds.
\<close>

record tx_cached =
  cachedNonce :: int
  cachedGasPrice :: rat
  seenAt :: int
  expireIn :: int
  cachedContext :: "trace_context option"

text \<open>
  The service: the set of watched hashes, the map of what is known of them, the gas price, the next
  nonce, and what it has logged. \<open>nonce\<close> is undefined until \<open>onModuleInit\<close> has fetched it, before
  anything reads it.
\<close>

record tx_service =
  watchedTransactions :: "string list"
  transactions :: "string \<Rightarrow> tx_cached option"
  svGasPrice :: rat
  svNonce :: int
  svLog :: "log_entry list"

record tx_config =
  walletAddress :: string
  cfgTransactionTimeoutMs :: int
  transactionMaxGas :: int
  gasPriceMultiplier :: rat
  gasPriceFallback :: rat
  maxGasPrice :: rat

text \<open>
  A transaction as the node reports it (\<open>null\<close> if it does not know it): the relayer's own, so it has a
  recipient; its gas price is a decimal string of a whole number. And a receipt.
\<close>

record chain_transaction =
  tHash :: string
  tNonce :: int
  tTo :: string
  tGasPrice :: nat
  tBlockHash :: "string option"

record tx_receipt =
  receiptStatus :: bool
  gasUsed :: nat

record tx_summary =
  sumHash :: string
  sumCached :: "tx_cached option"
  sumTx :: "chain_transaction option"

datatype deadletter_reason = GasTooLow | Expired

fun deadletter_reason_name :: "deadletter_reason \<Rightarrow> string" where
  "deadletter_reason_name GasTooLow = ''GasTooLow''"
| "deadletter_reason_name Expired = ''Expired''"

section \<open>The node\<close>

text \<open>What the service passes to \<open>kit.sendTransaction\<close>; \<open>gasPrice.toFixed(0)\<close> is a whole number.\<close>

record send_request =
  rqFrom :: string
  rqTo :: string
  rqValue :: string
  rqData :: "string option"
  rqGas :: "int option"
  rqGasPrice :: int
  rqNonce :: int

text \<open>
  \<open>kit.sendTransaction\<close> and the \<open>getHash\<close> of its result, the requests of a batch, the account's next
  nonce, the gas price minimum, the pending transactions of the pool by sender, the two balances,
  \<open>toString\<close> of a \<open>BigNumber\<close> and the clock.
\<close>

record ('w, 'r) node_port =
  sendTx :: "send_request \<Rightarrow> ('w, thrown, 'r) io"
  getHash :: "'r \<Rightarrow> ('w, thrown, string) io"
  nodeTransaction :: "string \<Rightarrow> ('w, thrown, chain_transaction option) io"
  nodeReceipt :: "string \<Rightarrow> ('w, thrown, tx_receipt option) io"
  nodeNonce :: "string \<Rightarrow> ('w, thrown, int) io"
  gasPriceMinimum :: "('w, thrown, rat) io"
  pendingTxPool :: "('w, thrown, (error_object, (string \<times> chain_transaction list) list) result) io"
  checksumAddress :: "string \<Rightarrow> string"
  cUSDBalance :: "('w, thrown, rat) io"
  celoBalance :: "('w, thrown, rat) io"
  bigToString :: "rat \<Rightarrow> string"
  clockMs :: "'w \<Rightarrow> int \<times> 'w"

type_synonym ('w, 'a) tx_io = "(tx_service \<times> 'w, thrown, 'a) io"

definition nowMs :: "('w, 'r) node_port \<Rightarrow> ('w, int) tx_io" where
  "nowMs p = ext (\<lambda>w. case clockMs p w of (t, w') \<Rightarrow> (Inr t, w'))"

definition logTx :: "log_entry \<Rightarrow> ('w, unit) tx_io" where
  "logTx entry = modS (\<lambda>s. s\<lparr>svLog := svLog s @ [entry]\<rparr>)"

definition txService :: "tx_config \<Rightarrow> int \<Rightarrow> tx_service" where
  "txService cfg undefined_nonce =
     \<lparr>watchedTransactions = [], transactions = (\<lambda>_. None), svGasPrice = gasPriceFallback cfg,
      svNonce = undefined_nonce, svLog = []\<rparr>"

section \<open>The watch list\<close>

definition addWatch :: "string \<Rightarrow> tx_cached \<Rightarrow> tx_service \<Rightarrow> tx_service" where
  "addWatch h c s = s\<lparr>watchedTransactions := set_add h (watchedTransactions s),
                     transactions := (transactions s)(h \<mapsto> c)\<rparr>"

definition dropWatch :: "string \<Rightarrow> tx_service \<Rightarrow> tx_service" where
  "dropWatch h s = s\<lparr>watchedTransactions := set_delete h (watchedTransactions s),
                    transactions := (transactions s)(h := None)\<rparr>"

text \<open>\<open>watchTransaction\<close> completes what it is given by the time it was seen.\<close>

definition watchTransaction ::
    "('w, 'r) node_port \<Rightarrow> string \<Rightarrow> (int \<Rightarrow> tx_cached) \<Rightarrow> ('w, unit) tx_io" where
  "watchTransaction p h cachedTx = andThen (nowMs p) (\<lambda>now. modS (addWatch h (cachedTx now)))"

definition unwatchTransaction :: "string \<Rightarrow> ('w, unit) tx_io" where
  "unwatchTransaction h = modS (dropWatch h)"

section \<open>Gas price and nonce\<close>

definition GWEI_PER_UNIT :: rat where
  "GWEI_PER_UNIT = 1000000000"

definition updateGasPrice :: "tx_config \<Rightarrow> ('w, 'r) node_port \<Rightarrow> ('w, unit) tx_io" where
  "updateGasPrice cfg p =
     catching
       (andThen (ext (gasPriceMinimum p)) (\<lambda>rawGasPrice.
        let price = min (rawGasPrice * gasPriceMultiplier cfg) (maxGasPrice cfg) in
        andThen (getS svGasPrice) (\<lambda>old.
        andThen (logTx (LogEvent (EvGasPriceUpdate (old / GWEI_PER_UNIT) (maxGasPrice cfg \<le> price)) None)) (\<lambda>_.
        modS (\<lambda>s. s\<lparr>svGasPrice := price\<rparr>)))))
       (\<lambda>e.
        if e = NonError JNull \<or> e = NonError JUndefined
        then throw (typeError ''Cannot read property of undefined'')
        else
          andThen (logTx (LogThrown LError (ErrorObject (chain_error_object (GasPriceFetchError e))))) (\<lambda>_.
          andThen (getS svGasPrice) (\<lambda>price.
          if price = 0 then modS (\<lambda>s. s\<lparr>svGasPrice := gasPriceFallback cfg\<rparr>) else ret ())))"

text \<open>
  \<open>nonceLock.runExclusive\<close>: the calls of one service run here one after the other; what the lock is
  for is the subject of the interleaving below.
\<close>

definition updateNonce :: "tx_config \<Rightarrow> ('w, 'r) node_port \<Rightarrow> ('w, unit) tx_io" where
  "updateNonce cfg p =
     andThen (ext (nodeNonce p (walletAddress cfg))) (\<lambda>n. modS (\<lambda>s. s\<lparr>svNonce := n\<rparr>))"

section \<open>Submission\<close>

text \<open>
  \<open>sendTransaction\<close> also attaches a handler to the receipt's promise that logs its failure later;
  nothing waits for it.
\<close>

definition sendTransaction ::
    "tx_config \<Rightarrow> ('w, 'r) node_port \<Rightarrow> raw_transaction \<Rightarrow> rat \<Rightarrow> int \<Rightarrow> ('w, string) tx_io" where
  "sendTransaction cfg p tx price nonce =
     andThen (ext (sendTx p
       \<lparr>rqFrom = walletAddress cfg, rqTo = destination tx, rqValue = txValue tx, rqData = Some (data tx),
        rqGas = Some (transactionMaxGas cfg), rqGasPrice = toFixed0 price, rqNonce = nonce\<rparr>)) (\<lambda>res.
     ext (getHash p res))"

text \<open>The body of the lock: the hash, the nonce it was sent with and the times around it\<close>

definition sendLocked ::
    "tx_config \<Rightarrow> ('w, 'r) node_port \<Rightarrow> raw_transaction \<Rightarrow> ('w, string \<times> int \<times> int \<times> int \<times> int) tx_io" where
  "sendLocked cfg p tx =
     andThen (nowMs p) (\<lambda>endedAcquireLock.
     andThen (nowMs p) (\<lambda>startedSend.
     andThen (getS svGasPrice) (\<lambda>price.
     andThen (getS svNonce) (\<lambda>nonce.
     andThen (sendTransaction cfg p tx price nonce) (\<lambda>h.
     andThen (nowMs p) (\<lambda>endedSend.
     andThen (getS svNonce) (\<lambda>n.
     andThen (modS (\<lambda>s. s\<lparr>svNonce := n + 1\<rparr>)) (\<lambda>_.
     ret (h, n, endedAcquireLock, startedSend, endedSend)))))))))"

text \<open>What both catch blocks look for in the message of a failure\<close>

definition gasPriceTooLowText :: string where
  "gasPriceTooLowText = ''gasprice is less than gas price minimum''"

definition nonceTooLowText :: string where
  "nonceTooLowText = ''nonce too low''"

definition submitAttempt ::
    "tx_config \<Rightarrow> ('w, 'r) node_port \<Rightarrow> raw_transaction \<Rightarrow> trace_context option \<Rightarrow>
     ('w, (chain_error, string) result) tx_io" where
  "submitAttempt cfg p tx ctx =
     catching
       (andThen (nowMs p) (\<lambda>startedAcquireLock.
        andThen (sendLocked cfg p tx) (\<lambda>(txHash, nonce, endedAcquireLock, startedSend, endedSend).
        andThen (getS svGasPrice) (\<lambda>price.
        andThen (watchTransaction p txHash (\<lambda>now.
          \<lparr>cachedNonce = nonce, cachedGasPrice = price, seenAt = now,
           expireIn = cfgTransactionTimeoutMs cfg, cachedContext = ctx\<rparr>)) (\<lambda>_.
        andThen (logTx (LogEvent (EvTxSubmitted (destination tx) txHash nonce price
          (endedAcquireLock - startedAcquireLock) (endedSend - startedSend)) ctx)) (\<lambda>_.
        ret (Ok txHash)))))))
       (\<lambda>e. case thrown_message e of
          None \<Rightarrow> throw (typeError ''Cannot read property of undefined'')
        | Some m \<Rightarrow>
            if js_includes m gasPriceTooLowText then
              andThen (getS svGasPrice) (\<lambda>price.
              let err = GasPriceBellowMinimum (show_int (toFixed0 price)) in
              andThen (logTx (LogThrownCtx LWarn (ErrorObject (chain_error_object err)) ctx)) (\<lambda>_.
              andThen (updateGasPrice cfg p) (\<lambda>_. ret (Err err))))
            else if js_includes m nonceTooLowText then
              andThen (logTx (LogThrownCtx LWarn (ErrorObject (chain_error_object NonceTooLow)) ctx)) (\<lambda>_.
              andThen (updateNonce cfg p) (\<lambda>_. ret (Err NonceTooLow)))
            else ret (Err (TxSubmitError e tx)))"

definition submitOptions :: "(tx_service \<times> 'w, thrown, chain_error, string) retry_options" where
  "submitOptions = \<lparr>tries = 3, bailOnErrorTypes = None, shouldRetry = None, onRetry = None\<rparr>"

definition submitTransaction ::
    "tx_config \<Rightarrow> ('w, 'r) node_port \<Rightarrow> raw_transaction \<Rightarrow> trace_context option \<Rightarrow>
     ('w, (chain_error, string) result) tx_io" where
  "submitTransaction cfg p tx ctx = retried submitOptions chain_error_type (submitAttempt cfg p tx ctx)"

section \<open>Watching transactions\<close>

text \<open>\<open>xs.filter(f)\<close> for a predicate with effects\<close>

primrec filterIO :: "('a \<Rightarrow> ('w, 'e, bool) io) \<Rightarrow> 'a list \<Rightarrow> ('w, 'e, 'a list) io" where
  "filterIO f [] = ret []"
| "filterIO f (x # xs) =
     andThen (f x) (\<lambda>b. andThen (filterIO f xs) (\<lambda>ys. ret (if b then x # ys else ys)))"

text \<open>
  One answer of the batch: a request that failed still runs the rest of its callback. A missing
  cache entry is \<open>undefined\<close>, which the comparison with \<open>null\<close> does not notice.
\<close>

definition txSummary :: "('w, 'r) node_port \<Rightarrow> string \<Rightarrow> ('w, tx_summary) tx_io" where
  "txSummary p txHash =
     andThen (getS (\<lambda>s. transactions s txHash)) (\<lambda>cached.
     andThen (attempt (ext (nodeTransaction p txHash))) (\<lambda>answer.
     let tx = (case answer of Inl _ \<Rightarrow> None | Inr t \<Rightarrow> t);
         notFound = LogThrownCtx LWarn (ErrorObject (chain_error_object (TxNotFoundError txHash)))
                      (Option.bind cached cachedContext)
     in andThen (if tx = None then logTx notFound else ret ()) (\<lambda>_.
        case answer of
          Inl e \<Rightarrow> throw e
        | Inr t \<Rightarrow> ret \<lparr>sumHash = txHash, sumCached = cached, sumTx = t\<rparr>)))"

definition getTxSummaries :: "('w, 'r) node_port \<Rightarrow> ('w, tx_summary list) tx_io" where
  "getTxSummaries p =
     andThen (getS watchedTransactions) (\<lambda>hashes. promiseAll (map (txSummary p) hashes))"

definition withReceipts ::
    "('w, 'r) node_port \<Rightarrow> tx_summary list \<Rightarrow> ('w, (tx_summary \<times> tx_receipt option) list) tx_io" where
  "withReceipts p txs =
     promiseAll (map (\<lambda>t. andThen (ext (nodeReceipt p (sumHash t))) (\<lambda>r. ret (t, r))) txs)"

text \<open>\<open>txs.tx && txs.tx.blockHash !== null\<close>\<close>

definition isMined :: "tx_summary \<Rightarrow> bool" where
  "isMined t \<longleftrightarrow> (case sumTx t of None \<Rightarrow> False | Some tx \<Rightarrow> tBlockHash tx \<noteq> None)"

definition isExpired :: "('w, 'r) node_port \<Rightarrow> tx_summary \<Rightarrow> ('w, bool) tx_io" where
  "isExpired p t =
     (if isMined t then ret False
      else (case sumCached t of
              Some c \<Rightarrow>
                if seenAt c \<noteq> 0 then andThen (nowMs p) (\<lambda>now. ret (now - seenAt c > expireIn c))
                else andThen (logTx (LogThrown LError (ErrorObject (chain_error_object (TxNotInCache (sumHash t))))))
                       (\<lambda>_. ret True)
            | None \<Rightarrow>
                andThen (logTx (LogThrown LError (ErrorObject (chain_error_object (TxNotInCache (sumHash t))))))
                  (\<lambda>_. ret True)))"

definition hasGasTooLow :: "rat \<Rightarrow> tx_summary \<Rightarrow> bool" where
  "hasGasTooLow price t \<longleftrightarrow>
     \<not> isMined t \<and> (case sumCached t of None \<Rightarrow> False | Some c \<Rightarrow> cachedGasPrice c < price)"

text \<open>
  \<open>finalizeTransaction\<close>: \<open>parseInt\<close> and the product give floating-point numbers.
\<close>

definition finalizeTransaction :: "tx_summary \<times> tx_receipt option \<Rightarrow> ('w, unit) tx_io" where
  "finalizeTransaction tr =
     (case tr of (t, receipt) \<Rightarrow>
     andThen (getS (\<lambda>s. Option.bind (transactions s (sumHash t)) cachedContext)) (\<lambda>ctx.
     case receipt of
       None \<Rightarrow> logTx (LogThrown LWarn (ErrorObject (chain_error_object (ReceiptNotFoundError (sumHash t)))))
     | Some r \<Rightarrow>
         (case sumTx t of
            None \<Rightarrow> throw (typeError ''Cannot read property of undefined'')
          | Some tx \<Rightarrow>
              let price = js_round_nat (tGasPrice tx) in
              andThen (unwatchTransaction (tHash tx)) (\<lambda>_.
              logTx (LogEvent (EvTxConfirmed (tTo tx) (tHash tx) (tNonce tx)
                (if receiptStatus r then ''Ok'' else ''Reverted'') (int price) (int (gasUsed r))
                (int (js_mul price (gasUsed r)))) ctx)))))"

text \<open>
  \<open>deadLetter\<close>: the dummy transaction takes the nonce of the one it replaces. Its price is computed
  before the \<open>try\<close>, from the cache entry.
\<close>

definition deadLetterPrice :: "tx_cached \<Rightarrow> rat \<Rightarrow> rat" where
  "deadLetterPrice c price = max (cachedGasPrice c * (7/5)) price"

definition deadLetterSend ::
    "tx_config \<Rightarrow> ('w, 'r) node_port \<Rightarrow> tx_summary \<Rightarrow> deadletter_reason \<Rightarrow> tx_cached \<Rightarrow> rat \<Rightarrow>
     ('w, (chain_error, bool) result) tx_io" where
  "deadLetterSend cfg p t reason c price =
     andThen (ext (sendTx p
       \<lparr>rqFrom = walletAddress cfg, rqTo = walletAddress cfg, rqValue = ''0'', rqData = None, rqGas = None,
        rqGasPrice = toFixed0 price, rqNonce = cachedNonce c\<rparr>)) (\<lambda>res.
     andThen (ext (getHash p res)) (\<lambda>deadLetterHash.
     andThen (unwatchTransaction (sumHash t)) (\<lambda>_.
     andThen (watchTransaction p deadLetterHash (\<lambda>now.
       \<lparr>cachedNonce = cachedNonce c, cachedGasPrice = price, seenAt = now,
        expireIn = expireIn c * 2, cachedContext = cachedContext c\<rparr>)) (\<lambda>_.
     andThen (logTx (LogEvent (EvTxDeadletter (case sumTx t of None \<Rightarrow> ''n/a'' | Some tx \<Rightarrow> tTo tx)
       (sumHash t) (cachedNonce c) (deadletter_reason_name reason) deadLetterHash) (cachedContext c))) (\<lambda>_.
     ret (Ok True))))))"

definition deadLetterAttempt ::
    "tx_config \<Rightarrow> ('w, 'r) node_port \<Rightarrow> tx_summary \<Rightarrow> deadletter_reason \<Rightarrow>
     ('w, (chain_error, bool) result) tx_io" where
  "deadLetterAttempt cfg p t reason =
     (case sumCached t of
        None \<Rightarrow> throw (typeError ''Cannot read property of undefined'')
      | Some c \<Rightarrow>
          andThen (getS svGasPrice) (\<lambda>current.
          let price = deadLetterPrice c current in
          catching (deadLetterSend cfg p t reason c price)
            (\<lambda>e. case thrown_message e of
               None \<Rightarrow> throw (typeError ''Cannot read property of undefined'')
             | Some m \<Rightarrow>
                 if js_includes m nonceTooLowText then
                   andThen (logTx (LogText LWarn
                     (''Trying to deadletter a tx that probably when through: '' @ sumHash t))) (\<lambda>_.
                   andThen (unwatchTransaction (sumHash t)) (\<lambda>_. ret (Err NonceTooLow)))
                 else if js_includes m gasPriceTooLowText then
                   andThen (logTx (LogText LWarn
                     (''GasPrice '' @ bigToString p price @ '' bellow minimum - triggering update''))) (\<lambda>_.
                   andThen (updateGasPrice cfg p) (\<lambda>_.
                   ret (Err (GasPriceBellowMinimum (show_int (toFixed0 price))))))
                 else
                   let err = TxDeadletterError e (sumHash t) in
                   andThen (logTx (LogThrownCtx LError (ErrorObject (chain_error_object err)) (cachedContext c)))
                     (\<lambda>_. ret (Err err)))))"

definition deadLetterOptions :: "(tx_service \<times> 'w, thrown, chain_error, string) retry_options" where
  "deadLetterOptions =
     \<lparr>tries = 3, bailOnErrorTypes = Some [''NonceTooLow''], shouldRetry = None, onRetry = None\<rparr>"

definition deadLetter ::
    "tx_config \<Rightarrow> ('w, 'r) node_port \<Rightarrow> tx_summary \<Rightarrow> deadletter_reason \<Rightarrow>
     ('w, (chain_error, bool) result) tx_io" where
  "deadLetter cfg p t reason =
     retried deadLetterOptions chain_error_type (deadLetterAttempt cfg p t reason)"

text \<open>\<open>BalanceService.logBalance\<close>\<close>

definition logBalance :: "('w, 'r) node_port \<Rightarrow> ('w, unit) tx_io" where
  "logBalance p =
     andThen (ext (cUSDBalance p)) (\<lambda>cUSD.
     andThen (ext (celoBalance p)) (\<lambda>celo.
     logTx (LogEvent (EvRelayerBalance (cUSD / 10 ^ 18) (celo / 10 ^ 18)) None)))"

definition checkTransactions :: "tx_config \<Rightarrow> ('w, 'r) node_port \<Rightarrow> ('w, unit) tx_io" where
  "checkTransactions cfg p =
     andThen (getTxSummaries p) (\<lambda>txs.
     andThen (getS svGasPrice) (\<lambda>price.
     let gasTooLow = filter (hasGasTooLow price) txs; completed = filter isMined txs in
     andThen (if completed \<noteq> [] then logBalance p else ret ()) (\<lambda>_.
     andThen (filterIO (isExpired p) txs) (\<lambda>expired.
     andThen (promiseAll (map (\<lambda>t. deadLetter cfg p t GasTooLow) gasTooLow)) (\<lambda>_.
     andThen (promiseAll (map (\<lambda>t. deadLetter cfg p t Expired) expired)) (\<lambda>_.
     andThen (withReceipts p completed) (\<lambda>trs.
     andThen (promiseAll (map finalizeTransaction trs)) (\<lambda>_. ret ()))))))))"

section \<open>Start\<close>

definition getPendingTransactions ::
    "tx_config \<Rightarrow> ('w, 'r) node_port \<Rightarrow> ('w, chain_transaction list) tx_io" where
  "getPendingTransactions cfg p =
     andThen (ext (pendingTxPool p)) (\<lambda>txPoolRes.
     case txPoolRes of
       Err e \<Rightarrow>
         andThen (if errorType e = Some ''RPC'' then logTx (LogThrown LError (ErrorObject e)) else ret ()) (\<lambda>_.
         andThen (logTx (LogThrown LError (NonError (JObj
           [(''message'', JStr ''Could not fetch tx pool''),
            (''originalError'', JObj [(''errorType'', errorTypeValue e)])])))) (\<lambda>_.
         ret []))
     | Ok pool \<Rightarrow>
         (case map_of pool (checksumAddress p (walletAddress cfg)) of
            Some txs \<Rightarrow> ret txs
          | None \<Rightarrow> andThen (logTx (LogText LInfo ''No pending transactions found for relayer'')) (\<lambda>_. ret [])))"

definition watchPending :: "tx_config \<Rightarrow> ('w, 'r) node_port \<Rightarrow> chain_transaction \<Rightarrow> ('w, unit) tx_io" where
  "watchPending cfg p tx =
     watchTransaction p (tHash tx) (\<lambda>now.
       \<lparr>cachedNonce = tNonce tx, cachedGasPrice = of_nat (tGasPrice tx), seenAt = now,
        expireIn = cfgTransactionTimeoutMs cfg, cachedContext = None\<rparr>)"

definition onModuleInit :: "tx_config \<Rightarrow> ('w, 'r) node_port \<Rightarrow> ('w, unit) tx_io" where
  "onModuleInit cfg p =
     andThen (updateGasPrice cfg p) (\<lambda>_.
     andThen (updateNonce cfg p) (\<lambda>_.
     andThen (getPendingTransactions cfg p) (\<lambda>txs.
     forEach (watchPending cfg p) txs)))"

section \<open>The watch list and the cache agree\<close>

text \<open>
  The service keeps the watched hashes and what it knows of them in two collections. The contract of
  a table kept that way: its keys are listed without repetition, and adding or removing an entry
  touches both sides.
\<close>

locale keyed_table =
  fixes keys :: "'s \<Rightarrow> 'k list"
    and entry :: "'s \<Rightarrow> 'k \<Rightarrow> 'c option"
    and add :: "'k \<Rightarrow> 'c \<Rightarrow> 's \<Rightarrow> 's"
    and remove :: "'k \<Rightarrow> 's \<Rightarrow> 's"
  assumes keys_add: "keys (add k c s) = set_add k (keys s)"
    and keys_remove: "keys (remove k s) = set_delete k (keys s)"
    and entry_add: "entry (add k c s) = (entry s)(k \<mapsto> c)"
    and entry_remove: "entry (remove k s) = (entry s)(k := None)"
begin

definition agrees :: "'s \<Rightarrow> bool" where
  "agrees s \<longleftrightarrow> distinct (keys s) \<and> set (keys s) = dom (entry s)"

lemma agrees_add [intro]: "agrees s \<Longrightarrow> agrees (add k c s)"
  by (auto simp: agrees_def keys_add entry_add)

lemma agrees_remove [intro]: "agrees s \<Longrightarrow> agrees (remove k s)"
  by (auto simp: agrees_def keys_remove entry_remove)

lemma entry_of_key: "agrees s \<Longrightarrow> k \<in> set (keys s) \<Longrightarrow> \<exists>c. entry s k = Some c"
  by (auto simp: agrees_def)

lemma remove_absent: "agrees s \<Longrightarrow> k \<notin> set (keys s) \<Longrightarrow> keys (remove k s) = keys s \<and> entry (remove k s) = entry s"
  by (auto simp: agrees_def keys_remove entry_remove set_delete_def fun_eq_iff intro!: filter_True)

lemma replaced:
  "agrees s \<Longrightarrow> k \<noteq> k' \<Longrightarrow> agrees (add k' c (remove k s)) \<and> k \<notin> set (keys (add k' c (remove k s)))
     \<and> entry (add k' c (remove k s)) k' = Some c"
  by (auto simp: keys_add keys_remove entry_add)

end

definition watch_agrees :: "tx_service \<Rightarrow> bool" where
  "watch_agrees s \<longleftrightarrow> distinct (watchedTransactions s) \<and> set (watchedTransactions s) = dom (transactions s)"

interpretation watch: keyed_table watchedTransactions transactions addWatch dropWatch
  rewrites "keyed_table.agrees watchedTransactions transactions = watch_agrees"
proof -
  show t: "keyed_table watchedTransactions transactions addWatch dropWatch"
    by unfold_locales (simp_all add: addWatch_def dropWatch_def)
  show "keyed_table.agrees watchedTransactions transactions = watch_agrees"
    by (simp add: fun_eq_iff keyed_table.agrees_def [OF t] watch_agrees_def)
qed

text \<open>
  What every elementary write of the service keeps (logging, setting the price to at most its
  maximum or to the fallback, setting the nonce, changing the watch list) is kept by every operation.
\<close>

lemma preserves_nowMs [keeps]: "preserves (\<lambda>sw. I (fst sw)) (nowMs p)"
  unfolding nowMs_def by (intro keeps) auto

lemma preserves_filterIO [keeps]:
  "(\<And>x. preserves P (f x)) \<Longrightarrow> preserves P (filterIO f xs)"
  by (induction xs) (auto intro!: keeps)

locale tx_invariant =
  fixes cfg :: tx_config
    and I :: "tx_service \<Rightarrow> bool"
  assumes log_write: "I s \<Longrightarrow> I (s\<lparr>svLog := svLog s @ [entry]\<rparr>)"
    and price_write: "I s \<Longrightarrow> price \<le> maxGasPrice cfg \<Longrightarrow> I (s\<lparr>svGasPrice := price\<rparr>)"
    and fallback_write: "I s \<Longrightarrow> I (s\<lparr>svGasPrice := gasPriceFallback cfg\<rparr>)"
    and nonce_write: "I s \<Longrightarrow> I (s\<lparr>svNonce := n\<rparr>)"
    and add_write: "I s \<Longrightarrow> I (addWatch h c s)"
    and drop_write: "I s \<Longrightarrow> I (dropWatch h s)"
begin

lemmas writes = log_write price_write fallback_write nonce_write add_write drop_write

lemma keeps_ext: "preserves (\<lambda>sw. I (fst sw)) (ext m)"
  by (intro keeps) auto

lemma keeps_modS: "(\<And>s. I s \<Longrightarrow> I (g s)) \<Longrightarrow> preserves (\<lambda>sw. I (fst sw)) (modS g)"
  by (intro keeps) auto

lemma keeps_logTx: "preserves (\<lambda>sw. I (fst sw)) (logTx entry)"
  unfolding logTx_def by (intro keeps_modS writes)

lemma keeps_watch: "preserves (\<lambda>sw. I (fst sw)) (watchTransaction p h c)"
  unfolding watchTransaction_def by (intro keeps keeps_modS writes)

lemma keeps_unwatch: "preserves (\<lambda>sw. I (fst sw)) (unwatchTransaction h)"
  unfolding unwatchTransaction_def by (intro keeps keeps_modS writes)

lemma keeps_updateGasPrice: "preserves (\<lambda>sw. I (fst sw)) (updateGasPrice cfg p)"
  unfolding updateGasPrice_def Let_def
  by (intro keeps keeps_ext keeps_logTx keeps_modS writes) simp_all

lemma keeps_updateNonce: "preserves (\<lambda>sw. I (fst sw)) (updateNonce cfg p)"
  unfolding updateNonce_def by (intro keeps keeps_ext keeps_modS writes)

lemma keeps_sendLocked: "preserves (\<lambda>sw. I (fst sw)) (sendLocked cfg p tx)"
  unfolding sendLocked_def sendTransaction_def by (intro keeps keeps_ext keeps_modS writes)

lemma keeps_submitAttempt: "preserves (\<lambda>sw. I (fst sw)) (submitAttempt cfg p tx ctx)"
  unfolding submitAttempt_def Let_def split_def
  by (intro keeps keeps_logTx keeps_watch keeps_updateGasPrice keeps_updateNonce keeps_sendLocked)

lemma keeps_submitTransaction: "preserves (\<lambda>sw. I (fst sw)) (submitTransaction cfg p tx ctx)"
  unfolding submitTransaction_def
  by (intro keeps keeps_submitAttempt) (simp add: callOnRetry_def submitOptions_def keeps)

lemma keeps_deadLetter: "preserves (\<lambda>sw. I (fst sw)) (deadLetter cfg p t reason)"
proof -
  have "preserves (\<lambda>sw. I (fst sw)) (deadLetterSend cfg p t reason c price)" for c price
    unfolding deadLetterSend_def by (intro keeps keeps_ext keeps_logTx keeps_watch keeps_unwatch)
  then have "preserves (\<lambda>sw. I (fst sw)) (deadLetterAttempt cfg p t reason)"
    unfolding deadLetterAttempt_def Let_def
    by (intro keeps keeps_logTx keeps_unwatch keeps_updateGasPrice)
  then show ?thesis
    unfolding deadLetter_def by (intro keeps) (simp_all add: callOnRetry_def deadLetterOptions_def keeps)
qed

lemma keeps_getTxSummaries: "preserves (\<lambda>sw. I (fst sw)) (getTxSummaries p)"
proof -
  have "preserves (\<lambda>sw. I (fst sw)) (txSummary p h)" for h
    unfolding txSummary_def Let_def by (intro keeps keeps_ext keeps_logTx)
  then show ?thesis unfolding getTxSummaries_def by (intro keeps) auto
qed

lemma keeps_isExpired: "preserves (\<lambda>sw. I (fst sw)) (isExpired p t)"
  unfolding isExpired_def by (intro keeps keeps_logTx)

lemma keeps_finalizeTransaction: "preserves (\<lambda>sw. I (fst sw)) (finalizeTransaction tr)"
  unfolding finalizeTransaction_def Let_def split_def by (intro keeps keeps_logTx keeps_unwatch)

lemma keeps_withReceipts: "preserves (\<lambda>sw. I (fst sw)) (withReceipts p txs)"
proof -
  have "preserves (\<lambda>sw. I (fst sw)) (andThen (ext (nodeReceipt p (sumHash t))) (\<lambda>r. ret (t, r)))" for t
    by (intro keeps keeps_ext)
  then show ?thesis unfolding withReceipts_def by (intro keeps) auto
qed

lemma keeps_promiseAll_map:
  "(\<And>x. preserves (\<lambda>sw. I (fst sw)) (f x)) \<Longrightarrow> preserves (\<lambda>sw. I (fst sw)) (promiseAll (map f xs))"
  by (intro keeps) auto

lemma keeps_checkTransactions: "preserves (\<lambda>sw. I (fst sw)) (checkTransactions cfg p)"
  unfolding checkTransactions_def logBalance_def Let_def
  by (intro keeps keeps_promiseAll_map keeps_ext keeps_logTx keeps_getTxSummaries keeps_isExpired
      keeps_withReceipts keeps_deadLetter keeps_finalizeTransaction)

lemma keeps_onModuleInit: "preserves (\<lambda>sw. I (fst sw)) (onModuleInit cfg p)"
  unfolding onModuleInit_def getPendingTransactions_def watchPending_def
  by (intro keeps keeps_ext keeps_logTx keeps_watch keeps_updateGasPrice keeps_updateNonce)

end

interpretation agreeing: tx_invariant cfg watch_agrees for cfg
proof unfold_locales
  fix s h c
  show "watch_agrees s \<Longrightarrow> watch_agrees (addWatch h c s)" by (rule watch.agrees_add)
  show "watch_agrees s \<Longrightarrow> watch_agrees (dropWatch h s)" by (rule watch.agrees_remove)
qed (simp_all add: watch_agrees_def)

definition price_capped :: "tx_config \<Rightarrow> tx_service \<Rightarrow> bool" where
  "price_capped cfg s \<longleftrightarrow> (gasPriceFallback cfg \<le> maxGasPrice cfg \<longrightarrow> svGasPrice s \<le> maxGasPrice cfg)"

interpretation capped: tx_invariant cfg "price_capped cfg" for cfg
  by unfold_locales (simp_all add: price_capped_def addWatch_def dropWatch_def)

section \<open>What a submission does\<close>

text \<open>A transaction the node accepted from the service: sent with this request, known by this hash\<close>

definition node_accepted :: "('w, 'r) node_port \<Rightarrow> send_request \<Rightarrow> string \<Rightarrow> bool" where
  "node_accepted p rq h \<longleftrightarrow>
     (\<exists>w res w1 v w2. sendTx p rq w = (Inr res, w1) \<and> getHash p res v = (Inr h, w2))"

definition submit_request :: "tx_config \<Rightarrow> raw_transaction \<Rightarrow> rat \<Rightarrow> int \<Rightarrow> send_request" where
  "submit_request cfg tx price nonce =
     \<lparr>rqFrom = walletAddress cfg, rqTo = destination tx, rqValue = txValue tx, rqData = Some (data tx),
      rqGas = Some (transactionMaxGas cfg), rqGasPrice = toFixed0 price, rqNonce = nonce\<rparr>"

lemma nowMs_run: "nowMs p (s, w) = (r, sw) \<longleftrightarrow> r = Inr (fst (clockMs p w)) \<and> sw = (s, snd (clockMs p w))"
  by (auto simp: nowMs_def ext_app split: prod.splits)

lemma logTx_run: "logTx entry (s, w) = (r, sw) \<longleftrightarrow> r = Inr () \<and> sw = (s\<lparr>svLog := svLog s @ [entry]\<rparr>, w)"
  by (auto simp: logTx_def)

lemma sendLocked_Inr:
  assumes "sendLocked cfg p tx (s, w) = (Inr (h, n, t1, t2, t3), sw)"
  shows "\<exists>w'. sw = (s\<lparr>svNonce := svNonce s + 1\<rparr>, w') \<and> n = svNonce s
     \<and> node_accepted p (submit_request cfg tx (svGasPrice s) (svNonce s)) h"
  using assms
  by (auto simp: sendLocked_def sendTransaction_def runs nowMs_run ext_eq_iff node_accepted_def submit_request_def)

lemma submitAttempt_Ok:
  assumes "submitAttempt cfg p tx ctx (s, w) = (Inr (Ok h), (s', w'))"
  shows "\<exists>c. transactions s' = (transactions s)(h \<mapsto> c)
     \<and> watchedTransactions s' = set_add h (watchedTransactions s)
     \<and> cachedNonce c = svNonce s \<and> cachedGasPrice c = svGasPrice s
     \<and> expireIn c = cfgTransactionTimeoutMs cfg \<and> cachedContext c = ctx
     \<and> svNonce s' = svNonce s + 1 \<and> svGasPrice s' = svGasPrice s
     \<and> node_accepted p (submit_request cfg tx (svGasPrice s) (svNonce s)) h"
  using assms
  by (auto simp: submitAttempt_def catching_Inr runs nowMs_run logTx_run watchTransaction_def addWatch_def
      split: option.splits if_splits dest!: sendLocked_Inr)

lemma submitTransaction_attempt:
  assumes "submitTransaction cfg p tx ctx sw = (Inr (Ok h), sw')"
  shows "\<exists>su. submitAttempt cfg p tx ctx su = (Inr (Ok h), sw')"
  using retried_from_attempt [where P = "\<lambda>_. True", OF assms [unfolded submitTransaction_def]]
  by (auto simp: preserves_def)

definition deadletter_request :: "tx_config \<Rightarrow> tx_cached \<Rightarrow> rat \<Rightarrow> send_request" where
  "deadletter_request cfg c price =
     \<lparr>rqFrom = walletAddress cfg, rqTo = walletAddress cfg, rqValue = ''0'', rqData = None, rqGas = None,
      rqGasPrice = toFixed0 price, rqNonce = cachedNonce c\<rparr>"

lemma deadLetterSend_Inr:
  assumes "deadLetterSend cfg p t reason c price (s, w) = (Inr r, (s', w'))"
  shows "\<exists>d now. r = Ok True \<and> node_accepted p (deadletter_request cfg c price) d
     \<and> watchedTransactions s' = set_add d (set_delete (sumHash t) (watchedTransactions s))
     \<and> transactions s' = ((transactions s)(sumHash t := None))
          (d \<mapsto> \<lparr>cachedNonce = cachedNonce c, cachedGasPrice = price, seenAt = now,
                 expireIn = expireIn c * 2, cachedContext = cachedContext c\<rparr>)
     \<and> svGasPrice s' = svGasPrice s \<and> svNonce s' = svNonce s"
proof -
  from assms obtain res w1 d w2 where
    sent: "sendTx p (deadletter_request cfg c price) w = (Inr res, w1)" "getHash p res w1 = (Inr d, w2)"
    and eqs: "r = Ok True" "watchedTransactions s' = set_add d (set_delete (sumHash t) (watchedTransactions s))"
      "transactions s' = ((transactions s)(sumHash t := None))
          (d \<mapsto> \<lparr>cachedNonce = cachedNonce c, cachedGasPrice = price, seenAt = fst (clockMs p w2),
                 expireIn = expireIn c * 2, cachedContext = cachedContext c\<rparr>)"
      "svGasPrice s' = svGasPrice s" "svNonce s' = svNonce s"
    by (auto simp: deadLetterSend_def runs nowMs_run logTx_run watchTransaction_def unwatchTransaction_def
        addWatch_def dropWatch_def deadletter_request_def)
  from sent have "node_accepted p (deadletter_request cfg c price) d"
    unfolding node_accepted_def by blast
  with eqs show ?thesis by blast
qed

lemma deadLetterAttempt_Ok:
  assumes "deadLetterAttempt cfg p t reason (s, w) = (Inr (Ok b), (s', w'))"
  shows "\<exists>c. sumCached t = Some c \<and> svGasPrice s' = svGasPrice s
     \<and> deadLetterSend cfg p t reason c (deadLetterPrice c (svGasPrice s)) (s, w) = (Inr (Ok b), (s', w'))"
  using assms
  by (auto simp: deadLetterAttempt_def catching_Inr runs logTx_run split: option.splits if_splits
      dest: deadLetterSend_Inr)

lemma deadLetter_Ok:
  assumes "deadLetter cfg p t reason sw = (Inr (Ok b), (s', w'))"
  shows "\<exists>su c. sumCached t = Some c \<and> svGasPrice s' = svGasPrice (fst su)
     \<and> deadLetterSend cfg p t reason c (deadLetterPrice c (svGasPrice s')) su = (Inr (Ok b), (s', w'))"
proof -
  obtain su where "deadLetterAttempt cfg p t reason su = (Inr (Ok b), (s', w'))"
    using retried_from_attempt [where P = "\<lambda>_. True", OF assms [unfolded deadLetter_def]]
    by (auto simp: preserves_def)
  then show ?thesis using deadLetterAttempt_Ok [of cfg p t reason "fst su" "snd su" b s' w']
    by (intro exI [of _ su]) auto
qed

text \<open>The states of a service: started by \<open>onModuleInit\<close>, then run by its callers and timers\<close>

inductive service_state :: "tx_config \<Rightarrow> ('w, 'r) node_port \<Rightarrow> tx_service \<times> 'w \<Rightarrow> bool"
  for cfg p where
  started: "onModuleInit cfg p (txService cfg n, w) = (Inr (), sw) \<Longrightarrow> service_state cfg p sw"
| submitted: "service_state cfg p sw \<Longrightarrow> submitTransaction cfg p tx ctx sw = (r, sw') \<Longrightarrow> service_state cfg p sw'"
| checked: "service_state cfg p sw \<Longrightarrow> checkTransactions cfg p sw = (r, sw') \<Longrightarrow> service_state cfg p sw'"
| repriced: "service_state cfg p sw \<Longrightarrow> updateGasPrice cfg p sw = (r, sw') \<Longrightarrow> service_state cfg p sw'"
| outside: "service_state cfg p (s, w) \<Longrightarrow> service_state cfg p (s, w')"

context tx_invariant
begin

lemma service_state_keeps:
  assumes "service_state cfg p sw" and "\<And>n. I (txService cfg n)"
  shows "I (fst sw)"
  using assms(1)
proof induction
  case (started n w sw)
  with keeps_onModuleInit assms(2) show ?case by (metis fst_conv preservesD)
next
  case (submitted sw tx ctx r sw')
  with keeps_submitTransaction show ?case by (metis preservesD)
next
  case (checked sw r sw')
  with keeps_checkTransactions show ?case by (metis preservesD)
next
  case (repriced sw r sw')
  with keeps_updateGasPrice show ?case by (metis preservesD)
next
  case (outside s w w')
  then show ?case by simp
qed

end

section \<open>A node to evaluate on\<close>

text \<open>
  A node that accepts everything: its world is the list of the requests it received and the time,
  which stands still.
\<close>

definition demoNode ::
    "(string \<Rightarrow> chain_transaction option) \<Rightarrow> (send_request list \<times> int, nat) node_port" where
  "demoNode known =
     \<lparr>sendTx = (\<lambda>rq w. (Inr (length (fst w)), (fst w @ [rq], snd w))),
      getHash = (\<lambda>n. ret (''0x'' @ show_nat n)),
      nodeTransaction = (\<lambda>h. ret (known h)),
      nodeReceipt = (\<lambda>h. ret (Some \<lparr>receiptStatus = True, gasUsed = 21000\<rparr>)),
      nodeNonce = (\<lambda>a. ret 7),
      gasPriceMinimum = ret 2,
      pendingTxPool = ret (Ok []),
      checksumAddress = (\<lambda>a. a),
      cUSDBalance = ret 0, celoBalance = ret 0,
      bigToString = (\<lambda>x. show_int (toFixed0 x)),
      clockMs = (\<lambda>w. (snd w, w))\<rparr>"

definition demoTxConfig :: tx_config where
  "demoTxConfig = \<lparr>walletAddress = ''0xrelayer'', cfgTransactionTimeoutMs = 60000, transactionMaxGas = 1000000,
     gasPriceMultiplier = 5, gasPriceFallback = 1, maxGasPrice = 8\<rparr>"

definition demoRawTx :: raw_transaction where
  "demoRawTx = \<lparr>destination = ''0xdest'', txValue = ''0'', data = ''0x''\<rparr>"

definition demoPending :: "string \<Rightarrow> chain_transaction option" where
  "demoPending h = Some \<lparr>tHash = h, tNonce = 7, tTo = ''0xdest'', tGasPrice = 4, tBlockHash = None\<rparr>"

definition demoCached :: tx_cached where
  "demoCached = \<lparr>cachedNonce = 7, cachedGasPrice = 4, seenAt = 1000, expireIn = 60000, cachedContext = None\<rparr>"

definition demoService :: tx_service where
  "demoService = \<lparr>watchedTransactions = [''0xa''], transactions = [''0xa'' \<mapsto> demoCached],
     svGasPrice = 8, svNonce = 8, svLog = []\<rparr>"

text \<open>A submission on the demo node is accepted at once.\<close>

lemma clockMs_demoNode: "clockMs (demoNode known) w = (snd w, w)"
  by (simp add: demoNode_def)

lemma demo_sendLocked:
  "sendLocked demoTxConfig (demoNode known) tx (demoService, ([], 5)) =
     (Inr (''0x0'', 8, 5, 5, 5), (demoService\<lparr>svNonce := 9\<rparr>, ([submit_request demoTxConfig tx 8 8], 5)))"
proof -
  have "show_nat 0 = ''0''" by code_simp
  then show ?thesis
    by (simp add: sendLocked_def nowMs_def sendTransaction_def submit_request_def demoNode_def demoService_def
      andThen_def ext_def getS_def modS_def ret_def)
qed

lemma demo_submitTransaction:
  "fst (submitTransaction demoTxConfig (demoNode known) tx ctx (demoService, ([], 5))) = Inr (Ok ''0x0'')"
proof -
  let ?m = "submitAttempt demoTxConfig (demoNode known) tx ctx"
  have "fst (?m (demoService, ([], 5))) = Inr (Ok ''0x0'')"
    by (simp add: submitAttempt_def catching_def andThen_def demo_sendLocked nowMs_def
        watchTransaction_def logTx_def ext_app clockMs_demoNode getS_def modS_def ret_def)
  then obtain v where "?m (demoService, ([], 5)) = (Inr (Ok ''0x0''), v)" by (metis prod.collapse)
  from retried_first_Ok [where actual = ?m and opts = submitOptions and etype = chain_error_type, OF this] show ?thesis by (simp add: submitTransaction_def)
qed

lemma demo_deadLetter:
  "fst (deadLetter demoTxConfig (demoNode known) \<lparr>sumHash = h, sumCached = Some c, sumTx = None\<rparr> reason
        (demoService, ([], now))) = Inr (Ok True)"
proof -
  let ?m = "deadLetterAttempt demoTxConfig (demoNode known) \<lparr>sumHash = h, sumCached = Some c, sumTx = None\<rparr> reason"
  have "fst (?m (demoService, ([], now))) = Inr (Ok True)"
    by (simp add: Let_def deadLetterAttempt_def deadLetterSend_def catching_def andThen_def nowMs_def unwatchTransaction_def
        watchTransaction_def logTx_def ext_app demoNode_def getS_def modS_def ret_def)
  then obtain v where "?m (demoService, ([], now)) = (Inr (Ok True), v)" by (metis prod.collapse)
  from retried_first_Ok [where actual = ?m and opts = deadLetterOptions and etype = chain_error_type, OF this]
  show ?thesis by (simp add: deadLetter_def)
qed

section \<open>Properties\<close>

text \<open>
  C21. In every state of a service that has been started, the watched hashes are listed once each and
  are exactly the hashes of the cache, so no check ever meets a hash without its data; and the gas
  price it submits with is at most the maximum, when the fallback price is.
\<close>

theorem service_invariant:
  assumes "service_state cfg p (s, w)"
  shows "distinct (watchedTransactions s)
     \<and> (\<forall>h. h \<in> set (watchedTransactions s) \<longleftrightarrow> (\<exists>c. transactions s h = Some c))
     \<and> (gasPriceFallback cfg \<le> maxGasPrice cfg \<longrightarrow> svGasPrice s \<le> maxGasPrice cfg)"
proof -
  have "watch_agrees s"
    using agreeing.service_state_keeps [OF assms] by (simp add: txService_def watch_agrees_def)
  moreover have "price_capped cfg s"
    using capped.service_state_keeps [OF assms] by (simp add: txService_def price_capped_def)
  ultimately show ?thesis by (auto simp: watch_agrees_def price_capped_def)
qed

lemma service_invariant_witness:
  "\<exists>s w. onModuleInit demoTxConfig (demoNode demoPending) (txService demoTxConfig 0, ([], 5)) = (Inr (), (s, w))
     \<and> distinct (watchedTransactions s) \<and> svGasPrice s \<le> 8"
proof -
  have "fst (onModuleInit demoTxConfig (demoNode demoPending) (txService demoTxConfig 0, ([], 5))) = Inr ()"
    by (simp add: onModuleInit_def updateNonce_def updateGasPrice_def getPendingTransactions_def catching_def andThen_def
        ext_app demoNode_def demoTxConfig_def logTx_def getS_def modS_def ret_def)
  then obtain s w where
    run: "onModuleInit demoTxConfig (demoNode demoPending) (txService demoTxConfig 0, ([], 5)) = (Inr (), (s, w))"
    by (blast dest: run_of_fst)
  then have "service_state demoTxConfig (demoNode demoPending) (s, w)" by (rule service_state.started)
  from service_invariant [OF this] run show ?thesis by (simp add: demoTxConfig_def)
qed

text \<open>
  C22. A submission that returns a hash had the node accept the transaction with the service's nonce and
  price of that moment and moved the nonce on by one; the hash is watched, its cache entry holds
  that nonce, that price, the configured timeout and the caller's trace context.
\<close>

theorem submitTransaction_watched:
  assumes "submitTransaction cfg p tx ctx (s, w) = (Inr (Ok h), (s', w'))"
  shows "\<exists>c. transactions s' h = Some c \<and> h \<in> set (watchedTransactions s')
     \<and> cachedNonce c = svNonce s' - 1 \<and> cachedGasPrice c = svGasPrice s'
     \<and> expireIn c = cfgTransactionTimeoutMs cfg \<and> cachedContext c = ctx
     \<and> node_accepted p (submit_request cfg tx (cachedGasPrice c) (cachedNonce c)) h"
proof -
  obtain u v where "submitAttempt cfg p tx ctx (u, v) = (Inr (Ok h), (s', w'))"
    using submitTransaction_attempt [OF assms] by auto
  from submitAttempt_Ok [OF this] show ?thesis by auto
qed

lemma submitTransaction_watched_witness:
  "\<exists>s' w' c. submitTransaction demoTxConfig (demoNode demoPending) demoRawTx None (demoService, ([], 5))
       = (Inr (Ok ''0x0''), (s', w'))
     \<and> transactions s' ''0x0'' = Some c \<and> cachedNonce c = svNonce s' - 1"
proof -
  let ?r = "submitTransaction demoTxConfig (demoNode demoPending) demoRawTx None (demoService, ([], 5))"
  have "fst ?r = Inr (Ok ''0x0'')" by (rule demo_submitTransaction)
  then obtain s' w' where run: "?r = (Inr (Ok ''0x0''), (s', w'))" by (blast dest: run_of_fst)
  from submitTransaction_watched [OF run] run show ?thesis by blast
qed

text \<open>
  C23. A dead letter that was sent takes the nonce of the transaction it replaces, at a price at least
  1.4 times as high and not below the current one, and is watched in its place for twice as long.
  Nothing caps the price: replacing a transaction that was priced at the maximum exceeds it.
\<close>

theorem deadLetter_replaces:
  assumes "deadLetter cfg p t reason sw = (Inr (Ok b), (s', w'))"
  shows "\<exists>c d e. sumCached t = Some c \<and> transactions s' d = Some e \<and> d \<in> set (watchedTransactions s')
     \<and> node_accepted p (deadletter_request cfg c (cachedGasPrice e)) d
     \<and> cachedNonce e = cachedNonce c \<and> expireIn e = 2 * expireIn c \<and> cachedContext e = cachedContext c
     \<and> cachedGasPrice e = max (7/5 * cachedGasPrice c) (svGasPrice s')
     \<and> (d \<noteq> sumHash t \<longrightarrow> sumHash t \<notin> set (watchedTransactions s') \<and> transactions s' (sumHash t) = None)
     \<and> (0 < cachedGasPrice c \<and> maxGasPrice cfg \<le> cachedGasPrice c \<longrightarrow> maxGasPrice cfg < cachedGasPrice e)"
proof -
  obtain u v c where c: "sumCached t = Some c"
    and sent: "deadLetterSend cfg p t reason c (deadLetterPrice c (svGasPrice s')) (u, v) = (Inr (Ok b), (s', w'))"
    using deadLetter_Ok [OF assms] by auto
  from deadLetterSend_Inr [OF sent] obtain d now where
    d: "node_accepted p (deadletter_request cfg c (deadLetterPrice c (svGasPrice s'))) d"
      "watchedTransactions s' = set_add d (set_delete (sumHash t) (watchedTransactions u))"
      "transactions s' = ((transactions u)(sumHash t := None))
          (d \<mapsto> \<lparr>cachedNonce = cachedNonce c, cachedGasPrice = deadLetterPrice c (svGasPrice s'), seenAt = now,
                 expireIn = expireIn c * 2, cachedContext = cachedContext c\<rparr>)" by blast
  have "0 < cachedGasPrice c \<Longrightarrow> maxGasPrice cfg \<le> cachedGasPrice c \<Longrightarrow>
      maxGasPrice cfg < deadLetterPrice c (svGasPrice s')"
    by (simp add: deadLetterPrice_def less_max_iff_disj)
  with c d show ?thesis
    by (intro exI [of _ c] exI [of _ d] exI [of _ "the (transactions s' d)"])
      (simp add: deadLetterPrice_def mult.commute)
qed

lemma deadLetter_replaces_witness:
  "\<exists>s' w' d e. deadLetter demoTxConfig (demoNode demoPending)
        \<lparr>sumHash = ''0xa'', sumCached = Some (demoCached\<lparr>cachedGasPrice := 8\<rparr>), sumTx = None\<rparr> Expired
        (demoService, ([], 99000)) = (Inr (Ok True), (s', w'))
     \<and> transactions s' d = Some e \<and> maxGasPrice demoTxConfig < cachedGasPrice e"
proof -
  let ?t = "\<lparr>sumHash = ''0xa'', sumCached = Some (demoCached\<lparr>cachedGasPrice := 8\<rparr>), sumTx = None\<rparr>"
  let ?r = "deadLetter demoTxConfig (demoNode demoPending) ?t Expired (demoService, ([], 99000))"
  have "fst ?r = Inr (Ok True)" by (rule demo_deadLetter)
  then obtain s' w' where run: "?r = (Inr (Ok True), (s', w'))" by (blast dest: run_of_fst)
  from deadLetter_replaces [OF run] obtain d e where
    "transactions s' d = Some e" "maxGasPrice demoTxConfig < cachedGasPrice e"
    by (auto simp: demoTxConfig_def)
  with run show ?thesis by blast
qed

text \<open>
  A node on which sending succeeds and is recorded by \<open>sent\<close>, which the clock, fixed at \<open>now\<close>, and the
  other calls leave alone, and to which one transaction is known, as pending.
\<close>

definition accepts_all :: "('w, 'r) node_port \<Rightarrow> ('w \<Rightarrow> send_request list) \<Rightarrow> bool" where
  "accepts_all p sent \<longleftrightarrow>
     (\<forall>rq w. \<exists>res w'. sendTx p rq w = (Inr res, w') \<and> sent w' = sent w @ [rq]) \<and>
     (\<forall>res w. \<exists>h w'. getHash p res w = (Inr h, w') \<and> sent w' = sent w)"

definition clock_at :: "('w, 'r) node_port \<Rightarrow> ('w \<Rightarrow> send_request list) \<Rightarrow> int \<Rightarrow> bool" where
  "clock_at p sent now \<longleftrightarrow> (\<forall>w. fst (clockMs p w) = now \<and> sent (snd (clockMs p w)) = sent w)"

lemma nowMs_at: "clock_at p sent now \<Longrightarrow> \<exists>v. nowMs p (s, w) = (Inr now, (s, v)) \<and> sent v = sent w"
  by (auto simp: nowMs_run clock_at_def)

lemma deadLetter_accepted:
  assumes "accepts_all p sent" and "clock_at p sent now" and c: "sumCached t = Some c"
  shows "\<exists>s' w'. deadLetter cfg p t reason (s, w) = (Inr (Ok True), (s', w')) \<and> svGasPrice s' = svGasPrice s
     \<and> sent w' = sent w @ [deadletter_request cfg c (deadLetterPrice c (svGasPrice s))]"
proof -
  let ?price = "deadLetterPrice c (svGasPrice s)"
  obtain res w1 where 1: "sendTx p (deadletter_request cfg c ?price) w = (Inr res, w1)"
    "sent w1 = sent w @ [deadletter_request cfg c ?price]"
    using assms(1) unfolding accepts_all_def by blast
  obtain d w2 where 2: "getHash p res w1 = (Inr d, w2)" "sent w2 = sent w1"
    using assms(1) unfolding accepts_all_def by blast
  obtain w3 where 3: "nowMs p (dropWatch (sumHash t) s, w2) = (Inr now, (dropWatch (sumHash t) s, w3))" "sent w3 = sent w2"
    using nowMs_at [OF assms(2)] by blast
  have "\<exists>s'. deadLetterAttempt cfg p t reason (s, w) = (Inr (Ok True), (s', w3)) \<and> svGasPrice s' = svGasPrice s"
    using 1(1) 2(1) 3(1)
    by (simp add: deadLetterAttempt_def deadLetterSend_def c Let_def catching_def
        andThen_def ext_app deadletter_request_def unwatchTransaction_def watchTransaction_def logTx_def addWatch_def
        dropWatch_def split: prod.split sum.split)
  with 1(2) 2(2) 3(2) show ?thesis
    unfolding deadLetter_def by (metis retried_first_Ok)
qed

text \<open>
  C24. A watched transaction that is still pending, priced below the current price and past its time is
  replaced twice in one check: both lists hold it, and the node is sent the same dead letter, with
  the same nonce at the same price, once for each.
\<close>

theorem cheap_and_expired_replaced_twice:
  assumes "accepts_all p sent" and "clock_at p sent now"
    and "\<And>w. nodeTransaction p h w = (Inr (Some tx), w)" and "tBlockHash tx = None"
    and "watchedTransactions s = [h]" and "transactions s h = Some c"
    and "cachedGasPrice c < svGasPrice s" and "seenAt c \<noteq> 0" and "now - seenAt c > expireIn c"
  shows "\<exists>s' w'. checkTransactions cfg p (s, w) = (Inr (), (s', w'))
     \<and> (\<exists>rq. sent w' = sent w @ [rq, rq] \<and> rqNonce rq = cachedNonce c)"
proof -
  let ?t = "\<lparr>sumHash = h, sumCached = Some c, sumTx = Some tx\<rparr>"
  have summaries: "getTxSummaries p (s, w) = (Inr [?t], (s, w))"
    using assms(3,5,6)
    by (simp add: getTxSummaries_def txSummary_def promiseAll_def andThen_def attempt_def ext_def Let_def ret_app
        firstRejection.simps)
  have cheap: "filter (hasGasTooLow (svGasPrice s)) [?t] = [?t]" and mined: "filter isMined [?t] = []"
    using assms(4,7) by (simp_all add: hasGasTooLow_def isMined_def)
  obtain w1 where w1: "filterIO (isExpired p) [?t] (s, w) = (Inr [?t], (s, w1))" "sent w1 = sent w"
    using nowMs_at [OF assms(2), of s w] assms(4,8,9)
    by (auto simp: isExpired_def isMined_def andThen_def ret_app)
  have c: "sumCached ?t = Some c" by simp
  obtain s2 w2 where 2: "deadLetter cfg p ?t GasTooLow (s, w1) = (Inr (Ok True), (s2, w2))"
    "svGasPrice s2 = svGasPrice s" "sent w2 = sent w1 @ [deadletter_request cfg c (deadLetterPrice c (svGasPrice s))]"
    using deadLetter_accepted [OF assms(1,2) c] by blast
  obtain s3 w3 where 3: "deadLetter cfg p ?t Expired (s2, w2) = (Inr (Ok True), (s3, w3))"
    "sent w3 = sent w2 @ [deadletter_request cfg c (deadLetterPrice c (svGasPrice s2))]"
    using deadLetter_accepted [OF assms(1,2) c] by blast
  have "checkTransactions cfg p (s, w) = (Inr (), (s3, w3))"
    using summaries w1(1) 2(1) 3(1) cheap mined
    by (simp add: checkTransactions_def withReceipts_def promiseAll_def andThen_def attempt_def Let_def ret_app
        getS_def firstRejection.simps)
  with w1(2) 2(2,3) 3(2) show ?thesis
    by (intro exI [of _ s3] exI [of _ w3])
      (auto intro!: exI [of _ "deadletter_request cfg c (deadLetterPrice c (svGasPrice s))"]
        simp: deadletter_request_def)
qed

definition demoLateNode :: "(send_request list \<times> int, nat) node_port" where
  "demoLateNode = (demoNode demoPending)\<lparr>clockMs := \<lambda>w. (99000, w)\<rparr>"

lemma cheap_and_expired_replaced_twice_witness:
  "\<exists>s' w' rq. checkTransactions demoTxConfig demoLateNode (demoService, ([], 0)) = (Inr (), (s', w'))
     \<and> fst w' = [rq, rq] \<and> rqNonce rq = 7"
proof -
  have "accepts_all demoLateNode fst" and "clock_at demoLateNode fst 99000"
    by (auto simp: accepts_all_def clock_at_def demoLateNode_def demoNode_def ret_app)
  moreover have "nodeTransaction demoLateNode ''0xa'' w = (Inr (demoPending ''0xa''), w)" for w
    by (simp add: demoLateNode_def demoNode_def ret_app)
  ultimately show ?thesis
    using cheap_and_expired_replaced_twice [of demoLateNode fst 99000 "''0xa''" "the (demoPending ''0xa'')"
        demoService demoCached demoTxConfig "([], 0)"]
    by (fastforce simp: demoPending_def demoService_def demoCached_def)
qed

lemma getTxSummaries_mem:
  assumes "getTxSummaries p (s, w) = (Inr txs, sw)" and "h \<in> set (watchedTransactions s)"
  shows "\<exists>t u u'. t \<in> set txs \<and> sumHash t = h \<and> nodeTransaction p h u = (Inr (sumTx t), u')"
proof -
  from assms(1) have all: "list_all2 (\<lambda>m t. \<exists>u u'. m u = (Inr t, u')) (map (txSummary p) (watchedTransactions s)) txs"
    by (auto simp: getTxSummaries_def andThen_eq_Inr getS_def dest!: promiseAll_results)
  from assms(2) obtain i where i: "i < length (watchedTransactions s)" "watchedTransactions s ! i = h"
    by (auto simp: in_set_conv_nth)
  with all obtain u u' where t: "txSummary p h u = (Inr (txs ! i), u')" and mem: "txs ! i \<in> set txs"
    by (auto simp: list_all2_conv_all_nth)
  obtain a b where u: "u = (a, b)" by (cases u)
  from t have "sumHash (txs ! i) = h \<and> (\<exists>v v'. nodeTransaction p h v = (Inr (sumTx (txs ! i)), v'))"
    by (auto simp: u txSummary_def runs attempt_def ext_def getS_def logTx_def
        split: prod.splits sum.splits option.splits if_splits)
  with mem show ?thesis by blast
qed

lemma withReceipts_mem:
  fixes sw :: "tx_service \<times> 'w"
  assumes "withReceipts p txs sw = (Inr trs, sw')" and "t \<in> set txs"
  shows "\<exists>r u u'. (t, r) \<in> set trs \<and> nodeReceipt p (sumHash t) u = (Inr r, u')"
proof -
  note all = promiseAll_results [OF assms(1) [unfolded withReceipts_def]]
  from assms(2) obtain i where i: "i < length txs" "txs ! i = t" by (auto simp: in_set_conv_nth)
  with all obtain u u' :: "tx_service \<times> 'w" where x: "andThen (ext (nodeReceipt p (sumHash t))) (\<lambda>r. ret (t, r)) u = (Inr (trs ! i), u')"
    and mem: "trs ! i \<in> set trs"
    by (auto simp: list_all2_conv_all_nth)
  from x have "\<exists>r v v'. trs ! i = (t, r) \<and> nodeReceipt p (sumHash t) v = (Inr r, v')"
    by (cases u) (auto simp: runs)
  with mem show ?thesis by fastforce
qed

definition unwatched :: "string \<Rightarrow> tx_service \<times> 'w \<Rightarrow> bool" where
  "unwatched h sw \<longleftrightarrow> h \<notin> set (watchedTransactions (fst sw)) \<and> transactions (fst sw) h = None"

lemma finalizeTransaction_unwatches:
  assumes "sumTx t = Some tx" and "tHash tx = h"
    and "finalizeTransaction (t, Some r) u = (q, u')"
  shows "unwatched h u'"
  using assms
  by (cases u) (auto simp: finalizeTransaction_def andThen_def getS_def unwatchTransaction_def modS_def dropWatch_def
      logTx_def unwatched_def Let_def)

lemma finalizeTransaction_keeps_unwatched: "preserves (unwatched h) (finalizeTransaction tr)"
  unfolding finalizeTransaction_def unwatchTransaction_def logTx_def split_def Let_def
  by (intro keeps) (auto simp: unwatched_def dropWatch_def)

text \<open>
  C25. A check that runs to its end stops watching every transaction that the node reports as mined and
  has a receipt for, whatever happened to the others.
\<close>

theorem mined_transaction_unwatched:
  assumes "checkTransactions cfg p (s, w) = (Inr (), (s', w'))" and "h \<in> set (watchedTransactions s)"
    and "\<And>u r u'. nodeTransaction p h u = (r, u') \<Longrightarrow> r = Inr (Some tx)"
    and "tHash tx = h" and "tBlockHash tx \<noteq> None"
    and "\<And>u r u'. nodeReceipt p h u = (r, u') \<Longrightarrow> \<exists>x. r = Inr (Some x)"
  shows "h \<notin> set (watchedTransactions s') \<and> transactions s' h = None"
proof -
  from assms(1) obtain txs trs sw u v q where
    txs: "getTxSummaries p (s, w) = (Inr txs, sw)"
    and trs: "withReceipts p (filter isMined txs) u = (Inr trs, v)"
    and fin: "promiseAll (map finalizeTransaction trs) v = (Inr q, (s', w'))"
    by (auto simp: checkTransactions_def andThen_eq_Inr Let_def ret_def)
  obtain t u1 u2 where t: "t \<in> set txs" "sumHash t = h" "nodeTransaction p h u1 = (Inr (sumTx t), u2)"
    using getTxSummaries_mem [OF txs assms(2)] by blast
  from assms(3) [OF t(3)] have tx: "sumTx t = Some tx" by simp
  with t(1) assms(5) have "t \<in> set (filter isMined txs)" by (simp add: isMined_def)
  from withReceipts_mem [OF trs this] t(2) assms(6) obtain x where x: "(t, Some x) \<in> set trs" by fastforce
  have "unwatched h (s', w')"
  proof (rule promiseAll_establishes [OF _ _ _ fin])
    show "preserves (unwatched h) m" if "m \<in> set (map finalizeTransaction trs)" for m
      using that by (auto intro: finalizeTransaction_keeps_unwatched)
    show "finalizeTransaction (t, Some x) \<in> set (map finalizeTransaction trs)" using x by simp
    show "unwatched h u'" if "finalizeTransaction (t, Some x) u = (r, u')" for u r u'
      using finalizeTransaction_unwatches [OF tx assms(4) that] .
  qed
  then show ?thesis by (simp add: unwatched_def)
qed

definition demoMined :: "string \<Rightarrow> chain_transaction option" where
  "demoMined h = Some \<lparr>tHash = h, tNonce = 7, tTo = ''0xdest'', tGasPrice = 4, tBlockHash = Some ''0xb''\<rparr>"

lemma mined_transaction_unwatched_witness:
  "\<exists>s' w'. checkTransactions demoTxConfig (demoNode demoMined) (demoService, ([], 5)) = (Inr (), (s', w'))
     \<and> ''0xa'' \<notin> set (watchedTransactions s')"
proof -
  have "fst (checkTransactions demoTxConfig (demoNode demoMined) (demoService, ([], 5))) = Inr ()"
    by (simp add: checkTransactions_def getTxSummaries_def txSummary_def withReceipts_def finalizeTransaction_def
        logBalance_def unwatchTransaction_def logTx_def isExpired_def hasGasTooLow_def isMined_def promiseAll_def
        demoService_def demoNode_def demoMined_def Let_def io_defs)
  then obtain s' w' where
    run: "checkTransactions demoTxConfig (demoNode demoMined) (demoService, ([], 5)) = (Inr (), (s', w'))"
    by (blast dest: run_of_fst)
  from mined_transaction_unwatched [OF run, of "''0xa''" "the (demoMined ''0xa'')"] run show ?thesis
    by (auto simp: demoService_def demoMined_def demoNode_def ret_app)
qed

end
