(* ===== verification/Nonce_Lock.thy ===== *)
theory Nonce_Lock
  imports Transaction_Service
begin

text \<open>
  Overlapping submissions of the relayer's transaction service
  (\<open>packages/apps/relayer/src/chain/transaction.service.ts\<close>, \<open>nonceLock\<close>): the steps of the calls between two
  awaits, interleaved in any order, with a node that may answer late, lose an answer or be behind, and what the
  mutex then guarantees of the nonces of the accepted transactions.
\<close>

section \<open>Steps\<close>

text \<open>
  Each submission waits for the lock (\<open>nonceLock.runExclusive\<close>), sends with the nonce it then reads, and
  takes the next number when the node has answered; between any two of these steps the others may
  run. A send that throws was refused, or was accepted and its answer lost: the service cannot tell, and keeps the
  nonce either way. \<open>updateNonce\<close> takes the same lock, and installs the count the node gives, whatever it is: a node
  that is behind gives a number that was used. \<open>deadLetter\<close> takes no lock: it sends a replacement
  with the nonce of a watched transaction, which is watched under that nonce from then on. Calls are numbered; a
  call that failed may be retried.

  \<open>replacements\<close> are the nonces of the accepted dead letters. \<open>outOfSync\<close> is not of the program: it
  records the nonces at which the service and the node disagreed, those of accepted transactions whose
  answer was lost and those of accepted transactions that a count from the node left out.
\<close>

datatype submit_pc = Waiting | Sending int | Watching int | Failed

record nonce_state =
  lockHolder :: "nat option"
  nextNonce :: int
  pcs :: "nat \<Rightarrow> submit_pc"
  acceptedNonces :: "int list"
  replacements :: "int list"
  outOfSync :: "int set"

inductive nonce_step :: "nonce_state \<Rightarrow> nonce_state \<Rightarrow> bool" where
  acquire: "lockHolder g = None \<Longrightarrow> pcs g i = Waiting \<Longrightarrow>
     nonce_step g (g\<lparr>lockHolder := Some i, pcs := (pcs g)(i := Sending (nextNonce g))\<rparr>)"
| accepted: "lockHolder g = Some i \<Longrightarrow> pcs g i = Sending n \<Longrightarrow>
     nonce_step g (g\<lparr>lockHolder := None, nextNonce := nextNonce g + 1,
                    pcs := (pcs g)(i := Watching (nextNonce g)), acceptedNonces := n # acceptedNonces g\<rparr>)"
| rejected: "lockHolder g = Some i \<Longrightarrow> pcs g i = Sending n \<Longrightarrow>
     nonce_step g (g\<lparr>lockHolder := None, pcs := (pcs g)(i := Failed)\<rparr>)"
| lost: "lockHolder g = Some i \<Longrightarrow> pcs g i = Sending n \<Longrightarrow>
     nonce_step g (g\<lparr>lockHolder := None, pcs := (pcs g)(i := Failed),
                    acceptedNonces := n # acceptedNonces g, outOfSync := insert n (outOfSync g)\<rparr>)"
| again: "pcs g i = Failed \<Longrightarrow> nonce_step g (g\<lparr>pcs := (pcs g)(i := Waiting)\<rparr>)"
| refreshed: "lockHolder g = None \<Longrightarrow>
     nonce_step g (g\<lparr>nextNonce := m, outOfSync := outOfSync g \<union> {n \<in> set (acceptedNonces g). m \<le> n}\<rparr>)"
| replaced: "pcs g i = Watching n \<Longrightarrow> nonce_step g (g\<lparr>replacements := n # replacements g\<rparr>)"

inductive_cases nonce_stepE: "nonce_step g g'"

definition idleNonces :: "int \<Rightarrow> nonce_state" where
  "idleNonces n = \<lparr>lockHolder = None, nextNonce = n, pcs = (\<lambda>_. Waiting), acceptedNonces = [], replacements = [], outOfSync = {}\<rparr>"

inductive nonce_reachable :: "nonce_state \<Rightarrow> bool" where
  idle: "nonce_reachable (idleNonces n)"
| step: "nonce_reachable g \<Longrightarrow> nonce_step g g' \<Longrightarrow> nonce_reachable g'"

section \<open>Invariant\<close>

text \<open>
  Accepted nonces at which node and service agree are accepted once and below the next one; only the holder of the
  lock is sending, with the next nonce; calls that succeeded have nonces of their own.
\<close>

definition nonces_fresh :: "nonce_state \<Rightarrow> bool" where
  "nonces_fresh g \<longleftrightarrow>
     (\<forall>n. n \<notin> outOfSync g \<longrightarrow> count_list (acceptedNonces g) n \<le> 1) \<and>
     (\<forall>n \<in> set (acceptedNonces g). n \<notin> outOfSync g \<longrightarrow> n < nextNonce g) \<and>
     (\<forall>i n. pcs g i = Sending n \<longrightarrow> lockHolder g = Some i \<and> n = nextNonce g) \<and>
     (\<forall>i n. pcs g i = Watching n \<longrightarrow> n \<in> set (acceptedNonces g)) \<and>
     (\<forall>i j n. pcs g i = Watching n \<longrightarrow> pcs g j = Watching n \<longrightarrow> n \<notin> outOfSync g \<longrightarrow> i = j) \<and>
     set (replacements g) \<subseteq> set (acceptedNonces g) \<and> outOfSync g \<subseteq> set (acceptedNonces g)"

lemma nonces_freshD:
  assumes "nonces_fresh g"
  shows "n \<notin> outOfSync g \<Longrightarrow> count_list (acceptedNonces g) n \<le> 1"
    and "n \<in> set (acceptedNonces g) \<Longrightarrow> n \<notin> outOfSync g \<Longrightarrow> n < nextNonce g"
    and "pcs g i = Sending n \<Longrightarrow> lockHolder g = Some i \<and> n = nextNonce g"
    and "pcs g i = Watching n \<Longrightarrow> n \<in> set (acceptedNonces g)"
    and "pcs g i = Watching n \<Longrightarrow> pcs g j = Watching n \<Longrightarrow> n \<notin> outOfSync g \<Longrightarrow> i = j"
    and "n \<in> set (replacements g) \<Longrightarrow> n \<in> set (acceptedNonces g)"
    and "n \<in> outOfSync g \<Longrightarrow> n \<in> set (acceptedNonces g)"
  using assms unfolding nonces_fresh_def by blast+

lemma nonces_fresh_step:
  assumes fresh: "nonces_fresh g" and step: "nonce_step g g'"
  shows "nonces_fresh g'"
  using step
proof cases
  case (accepted i n)
  have n: "n = nextNonce g" and free: "nextNonce g \<in> set (acceptedNonces g) \<Longrightarrow> nextNonce g \<in> outOfSync g"
    using nonces_freshD(2,3) [OF fresh] accepted(3) by blast+
  have "\<forall>m. m \<notin> outOfSync g' \<longrightarrow> count_list (acceptedNonces g') m \<le> 1"
    using nonces_freshD(1) [OF fresh] n free accepted(1) by (auto simp: count_list_0_iff)
  moreover have "\<forall>m \<in> set (acceptedNonces g'). m \<notin> outOfSync g' \<longrightarrow> m < nextNonce g'"
    using nonces_freshD(2) [OF fresh] n accepted(1) by fastforce
  moreover have "\<forall>j m. pcs g' j = Sending m \<longrightarrow> False"
    using accepted(1,2) by (auto split: if_splits dest: nonces_freshD(3) [OF fresh])
  moreover have "\<forall>j m. pcs g' j = Watching m \<longrightarrow> m \<in> set (acceptedNonces g')"
    using nonces_freshD(4) [OF fresh] n accepted(1) by auto
  moreover have "\<forall>j k m. pcs g' j = Watching m \<longrightarrow> pcs g' k = Watching m \<longrightarrow> m \<notin> outOfSync g' \<longrightarrow> j = k"
    using nonces_freshD(4,5) [OF fresh] free accepted(1) by (auto split: if_splits)
  moreover have "set (replacements g') \<subseteq> set (acceptedNonces g') \<and> outOfSync g' \<subseteq> set (acceptedNonces g')"
    using nonces_freshD(6,7) [OF fresh] accepted(1) by auto
  ultimately show ?thesis unfolding nonces_fresh_def by blast
next
  case (lost i n)
  have n: "n = nextNonce g" using nonces_freshD(3) [OF fresh] lost(3) by blast
  have "pcs g j = Sending m \<Longrightarrow> j = i" for j m using nonces_freshD(3) [OF fresh] lost(2) by fastforce
  with fresh n lost(1) show ?thesis by (auto simp: nonces_fresh_def)
next
  case (acquire i)
  then have "pcs g j \<noteq> Sending n" for j n using nonces_freshD(3) [OF fresh] by fastforce
  with fresh acquire(1) show ?thesis by (simp add: nonces_fresh_def)
next
  case (rejected i n)
  then have "pcs g j = Sending m \<Longrightarrow> j = i" for j m using nonces_freshD(3) [OF fresh] by fastforce
  with fresh rejected(1) show ?thesis by (fastforce simp: nonces_fresh_def)
next
  case (again i)
  with fresh show ?thesis by (simp add: nonces_fresh_def)
next
  case (refreshed m)
  then have "pcs g j \<noteq> Sending n" for j n using nonces_freshD(3) [OF fresh] by fastforce
  with fresh refreshed(1) show ?thesis by (auto simp: nonces_fresh_def)
next
  case (replaced i n)
  with fresh show ?thesis by (auto simp: nonces_fresh_def)
qed

lemma nonce_reachable_fresh: "nonce_reachable g \<Longrightarrow> nonces_fresh g"
proof (induction rule: nonce_reachable.induct)
  case (idle n)
  show ?case by (simp add: nonces_fresh_def idleNonces_def)
next
  case (step g g')
  then show ?case by (blast intro: nonces_fresh_step)
qed

text \<open>One submission of a waiting call, answered by the node\<close>

lemma submission_steps:
  assumes "lockHolder g = None" and "pcs g i = Waiting"
  shows "\<exists>g1. nonce_step g g1 \<and> pcs g1 i = Sending (nextNonce g)
     \<and> nonce_step g1 (g\<lparr>lockHolder := None, nextNonce := nextNonce g + 1, pcs := (pcs g)(i := Watching (nextNonce g)),
                        acceptedNonces := nextNonce g # acceptedNonces g\<rparr>)"
proof -
  let ?g1 = "g\<lparr>lockHolder := Some i, pcs := (pcs g)(i := Sending (nextNonce g))\<rparr>"
  have "nonce_step ?g1 (?g1\<lparr>lockHolder := None, nextNonce := nextNonce ?g1 + 1,
      pcs := (pcs ?g1)(i := Watching (nextNonce ?g1)), acceptedNonces := nextNonce g # acceptedNonces ?g1\<rparr>)"
    by (rule accepted) simp_all
  then show ?thesis
    using assms by (intro exI [of _ ?g1] conjI acquire) simp_all
qed

section \<open>Properties\<close>

text \<open>
  An answer that is lost costs the nonce: the retry is sent with the same one, and a node that takes it as a
  replacement has accepted two submissions with one nonce.
\<close>

lemma lost_reply_repeats_nonce: "\<exists>g. nonce_reachable g \<and> acceptedNonces g = [5, 5] \<and> pcs g 0 = Watching 5"
proof -
  let ?g1 = "(idleNonces 5)\<lparr>lockHolder := Some 0, pcs := (pcs (idleNonces 5))(0 := Sending (nextNonce (idleNonces 5)))\<rparr>"
  let ?g2 = "?g1\<lparr>lockHolder := None, pcs := (pcs ?g1)(0 := Failed),
      acceptedNonces := 5 # acceptedNonces ?g1, outOfSync := insert 5 (outOfSync ?g1)\<rparr>"
  let ?g3 = "?g2\<lparr>pcs := (pcs ?g2)(0 := Waiting)\<rparr>"
  have "nonce_step (idleNonces 5) ?g1" by (rule acquire) (simp_all add: idleNonces_def)
  moreover have "nonce_step ?g1 ?g2" by (rule lost) (simp_all add: idleNonces_def)
  moreover have "nonce_step ?g2 ?g3" by (rule again) simp
  ultimately have "nonce_reachable ?g3" by (blast intro: nonce_reachable.intros)
  moreover have "lockHolder ?g3 = None" "pcs ?g3 0 = Waiting" by simp_all
  from submission_steps [OF this] obtain g4 where "nonce_step ?g3 g4" "nonce_step g4 (?g3\<lparr>lockHolder := None, nextNonce := nextNonce ?g3 + 1,
      pcs := (pcs ?g3)(0 := Watching (nextNonce ?g3)), acceptedNonces := nextNonce ?g3 # acceptedNonces ?g3\<rparr>)" by blast
  ultimately have "nonce_reachable (?g3\<lparr>lockHolder := None, nextNonce := nextNonce ?g3 + 1,
      pcs := (pcs ?g3)(0 := Watching (nextNonce ?g3)), acceptedNonces := nextNonce ?g3 # acceptedNonces ?g3\<rparr>)"
    by (blast intro: nonce_reachable.intros)
  then show ?thesis by (intro exI conjI, assumption) (simp_all add: idleNonces_def)
qed

text \<open>
  C26. However submissions, their retries, dead letters, refreshes of the nonce, lost answers and counts of a node that
  is behind interleave, the node accepts two submissions with the same nonce only at a nonce where the
  service and the node disagreed: where an answer was lost or a count left out an accepted transaction.
  Everywhere else a submission that succeeded watches its transaction under a nonce that is no other's. Dead letters
  only ever take the nonce of an accepted submission.
\<close>

theorem accepted_nonces_distinct:
  assumes "nonce_reachable g"
  shows "(\<forall>n. n \<notin> outOfSync g \<longrightarrow> count_list (acceptedNonces g) n \<le> 1)
     \<and> (\<forall>i n. pcs g i = Watching n \<longrightarrow> n \<in> set (acceptedNonces g)
          \<and> (n \<notin> outOfSync g \<longrightarrow> n < nextNonce g \<and> (\<forall>j. pcs g j = Watching n \<longrightarrow> j = i)))
     \<and> set (replacements g) \<subseteq> set (acceptedNonces g)"
proof -
  note fresh = nonces_freshD [OF nonce_reachable_fresh [OF assms]]
  have "\<forall>n. n \<notin> outOfSync g \<longrightarrow> count_list (acceptedNonces g) n \<le> 1" using fresh(1) by blast
  moreover have "\<forall>i n. pcs g i = Watching n \<longrightarrow> n \<in> set (acceptedNonces g)
      \<and> (n \<notin> outOfSync g \<longrightarrow> n < nextNonce g \<and> (\<forall>j. pcs g j = Watching n \<longrightarrow> j = i))"
    using fresh(2,4,5) by blast
  moreover have "set (replacements g) \<subseteq> set (acceptedNonces g)" using fresh(6) by blast
  ultimately show ?thesis by blast
qed

lemma accepted_nonces_distinct_witness:
  "\<exists>g. nonce_reachable g \<and> acceptedNonces g = [6, 5, 5] \<and> pcs g 0 = Watching 5 \<and> pcs g 1 = Watching 6
     \<and> replacements g = [6] \<and> count_list (acceptedNonces g) 6 \<le> 1 \<and> (\<forall>j. pcs g j = Watching 6 \<longrightarrow> j = 1)"
proof -
  let ?g1 = "(idleNonces 5)\<lparr>lockHolder := None, nextNonce := nextNonce (idleNonces 5) + 1,
      pcs := (pcs (idleNonces 5))(0 := Watching (nextNonce (idleNonces 5))),
      acceptedNonces := nextNonce (idleNonces 5) # acceptedNonces (idleNonces 5)\<rparr>"
  have "lockHolder (idleNonces 5) = None" "pcs (idleNonces 5) 0 = Waiting" by (simp_all add: idleNonces_def)
  from submission_steps [OF this] have r1: "nonce_reachable ?g1" by (blast intro: nonce_reachable.intros)
  let ?g2 = "?g1\<lparr>nextNonce := 5, outOfSync := outOfSync ?g1 \<union> {n \<in> set (acceptedNonces ?g1). 5 \<le> n}\<rparr>"
  have "nonce_step ?g1 ?g2" by (rule refreshed) (simp add: idleNonces_def)
  with r1 have r2: "nonce_reachable ?g2" by (blast intro: nonce_reachable.intros)
  let ?g3 = "?g2\<lparr>lockHolder := None, nextNonce := nextNonce ?g2 + 1, pcs := (pcs ?g2)(2 := Watching (nextNonce ?g2)),
      acceptedNonces := nextNonce ?g2 # acceptedNonces ?g2\<rparr>"
  have "lockHolder ?g2 = None" "pcs ?g2 2 = Waiting" by (simp_all add: idleNonces_def)
  from submission_steps [OF this] r2 have r3: "nonce_reachable ?g3" by (blast intro: nonce_reachable.intros)
  let ?g4 = "?g3\<lparr>lockHolder := None, nextNonce := nextNonce ?g3 + 1, pcs := (pcs ?g3)(1 := Watching (nextNonce ?g3)),
      acceptedNonces := nextNonce ?g3 # acceptedNonces ?g3\<rparr>"
  have "lockHolder ?g3 = None" "pcs ?g3 1 = Waiting" by (simp_all add: idleNonces_def)
  from submission_steps [OF this] r3 have r4: "nonce_reachable ?g4" by (blast intro: nonce_reachable.intros)
  let ?g5 = "?g4\<lparr>replacements := 6 # replacements ?g4\<rparr>"
  have "nonce_step ?g4 ?g5" by (rule replaced [of _ 1]) (simp add: idleNonces_def)
  with r4 have r5: "nonce_reachable ?g5" by (blast intro: nonce_reachable.intros)
  have "acceptedNonces ?g5 = [6, 5, 5]" "pcs ?g5 0 = Watching 5" "pcs ?g5 1 = Watching 6" "replacements ?g5 = [6]"
    and sync: "6 \<notin> outOfSync ?g5" by (simp_all add: idleNonces_def)
  moreover from accepted_nonces_distinct [OF r5] sync \<open>pcs ?g5 1 = Watching 6\<close>
  have "count_list (acceptedNonces ?g5) 6 \<le> 1 \<and> (\<forall>j. pcs ?g5 j = Watching 6 \<longrightarrow> j = 1)" by blast
  ultimately show ?thesis using r5 by (intro exI [of _ ?g5]) blast
qed

text \<open>
  C27. The body of the lock refines these steps: a run of \<open>sendLocked\<close> that returns is an \<open>acquire\<close> and an
  \<open>accepted\<close> step of a waiting call, with the nonce the node was sent and the next nonce of the service.
\<close>

theorem sendLocked_refines_steps:
  assumes run: "sendLocked cfg p tx (s, w) = (Inr (h, n, ts), (s', w'))"
    and "lockHolder g = None" and "pcs g i = Waiting" and "nextNonce g = svNonce s"
  shows "\<exists>g1 g2. nonce_step g g1 \<and> nonce_step g1 g2
     \<and> pcs g1 i = Sending (svNonce s) \<and> pcs g2 i = Watching n
     \<and> nextNonce g2 = svNonce s' \<and> acceptedNonces g2 = svNonce s # acceptedNonces g \<and> lockHolder g2 = None
     \<and> node_accepted p (submit_request cfg tx (svGasPrice s) (svNonce s)) h"
proof -
  from run sendLocked_Inr [of cfg p tx s w h n]
  have n: "n = svNonce s" "svNonce s' = svNonce s + 1"
    and sent: "node_accepted p (submit_request cfg tx (svGasPrice s) (svNonce s)) h"
    by (cases ts; fastforce)+
  from submission_steps [OF assms(2,3)] n sent assms(2,4) show ?thesis by fastforce
qed

lemma sendLocked_refines_steps_witness:
  "\<exists>s' w' h n ts. \<exists>g2 :: nonce_state. sendLocked demoTxConfig (demoNode demoPending) demoRawTx (demoService, ([], 5))
        = (Inr (h, n, ts), (s', w'))
     \<and> pcs g2 0 = Watching n \<and> nextNonce g2 = svNonce s' \<and> acceptedNonces g2 = [8]"
proof -
  let ?r = "sendLocked demoTxConfig (demoNode demoPending) demoRawTx (demoService, ([], 5))"
  let ?g = "\<lparr>lockHolder = None, nextNonce = 8, pcs = (\<lambda>_. Waiting), acceptedNonces = [], replacements = [], outOfSync = {}\<rparr>"
  have "fst ?r = Inr (''0x0'', 8, 5, 5, 5)" by (simp add: demo_sendLocked)
  then obtain s' w' where run: "?r = (Inr (''0x0'', 8, 5, 5, 5), (s', w'))" by (blast dest: run_of_fst)
  have "svNonce demoService = 8" by (simp add: demoService_def)
  with sendLocked_refines_steps [OF run, of ?g 0] obtain g2 :: nonce_state where
    "pcs g2 0 = Watching 8" "nextNonce g2 = svNonce s'" "acceptedNonces g2 = [8]" by auto
  with run show ?thesis by blast
qed

end
