(* ===== verification/Rewards_Events.thy ===== *)
theory Rewards_Events
  imports Relayer_Proxy Logger_Lib
begin

text \<open>
  The rewards application (\<open>packages/apps/rewards/src\<close>), first part: its state, the last processed block
  of each kind of event (\<open>blocks/notifiedBlock.service.ts\<close>), the polling of contract events
  (\<open>event/eventService.service.ts\<close>) and the two services that copy events to the database
  (\<open>attestation/attestation.service.ts\<close>, \<open>addressMappings/addressMappings.service.ts\<close>). The database and
  the chain are ports.
\<close>

section \<open>State\<close>

text \<open>
  What the reward sender watches. The members of its set are objects, told apart by their identity,
  which \<open>wiRef\<close> stands for.
\<close>

record watched_invite =
  wiRef :: nat
  wiInviteId :: string
  wiTxHash :: string
  wiSentAt :: int
  wiMarkAsDeadLetterIfFailed :: bool

text \<open>
  The fields of the services: one \<open>EventService\<close> instance per consumer (its scope is transient), told
  apart by the consumer's key, the sender's flags and set, and the token addresses of the invite
  service.
\<close>

record rewards =
  isRunning :: "string \<Rightarrow> bool"
  checkingWatchedInvites :: bool
  checkingFailedInvites :: bool
  watchedInvites :: "watched_invite list"
  nextRef :: nat
  cUsdTokenAddress :: "string option"
  cEurTokenAddress :: "string option"
  rwLog :: "log_entry list"

type_synonym ('w, 'a) rw_io = "(rewards \<times> 'w, thrown, 'a) io"

definition rewardsStart :: rewards where
  "rewardsStart = \<lparr>isRunning = (\<lambda>_. False), checkingWatchedInvites = False, checkingFailedInvites = False,
     watchedInvites = [], nextRef = 0, cUsdTokenAddress = None, cEurTokenAddress = None, rwLog = []\<rparr>"

text \<open>
  \<open>logger.event\<close>, \<open>logger.log\<close>, \<open>logger.debug\<close> and \<open>analytics.trackEvent\<close>, whose copy for Segment is not
  kept.
\<close>

definition rwWrite :: "log_entry \<Rightarrow> ('w, unit) rw_io" where
  "rwWrite entry = modS (\<lambda>s. s\<lparr>rwLog := rwLog s @ [entry]\<rparr>)"

definition rwEvent :: "event \<Rightarrow> ('w, unit) rw_io" where
  "rwEvent ev = rwWrite (LogEvent ev None)"

definition unexpected :: "string \<Rightarrow> thrown \<Rightarrow> ('w, unit) rw_io" where
  "unexpected origin e = rwEvent (EvUnexpectedError origin (message_text e))"

section \<open>Chain and database\<close>

text \<open>
  A contract event: its transaction, its block and its arguments by name (the events the services
  ask for have the arguments they read).
\<close>

record event_log =
  evTxHash :: string
  evBlock :: int
  evReturn :: "string \<Rightarrow> string"

record notified_block =
  nbId :: string
  nbKey :: string
  nbBlock :: int

text \<open>
  The lookup of a contract, the \<open>getPastEvents\<close> of the one looked up by event name and block range; the repository of notified blocks, whose
  \<open>update\<close> only touches a row with this id and key and a smaller block number; \<open>JSON.stringify\<close> of an event.
\<close>

record 'w events_port =
  loadContract :: "string \<Rightarrow> ('w, thrown, unit) io"
  blockNumber :: "('w, thrown, int) io"
  pastEvents :: "string \<Rightarrow> int \<Rightarrow> int \<Rightarrow> ('w, thrown, event_log list) io"
  nbFindOne :: "string \<Rightarrow> ('w, thrown, notified_block option) io"
  nbInsert :: "notified_block \<Rightarrow> ('w, thrown, unit) io"
  nbUpdate :: "string \<Rightarrow> string \<Rightarrow> int \<Rightarrow> ('w, thrown, unit) io"
  rwUuid :: "('w, thrown, string) io"
  stringifyEvent :: "event_log \<Rightarrow> string"

datatype starting_block = Genesis | Latest

section \<open>The last notified block (notifiedBlock.service.ts)\<close>

definition lastNotifiedBlock ::
    "'w events_port \<Rightarrow> string \<Rightarrow> starting_block \<Rightarrow> ('w, notified_block) rw_io" where
  "lastNotifiedBlock p key start =
     andThen (ext (nbFindOne p key)) (\<lambda>found.
     case found of
       Some b \<Rightarrow> ret b
     | None \<Rightarrow>
         andThen (case start of Genesis \<Rightarrow> ret 0 | Latest \<Rightarrow> ext (blockNumber p)) (\<lambda>n.
         andThen (ext (rwUuid p)) (\<lambda>i.
         let b = \<lparr>nbId = i, nbKey = key, nbBlock = n\<rparr> in
         andThen (ext (nbInsert p b)) (\<lambda>_. ret b))))"

definition runUsingLastNotifiedBlock ::
    "'w events_port \<Rightarrow> string \<Rightarrow> starting_block \<Rightarrow> (int \<Rightarrow> ('w, int) rw_io) \<Rightarrow> ('w, unit) rw_io" where
  "runUsingLastNotifiedBlock p key start handleBlockFn =
     catching
       (andThen (lastNotifiedBlock p key start) (\<lambda>b.
        let fromBlock = nbBlock b + 1 in
        andThen (handleBlockFn fromBlock) (\<lambda>lastBlock.
        if lastBlock > fromBlock then ext (nbUpdate p (nbId b) key lastBlock) else ret ())))
       (\<lambda>e. unexpected (''block processing for key '' @ key) e)"

section \<open>Polling (eventService.service.ts)\<close>

definition EVENTS_BATCH_SIZE :: int where
  "EVENTS_BATCH_SIZE = 10000"

text \<open>The inner loop over the events of a batch: the first failure is tracked and ends everything.\<close>

primrec processEvents ::
    "'w events_port \<Rightarrow> string \<Rightarrow> (event_log \<Rightarrow> ('w, unit) rw_io) \<Rightarrow> event_log list \<Rightarrow> int \<Rightarrow> ('w, int) rw_io" where
  "processEvents p key handler [] maxBlock = ret maxBlock"
| "processEvents p key handler (ev # evs) maxBlock =
     andThen (catching (handler ev) (\<lambda>e.
       andThen (unexpected (''Processing '' @ key @ '' event: '' @ stringifyEvent p ev) e) (\<lambda>_. throw e))) (\<lambda>_.
     processEvents p key handler evs (max maxBlock (evBlock ev)))"

text \<open>The outer loop; a batch is the blocks from \<open>current\<close> to \<open>current + EVENTS_BATCH_SIZE\<close>, inclusive.\<close>

function fetchBatches ::
    "'w events_port \<Rightarrow> string \<Rightarrow> string \<Rightarrow> (event_log \<Rightarrow> ('w, unit) rw_io) \<Rightarrow> (int \<Rightarrow> int \<Rightarrow> event) \<Rightarrow>
     int \<Rightarrow> int \<Rightarrow> int \<Rightarrow> ('w, int) rw_io" where
  "fetchBatches p key eventName handler received lastBlock current maxBlock =
     (if current < lastBlock
      then andThen (ext (pastEvents p eventName current (min (current + EVENTS_BATCH_SIZE) lastBlock))) (\<lambda>evs.
           andThen (if evs \<noteq> [] then rwEvent (received current (int (length evs))) else ret ()) (\<lambda>_.
           andThen (processEvents p key handler evs maxBlock) (\<lambda>maxBlock'.
           fetchBatches p key eventName handler received lastBlock (current + (EVENTS_BATCH_SIZE + 1)) maxBlock')))
      else ret maxBlock)"
  by pat_completeness auto

termination
  by (relation "measure (\<lambda>(p, key, eventName, handler, received, lastBlock, current, maxBlock).
        nat (lastBlock - current))") (auto simp: EVENTS_BATCH_SIZE_def)

declare fetchBatches.simps [simp del]

definition fetchAndProcessEvents ::
    "'w events_port \<Rightarrow> string \<Rightarrow> string \<Rightarrow> int \<Rightarrow> (event_log \<Rightarrow> ('w, unit) rw_io) \<Rightarrow> (int \<Rightarrow> int \<Rightarrow> event) \<Rightarrow>
     ('w, int) rw_io" where
  "fetchAndProcessEvents p key eventName fromBlock handler received =
     andThen (rwWrite (LogText LDebug (''Starting to fetch '' @ key @ '' events from block '' @ show_int fromBlock))) (\<lambda>_.
     andThen (ext (blockNumber p)) (\<lambda>lastBlock.
     fetchBatches p key eventName handler received lastBlock fromBlock fromBlock))"

definition setRunning :: "string \<Rightarrow> bool \<Rightarrow> rewards \<Rightarrow> rewards" where
  "setRunning key b s = s\<lparr>isRunning := (isRunning s)(key := b)\<rparr>"

definition runEventProcessingPolling ::
    "'w events_port \<Rightarrow> string \<Rightarrow> string \<Rightarrow> starting_block \<Rightarrow> (event_log \<Rightarrow> ('w, unit) rw_io) \<Rightarrow>
     (int \<Rightarrow> int \<Rightarrow> event) \<Rightarrow> ('w, unit) rw_io" where
  "runEventProcessingPolling p key eventName start handler received =
     guardedRun (\<lambda>s. isRunning s key) (setRunning key)
       (rwWrite (LogText LDebug (''Skipping because previous run of '' @ key @ '' is still ongoing'')))
       (runUsingLastNotifiedBlock p key start (\<lambda>fromBlock.
          fetchAndProcessEvents p key eventName fromBlock handler received))"

interpretation polling_flag: running_flag "\<lambda>s. isRunning s key" "setRunning key" for key
  by unfold_locales (simp add: setRunning_def)

section \<open>Attestations and address mappings\<close>

text \<open>The rows; \<open>createdAt\<close> is the time the row was made, in milliseconds.\<close>

record attestation_row =
  atId :: string
  atTxHash :: string
  atIssuer :: string
  atAddress :: string
  atIdentifier :: string
  atCreatedAt :: int

record address_mapping =
  amId :: string
  amTxHash :: string
  amWalletAddress :: string
  amAccountAddress :: string
  amCreatedAt :: int

record 'w copies_port =
  cpEvents :: "'w events_port"
  cpNow :: "('w, thrown, int) io"
  attestationSave :: "attestation_row \<Rightarrow> ('w, thrown, attestation_row) io"
  mappingSave :: "address_mapping \<Rightarrow> ('w, thrown, address_mapping) io"
  mappingFind :: "string \<Rightarrow> ('w, thrown, address_mapping list) io"

text \<open>
  The catch block of three services: a violated unique constraint is expected and dropped, anything
  else tracked; nothing is returned.
\<close>

definition duplicateKeyText :: string where
  "duplicateKeyText = ''duplicate key value violates unique constraint''"

definition ignoringDuplicates :: "string \<Rightarrow> ('w, 'a) rw_io \<Rightarrow> ('w, 'a option) rw_io" where
  "ignoringDuplicates origin m =
     catching (andThen m (\<lambda>x. ret (Some x)))
       (\<lambda>e. case thrown_message e of
          None \<Rightarrow> throw (typeError ''Cannot read property of undefined'')
        | Some msg \<Rightarrow>
            if js_includes msg duplicateKeyText then ret None
            else andThen (unexpected origin e) (\<lambda>_. ret None))"

definition createAttestation ::
    "'w copies_port \<Rightarrow> string \<Rightarrow> string \<Rightarrow> string \<Rightarrow> string \<Rightarrow> ('w, attestation_row option) rw_io" where
  "createAttestation p txHash issuer address identifier =
     ignoringDuplicates (''Creating attestation for address '' @ address @ '' with identifier '' @ identifier)
       (andThen (ext (rwUuid (cpEvents p))) (\<lambda>i.
        andThen (ext (cpNow p)) (\<lambda>now.
        andThen (ext (attestationSave p \<lparr>atId = i, atTxHash = txHash, atIssuer = issuer, atAddress = address,
          atIdentifier = identifier, atCreatedAt = now\<rparr>)) (\<lambda>row.
        andThen (rwEvent (EvAttestationCompleted txHash issuer address identifier)) (\<lambda>_. ret row)))))"

definition handleAttestationRequest :: "'w copies_port \<Rightarrow> event_log \<Rightarrow> ('w, unit) rw_io" where
  "handleAttestationRequest p ev =
     andThen (createAttestation p (evTxHash ev) (evReturn ev ''issuer'') (js_lower (evReturn ev ''account''))
       (evReturn ev ''identifier'')) (\<lambda>_. ret ())"

definition fetchAttestations :: "'w copies_port \<Rightarrow> ('w, unit) rw_io" where
  "fetchAttestations p =
     andThen (ext (loadContract (cpEvents p) ''Attestations'')) (\<lambda>_.
     runEventProcessingPolling (cpEvents p) ''attestation'' ''AttestationCompleted'' Genesis
       (handleAttestationRequest p) (\<lambda>fromBlock n. EvAttestationEventsFetched n fromBlock))"

definition createAddressMapping ::
    "'w copies_port \<Rightarrow> string \<Rightarrow> string \<Rightarrow> string \<Rightarrow> ('w, address_mapping option) rw_io" where
  "createAddressMapping p txHash accountAddress walletAddr =
     ignoringDuplicates (''Creating address mapping for account '' @ accountAddress @ '' with wallet address '' @ walletAddr)
       (andThen (ext (rwUuid (cpEvents p))) (\<lambda>i.
        andThen (ext (cpNow p)) (\<lambda>now.
        andThen (ext (mappingSave p \<lparr>amId = i, amTxHash = txHash, amWalletAddress = walletAddr,
          amAccountAddress = accountAddress, amCreatedAt = now\<rparr>)) (\<lambda>row.
        andThen (rwEvent (EvAccountWalletAddressSet txHash walletAddr accountAddress)) (\<lambda>_. ret row)))))"

definition handleAddressMappingsEvent :: "'w copies_port \<Rightarrow> event_log \<Rightarrow> ('w, unit) rw_io" where
  "handleAddressMappingsEvent p ev =
     andThen (createAddressMapping p (evTxHash ev) (js_lower (evReturn ev ''account''))
       (js_lower (evReturn ev ''walletAddress''))) (\<lambda>_. ret ())"

definition fetchAddressMappings :: "'w copies_port \<Rightarrow> ('w, unit) rw_io" where
  "fetchAddressMappings p =
     andThen (ext (loadContract (cpEvents p) ''Accounts'')) (\<lambda>_.
     runEventProcessingPolling (cpEvents p) ''addressMappings'' ''AccountWalletAddressSet'' Genesis
       (handleAddressMappingsEvent p) (\<lambda>fromBlock n. EvAddressMappingsEventsFetched n fromBlock))"

text \<open>\<open>AddressMappingsRepository.findAccountAddresses\<close>\<close>

definition findAccountAddresses :: "'w copies_port \<Rightarrow> string \<Rightarrow> ('w, string list) rw_io" where
  "findAccountAddresses p walletAddr =
     andThen (ext (mappingFind p walletAddr)) (\<lambda>rows.
     let accounts = map amAccountAddress rows in ret (if accounts \<noteq> [] then accounts else [walletAddr]))"

section \<open>No event is skipped\<close>

text \<open>
  What a run relies on. For the events \<open>evs\<close> of one name: \<open>getPastEvents\<close> returns those of the block range;
  \<open>handled\<close> says of an event that it has been dealt with outside, which the handler achieves when it
  returns, and does not undo for others.
\<close>

definition reports_events :: "'w events_port \<Rightarrow> string \<Rightarrow> event_log list \<Rightarrow> bool" where
  "reports_events p name evs \<longleftrightarrow>
     (\<forall>a b w r w'. pastEvents p name a b w = (Inr r, w') \<longrightarrow>
        (\<forall>e. e \<in> set r \<longleftrightarrow> e \<in> set evs \<and> a \<le> evBlock e \<and> evBlock e \<le> b))"

lemma reports_eventsD:
  "reports_events p name evs \<Longrightarrow> pastEvents p name a b w = (Inr r, w') \<Longrightarrow>
   e \<in> set r \<longleftrightarrow> e \<in> set evs \<and> a \<le> evBlock e \<and> evBlock e \<le> b"
  unfolding reports_events_def by blast

text \<open>Keeping a predicate of the outside world\<close>

definition keeps_outside :: "('w \<Rightarrow> bool) \<Rightarrow> ('w, 'a) rw_io \<Rightarrow> bool" where
  "keeps_outside Q m = preserves (\<lambda>sw. Q (snd sw)) m"

lemma keeps_outsideD: "keeps_outside Q m \<Longrightarrow> m sw = (r, sw') \<Longrightarrow> Q (snd sw) \<Longrightarrow> Q (snd sw')"
  unfolding keeps_outside_def by (drule preservesD)

lemma keeps_outside_ext: "preserves Q m \<Longrightarrow> keeps_outside Q (ext m)"
  unfolding keeps_outside_def by (rule preservesI) (auto simp: ext_def split: prod.splits dest: preservesD)

lemma keeps_outside_rwEvent: "keeps_outside Q (rwWrite x)" "keeps_outside Q (rwEvent ev)" "keeps_outside Q (unexpected o1 e)"
  unfolding keeps_outside_def rwWrite_def rwEvent_def unexpected_def by (intro keeps; simp)+

lemma keeps_outside_andThen:
  "keeps_outside Q m \<Longrightarrow> (\<And>x. keeps_outside Q (f x)) \<Longrightarrow> keeps_outside Q (andThen m f)"
  unfolding keeps_outside_def by (rule preserves_andThen)

lemma keeps_outside_catching:
  "keeps_outside Q m \<Longrightarrow> (\<And>x. keeps_outside Q (f x)) \<Longrightarrow> keeps_outside Q (catching m f)"
  unfolding keeps_outside_def by (rule preserves_catching)

lemma keeps_outside_ret: "keeps_outside Q (ret x)" "keeps_outside Q (throw e)"
  unfolding keeps_outside_def by (intro keeps)+

lemma keeps_outside_if: "keeps_outside Q m \<Longrightarrow> keeps_outside Q n \<Longrightarrow> keeps_outside Q (if b then m else n)"
  by simp

lemmas keeps_outside = keeps_outside_ext keeps_outside_rwEvent keeps_outside_andThen keeps_outside_catching
  keeps_outside_ret keeps_outside_if

definition handles :: "(event_log \<Rightarrow> 'w \<Rightarrow> bool) \<Rightarrow> (event_log \<Rightarrow> ('w, unit) rw_io) \<Rightarrow> bool" where
  "handles handled handler \<longleftrightarrow>
     (\<forall>e sw sw'. handler e sw = (Inr (), sw') \<longrightarrow> handled e (snd sw')) \<and>
     (\<forall>e e'. keeps_outside (handled e) (handler e'))"

lemma handlesD:
  assumes "handles handled handler"
  shows "handler e sw = (Inr (), sw') \<Longrightarrow> handled e (snd sw')"
    and "keeps_outside (handled e) (handler e')"
  using assms unfolding handles_def by blast+

lemma keeps_outside_processEvents:
  "(\<And>e. keeps_outside Q (handler e)) \<Longrightarrow> keeps_outside Q (processEvents p key handler evs m)"
  by (induction evs arbitrary: m) (auto intro!: keeps_outside)

lemma keeps_outside_fetchBatches:
  "(\<And>e. keeps_outside Q (handler e)) \<Longrightarrow> (\<And>a b. preserves Q (pastEvents p name a b)) \<Longrightarrow>
   keeps_outside Q (fetchBatches p key name handler received lastBlock current m)"
proof (induction p key name handler received lastBlock current m rule: fetchBatches.induct)
  case (1 p key eventName handler received lastBlock current maxBlock)
  then show ?case
    by (subst fetchBatches.simps) (auto intro!: keeps_outside keeps_outside_processEvents)
qed

lemma keeps_outside_fetchAndProcessEvents:
  assumes "\<And>e. keeps_outside Q (handler e)" and "\<And>a b. preserves Q (pastEvents p name a b)"
    and "preserves Q (blockNumber p)"
  shows "keeps_outside Q (fetchAndProcessEvents p key name from handler received)"
  unfolding fetchAndProcessEvents_def
  by (intro keeps_outside keeps_outside_fetchBatches assms)

lemma processEvents_handles:
  assumes h: "handles handled handler"
  shows "processEvents p key handler evs m sw = (Inr m', sw') \<Longrightarrow>
     m' = foldl max m (map evBlock evs) \<and> (\<forall>e \<in> set evs. handled e (snd sw')) \<and> (\<forall>e. handled e (snd sw) \<longrightarrow> handled e (snd sw'))"
proof (induction evs arbitrary: m sw)
  case Nil
  then show ?case by (cases sw) simp
next
  case (Cons ev evs)
  then obtain u where u: "handler ev sw = (Inr (), u)"
    and rest: "processEvents p key handler evs (max m (evBlock ev)) u = (Inr m', sw')"
    by (auto simp: andThen_eq_Inr catching_Inr throw_def)
  have "handled ev (snd u)" and keep: "\<And>e. handled e (snd sw) \<Longrightarrow> handled e (snd u)"
    using handlesD [OF h] u by (blast dest: keeps_outsideD)+
  with Cons.IH [OF rest] show ?case by auto
qed

lemma foldl_max_le: "m \<le> foldl max (m :: int) xs \<and> (\<forall>x \<in> set xs. x \<le> foldl max m xs)"
proof (induction xs arbitrary: m)
  case Nil
  then show ?case by simp
next
  case (Cons x xs)
  from Cons.IH [of "max m x"] show ?case by auto
qed

lemma foldl_max_bound: "m \<le> b \<Longrightarrow> (\<forall>x \<in> set xs. x \<le> b) \<Longrightarrow> foldl max (m :: int) xs \<le> b"
  by (induction xs arbitrary: m) auto

text \<open>
  The loop: \<open>c\<close> is the last block fetched so far, every event up to it is handled, and the maximum is not
  past it, unless nothing has been fetched yet.
\<close>

lemma fetchBatches_handles:
  assumes h: "handles handled handler" and src: "reports_events p name evs"
    and past: "\<And>a b e. preserves (handled e) (pastEvents p name a b)"
  shows "fetchBatches p key name handler received lastBlock current m sw = (Inr m', sw') \<Longrightarrow>
     from \<le> m \<Longrightarrow> m \<le> max from (min (current - 1) lastBlock) \<Longrightarrow>
     (\<forall>e \<in> set evs. from \<le> evBlock e \<and> evBlock e \<le> min (current - 1) lastBlock \<longrightarrow> handled e (snd sw)) \<Longrightarrow>
     from \<le> m' \<and> (\<forall>e. handled e (snd sw) \<longrightarrow> handled e (snd sw'))
     \<and> (m' = from \<or> (\<forall>e \<in> set evs. from \<le> evBlock e \<and> evBlock e \<le> m' \<longrightarrow> handled e (snd sw')))"
proof (induction "nat (lastBlock - current)" arbitrary: current m sw rule: less_induct)
  case less
  show ?case
  proof (cases "current < lastBlock")
    case False
    with less.prems(1) have "m' = m" "sw' = sw"
      by (subst (asm) fetchBatches.simps; cases sw; simp)+
    with less.prems(2-4) show ?thesis by (auto simp: max_def split: if_splits)
  next
    case True
    let ?to = "min (current + EVENTS_BATCH_SIZE) lastBlock" and ?next = "current + (EVENTS_BATCH_SIZE + 1)"
    from True less.prems(1) obtain batch u1 u2 m1 u3 where
      fetched: "ext (pastEvents p name current ?to) sw = (Inr batch, u1)"
      and logged: "(if batch \<noteq> [] then rwEvent (received current (int (length batch))) else ret ()) u1 = (Inr (), u2)"
      and processed: "processEvents p key handler batch m u2 = (Inr m1, u3)"
      and rest: "fetchBatches p key name handler received lastBlock ?next m1 u3 = (Inr m', sw')"
      by (subst (asm) fetchBatches.simps) (auto simp: andThen_eq_Inr)
    have batch: "e \<in> set batch \<longleftrightarrow> e \<in> set evs \<and> current \<le> evBlock e \<and> evBlock e \<le> ?to" for e
      using fetched by (cases sw; cases u1) (auto simp only: ext_eq_iff reports_eventsD [OF src])
    have k1: "handled e (snd sw) \<Longrightarrow> handled e (snd u1)" for e
      using keeps_outsideD [OF keeps_outside_ext [OF past] fetched] .
    have quiet: "keeps_outside (handled e)
        (if batch \<noteq> [] then rwEvent (received current (int (length batch))) else ret ())" for e
      by (intro keeps_outside)
    have k2: "handled e (snd u1) \<Longrightarrow> handled e (snd u2)" for e
      by (rule keeps_outsideD [OF quiet logged])
    from processEvents_handles [OF h processed]
    have m1: "m1 = foldl max m (map evBlock batch)" and b: "\<forall>e \<in> set batch. handled e (snd u3)"
      and k3: "\<forall>e. handled e (snd u2) \<longrightarrow> handled e (snd u3)" by auto
    have to: "min (?next - 1) lastBlock = ?to" by simp
    have "m1 \<le> max m ?to"
      unfolding m1
    proof (rule foldl_max_bound)
      show "\<forall>x \<in> set (map evBlock batch). x \<le> max m ?to" using batch by (fastforce simp: le_max_iff_disj)
    qed simp
    moreover have "max from (min (current - 1) lastBlock) \<le> max from ?to"
      by (auto simp: EVENTS_BATCH_SIZE_def)
    ultimately have m1_to: "m1 \<le> max from (min (?next - 1) lastBlock)"
      using less.prems(3) unfolding to by linarith
    have "from \<le> m1" using foldl_max_le [of m "map evBlock batch"] less.prems(2) by (simp add: m1)
    moreover have "\<forall>e \<in> set evs. from \<le> evBlock e \<and> evBlock e \<le> min (?next - 1) lastBlock \<longrightarrow> handled e (snd u3)"
    proof (intro ballI impI)
      fix e assume e: "e \<in> set evs" "from \<le> evBlock e \<and> evBlock e \<le> min (?next - 1) lastBlock"
      show "handled e (snd u3)"
      proof (cases "current \<le> evBlock e")
        case True
        with e batch b show ?thesis unfolding to by blast
      next
        case False
        with e less.prems(4) have "handled e (snd sw)" by auto
        with k1 k2 k3 show ?thesis by blast
      qed
    qed
    moreover have "nat (lastBlock - ?next) < nat (lastBlock - current)"
      using True by (simp add: EVENTS_BATCH_SIZE_def)
    ultimately have "from \<le> m' \<and> (\<forall>e. handled e (snd u3) \<longrightarrow> handled e (snd sw'))
       \<and> (m' = from \<or> (\<forall>e \<in> set evs. from \<le> evBlock e \<and> evBlock e \<le> m' \<longrightarrow> handled e (snd sw')))"
      using less.hyps rest m1_to by blast
    with k1 k2 k3 show ?thesis by blast
  qed
qed

text \<open>The calls of a run, other than the update of the row, keep a predicate of the outside world.\<close>

definition calls_keep :: "'w events_port \<Rightarrow> ('w \<Rightarrow> bool) \<Rightarrow> bool" where
  "calls_keep p Q \<longleftrightarrow> preserves Q (blockNumber p) \<and> (\<forall>name a b. preserves Q (pastEvents p name a b))
     \<and> (\<forall>key. preserves Q (nbFindOne p key))"

lemma fetchAndProcessEvents_handles:
  assumes h: "handles handled handler" and src: "reports_events p name evs"
    and keep: "\<And>e. calls_keep p (handled e)"
    and run: "fetchAndProcessEvents p key name fb handler received u = (Inr m, v)" and "m \<noteq> fb"
  shows "\<forall>e \<in> set evs. fb \<le> evBlock e \<and> evBlock e \<le> m \<longrightarrow> handled e (snd v)"
proof -
  obtain lb u2 where loop: "fetchBatches p key name handler received lb fb fb u2 = (Inr m, v)"
    using run by (auto simp: fetchAndProcessEvents_def andThen_eq_Inr)
  have "\<forall>e \<in> set evs. fb \<le> evBlock e \<and> evBlock e \<le> min (fb - 1) lb \<longrightarrow> handled e (snd u2)" by auto
  from fetchBatches_handles [OF h src _ loop _ _ this] keep assms(5) show ?thesis
    by (auto simp: calls_keep_def)
qed

text \<open>
  The repository of notified blocks, by its rows: \<open>findOne\<close> gives the row of the key, \<open>update\<close> sets the block
  number of the row with this id and key if it is smaller, and a call that fails changes nothing.
\<close>

definition raiseBlock :: "string \<Rightarrow> string \<Rightarrow> int \<Rightarrow> notified_block \<Rightarrow> notified_block" where
  "raiseBlock i key n b = (if nbId b = i \<and> nbKey b = key \<and> nbBlock b < n then b\<lparr>nbBlock := n\<rparr> else b)"

definition row_of :: "string \<Rightarrow> notified_block list \<Rightarrow> notified_block option" where
  "row_of key bs = find (\<lambda>b. nbKey b = key) bs"

definition block_rows :: "'w events_port \<Rightarrow> ('w \<Rightarrow> notified_block list) \<Rightarrow> bool" where
  "block_rows p bs \<longleftrightarrow>
     (\<forall>key w r w'. nbFindOne p key w = (r, w') \<longrightarrow> bs w' = bs w \<and> (\<forall>b. r = Inr b \<longrightarrow> b = row_of key (bs w))) \<and>
     (\<forall>i key n w r w'. nbUpdate p i key n w = (r, w') \<longrightarrow>
        bs w' = (case r of Inl _ \<Rightarrow> bs w | Inr _ \<Rightarrow> map (raiseBlock i key n) (bs w)))"

lemma block_rowsD:
  assumes "block_rows p bs"
  shows "nbFindOne p key w = (r, w') \<Longrightarrow> bs w' = bs w"
    and "nbFindOne p key w = (Inr b, w') \<Longrightarrow> b = row_of key (bs w)"
    and "nbUpdate p i key n w = (Inl e, w') \<Longrightarrow> bs w' = bs w"
    and "nbUpdate p i key n w = (Inr u, w') \<Longrightarrow> bs w' = map (raiseBlock i key n) (bs w)"
  using assms unfolding block_rows_def by fastforce+

lemma row_of_raise:
  "row_of key bs = Some b \<Longrightarrow>
   row_of key (map (raiseBlock (nbId b) key n) bs) = Some (raiseBlock (nbId b) key n b)"
  by (induction bs) (auto simp: row_of_def raiseBlock_def split: if_splits)

lemma lastNotifiedBlock_found:
  assumes "block_rows p bs" and "row_of key (bs w) = Some b"
    and "lastNotifiedBlock p key start (s, w) = (r, (s', w'))"
  shows "bs w' = bs w \<and> s' = s \<and> (\<forall>x. r = Inr x \<longrightarrow> x = b) \<and> (\<exists>q. nbFindOne p key w = (q, w'))"
proof -
  obtain q u where f: "nbFindOne p key w = (q, u)" by (cases "nbFindOne p key w")
  show ?thesis
  proof (cases q)
    case (Inl e)
    with f assms(3) block_rowsD(1) [OF assms(1) f] show ?thesis
      by (auto simp: lastNotifiedBlock_def andThen_def ext_app)
  next
    case (Inr found)
    with f have "found = Some b" using block_rowsD(2) [OF assms(1), of key w found u] assms(2) by simp
    with f Inr assms(3) block_rowsD(1) [OF assms(1) f] show ?thesis
      by (auto simp: lastNotifiedBlock_def andThen_def ext_app)
  qed
qed

text \<open>One run, for a consumer whose row exists: the block it leaves and the events handled by then\<close>

definition advanced ::
    "event_log list \<Rightarrow> (event_log \<Rightarrow> 'w \<Rightarrow> bool) \<Rightarrow> ('w \<Rightarrow> notified_block list) \<Rightarrow> string \<Rightarrow> notified_block \<Rightarrow> 'w \<Rightarrow> bool"
  where
  "advanced evs handled bs key b w \<longleftrightarrow>
     (\<exists>b'. row_of key (bs w) = Some b' \<and> nbBlock b \<le> nbBlock b' \<and>
       (\<forall>e \<in> set evs. nbBlock b < evBlock e \<and> evBlock e \<le> nbBlock b' \<longrightarrow> handled e w))"

lemma advanced_same: "row_of key (bs w) = Some b \<Longrightarrow> advanced evs handled bs key b w"
  by (auto simp: advanced_def)

lemma runUsingLastNotifiedBlock_advances:
  assumes src: "reports_events p name evs" and h: "handles handled handler" and rows: "block_rows p bs"
    and keep: "\<And>e. calls_keep p (handled e)" and upd: "\<And>e i key n. preserves (handled e) (nbUpdate p i key n)"
    and rows_keep: "\<And>R. calls_keep p (\<lambda>w. bs w = R)" and rows_handler: "\<And>R e. keeps_outside (\<lambda>w. bs w = R) (handler e)"
    and row: "row_of key (bs w) = Some b"
    and run: "runUsingLastNotifiedBlock p key start (\<lambda>from. fetchAndProcessEvents p key name from handler received) (s, w)
                = (r, (s', w'))"
  shows "advanced evs handled bs key b w'"
proof -
  let ?fetch = "\<lambda>from. fetchAndProcessEvents p key name from handler received"
  have fetch_rows: "keeps_outside (\<lambda>w. bs w = R) (?fetch fb)" for R fb
    using rows_keep rows_handler by (intro keeps_outside_fetchAndProcessEvents) (auto simp: calls_keep_def)
  have tracked: "unexpected o1 e su = (q, (s', w')) \<Longrightarrow> advanced evs handled bs key b (snd su) \<Longrightarrow>
      advanced evs handled bs key b w'" for o1 e su q
    using keeps_outsideD [OF keeps_outside_rwEvent(3), of o1 e su q "(s', w')" "advanced evs handled bs key b"] by simp
  obtain q1 u where u: "lastNotifiedBlock p key start (s, w) = (q1, u)" by (cases "lastNotifiedBlock p key start (s, w)")
  have bu: "bs (snd u) = bs w" and found: "q1 = Inr x \<Longrightarrow> x = b" for x
    using lastNotifiedBlock_found [OF rows row, of start s q1 "fst u" "snd u"] u by auto
  show ?thesis
  proof (cases q1)
    case (Inl e)
    with run u have "unexpected (''block processing for key '' @ key) e u = (r, (s', w'))"
      by (simp add: runUsingLastNotifiedBlock_def catching_def andThen_def Let_def)
    then show ?thesis by (rule tracked) (simp add: advanced_same row bu)
  next
    case (Inr x)
    with found have x: "q1 = Inr b" by simp
    obtain q2 v where v: "?fetch (nbBlock b + 1) u = (q2, v)" by (cases "?fetch (nbBlock b + 1) u")
    have bv: "bs (snd v) = bs w"
      using keeps_outsideD [OF fetch_rows v, of "bs w"] bu by simp
    show ?thesis
    proof (cases q2)
      case (Inl e)
      with run u x v have "unexpected (''block processing for key '' @ key) e v = (r, (s', w'))"
        by (simp add: runUsingLastNotifiedBlock_def catching_def andThen_def Let_def)
      then show ?thesis by (rule tracked) (simp add: advanced_same row bv)
    next
      case (Inr lastBlock)
      show ?thesis
      proof (cases "lastBlock > nbBlock b + 1")
        case False
        with run u x v Inr have "w' = snd v"
          by (simp add: runUsingLastNotifiedBlock_def catching_def andThen_def Let_def ret_def)
        with bv row show ?thesis by (simp add: advanced_same)
      next
        case True
        obtain q3 z where z: "nbUpdate p (nbId b) key lastBlock (snd v) = (q3, z)"
          by (cases "nbUpdate p (nbId b) key lastBlock (snd v)")
        show ?thesis
        proof (cases q3)
          case (Inl e)
          with run u x v Inr True z have "unexpected (''block processing for key '' @ key) e (fst v, z) = (r, (s', w'))"
            by (cases v) (simp add: runUsingLastNotifiedBlock_def catching_def andThen_def Let_def ext_app)
          moreover have "bs z = bs w" using block_rowsD(3) [OF rows] z Inl bv by metis
          ultimately show ?thesis by (elim tracked) (simp add: advanced_same row)
        next
          case (Inr unit)
          with run u x v \<open>q2 = Inr lastBlock\<close> True z have "w' = z"
            by (cases v) (simp add: runUsingLastNotifiedBlock_def catching_def andThen_def Let_def ext_app)
          moreover have "bs z = map (raiseBlock (nbId b) key lastBlock) (bs w)"
            using block_rowsD(4) [OF rows] z Inr bv by metis
          then have "row_of key (bs z) = Some (raiseBlock (nbId b) key lastBlock b)"
            using row by (simp add: row_of_raise)
          moreover have "nbKey b = key" using row by (auto simp: row_of_def find_Some_iff)
          moreover have "\<forall>e \<in> set evs. nbBlock b + 1 \<le> evBlock e \<and> evBlock e \<le> lastBlock \<longrightarrow> handled e (snd v)"
            using fetchAndProcessEvents_handles [OF h src keep, of key "nbBlock b + 1" received u lastBlock v]
              v \<open>q2 = Inr lastBlock\<close> True by simp
          then have "\<forall>e \<in> set evs. nbBlock b < evBlock e \<and> evBlock e \<le> lastBlock \<longrightarrow> handled e z"
            using upd z by (fastforce dest: preservesD)
          ultimately show ?thesis using True by (auto simp: advanced_def raiseBlock_def)
        qed
      qed
    qed
  qed
qed

section \<open>A node and a database to evaluate on\<close>

text \<open>Events of a chain whose last block is 20; the world is the rows and what has been handled.\<close>

definition demoEventLog :: "string \<Rightarrow> int \<Rightarrow> event_log" where
  "demoEventLog h n = \<lparr>evTxHash = h, evBlock = n, evReturn = (\<lambda>_. ''0xA'')\<rparr>"

definition demoEventLogs :: "event_log list" where
  "demoEventLogs = [demoEventLog ''0xa'' 12, demoEventLog ''0xb'' 15]"

definition demoEventsPort :: "(notified_block list \<times> event_log list) events_port" where
  "demoEventsPort =
     \<lparr>loadContract = (\<lambda>_. ret ()), blockNumber = ret 20,
      pastEvents = (\<lambda>_ a b. ret (filter (\<lambda>e. a \<le> evBlock e \<and> evBlock e \<le> b) demoEventLogs)),
      nbFindOne = (\<lambda>key w. (Inr (row_of key (fst w)), w)),
      nbInsert = (\<lambda>b w. (Inr (), (b # fst w, snd w))),
      nbUpdate = (\<lambda>i key n w. (Inr (), (map (raiseBlock i key n) (fst w), snd w))),
      rwUuid = ret ''id'', stringifyEvent = evTxHash\<rparr>"

definition demoEventHandler :: "event_log \<Rightarrow> (notified_block list \<times> event_log list, unit) rw_io" where
  "demoEventHandler e = ext (\<lambda>w. (Inr (), (fst w, e # snd w)))"

definition demoBlockRow :: notified_block where
  "demoBlockRow = \<lparr>nbId = ''id'', nbKey = ''attestation'', nbBlock = 10\<rparr>"

section \<open>Properties\<close>

text \<open>
  C28. A run of the polling never skips an event: the last notified block of the consumer does not go
  back, whatever fails, and every event after the old and up to the new block has been handled. Nothing
  undoes what was handled, and a run that is not skipped leaves the consumer idle.
\<close>

theorem polling_never_skips:
  assumes "reports_events p name evs" and "handles handled handler" and "block_rows p bs"
    and "\<And>e. calls_keep p (handled e)" and "\<And>e i key n. preserves (handled e) (nbUpdate p i key n)"
    and "\<And>R. calls_keep p (\<lambda>w. bs w = R)" and "\<And>R e. keeps_outside (\<lambda>w. bs w = R) (handler e)"
    and "row_of key (bs w) = Some b"
    and "runEventProcessingPolling p key name start handler received (s, w) = (r, (s', w'))"
  shows "(\<exists>b'. row_of key (bs w') = Some b' \<and> nbBlock b \<le> nbBlock b' \<and>
       (\<forall>e \<in> set evs. nbBlock b < evBlock e \<and> evBlock e \<le> nbBlock b' \<longrightarrow> handled e w'))
     \<and> (\<not> isRunning s key \<longrightarrow> \<not> isRunning s' key)"
proof (cases "isRunning s key")
  case True
  with assms(9) have "w' = w"
    by (auto simp: runEventProcessingPolling_def polling_flag.skips_when_running rwWrite_def)
  with True assms(8) show ?thesis by auto
next
  case False
  let ?body = "runUsingLastNotifiedBlock p key start (\<lambda>fb. fetchAndProcessEvents p key name fb handler received)"
  obtain q s1 w1 where body: "?body (setRunning key True s, w) = (q, (s1, w1))"
    by (metis prod.collapse)
  from polling_flag.runs_when_idle [where body = ?body, OF False body] assms(9)
  have "w' = w1" "s' = setRunning key False s1" by (auto simp: runEventProcessingPolling_def)
  with runUsingLastNotifiedBlock_advances [OF assms(1-8) body] show ?thesis
    by (simp add: advanced_def setRunning_def)
qed

lemma polling_never_skips_witness:
  "\<exists>s' w' b'. runEventProcessingPolling demoEventsPort ''attestation'' ''AttestationCompleted'' Genesis
        demoEventHandler (\<lambda>a n. EvAttestationEventsFetched n a) (rewardsStart, ([demoBlockRow], []))
      = (Inr (), (s', w')) \<and> row_of ''attestation'' (fst w') = Some b' \<and> nbBlock b' = 15
     \<and> demoEventLog ''0xa'' 12 \<in> set (snd w') \<and> \<not> isRunning s' ''attestation''"
proof -
  let ?r = "runEventProcessingPolling demoEventsPort ''attestation'' ''AttestationCompleted'' Genesis
        demoEventHandler (\<lambda>a n. EvAttestationEventsFetched n a) (rewardsStart, ([demoBlockRow], []))"
  have "fst ?r = Inr ()" and row: "map nbBlock (fst (snd (snd ?r))) = [15]" by code_simp+
  then obtain s' w' where run: "?r = (Inr (), (s', w'))" by (blast dest: run_of_fst)
  have "reports_events demoEventsPort ''AttestationCompleted'' demoEventLogs"
    by (auto simp: reports_events_def demoEventsPort_def ret_app)
  moreover have "handles (\<lambda>e w. e \<in> set (snd w)) demoEventHandler"
    by (auto simp: handles_def demoEventHandler_def ext_def keeps_outside_def preserves_def)
  moreover have "block_rows demoEventsPort fst"
    by (auto simp: block_rows_def demoEventsPort_def)
  moreover have "calls_keep demoEventsPort Q" for Q
    by (simp add: calls_keep_def demoEventsPort_def preserves_def ret_app)
  moreover have "preserves (\<lambda>w. e \<in> set (snd w)) (nbUpdate demoEventsPort i key n)" for e i key n
    by (simp add: demoEventsPort_def preserves_def)
  moreover have "keeps_outside (\<lambda>w. fst w = R) (demoEventHandler e)" for R e
    by (auto simp: keeps_outside_def preserves_def demoEventHandler_def ext_app)
  moreover have "row_of ''attestation'' (fst ([demoBlockRow], [] :: event_log list)) = Some demoBlockRow"
    by (simp add: row_of_def demoBlockRow_def)
  moreover have "\<not> isRunning rewardsStart ''attestation''" by (simp add: rewardsStart_def)
  ultimately have past: "(\<exists>b'. row_of ''attestation'' (fst w') = Some b' \<and> nbBlock demoBlockRow \<le> nbBlock b' \<and>
       (\<forall>e \<in> set demoEventLogs. nbBlock demoBlockRow < evBlock e \<and> evBlock e \<le> nbBlock b' \<longrightarrow> e \<in> set (snd w')))
     \<and> \<not> isRunning s' ''attestation''"
    using polling_never_skips [where handled = "\<lambda>e w. e \<in> set (snd w)" and bs = fst, OF _ _ _ _ _ _ _ _ run]
    by blast
  then obtain b' where b': "row_of ''attestation'' (fst w') = Some b'"
    "\<forall>e \<in> set demoEventLogs. 10 < evBlock e \<and> evBlock e \<le> nbBlock b' \<longrightarrow> e \<in> set (snd w')"
    by (auto simp: demoBlockRow_def)
  have "map nbBlock (fst w') = [15]" using row run by simp
  with b'(1) have "nbBlock b' = 15" by (auto simp: row_of_def find_Some_iff)
  with past b' run show ?thesis by (auto simp: demoEventLogs_def demoEventLog_def)
qed

text \<open>
  A failure to store an attestation does not stop the polling: the handler tracks the error and
  returns, so the block of the event counts as processed and the event is not handled again.
\<close>

theorem failed_save_is_not_retried:
  assumes "\<And>w. \<exists>i w'. rwUuid (cpEvents p) w = (Inr i, w')" and "\<And>w. \<exists>t w'. cpNow p w = (Inr t, w')"
    and "\<And>row w. \<exists>w'. attestationSave p row w = (Inl (ErrorObject e), w')"
    and "\<not> js_includes (message e) duplicateKeyText"
  shows "\<exists>s' w'. handleAttestationRequest p ev (s, w) = (Inr (), (s', w'))
     \<and> rwLog s' = rwLog s @ [LogEvent (EvUnexpectedError (''Creating attestation for address ''
         @ js_lower (evReturn ev ''account'') @ '' with identifier '' @ evReturn ev ''identifier'') (message e)) None]
     \<and> processEvents (cpEvents p) key (handleAttestationRequest p) [ev] m (s, w)
         = (Inr (max m (evBlock ev)), (s', w'))"
proof -
  obtain i w1 where 1: "rwUuid (cpEvents p) w = (Inr i, w1)" using assms(1) by blast
  obtain t w2 where 2: "cpNow p w1 = (Inr t, w2)" using assms(2) by blast
  let ?row = "\<lparr>atId = i, atTxHash = evTxHash ev, atIssuer = evReturn ev ''issuer'',
      atAddress = js_lower (evReturn ev ''account''), atIdentifier = evReturn ev ''identifier'', atCreatedAt = t\<rparr>"
  obtain w3 where 3: "attestationSave p ?row w2 = (Inl (ErrorObject e), w3)" using assms(3) by blast
  have "\<exists>s'. handleAttestationRequest p ev (s, w) = (Inr (), (s', w3))
     \<and> rwLog s' = rwLog s @ [LogEvent (EvUnexpectedError (''Creating attestation for address ''
         @ js_lower (evReturn ev ''account'') @ '' with identifier '' @ evReturn ev ''identifier'') (message e)) None]"
    using 1 2 3 assms(4)
    by (simp add: handleAttestationRequest_def createAttestation_def ignoringDuplicates_def andThen_def catching_def
        ext_app thrown_message_def message_text_def unexpected_def rwEvent_def rwWrite_def)
  then show ?thesis by (auto simp: andThen_def catching_def ret_app)
qed

definition demoCopiesPort :: "(notified_block list \<times> event_log list) copies_port" where
  "demoCopiesPort =
     \<lparr>cpEvents = demoEventsPort, cpNow = ret 5,
      attestationSave = (\<lambda>row. throw (ErrorObject (plain_error ''connection terminated''))),
      mappingSave = (\<lambda>row. ret row), mappingFind = (\<lambda>a. ret [])\<rparr>"

lemma failed_save_is_not_retried_witness:
  "\<exists>s' w'. handleAttestationRequest demoCopiesPort (demoEventLog ''0xa'' 12) (rewardsStart, ([], []))
       = (Inr (), (s', w')) \<and> length (rwLog s') = 1"
proof -
  have "\<not> js_includes (message (plain_error ''connection terminated'')) duplicateKeyText" by code_simp
  then show ?thesis
    using failed_save_is_not_retried [of demoCopiesPort "plain_error ''connection terminated''"
        "demoEventLog ''0xa'' 12" rewardsStart "([], [])"]
    by (fastforce simp: demoCopiesPort_def demoEventsPort_def ret_app throw_app rewardsStart_def)
qed

end
