(* ===== verification/Reward_Sender.thy ===== *)
theory Reward_Sender
  imports Rewards_Events
begin

text \<open>
  The sending of rewards (\<open>packages/apps/rewards/src/invite/rewardSender.service.ts\<close>, \<open>inviteReward.entity.ts\<close>,
  \<open>relayer/relayer_proxy.service.ts\<close>, \<open>utils/promiseUtil.ts\<close>): a reward is paid by a transaction that a
  relayer submits; submitted transactions are watched until they are mined, and what failed or got stuck
  is sent once more.
\<close>

section \<open>Rows (inviteReward.entity.ts)\<close>

datatype reward_status = RCreated | RSubmitted | RCompleted | RFailed | RDeadLettered

fun reward_status_name :: "reward_status \<Rightarrow> string" where
  "reward_status_name RCreated = ''Created''"
| "reward_status_name RSubmitted = ''Submitted''"
| "reward_status_name RCompleted = ''Completed''"
| "reward_status_name RFailed = ''Failed''"
| "reward_status_name RDeadLettered = ''DeadLettered''"

datatype stable_token = CUSD | CEUR

record invite_reward =
  irId :: string
  irInviter :: string
  irInvitee :: string
  irInviteeIdentifier :: string
  irState :: reward_status
  irRewardTxHash :: "string option"
  irInviteToken :: stable_token
  irCreatedAt :: int

section \<open>Port\<close>

text \<open>
  \<open>repository.update(id, {state})\<close> or \<open>repository.update(id, {state, rewardTxHash})\<close>: the hash stays when none
  is given.
\<close>

record 'w reward_repo =
  updateReward :: "string \<Rightarrow> reward_status \<Rightarrow> string option \<Rightarrow> ('w, thrown, unit) io"

text \<open>The query of \<open>checkFailedInvites\<close>: rows in one of these states, at least this old, at most so many\<close>

record reward_query =
  qStates :: "reward_status list"
  qMinAgeMinutes :: int
  qLimit :: nat

text \<open>
  The repository, the one of the transaction, the transaction (\<open>manager.transaction\<close>, which undoes the
  writes of a body that rejects) and its locked query; receipts (\<open>null\<close> or their status); the token
  contract's address and the encoded transfer; the relayer and the clock.
\<close>

record 'w sender_port =
  spRepo :: "'w reward_repo"
  spTxRepo :: "'w reward_repo"
  inTransaction :: "('w, unit) rw_io \<Rightarrow> ('w, unit) rw_io"
  findLocked :: "reward_query \<Rightarrow> ('w, thrown, invite_reward list) io"
  rewardReceipt :: "string \<Rightarrow> ('w, thrown, bool option) io"
  tokenAddress :: "stable_token \<Rightarrow> ('w, thrown, string) io"
  encodeTransfer :: "string \<Rightarrow> int \<Rightarrow> string"
  spRelay :: "'w relay_port"
  spNow :: "'w \<Rightarrow> int \<times> 'w"

record sender_config =
  scRelayerRpcTimeoutMs :: int
  inviteRewardAmountInCusd :: rat

section \<open>Sending (rewardSender.service.ts)\<close>

definition WEI_PER_UNIT :: rat where
  "WEI_PER_UNIT = 1000000000000000000"

definition MAX_INVITES_PER_QUERY :: nat where
  "MAX_INVITES_PER_QUERY = 100"

datatype tx_status = TxCompleted | TxFailed | TxPending

definition getTxStatus :: "'w sender_port \<Rightarrow> string \<Rightarrow> ('w, tx_status) rw_io" where
  "getTxStatus p txHash =
     andThen (ext (rewardReceipt p txHash)) (\<lambda>receipt.
     ret (case receipt of None \<Rightarrow> TxPending | Some ok \<Rightarrow> if ok then TxCompleted else TxFailed))"

text \<open>
  The relayer proxy of this application, a second copy of the api's: here the trace context is the invite's
  id, without labels. The transfer has no value and is addressed to the token contract.
\<close>

definition rewardsExecute ::
    "'w relay_port \<Rightarrow> int \<Rightarrow> relayer_cmd \<Rightarrow> relayer_input \<Rightarrow> string \<Rightarrow>
     ('w, thrown, (relayer_error, relayer_response) result) io" where
  "rewardsExecute p timeoutMs cmd input inviteTraceId =
     executeRelay p timeoutMs \<lparr>reqId = inviteTraceId, reqSession = None\<rparr> cmd input"

definition rewardsSubmitTransaction ::
    "'w relay_port \<Rightarrow> int \<Rightarrow> raw_transaction \<Rightarrow> string \<Rightarrow>
     ('w, thrown, (relayer_error, relayer_response) result) io" where
  "rewardsSubmitTransaction p timeoutMs tx inviteTraceId =
     rewardsExecute p timeoutMs SubmitTransaction (SubmitTransactionInput tx) inviteTraceId"

definition sendTxThroughRelayer ::
    "'w sender_port \<Rightarrow> sender_config \<Rightarrow> string \<Rightarrow> string \<Rightarrow> string \<Rightarrow>
     ('w, (relayer_error, relayer_response) result) rw_io" where
  "sendTxThroughRelayer p cfg token transfer inviteId =
     ext (rewardsSubmitTransaction (spRelay p) (scRelayerRpcTimeoutMs cfg)
       \<lparr>destination = token, txValue = ''0'', data = transfer\<rparr> inviteId)"

lemmas relaying_defs = sendTxThroughRelayer_def rewardsSubmitTransaction_def rewardsExecute_def

definition trackSending :: "sending_status \<Rightarrow> string option \<Rightarrow> string \<Rightarrow> ('w, unit) rw_io" where
  "trackSending status txHash inviteId = rwEvent (EvRewardSendingStatus status txHash inviteId)"

text \<open>\<open>watchedInvites.add({...})\<close>: a new object\<close>

definition addWatched :: "string \<Rightarrow> string \<Rightarrow> bool \<Rightarrow> int \<Rightarrow> rewards \<Rightarrow> rewards" where
  "addWatched inviteId txHash isRetry now s =
     s\<lparr>watchedInvites := watchedInvites s @
         [\<lparr>wiRef = nextRef s, wiInviteId = inviteId, wiTxHash = txHash, wiSentAt = now,
           wiMarkAsDeadLetterIfFailed = isRetry\<rparr>],
       nextRef := Suc (nextRef s)\<rparr>"

definition deleteWatched :: "watched_invite \<Rightarrow> rewards \<Rightarrow> rewards" where
  "deleteWatched invite s = s\<lparr>watchedInvites := filter (\<lambda>i. wiRef i \<noteq> wiRef invite) (watchedInvites s)\<rparr>"

definition rwNow :: "'w sender_port \<Rightarrow> ('w, int) rw_io" where
  "rwNow p = ext (\<lambda>w. case spNow p w of (t, w') \<Rightarrow> (Inr t, w'))"

definition rewardAmount :: "sender_config \<Rightarrow> int" where
  "rewardAmount cfg = toFixed0 (inviteRewardAmountInCusd cfg * WEI_PER_UNIT)"

definition sendInviteReward ::
    "'w sender_port \<Rightarrow> sender_config \<Rightarrow> invite_reward \<Rightarrow> bool \<Rightarrow> 'w reward_repo \<Rightarrow> ('w, unit) rw_io" where
  "sendInviteReward p cfg invite isRetry repository =
     andThen (ext (tokenAddress p (irInviteToken invite))) (\<lambda>token.
     andThen (sendTxThroughRelayer p cfg token (encodeTransfer p (irInviter invite) (rewardAmount cfg)) (irId invite)) (\<lambda>resp.
     case resp of
       Err e \<Rightarrow>
         andThen (rwEvent (EvRelayerSendingError (irId invite) (message (relayer_error_object e)))) (\<lambda>_.
         andThen (ext (updateReward repository (irId invite) (if isRetry then RDeadLettered else RFailed) None)) (\<lambda>_.
         trackSending (if isRetry then SendDeadLettered else SendFailed) None (irId invite)))
     | Ok r \<Rightarrow>
         andThen (ext (updateReward repository (irId invite) RSubmitted (Some (rrPayload r)))) (\<lambda>_.
         andThen (rwNow p) (\<lambda>now.
         andThen (modS (addWatched (irId invite) (rrPayload r) isRetry now)) (\<lambda>_.
         trackSending SendSubmitted (Some (rrPayload r)) (irId invite))))))"

section \<open>Watching\<close>

definition checkWatchedInvite :: "'w sender_port \<Rightarrow> watched_invite \<Rightarrow> ('w, unit) rw_io" where
  "checkWatchedInvite p invite =
     andThen (getTxStatus p (wiTxHash invite)) (\<lambda>status.
     case status of
       TxCompleted \<Rightarrow>
         andThen (ext (updateReward (spRepo p) (wiInviteId invite) RCompleted None)) (\<lambda>_.
         andThen (modS (deleteWatched invite)) (\<lambda>_.
         trackSending SendCompleted (Some (wiTxHash invite)) (wiInviteId invite)))
     | TxFailed \<Rightarrow>
         andThen (ext (updateReward (spRepo p) (wiInviteId invite)
           (if wiMarkAsDeadLetterIfFailed invite then RDeadLettered else RFailed) None)) (\<lambda>_.
         andThen (modS (deleteWatched invite)) (\<lambda>_.
         trackSending (if wiMarkAsDeadLetterIfFailed invite then SendDeadLettered else SendFailed)
           (Some (wiTxHash invite)) (wiInviteId invite)))
     | TxPending \<Rightarrow> ret ())"

text \<open>\<open>promiseAllSettled\<close> (\<open>utils/promiseUtil.ts\<close>) is \<open>settleAll\<close>.\<close>

definition checkWatchedInvites :: "'w sender_port \<Rightarrow> ('w, unit) rw_io" where
  "checkWatchedInvites p =
     guardedRun checkingWatchedInvites (\<lambda>b s. s\<lparr>checkingWatchedInvites := b\<rparr>)
       (rwWrite (LogText LDebug ''Skipping checking watched invites because previous run is still running''))
       (catching
         (andThen (getS watchedInvites) (\<lambda>invites.
          andThen (settleAll (map (checkWatchedInvite p) invites) :: ('w, (thrown + unit) list) rw_io) (\<lambda>_. ret ())))
         (unexpected ''Checking watched invites''))"

section \<open>Sending again\<close>

definition failedQuery :: reward_query where
  "failedQuery = \<lparr>qStates = [RCreated, RSubmitted, RFailed], qMinAgeMinutes = 30, qLimit = MAX_INVITES_PER_QUERY\<rparr>"

definition checkFailedInvite :: "'w sender_port \<Rightarrow> sender_config \<Rightarrow> invite_reward \<Rightarrow> ('w, unit) rw_io" where
  "checkFailedInvite p cfg invite =
     andThen (case irRewardTxHash invite of
                Some h \<Rightarrow> if h \<noteq> [] then getTxStatus p h else ret TxFailed
              | None \<Rightarrow> ret TxFailed) (\<lambda>status.
     case status of
       TxCompleted \<Rightarrow>
         andThen (ext (updateReward (spTxRepo p) (irId invite) RCompleted None)) (\<lambda>_.
         trackSending SendCompleted (irRewardTxHash invite) (irId invite))
     | TxFailed \<Rightarrow> sendInviteReward p cfg invite True (spTxRepo p)
     | TxPending \<Rightarrow> ret ())"

definition lockText :: string where
  "lockText = ''could not obtain lock on row in relation''"

definition resendFailed :: "'w sender_port \<Rightarrow> sender_config \<Rightarrow> ('w, unit) rw_io" where
  "resendFailed p cfg =
     andThen (ext (findLocked p failedQuery)) (\<lambda>invites.
     andThen (if invites \<noteq> []
              then rwWrite (LogText LDebug (''Found '' @ show_nat (length invites) @ '' failed or submitted invites''))
              else ret ()) (\<lambda>_.
     andThen (settleAll (map (checkFailedInvite p cfg) invites)) (\<lambda>results.
     forEach (\<lambda>r. case r of Inl e \<Rightarrow> unexpected ''Resending failed invites'' e | Inr u \<Rightarrow> ret ()) results)))"

definition checkFailedInvites :: "'w sender_port \<Rightarrow> sender_config \<Rightarrow> ('w, unit) rw_io" where
  "checkFailedInvites p cfg =
     guardedRun checkingFailedInvites (\<lambda>b s. s\<lparr>checkingFailedInvites := b\<rparr>)
       (rwWrite (LogText LDebug ''Skipping checking failed invites because the previous run still running''))
       (catching
         (inTransaction p
           (catching (resendFailed p cfg)
             (\<lambda>e. case thrown_message e of
                None \<Rightarrow> throw (typeError ''Cannot read property of undefined'')
              | Some m \<Rightarrow> if js_includes m lockText then ret () else throw e)))
         (unexpected ''Resending failed invites''))"

interpretation watched_flag: running_flag checkingWatchedInvites "\<lambda>b s. s\<lparr>checkingWatchedInvites := b\<rparr>"
  by unfold_locales simp

interpretation failed_flag: running_flag checkingFailedInvites "\<lambda>b s. s\<lparr>checkingFailedInvites := b\<rparr>"
  by unfold_locales simp

section \<open>What is watched\<close>

text \<open>The identities of the watched objects: told apart, and older than the next one\<close>

definition refs_distinct :: "rewards \<Rightarrow> bool" where
  "refs_distinct s \<longleftrightarrow> distinct (map wiRef (watchedInvites s)) \<and> (\<forall>i \<in> set (watchedInvites s). wiRef i < nextRef s)"

lemma refs_distinct_add: "refs_distinct s \<Longrightarrow> refs_distinct (addWatched i h b now s)"
  by (fastforce simp: refs_distinct_def addWatched_def)

lemma refs_distinct_delete: "refs_distinct s \<Longrightarrow> refs_distinct (deleteWatched i s)"
  by (auto simp: refs_distinct_def deleteWatched_def distinct_map_filter)

lemma refs_distinct_writes [simp]:
  "refs_distinct (s\<lparr>rwLog := l\<rparr>) = refs_distinct s"
  "refs_distinct (s\<lparr>checkingWatchedInvites := b\<rparr>) = refs_distinct s"
  "refs_distinct (s\<lparr>checkingFailedInvites := b\<rparr>) = refs_distinct s"
  by (simp_all add: refs_distinct_def)

lemma deleteWatched_one:
  assumes "refs_distinct s" and "i \<in> set (watchedInvites s)"
  shows "watchedInvites (deleteWatched i s) = remove1 i (watchedInvites s)"
proof -
  have "distinct (map wiRef xs) \<Longrightarrow> i \<in> set xs \<Longrightarrow> filter (\<lambda>j. wiRef j \<noteq> wiRef i) xs = remove1 i xs" for xs
  proof (induction xs)
    case (Cons x xs)
    show ?case
    proof (cases "x = i")
      case True
      with Cons.prems(1) have "wiRef i \<notin> wiRef ` set xs" by simp
      then have "\<forall>j \<in> set xs. wiRef j \<noteq> wiRef i" by (metis imageI)
      with True show ?thesis by (simp add: filter_True)
    next
      case False
      with Cons.prems have "i \<in> set xs" "wiRef x \<noteq> wiRef i" by auto
      with Cons False show ?thesis by simp
    qed
  qed simp
  with assms show ?thesis by (simp add: deleteWatched_def refs_distinct_def)
qed

text \<open>
  A predicate of the service's memory that the elementary writes keep is kept by its three operations;
  a database transaction does not touch the memory.
\<close>

locale sender_invariant =
  fixes I :: "rewards \<Rightarrow> bool"
  assumes log_write: "I s \<Longrightarrow> I (s\<lparr>rwLog := rwLog s @ [entry]\<rparr>)"
    and watched_flag_write: "I s \<Longrightarrow> I (s\<lparr>checkingWatchedInvites := b\<rparr>)"
    and failed_flag_write: "I s \<Longrightarrow> I (s\<lparr>checkingFailedInvites := b\<rparr>)"
    and add_write: "I s \<Longrightarrow> I (addWatched i h b now s)"
    and delete_write: "I s \<Longrightarrow> I (deleteWatched wi s)"
begin

lemma keeps_ext: "preserves (\<lambda>sw. I (fst sw)) (ext m)"
  by (intro keeps) auto

lemma keeps_modS: "(\<And>s. I s \<Longrightarrow> I (g s)) \<Longrightarrow> preserves (\<lambda>sw. I (fst sw)) (modS g)"
  by (intro keeps) auto

lemma keeps_writes: "preserves (\<lambda>sw. I (fst sw)) (rwWrite entry)" "preserves (\<lambda>sw. I (fst sw)) (rwEvent ev)"
  "preserves (\<lambda>sw. I (fst sw)) (trackSending st h i)" "preserves (\<lambda>sw. I (fst sw)) (unexpected origin e)"
  unfolding rwWrite_def rwEvent_def trackSending_def unexpected_def by (intro keeps_modS log_write; assumption)+

lemma keeps_getTxStatus: "preserves (\<lambda>sw. I (fst sw)) (getTxStatus p h)"
  unfolding getTxStatus_def by (intro keeps keeps_ext)

lemma keeps_guarded:
  assumes "preserves (\<lambda>sw. I (fst sw)) skipped" and "preserves (\<lambda>sw. I (fst sw)) body"
    and "\<And>b s. I s \<Longrightarrow> I (set_flag b s)"
  shows "preserves (\<lambda>sw. I (fst sw)) (guardedRun get set_flag skipped body)"
  unfolding guardedRun_def using assms by (intro keeps keeps_modS) auto

lemma keeps_sendInviteReward: "preserves (\<lambda>sw. I (fst sw)) (sendInviteReward p cfg invite b repo)"
  unfolding sendInviteReward_def relaying_defs rwNow_def
  by (intro keeps keeps_ext keeps_writes keeps_modS add_write)

lemma keeps_checkWatchedInvites: "preserves (\<lambda>sw. I (fst sw)) (checkWatchedInvites p)"
proof -
  have "preserves (\<lambda>sw. I (fst sw)) (checkWatchedInvite p i)" for i
    unfolding checkWatchedInvite_def
    by (intro keeps keeps_getTxStatus) (auto split: tx_status.split intro!: keeps keeps_ext keeps_writes keeps_modS delete_write)
  then show ?thesis
    unfolding checkWatchedInvites_def
    by (intro keeps keeps_guarded keeps_writes watched_flag_write) auto
qed

lemma keeps_checkFailedInvites:
  assumes "\<And>m. preserves (\<lambda>sw. I (fst sw)) m \<Longrightarrow> preserves (\<lambda>sw. I (fst sw)) (inTransaction p m)"
  shows "preserves (\<lambda>sw. I (fst sw)) (checkFailedInvites p cfg)"
proof -
  have "preserves (\<lambda>sw. I (fst sw)) (checkFailedInvite p cfg i)" for i
    unfolding checkFailedInvite_def
    by (intro keeps keeps_getTxStatus) (auto split: tx_status.split intro!: keeps keeps_ext keeps_writes keeps_sendInviteReward)
  then have "preserves (\<lambda>sw. I (fst sw)) (resendFailed p cfg)"
    unfolding resendFailed_def by (intro keeps keeps_ext keeps_writes) auto
  then show ?thesis
    unfolding checkFailedInvites_def
    by (intro keeps keeps_guarded keeps_writes failed_flag_write assms)
qed

end

interpretation refs: sender_invariant refs_distinct
  by unfold_locales (simp_all add: refs_distinct_add refs_distinct_delete)

section \<open>A database and a relayer to evaluate on\<close>

text \<open>
  The world is the rows of the table and the transactions the relayer has submitted. The relayer submits
  what it is asked to; its reply arrives after \<open>delay\<close>, and receipts have the status \<open>status\<close> once there
  are any.
\<close>

type_synonym reward_world = "invite_reward list \<times> raw_transaction list"

definition setReward :: "string \<Rightarrow> reward_status \<Rightarrow> string option \<Rightarrow> invite_reward \<Rightarrow> invite_reward" where
  "setReward i st h r =
     (if irId r = i then r\<lparr>irState := st, irRewardTxHash := (case h of None \<Rightarrow> irRewardTxHash r | Some _ \<Rightarrow> h)\<rparr> else r)"

definition demoRepo :: "reward_world reward_repo" where
  "demoRepo = \<lparr>updateReward = (\<lambda>i st h w. (Inr (), (map (setReward i st h) (fst w), snd w)))\<rparr>"

definition demoRewardRelay :: "int option \<Rightarrow> reward_world relay_port" where
  "demoRewardRelay delay = \<lparr>relaySend = (\<lambda>cmd input ctx w.
     ((delay, Inr \<lparr>rrPayload = ''0xhash'', rrAddress = ''0xrelayer''\<rparr>),
      (fst w, snd w @ (case input of SubmitTransactionInput tx \<Rightarrow> [tx] | _ \<Rightarrow> []))))\<rparr>"

definition demoSender :: "int option \<Rightarrow> bool option \<Rightarrow> reward_world sender_port" where
  "demoSender delay status =
     \<lparr>spRepo = demoRepo, spTxRepo = demoRepo, inTransaction = (\<lambda>m. m),
      findLocked = (\<lambda>q w. (Inr (take (qLimit q) (filter (\<lambda>r. irState r \<in> set (qStates q)) (fst w))), w)),
      rewardReceipt = (\<lambda>h. ret status), tokenAddress = (\<lambda>t. ret ''0xtoken''),
      encodeTransfer = (\<lambda>a n. a @ show_int n), spRelay = demoRewardRelay delay, spNow = (\<lambda>w. (0, w))\<rparr>"

definition demoSenderConfig :: sender_config where
  "demoSenderConfig = \<lparr>scRelayerRpcTimeoutMs = 5000, inviteRewardAmountInCusd = 1\<rparr>"

definition demoReward :: "string \<Rightarrow> invite_reward" where
  "demoReward inviter = \<lparr>irId = ''r1'', irInviter = inviter, irInvitee = ''0xinvitee'', irInviteeIdentifier = ''id'',
     irState = RCreated, irRewardTxHash = None, irInviteToken = CUSD, irCreatedAt = 0\<rparr>"

section \<open>Properties\<close>

text \<open>
  The set of watched invites stays a set of objects: their identities are distinct in every state
  the three operations lead to from such a state, so that removing an invite that is done removes
  that one and no other.
\<close>

lemma watched_invites_distinct:
  assumes "refs_distinct s"
    and "\<And>m. preserves (\<lambda>sw. refs_distinct (fst sw)) m \<Longrightarrow> preserves (\<lambda>sw. refs_distinct (fst sw)) (inTransaction p m)"
  shows "refs_distinct (fst (snd (sendInviteReward p cfg invite isRetry repo (s, w))))
     \<and> refs_distinct (fst (snd (checkWatchedInvites p (s, w))))
     \<and> refs_distinct (fst (snd (checkFailedInvites p cfg (s, w))))
     \<and> (\<forall>i \<in> set (watchedInvites s). watchedInvites (deleteWatched i s) = remove1 i (watchedInvites s))"
  using assms(1) refs.keeps_sendInviteReward [of p cfg invite isRetry repo] refs.keeps_checkWatchedInvites [of p]
    refs.keeps_checkFailedInvites [OF assms(2), of cfg] deleteWatched_one
  unfolding preserves_def by auto

lemma watched_invites_distinct_witness:
  "refs_distinct (fst (snd (sendInviteReward (demoSender (Some 1) None) demoSenderConfig (demoReward ''0xa'') False demoRepo
      (rewardsStart, ([demoReward ''0xa''], [])))))"
proof -
  have "refs_distinct rewardsStart" by (simp add: refs_distinct_def rewardsStart_def)
  then show ?thesis
    using watched_invites_distinct [where s = rewardsStart and p = "demoSender (Some 1) None"]
    by (simp add: demoSender_def)
qed

text \<open>
  C30. A reward whose first sending the relayer carries out, but confirms only after the timeout, is paid
  twice: the row is marked as failed without a transaction hash, so the check of failed invites has
  nothing to look up and sends the same transfer again, then dead-letters the row.
\<close>

theorem late_reply_pays_twice:
  assumes late: "case delay of None \<Rightarrow> True | Some t \<Rightarrow> scRelayerRpcTimeoutMs cfg \<le> t"
    and "\<not> checkingFailedInvites s" and "irRewardTxHash r = None" and "irState r = RCreated"
  shows "\<exists>s1 w1 s2 row pay. sendInviteReward (demoSender delay status) cfg r False demoRepo (s, ([r], [])) = (Inr (), (s1, w1))
     \<and> checkFailedInvites (demoSender delay status) cfg (s1, w1) = (Inr (), (s2, ([row], [pay, pay])))
     \<and> irState row = RDeadLettered \<and> irRewardTxHash row = None \<and> txValue pay = ''0''
     \<and> data pay = irInviter r @ show_int (rewardAmount cfg)"
proof -
  let ?p = "demoSender delay status"
  let ?pay = "\<lparr>destination = ''0xtoken'', txValue = ''0'', data = irInviter r @ show_int (rewardAmount cfg)\<rparr>"
  have sub: "sendTxThroughRelayer ?p cfg ''0xtoken'' (irInviter r @ show_int (rewardAmount cfg)) i (u, (rs, txs))
      = (Inr (Err (RelayerTimeout (relayerCmdValue SubmitTransaction))), (u, (rs, txs @ [?pay])))" for i u rs txs
    using late by (auto simp: relaying_defs demoSender_def demoRewardRelay_def executeRelay_def ext_app
        split: option.splits)
  have send: "\<exists>u'. sendInviteReward ?p cfg x b demoRepo (u, ([r'], txs))
      = (Inr (), (u', ([r'\<lparr>irState := if b then RDeadLettered else RFailed\<rparr>], txs @ [?pay])))
      \<and> checkingFailedInvites u' = checkingFailedInvites u"
    if "irId x = irId r'" "irInviter x = irInviter r" "irRewardTxHash r' = None" for x b u r' txs
    using sub that
    by (simp add: sendInviteReward_def demoSender_def [of delay status] demoRepo_def setReward_def andThen_def ext_app
        ret_def rwEvent_def rwWrite_def trackSending_def)
  obtain s1 where s1: "sendInviteReward ?p cfg r False demoRepo (s, ([r], []))
      = (Inr (), (s1, ([r\<lparr>irState := RFailed\<rparr>], [?pay])))" "checkingFailedInvites s1 = checkingFailedInvites s"
    using send [of r r False s "[]"] assms(3) by auto
  let ?r1 = "r\<lparr>irState := RFailed\<rparr>"
  let ?s1 = "s1\<lparr>checkingFailedInvites := True, rwLog := rwLog s1 @
      [LogText LDebug (''Found '' @ show_nat 1 @ '' failed or submitted invites'')]\<rparr>"
  obtain s2 where s2: "sendInviteReward ?p cfg ?r1 True demoRepo (?s1, ([?r1], [?pay]))
      = (Inr (), (s2, ([?r1\<lparr>irState := RDeadLettered\<rparr>], [?pay, ?pay])))"
    using send [of ?r1 ?r1 True ?s1 "[?pay]"] assms(3) by auto
  have "findLocked ?p failedQuery ([?r1], [?pay]) = (Inr [?r1], ([?r1], [?pay]))"
    by (simp add: demoSender_def failedQuery_def MAX_INVITES_PER_QUERY_def)
  moreover have "spTxRepo ?p = demoRepo" "inTransaction ?p = (\<lambda>m. m)" by (simp_all add: demoSender_def)
  ultimately have "resendFailed ?p cfg (s1\<lparr>checkingFailedInvites := True\<rparr>, ([?r1], [?pay]))
      = (Inr (), (s2, ([?r1\<lparr>irState := RDeadLettered\<rparr>], [?pay, ?pay])))"
    using s2 assms(3)
    by (simp add: resendFailed_def checkFailedInvite_def andThen_def attempt_def ext_app rwWrite_def ret_app)
  then have "checkFailedInvites ?p cfg (s1, ([?r1], [?pay]))
      = (Inr (), (s2\<lparr>checkingFailedInvites := False\<rparr>, ([?r1\<lparr>irState := RDeadLettered\<rparr>], [?pay, ?pay])))"
    using s1(2) assms(2) \<open>inTransaction ?p = (\<lambda>m. m)\<close>
    by (simp add: checkFailedInvites_def guardedRun_def andThen_def finallyDo_def catching_def)
  with s1 assms(3) show ?thesis by fastforce
qed

lemma late_reply_pays_twice_witness:
  "\<exists>s1 w1 s2 row pay. sendInviteReward (demoSender (Some 6000) (Some True)) demoSenderConfig (demoReward ''0xa'') False demoRepo
       (rewardsStart, ([demoReward ''0xa''], [])) = (Inr (), (s1, w1))
     \<and> checkFailedInvites (demoSender (Some 6000) (Some True)) demoSenderConfig (s1, w1) = (Inr (), (s2, ([row], [pay, pay])))"
  using late_reply_pays_twice [where delay = "Some 6000" and cfg = demoSenderConfig and s = rewardsStart
      and r = "demoReward ''0xa''" and status = "Some True"]
  by (fastforce simp: demoSenderConfig_def demoReward_def rewardsStart_def)

text \<open>
  What the check of watched invites relies on: an update that succeeds changes the row with its id and one that fails
  changes none; reading a receipt changes none. \<open>rowsOf x\<close> are the rows with the id \<open>x\<close>.
\<close>

definition rows_by_updates :: "'w sender_port \<Rightarrow> ('w \<Rightarrow> invite_reward list) \<Rightarrow> bool" where
  "rows_by_updates p rows \<longleftrightarrow>
     (\<forall>x st h u q u'. updateReward (spRepo p) x st h u = (q, u') \<longrightarrow>
        rows u' = (case q of Inr _ \<Rightarrow> map (setReward x st h) (rows u) | Inl _ \<Rightarrow> rows u)) \<and>
     (\<forall>h u q u'. rewardReceipt p h u = (q, u') \<longrightarrow> rows u' = rows u)"

definition rowsOf :: "string \<Rightarrow> invite_reward list \<Rightarrow> invite_reward list" where
  "rowsOf x rows = filter (\<lambda>r. irId r = x) rows"

lemma rowsOf_setReward:
  "x \<noteq> y \<Longrightarrow> rowsOf x (map (setReward y st h) rows) = rowsOf x rows"
  "rowsOf x (map (setReward x st None) rows) = map (\<lambda>r. r\<lparr>irState := st\<rparr>) (rowsOf x rows)"
  by (induction rows) (auto simp: rowsOf_def setReward_def)

lemma other_rows_untouched:
  fixes p :: "'w sender_port"
  assumes "rows_by_updates p rows" and "wiInviteId j \<noteq> x"
  shows "preserves (\<lambda>sw. Q (rowsOf x (rows (snd sw)))) (checkWatchedInvite p j)"
proof -
  have "preserves (\<lambda>w. Q (rowsOf x (rows w))) (rewardReceipt p h)" for h
    using assms(1) unfolding rows_by_updates_def by (intro preservesI) metis
  then have receipt: "preserves (\<lambda>sw. Q (rowsOf x (rows (snd sw)))) (ext (rewardReceipt p h) :: ('w, _) rw_io)" for h
    using keeps_outside_ext [of "\<lambda>w. Q (rowsOf x (rows w))" "rewardReceipt p h"] by (simp add: keeps_outside_def)
  have "preserves (\<lambda>w. Q (rowsOf x (rows w))) (updateReward (spRepo p) (wiInviteId j) st h)" for st h
  proof (rule preservesI)
    fix w r w'
    assume "Q (rowsOf x (rows w))" and "updateReward (spRepo p) (wiInviteId j) st h w = (r, w')"
    moreover from this(2) assms(1) have "rows w' = (case r of Inr _ \<Rightarrow> map (setReward (wiInviteId j) st h) (rows w) | Inl _ \<Rightarrow> rows w)"
      unfolding rows_by_updates_def by blast
    ultimately show "Q (rowsOf x (rows w'))" using assms(2) by (auto simp: rowsOf_setReward split: sum.splits)
  qed
  then have update: "preserves (\<lambda>sw. Q (rowsOf x (rows (snd sw)))) (ext (updateReward (spRepo p) (wiInviteId j) st h) :: ('w, _) rw_io)"
    for st h
    using keeps_outside_ext [of "\<lambda>w. Q (rowsOf x (rows w))" "updateReward (spRepo p) (wiInviteId j) st h"]
    by (simp add: keeps_outside_def)
  show ?thesis
    unfolding checkWatchedInvite_def getTxStatus_def trackSending_def rwEvent_def rwWrite_def
    by (intro keeps receipt) (auto split: tx_status.split intro!: keeps update)
qed

lemma preserves_both: "preserves P m \<Longrightarrow> preserves Q m \<Longrightarrow> preserves (\<lambda>w. P w \<and> Q w) m"
  unfolding preserves_def by blast

lemma other_invite_untouched:
  assumes "wiRef j \<noteq> wiRef i"
  shows "preserves (\<lambda>sw. i \<in> set (watchedInvites (fst sw))) (checkWatchedInvite p j)"
    and "preserves (\<lambda>sw. wiRef i \<notin> wiRef ` set (watchedInvites (fst sw))) (checkWatchedInvite p j)"
  using assms unfolding checkWatchedInvite_def getTxStatus_def trackSending_def rwEvent_def rwWrite_def
  by (intro keeps; auto split: tx_status.split intro!: keeps simp: deleteWatched_def)+

lemma checkWatchedInvite_pending:
  assumes "rows_by_updates p rows" and "\<And>u r u'. rewardReceipt p (wiTxHash i) u = (r, u') \<Longrightarrow> r = Inr None"
    and "checkWatchedInvite p i sw = (r, sw')"
  shows "fst sw' = fst sw" and "rows (snd sw') = rows (snd sw)"
proof -
  obtain q u where q: "rewardReceipt p (wiTxHash i) (snd sw) = (q, u)" by (cases "rewardReceipt p (wiTxHash i) (snd sw)")
  with assms(1) have "rows u = rows (snd sw)" unfolding rows_by_updates_def by blast
  moreover from assms(2) q have "q = Inr None" by simp
  with q assms(3) have "sw' = (fst sw, u)"
    by (cases sw) (simp add: checkWatchedInvite_def getTxStatus_def andThen_def ext_app ret_def)
  ultimately show "fst sw' = fst sw" "rows (snd sw') = rows (snd sw)" by simp_all
qed

lemma checkWatchedInvite_settles:
  assumes "rows_by_updates p rows" and "\<And>u r u'. rewardReceipt p (wiTxHash i) u = (r, u') \<Longrightarrow> r = Inr (Some ok)"
    and "\<And>st u r u'. updateReward (spRepo p) (wiInviteId i) st None u = (r, u') \<Longrightarrow> r = Inr ()"
    and run: "checkWatchedInvite p i sw = (r, sw')"
  shows "wiRef i \<notin> wiRef ` set (watchedInvites (fst sw'))"
    and "rowsOf (wiInviteId i) (rows (snd sw')) = map (\<lambda>r. r\<lparr>irState :=
      if ok then RCompleted else if wiMarkAsDeadLetterIfFailed i then RDeadLettered else RFailed\<rparr>) (rowsOf (wiInviteId i) (rows (snd sw)))"
proof -
  obtain q u where q: "rewardReceipt p (wiTxHash i) (snd sw) = (q, u)" by (cases "rewardReceipt p (wiTxHash i) (snd sw)")
  with assms(2) have ok: "q = Inr (Some ok)" by blast
  let ?st = "if ok then RCompleted else if wiMarkAsDeadLetterIfFailed i then RDeadLettered else RFailed"
  obtain x v where v: "updateReward (spRepo p) (wiInviteId i) ?st None u = (x, v)"
    by (cases "updateReward (spRepo p) (wiInviteId i) ?st None u")
  with assms(3) have x: "x = Inr ()" by blast
  have "rows u = rows (snd sw)" using assms(1) q unfolding rows_by_updates_def by blast
  moreover have "rows v = (case x of Inr _ \<Rightarrow> map (setReward (wiInviteId i) ?st None) (rows u) | Inl _ \<Rightarrow> rows u)"
    using assms(1) v unfolding rows_by_updates_def by blast
  ultimately have rows: "rowsOf (wiInviteId i) (rows v) = map (\<lambda>r. r\<lparr>irState := ?st\<rparr>) (rowsOf (wiInviteId i) (rows (snd sw)))"
    using x by (simp only: sum.case rowsOf_setReward)
  from q ok v x run have sw': "snd sw' = v" "watchedInvites (fst sw') = filter (\<lambda>k. wiRef k \<noteq> wiRef i) (watchedInvites (fst sw))"
    by (cases sw; auto simp: checkWatchedInvite_def getTxStatus_def trackSending_def rwEvent_def rwWrite_def
        andThen_def ext_app ret_def deleteWatched_def split: if_splits)+
  then show "wiRef i \<notin> wiRef ` set (watchedInvites (fst sw'))" by auto
  show "rowsOf (wiInviteId i) (rows (snd sw')) = map (\<lambda>r. r\<lparr>irState := ?st\<rparr>) (rowsOf (wiInviteId i) (rows (snd sw)))"
    using rows sw' by simp
qed

lemma checkWatchedInvites_runs:
  assumes "\<not> checkingWatchedInvites s"
  shows "\<exists>q u. (settleAll (map (checkWatchedInvite p) (watchedInvites s)) :: ('w, (thrown + unit) list) rw_io)
        (s\<lparr>checkingWatchedInvites := True\<rparr>, w) = (Inr q, u)
     \<and> snd (checkWatchedInvites p (s, w)) = ((fst u)\<lparr>checkingWatchedInvites := False\<rparr>, snd u)"
proof -
  obtain q u where u: "(settleAll (map (checkWatchedInvite p) (watchedInvites s)) :: ('w, (thrown + unit) list) rw_io)
        (s\<lparr>checkingWatchedInvites := True\<rparr>, w) = (Inr q, u)"
    using never_throws_settleAll by (rule never_throwsE)
  with assms show ?thesis
    by (intro exI [of _ q] exI [of _ u])
      (cases u; simp add: checkWatchedInvites_def guardedRun_def andThen_def catching_def finallyDo_def getS_def ret_def)
qed

text \<open>
  C31. A check of the watched invites settles exactly what has a receipt, whatever happens to the other invites: an
  invite whose transaction succeeded is no longer watched and its row is completed; one whose transaction reverted is
  no longer watched and its row is failed, or dead-lettered when it was sent a second time; one without a
  receipt stays watched and its row as it was.
\<close>

theorem checkWatchedInvites_settles:
  assumes "refs_distinct s" and "\<not> checkingWatchedInvites s" and "i \<in> set (watchedInvites s)"
    and "\<forall>j \<in> set (watchedInvites s). j \<noteq> i \<longrightarrow> wiInviteId j \<noteq> wiInviteId i"
    and "rows_by_updates p rows"
    and receipt: "\<forall>u q u'. rewardReceipt p (wiTxHash i) u = (q, u') \<longrightarrow> q = Inr receipt"
    and update: "\<forall>st u q u'. updateReward (spRepo p) (wiInviteId i) st None u = (q, u') \<longrightarrow> q = Inr ()"
    and run: "checkWatchedInvites p (s, w) = (r, (s', w'))"
  shows "case receipt of
       None \<Rightarrow> i \<in> set (watchedInvites s') \<and> rowsOf (wiInviteId i) (rows w') = rowsOf (wiInviteId i) (rows w)
     | Some ok \<Rightarrow> i \<notin> set (watchedInvites s')
         \<and> (\<forall>row \<in> set (rows w'). irId row = wiInviteId i \<longrightarrow> irState row =
              (if ok then RCompleted else if wiMarkAsDeadLetterIfFailed i then RDeadLettered else RFailed))"
proof -
  obtain q u where all: "(settleAll (map (checkWatchedInvite p) (watchedInvites s)) :: ('a, (thrown + unit) list) rw_io)
        (s\<lparr>checkingWatchedInvites := True\<rparr>, w) = (Inr q, u)" and end_state: "watchedInvites s' = watchedInvites (fst u)" "w' = snd u"
    using checkWatchedInvites_runs [OF assms(2), of p w] run by auto
  have other: "wiRef j \<noteq> wiRef i" "wiInviteId j \<noteq> wiInviteId i" if "j \<in> set (watchedInvites s)" "j \<noteq> i" for j
    using that assms(1,3,4) by (auto simp: refs_distinct_def distinct_map inj_on_def)
  show ?thesis
  proof (cases receipt)
    case None
    let ?Q = "\<lambda>sw. i \<in> set (watchedInvites (fst sw)) \<and> rowsOf (wiInviteId i) (rows (snd sw)) = rowsOf (wiInviteId i) (rows w)"
    have "preserves ?Q (checkWatchedInvite p j)" if "j \<in> set (watchedInvites s)" for j
    proof (cases "j = i")
      case True
      show ?thesis
        unfolding True
      proof (rule preservesI)
        fix v x v'
        assume "?Q v" and ran: "checkWatchedInvite p i v = (x, v')"
        have "q = Inr None" if "rewardReceipt p (wiTxHash i) u = (q, u')" for u q u' using that receipt None by blast
        from checkWatchedInvite_pending [OF assms(5) this ran]
        have "fst v' = fst v" "rows (snd v') = rows (snd v)" by simp_all
        with \<open>?Q v\<close> show "?Q v'" by simp
      qed
    next
      case False
      from other [OF that False] show ?thesis
        by (intro preserves_both other_invite_untouched
            other_rows_untouched [OF assms(5), where Q = "\<lambda>R. R = rowsOf (wiInviteId i) (rows w)"])
    qed
    then have "preserves ?Q (settleAll (map (checkWatchedInvite p) (watchedInvites s)) :: ('a, (thrown + unit) list) rw_io)"
      by (intro preserves_settleAll) auto
    from preservesD [OF this _ all] assms(3) None end_state show ?thesis by simp
  next
    case (Some ok)
    let ?st = "if ok then RCompleted else if wiMarkAsDeadLetterIfFailed i then RDeadLettered else RFailed"
    let ?Q = "\<lambda>sw. wiRef i \<notin> wiRef ` set (watchedInvites (fst sw))
        \<and> (\<forall>row \<in> set (rowsOf (wiInviteId i) (rows (snd sw))). irState row = ?st)"
    have settles: "?Q v'" if "checkWatchedInvite p i v = (x, v')" for v x v'
    proof -
      have "\<And>u q u'. rewardReceipt p (wiTxHash i) u = (q, u') \<Longrightarrow> q = Inr (Some ok)" using receipt Some by blast
      moreover have "\<And>st u q u'. updateReward (spRepo p) (wiInviteId i) st None u = (q, u') \<Longrightarrow> q = Inr ()"
        using update by blast
      ultimately show ?thesis
        using checkWatchedInvite_settles [OF assms(5) _ _ that, of ok] by simp
    qed
    have "?Q u"
    proof (rule settleAll_establishes [OF _ _ settles all])
      show "checkWatchedInvite p i \<in> set (map (checkWatchedInvite p) (watchedInvites s))" using assms(3) by simp
      fix m assume "m \<in> set (map (checkWatchedInvite p) (watchedInvites s))"
      then obtain j where j: "j \<in> set (watchedInvites s)" "m = checkWatchedInvite p j" by auto
      show "preserves ?Q m"
      proof (cases "j = i")
        case True
        with settles j(2) show ?thesis by (intro preservesI) blast
      next
        case False
        from other [OF j(1) False] show ?thesis
          unfolding j(2) by (intro preserves_both other_invite_untouched
              other_rows_untouched [OF assms(5), where Q = "\<lambda>R. \<forall>row \<in> set R. irState row = ?st"])
      qed
    qed
    with Some end_state show ?thesis by (auto simp: rowsOf_def)
  qed
qed

definition demoWatched :: watched_invite where
  "demoWatched = \<lparr>wiRef = 0, wiInviteId = ''r1'', wiTxHash = ''0xhash'', wiSentAt = 0, wiMarkAsDeadLetterIfFailed = True\<rparr>"

lemma checkWatchedInvites_settles_witness:
  "let (r, s', w') = checkWatchedInvites (demoSender (Some 1) (Some False))
      (rewardsStart\<lparr>watchedInvites := [demoWatched], nextRef := 1\<rparr>, ([demoReward ''0xa''], []))
   in demoWatched \<notin> set (watchedInvites s') \<and> (\<forall>row \<in> set (fst w'). irId row = ''r1'' \<longrightarrow> irState row = RDeadLettered)"
proof -
  let ?s = "rewardsStart\<lparr>watchedInvites := [demoWatched], nextRef := 1\<rparr>"
  obtain r s' w' where run: "checkWatchedInvites (demoSender (Some 1) (Some False)) (?s, ([demoReward ''0xa''], [])) = (r, (s', w'))"
    by (metis prod.collapse)
  have start: "refs_distinct ?s" "\<not> checkingWatchedInvites ?s" "demoWatched \<in> set (watchedInvites ?s)"
    "\<forall>j \<in> set (watchedInvites ?s). j \<noteq> demoWatched \<longrightarrow> wiInviteId j \<noteq> wiInviteId demoWatched"
    by (simp_all add: refs_distinct_def rewardsStart_def demoWatched_def)
  have port: "rows_by_updates (demoSender (Some 1) (Some False)) fst"
    by (auto simp: rows_by_updates_def demoSender_def demoRepo_def ret_def)
  have "\<forall>u q u'. rewardReceipt (demoSender (Some 1) (Some False)) (wiTxHash demoWatched) u = (q, u') \<longrightarrow> q = Inr (Some False)"
    "\<forall>st u q u'. updateReward (spRepo (demoSender (Some 1) (Some False))) (wiInviteId demoWatched) st None u = (q, u') \<longrightarrow> q = Inr ()"
    by (simp_all add: demoSender_def demoRepo_def ret_def)
  from checkWatchedInvites_settles [OF start port this run] run show ?thesis
    by (simp add: demoWatched_def)
qed

text \<open>
  The trace identifiers under which a relayer has been asked to submit, \<open>relayed\<close>, change by a submission
  only; a database transaction runs its body once, and what it undoes is in the database.
\<close>

definition only_relay_submits :: "'w sender_port \<Rightarrow> ('w \<Rightarrow> string list) \<Rightarrow> bool" where
  "only_relay_submits p relayed \<longleftrightarrow>
     (\<forall>Q. (\<forall>h. preserves (\<lambda>w. Q (relayed w)) (rewardReceipt p h)) \<and> (\<forall>q. preserves (\<lambda>w. Q (relayed w)) (findLocked p q)) \<and>
        (\<forall>t. preserves (\<lambda>w. Q (relayed w)) (tokenAddress p t)) \<and>
        (\<forall>i st h. preserves (\<lambda>w. Q (relayed w)) (updateReward (spTxRepo p) i st h)) \<and>
        (\<forall>w. Q (relayed w) \<longrightarrow> Q (relayed (snd (spNow p w)))) \<and>
        (\<forall>m. keeps_outside (\<lambda>w. Q (relayed w)) m \<longrightarrow> keeps_outside (\<lambda>w. Q (relayed w)) (inTransaction p m))) \<and>
     (\<forall>cmd input ctx w. relayed (snd (relaySend (spRelay p) cmd input ctx w)) = traceId ctx # relayed w)"

text \<open>An invite that the check may send: the query returned it, and its transaction is missing or reverted.\<close>

definition sendable :: "'w sender_port \<Rightarrow> invite_reward \<Rightarrow> bool" where
  "sendable p r \<longleftrightarrow>
     (\<exists>u rs u'. findLocked p failedQuery u = (Inr rs, u') \<and> r \<in> set rs) \<and>
     (irRewardTxHash r \<in> {None, Some []} \<or>
      (\<exists>h u u'. irRewardTxHash r = Some h \<and> rewardReceipt p h u = (Inr (Some False), u')))"

lemma keeps_outside_andThen_result:
  "keeps_outside Q m \<Longrightarrow> (\<And>x u u'. m u = (Inr x, u') \<Longrightarrow> keeps_outside Q (f x)) \<Longrightarrow> keeps_outside Q (andThen m f)"
  unfolding keeps_outside_def by (rule preserves_andThen_result)

lemma keeps_outside_modS: "keeps_outside Q (modS g)" "keeps_outside Q (getS f)" "keeps_outside Q (trackSending st h i)"
  unfolding trackSending_def rwEvent_def rwWrite_def keeps_outside_def by (intro keeps; simp)+

lemma keeps_outside_settle_forEach:
  "(\<And>m. m \<in> set ms \<Longrightarrow> keeps_outside Q m) \<Longrightarrow> keeps_outside Q (settleAll ms)"
  "(\<And>x. keeps_outside Q (f x)) \<Longrightarrow> keeps_outside Q (forEach f xs)"
  unfolding keeps_outside_def by (auto intro: keeps)

lemma keeps_outside_guardedRun:
  "keeps_outside Q skipped \<Longrightarrow> keeps_outside Q body \<Longrightarrow> keeps_outside Q (guardedRun get set_flag skipped body)"
  unfolding keeps_outside_def guardedRun_def by (intro keeps; auto)

lemma getTxStatus_failed:
  "getTxStatus p h sw = (Inr TxFailed, sw') \<Longrightarrow> \<exists>u u'. rewardReceipt p h u = (Inr (Some False), u')"
  by (cases sw; cases sw') (auto simp: getTxStatus_def runs split: option.splits if_splits)

lemma only_relay_submitsD:
  assumes "only_relay_submits p relayed"
  shows "preserves (\<lambda>w. Q (relayed w)) (rewardReceipt p h)" and "preserves (\<lambda>w. Q (relayed w)) (findLocked p q)"
    and "preserves (\<lambda>w. Q (relayed w)) (tokenAddress p t)"
    and "preserves (\<lambda>w. Q (relayed w)) (updateReward (spTxRepo p) i st x)"
    and "Q (relayed w) \<Longrightarrow> Q (relayed (snd (spNow p w)))"
    and "keeps_outside (\<lambda>w. Q (relayed w)) m \<Longrightarrow> keeps_outside (\<lambda>w. Q (relayed w)) (inTransaction p m)"
  using assms [unfolded only_relay_submits_def, THEN conjunct1, THEN spec [of _ Q]] by simp_all

lemma only_relay_submits_relay:
  "only_relay_submits p relayed \<Longrightarrow> relayed (snd (relaySend (spRelay p) cmd input ctx w)) = traceId ctx # relayed w"
  by (simp add: only_relay_submits_def)

lemma sendTx_relays:
  assumes "only_relay_submits p relayed" and "\<And>L. Q L \<Longrightarrow> Q (i # L)"
  shows "keeps_outside (\<lambda>w. Q (relayed w)) (sendTxThroughRelayer p cfg token transfer i)"
  unfolding relaying_defs
proof (intro keeps_outside_ext preservesI)
  let ?req = "\<lparr>reqId = i, reqSession = None\<rparr>"
    and ?input = "SubmitTransactionInput \<lparr>destination = token, txValue = ''0'', data = transfer\<rparr>"
  fix w r w'
  assume Q: "Q (relayed w)"
    and run: "executeRelay (spRelay p) (scRelayerRpcTimeoutMs cfg) ?req SubmitTransaction ?input w = (r, w')"
  from run have "w' = snd (relaySend (spRelay p) SubmitTransaction ?input (requestContext ?req) w)"
    by (auto simp: executeRelay_def split: prod.splits)
  with assms Q show "Q (relayed w')"
    by (simp add: only_relay_submits_relay [OF assms(1)] requestContext_def)
qed

lemma sendInviteReward_relays:
  assumes "only_relay_submits p relayed" and "\<And>L. Q L \<Longrightarrow> Q (irId invite # L)"
  shows "keeps_outside (\<lambda>w. Q (relayed w)) (sendInviteReward p cfg invite isRetry (spTxRepo p))"
proof -
  have "keeps_outside (\<lambda>w. Q (relayed w)) (rwNow p)"
    unfolding rwNow_def using only_relay_submitsD(5) [OF assms(1), of Q]
    by (intro keeps_outside_ext preservesI) (metis (no_types, lifting) case_prod_conv prod.collapse snd_conv)
  then show ?thesis
    unfolding sendInviteReward_def
    by (intro keeps_outside keeps_outside_modS only_relay_submitsD(3,4) [OF assms(1)] sendTx_relays assms)
      (auto split: result.split intro!: keeps_outside keeps_outside_modS only_relay_submitsD(4) [OF assms(1)])
qed

text \<open>
  C29. The check of failed invites pays nobody twice that it can tell was paid: it asks the relayer to pay
  only invites that the locked query returned, for rows that are created, submitted or failed, and whose
  transaction is missing or has a receipt that says it reverted; a pending or completed one is left alone.
\<close>

theorem resends_only_unpaid:
  assumes "only_relay_submits p relayed"
    and "checkFailedInvites p cfg (s, w) = (r, (s', w'))" and "i \<in> set (relayed w')"
  shows "i \<in> set (relayed w) \<or> (\<exists>invite. irId invite = i \<and> sendable p invite)"
proof -
  let ?Q = "\<lambda>L. \<forall>i \<in> set L. i \<in> set (relayed w) \<or> (\<exists>invite. irId invite = i \<and> sendable p invite)"
  note D = only_relay_submitsD [OF assms(1), where Q = ?Q]
  have one: "keeps_outside (\<lambda>w. ?Q (relayed w)) (checkFailedInvite p cfg invite)"
    if found: "findLocked p failedQuery u = (Inr rs, u')" "invite \<in> set rs" for invite u rs u'
    unfolding checkFailedInvite_def
  proof (rule keeps_outside_andThen_result)
    show "keeps_outside (\<lambda>w. ?Q (relayed w)) (case irRewardTxHash invite of
        Some h \<Rightarrow> if h \<noteq> [] then getTxStatus p h else ret TxFailed | None \<Rightarrow> ret TxFailed)"
      unfolding getTxStatus_def by (auto split: option.split intro!: keeps_outside D(1))
    fix status v v'
    assume st: "(case irRewardTxHash invite of
        Some h \<Rightarrow> if h \<noteq> [] then getTxStatus p h else ret TxFailed | None \<Rightarrow> ret TxFailed) v = (Inr status, v')"
    show "keeps_outside (\<lambda>w. ?Q (relayed w)) (case status of
         TxCompleted \<Rightarrow>
           andThen (ext (updateReward (spTxRepo p) (irId invite) RCompleted None)) (\<lambda>_.
           trackSending SendCompleted (irRewardTxHash invite) (irId invite))
       | TxFailed \<Rightarrow> sendInviteReward p cfg invite True (spTxRepo p)
       | TxPending \<Rightarrow> ret ())"
    proof (cases status)
      case TxFailed
      with st have "irRewardTxHash invite \<in> {None, Some []} \<or>
          (\<exists>h. irRewardTxHash invite = Some h \<and> getTxStatus p h v = (Inr TxFailed, v'))"
        by (auto split: option.splits if_splits)
      then have "sendable p invite"
        using found getTxStatus_failed unfolding sendable_def by blast
      then have "keeps_outside (\<lambda>w. ?Q (relayed w)) (sendInviteReward p cfg invite True (spTxRepo p))"
        by (intro sendInviteReward_relays assms(1)) auto
      with TxFailed show ?thesis by simp
    qed (auto intro!: keeps_outside keeps_outside_modS D(4))
  qed
  have "keeps_outside (\<lambda>w. ?Q (relayed w)) (resendFailed p cfg)"
    unfolding resendFailed_def
  proof (rule keeps_outside_andThen_result)
    show "keeps_outside (\<lambda>w. ?Q (relayed w)) (ext (findLocked p failedQuery))" by (intro keeps_outside_ext D(2))
    fix invites and u u' :: "rewards \<times> 'a"
    assume "ext (findLocked p failedQuery) u = (Inr invites, u')"
    then obtain v v' where "findLocked p failedQuery v = (Inr invites, v')"
      by (cases u; cases u') (auto simp: ext_eq_iff)
    then show "keeps_outside (\<lambda>w. ?Q (relayed w)) (andThen (if invites \<noteq> []
              then rwWrite (LogText LDebug (''Found '' @ show_nat (length invites) @ '' failed or submitted invites''))
              else ret ()) (\<lambda>_.
        andThen (settleAll (map (checkFailedInvite p cfg) invites)) (\<lambda>results.
        forEach (\<lambda>r. case r of Inl e \<Rightarrow> unexpected ''Resending failed invites'' e | Inr u \<Rightarrow> ret ()) results)))"
      by (intro keeps_outside keeps_outside_settle_forEach)
        (auto intro!: one keeps_outside split: sum.split)
  qed
  then have "keeps_outside (\<lambda>w. ?Q (relayed w)) (checkFailedInvites p cfg)"
    unfolding checkFailedInvites_def
    by (intro keeps_outside_guardedRun keeps_outside_catching keeps_outside_rwEvent D(6))
      (auto intro!: keeps_outside split: option.split)
  from keeps_outsideD [OF this assms(2)] assms(3) show ?thesis by auto
qed

text \<open>A relayer that keeps the trace identifiers it was given, in a world of rows and identifiers\<close>

definition demoTracing :: "(invite_reward list \<times> string list) sender_port" where
  "demoTracing =
     \<lparr>spRepo = \<lparr>updateReward = (\<lambda>i st h w. (Inr (), (map (setReward i st h) (fst w), snd w)))\<rparr>,
      spTxRepo = \<lparr>updateReward = (\<lambda>i st h w. (Inr (), (map (setReward i st h) (fst w), snd w)))\<rparr>,
      inTransaction = (\<lambda>m. m),
      findLocked = (\<lambda>q w. (Inr (take (qLimit q) (filter (\<lambda>r. irState r \<in> set (qStates q)) (fst w))), w)),
      rewardReceipt = (\<lambda>h. ret (Some True)), tokenAddress = (\<lambda>t. ret ''0xtoken''),
      encodeTransfer = (\<lambda>a n. a),
      spRelay = \<lparr>relaySend = (\<lambda>cmd input ctx w.
        ((Some 1, Inr \<lparr>rrPayload = ''0xhash'', rrAddress = ''0xrelayer''\<rparr>), (fst w, traceId ctx # snd w)))\<rparr>,
      spNow = (\<lambda>w. (0, w))\<rparr>"

lemma resends_only_unpaid_witness:
  "let w' = snd (snd (checkFailedInvites demoTracing demoSenderConfig
      (rewardsStart, ([demoReward ''0xa'', (demoReward ''0xb'')\<lparr>irId := ''r2'', irRewardTxHash := Some ''0xh''\<rparr>], []))))
   in snd w' = [''r1''] \<and> (\<exists>invite. irId invite = ''r1'' \<and> sendable demoTracing invite)"
proof -
  let ?rows = "[demoReward ''0xa'', (demoReward ''0xb'')\<lparr>irId := ''r2'', irRewardTxHash := Some ''0xh''\<rparr>]"
  let ?r = "checkFailedInvites demoTracing demoSenderConfig (rewardsStart, (?rows, []))"
  obtain r s' w' where run: "?r = (r, (s', w'))" by (metis prod.collapse)
  have "snd (snd (snd ?r)) = [''r1'']" by code_simp
  with run have sent: "snd w' = [''r1'']" by simp
  have "only_relay_submits demoTracing snd"
    by (auto simp: only_relay_submits_def demoTracing_def preserves_def ret_def)
  from resends_only_unpaid [OF this run, of "''r1''"] sent run show ?thesis by simp
qed

end
