(* ===== verification/Invite_Reward.thy ===== *)
theory Invite_Reward
  imports Reward_Sender
begin

text \<open>
  Which invites are rewarded (\<open>packages/apps/rewards/src/invite/inviteReward.service.ts\<close>): a withdrawal from
  the escrow that a relayer sent for an invitee, checked against the attestations, the inviter's weekly
  limit and the rewards there are, becomes a row of the table, unique per invitee, and is sent.
\<close>

section \<open>Port and configuration\<close>

text \<open>The sender and recipient of a transaction, as \<open>web3.eth.getTransaction\<close> gives them (or null)\<close>

record withdrawal_tx =
  wtFrom :: string
  wtTo :: "string option"

text \<open>
  The addresses of the two token contracts; the transaction of a hash; the distinct pairs of identifier and
  address attested for some addresses; whether an address is verified for an identifier
  (\<open>isAccountConsideredVerified\<close> of its attestation statistics); the number of rewards of an inviter this
  week that did not fail; the reward of an invitee; and the insertion of a row.
\<close>

record 'w invite_port =
  ipCopies :: "'w copies_port"
  ipSender :: "'w sender_port"
  stableTokenAddress :: "stable_token \<Rightarrow> ('w, thrown, string) io"
  withdrawalTx :: "string \<Rightarrow> ('w, thrown, withdrawal_tx option) io"
  attestedPairs :: "string list \<Rightarrow> ('w, thrown, (string \<times> string) list) io"
  verifiedFor :: "string \<Rightarrow> string \<Rightarrow> ('w, thrown, bool) io"
  weeklyInvites :: "string \<Rightarrow> ('w, thrown, nat) io"
  rewardOfInvitee :: "string \<Rightarrow> ('w, thrown, invite_reward option) io"
  rewardSave :: "invite_reward \<Rightarrow> ('w, thrown, invite_reward) io"

record invite_config =
  icNetwork :: network_config
  icSender :: sender_config
  shouldSendRewards :: bool

text \<open>
  \<open>process.env.SHOULD_SEND_REWARDS || false\<close> (\<open>config/app.config.ts\<close>), as the condition it is used in: every
  string but the empty one is true.
\<close>

definition shouldSendRewardsConfig :: "(string \<Rightarrow> string option) \<Rightarrow> bool" where
  "shouldSendRewardsConfig env =
     (case env ''SHOULD_SEND_REWARDS'' of None \<Rightarrow> False | Some v \<Rightarrow> v \<noteq> [])"

section \<open>The service\<close>

definition WEEKLY_INVITE_LIMIT :: nat where
  "WEEKLY_INVITE_LIMIT = 20"

definition komenciAddresses :: "network_config \<Rightarrow> string list" where
  "komenciAddresses cfg = map relayerAccount (relayers cfg)"

definition isKomenciSender :: "network_config \<Rightarrow> string \<Rightarrow> bool" where
  "isKomenciSender cfg address \<longleftrightarrow> js_lower address \<in> set (komenciAddresses cfg)"

definition getInviteToken :: "string \<Rightarrow> ('w, stable_token option) rw_io" where
  "getInviteToken token =
     andThen (getS cUsdTokenAddress) (\<lambda>cUsd.
     andThen (getS cEurTokenAddress) (\<lambda>cEur.
     ret (if cUsd = Some token then Some CUSD else if cEur = Some token then Some CEUR else None)))"

definition notRewarded ::
    "string \<Rightarrow> string \<Rightarrow> string option \<Rightarrow> string \<Rightarrow> not_rewarded_reason \<Rightarrow> ('w, unit) rw_io" where
  "notRewarded txHash inviter invitee paymentId reason =
     rwEvent (EvInviteNotRewarded txHash inviter invitee paymentId reason)"

definition isAddressVerifiedWithIdentifier :: "'w invite_port \<Rightarrow> string \<Rightarrow> string \<Rightarrow> ('w, bool) rw_io" where
  "isAddressVerifiedWithIdentifier p address identifier = ext (verifiedFor p address identifier)"

text \<open>\<open>for (const attestation of attestations)\<close>: returns at the first pair that is verified\<close>

primrec anyVerified :: "'w invite_port \<Rightarrow> (string \<times> string) list \<Rightarrow> ('w, bool) rw_io" where
  "anyVerified p [] = ret False"
| "anyVerified p (x # xs) =
     andThen (isAddressVerifiedWithIdentifier p (snd x) (fst x)) (\<lambda>ok.
     if ok then ret True else anyVerified p xs)"

definition isAddressVerified :: "'w invite_port \<Rightarrow> string \<Rightarrow> ('w, bool) rw_io" where
  "isAddressVerified p address =
     andThen (findAccountAddresses (ipCopies p) address) (\<lambda>accounts.
     andThen (ext (attestedPairs p accounts)) (\<lambda>pairs. anyVerified p pairs))"

definition inviterHasNotReachedWeeklyLimit :: "'w invite_port \<Rightarrow> string \<Rightarrow> ('w, bool) rw_io" where
  "inviterHasNotReachedWeeklyLimit p inviter =
     andThen (ext (weeklyInvites p inviter)) (\<lambda>invites. ret (invites < WEEKLY_INVITE_LIMIT))"

definition inviteeRewardNotInProgress :: "'w invite_port \<Rightarrow> string \<Rightarrow> ('w, bool) rw_io" where
  "inviteeRewardNotInProgress p invitee =
     andThen (ext (rewardOfInvitee p invitee)) (\<lambda>reward. ret (reward = None))"

text \<open>The four checks with their reasons, in order; every check that failed is tracked.\<close>

definition inviteChecks ::
    "'w invite_port \<Rightarrow> string \<Rightarrow> string \<Rightarrow> string \<Rightarrow> (('w, bool) rw_io \<times> not_rewarded_reason) list" where
  "inviteChecks p inviter invitee identifier =
     [(isAddressVerified p inviter, InviterNotVerified),
      (isAddressVerifiedWithIdentifier p invitee identifier, InviteeNotVerified),
      (inviterHasNotReachedWeeklyLimit p inviter, InviterReachedWeeklyLimit),
      (inviteeRewardNotInProgress p invitee, InviteeAlreadyInvited)]"

primrec trackFailedChecks ::
    "(not_rewarded_reason \<Rightarrow> ('w, unit) rw_io) \<Rightarrow> (bool \<times> not_rewarded_reason) list \<Rightarrow> bool \<Rightarrow> ('w, bool) rw_io" where
  "trackFailedChecks track [] conditionsAreMet = ret conditionsAreMet"
| "trackFailedChecks track (r # rs) conditionsAreMet =
     (if \<not> fst r then andThen (track (snd r)) (\<lambda>_. trackFailedChecks track rs False)
      else trackFailedChecks track rs conditionsAreMet)"

definition inviteRewardConditionsAreMet ::
    "'w invite_port \<Rightarrow> string \<Rightarrow> string \<Rightarrow> string \<Rightarrow> string \<Rightarrow> string \<Rightarrow> ('w, bool) rw_io" where
  "inviteRewardConditionsAreMet p inviter invitee identifier paymentId txHash =
     (let checks = inviteChecks p inviter invitee identifier in
      andThen (promiseAll (map fst checks)) (\<lambda>results.
      trackFailedChecks (notRewarded txHash inviter (Some invitee) paymentId) (zip results (map snd checks)) True))"

definition createInviteReward ::
    "'w invite_port \<Rightarrow> string \<Rightarrow> string \<Rightarrow> string \<Rightarrow> string \<Rightarrow> stable_token \<Rightarrow> string \<Rightarrow>
     ('w, invite_reward option) rw_io" where
  "createInviteReward p inviter invitee identifier paymentId inviteToken txHash =
     ignoringDuplicates (''Creating invite reward for tx hash '' @ txHash)
       (andThen (ext (rwUuid (cpEvents (ipCopies p)))) (\<lambda>i.
        andThen (rwNow (ipSender p)) (\<lambda>now.
        andThen (ext (rewardSave p \<lparr>irId = i, irInviter = inviter, irInvitee = invitee, irInviteeIdentifier = identifier,
          irState = RCreated, irRewardTxHash = None, irInviteToken = inviteToken, irCreatedAt = now\<rparr>)) (\<lambda>saved.
        andThen (rwEvent (EvInviteRewardCreated txHash i inviter invitee paymentId)) (\<lambda>_. ret saved)))))"

text \<open>
  \<open>handleWithdrawalEvent\<close>, from the conditions on, from the transaction on, and as a whole. The reward is
  sent without waiting for the outcome, which nothing looks at; here the sending runs before the handler
  returns.
\<close>

definition rewardInvite ::
    "'w invite_port \<Rightarrow> invite_config \<Rightarrow> event_log \<Rightarrow> string \<Rightarrow> string \<Rightarrow> stable_token \<Rightarrow> ('w, unit) rw_io" where
  "rewardInvite p cfg ev inviter invitee inviteToken =
     andThen (inviteRewardConditionsAreMet p inviter invitee (evReturn ev ''identifier'') (evReturn ev ''paymentId'')
       (evTxHash ev)) (\<lambda>met.
     if \<not> met then ret ()
     else
       andThen (createInviteReward p inviter invitee (evReturn ev ''identifier'') (evReturn ev ''paymentId'') inviteToken
         (evTxHash ev)) (\<lambda>reward.
       case reward of
         None \<Rightarrow> ret ()
       | Some r \<Rightarrow>
           andThen (attempt (sendInviteReward (ipSender p) (icSender cfg) r False (spRepo (ipSender p)))) (\<lambda>_. ret ())))"

definition handleRedeemTx ::
    "'w invite_port \<Rightarrow> invite_config \<Rightarrow> event_log \<Rightarrow> string \<Rightarrow> stable_token \<Rightarrow> withdrawal_tx \<Rightarrow> ('w, unit) rw_io" where
  "handleRedeemTx p cfg ev inviter inviteToken tx =
     (let invitee = map_option js_lower (wtTo tx) in
      if invitee = None \<or> invitee = Some []
      then notRewarded (evTxHash ev) inviter None (evReturn ev ''paymentId'') NoInviteeFound
      else if \<not> isKomenciSender (icNetwork cfg) (wtFrom tx)
      then notRewarded (evTxHash ev) inviter invitee (evReturn ev ''paymentId'') NotKomenciRedeem
      else rewardInvite p cfg ev inviter (the invitee) inviteToken)"

definition handleWithdrawalEvent ::
    "'w invite_port \<Rightarrow> invite_config \<Rightarrow> event_log \<Rightarrow> ('w, unit) rw_io" where
  "handleWithdrawalEvent p cfg ev =
     (let inviter = js_lower (evReturn ev ''to'') in
      andThen (getInviteToken (js_lower (evReturn ev ''token''))) (\<lambda>token.
      case token of
        None \<Rightarrow> notRewarded (evTxHash ev) inviter None (evReturn ev ''paymentId'') NotStableTokenInvite
      | Some inviteToken \<Rightarrow>
          andThen (ext (withdrawalTx p (evTxHash ev))) (\<lambda>tx.
          case tx of
            None \<Rightarrow> throw (typeError ''Cannot read property of null'')
          | Some t \<Rightarrow> handleRedeemTx p cfg ev inviter inviteToken t)))"

definition sendInviteRewards :: "'w invite_port \<Rightarrow> invite_config \<Rightarrow> ('w, unit) rw_io" where
  "sendInviteRewards p cfg =
     (if \<not> shouldSendRewards cfg
      then rwWrite (LogText LInfo ''Skipping sending reward because SHOULD_SEND_REWARDS env var is false'')
      else
        andThen (ext (stableTokenAddress p CUSD)) (\<lambda>cUsd.
        andThen (modS (\<lambda>s. s\<lparr>cUsdTokenAddress := Some (js_lower cUsd)\<rparr>)) (\<lambda>_.
        andThen (ext (stableTokenAddress p CEUR)) (\<lambda>cEur.
        andThen (modS (\<lambda>s. s\<lparr>cEurTokenAddress := Some (js_lower cEur)\<rparr>)) (\<lambda>_.
        andThen (ext (loadContract (cpEvents (ipCopies p)) ''Escrow'')) (\<lambda>_.
        runEventProcessingPolling (cpEvents (ipCopies p)) ''inviteReward'' ''Withdrawal'' Latest
          (handleWithdrawalEvent p cfg) (\<lambda>fromBlock n. EvEscrowWithdrawalEventsFetched n fromBlock)))))))"

text \<open>
  The endpoint \<open>GET invite_reward\<close> (\<open>inviteReward.controller.ts\<close>): the repository's \<open>findOne({rewardTxHash})\<close> with the
  parameter \<open>tx_hash\<close> of the query, which is \<open>undefined\<close> when there is none. TypeORM leaves out a condition whose
  value is \<open>undefined\<close>, so that any row fits.
\<close>

definition inviteRewardEndpoint ::
    "(string option \<Rightarrow> ('w, thrown, invite_reward option) io) \<Rightarrow> string option \<Rightarrow> ('w, thrown, invite_reward option) io" where
  "inviteRewardEndpoint findOneByRewardTxHash txHash = findOneByRewardTxHash txHash"

definition finds_by_hash ::
    "('w \<Rightarrow> invite_reward list) \<Rightarrow> (string option \<Rightarrow> ('w, thrown, invite_reward option) io) \<Rightarrow> bool" where
  "finds_by_hash rows findOne \<longleftrightarrow>
     (\<forall>h w. findOne h w = (Inr (find (\<lambda>r. h = None \<or> irRewardTxHash r = h) (rows w)), w))"

lemma inviteReward_of_hash:
  assumes "finds_by_hash rows findOne" and "distinct (map irRewardTxHash (rows w))" and "r \<in> set (rows w)"
    and "irRewardTxHash r = Some h"
  shows "inviteRewardEndpoint findOne (Some h) w = (Inr (Some r), w)"
proof -
  have "find (\<lambda>r. irRewardTxHash r = Some h) rs = Some r"
    if "distinct (map irRewardTxHash rs)" "r \<in> set rs" for rs
    using that assms(4) by (induction rs) (auto simp: rev_image_eqI)
  with assms show ?thesis by (simp add: inviteRewardEndpoint_def finds_by_hash_def)
qed

lemma inviteReward_without_hash:
  assumes "finds_by_hash rows findOne" and "rows w = r # rs"
  shows "inviteRewardEndpoint findOne None w = (Inr (Some r), w)"
  using assms by (simp add: inviteRewardEndpoint_def finds_by_hash_def)

section \<open>What a met condition means\<close>

lemma trackFailedChecks_True:
  "trackFailedChecks track rs b sw = (Inr True, sw') \<Longrightarrow> b \<and> (\<forall>r \<in> set rs. fst r)"
  by (induction rs arbitrary: b sw) (auto simp: andThen_eq_Inr ret_def split: if_splits)

lemma conditions_met:
  assumes "inviteRewardConditionsAreMet p inviter invitee identifier paymentId txHash sw = (Inr True, sw')"
  shows "(\<exists>u u'. isAddressVerified p inviter u = (Inr True, u'))
     \<and> (\<exists>u u'. verifiedFor p invitee identifier u = (Inr True, u'))
     \<and> (\<exists>n u u'. n < WEEKLY_INVITE_LIMIT \<and> weeklyInvites p inviter u = (Inr n, u'))
     \<and> (\<exists>u u'. rewardOfInvitee p invitee u = (Inr None, u'))"
proof -
  let ?checks = "inviteChecks p inviter invitee identifier"
  from assms obtain results u where res: "promiseAll (map fst ?checks) sw = (Inr results, u)"
    and tracked: "trackFailedChecks (notRewarded txHash inviter (Some invitee) paymentId)
        (zip results (map snd ?checks)) True u = (Inr True, sw')"
    by (auto simp: inviteRewardConditionsAreMet_def andThen_eq_Inr Let_def)
  from promiseAll_results [OF res] obtain a b c d where abcd: "results = [a, b, c, d]"
    and runs: "\<exists>u u'. isAddressVerified p inviter u = (Inr a, u')"
      "\<exists>u u'. isAddressVerifiedWithIdentifier p invitee identifier u = (Inr b, u')"
      "\<exists>u u'. inviterHasNotReachedWeeklyLimit p inviter u = (Inr c, u')"
      "\<exists>u u'. inviteeRewardNotInProgress p invitee u = (Inr d, u')"
    by (clarsimp simp: inviteChecks_def list_all2_Cons1) blast
  from trackFailedChecks_True [OF tracked] have "a" "b" "c" "d"
    by (simp_all add: abcd inviteChecks_def)
  with runs show ?thesis
    by (auto simp: isAddressVerifiedWithIdentifier_def inviterHasNotReachedWeeklyLimit_def inviteeRewardNotInProgress_def
        andThen_eq_Inr ext_eq_iff)
qed

text \<open>What was stored, \<open>stored\<close>, is not changed by the calls that only read.\<close>

definition reads_only :: "'w invite_port \<Rightarrow> ('w \<Rightarrow> bool) \<Rightarrow> bool" where
  "reads_only p Q \<longleftrightarrow>
     (\<forall>h. preserves Q (withdrawalTx p h)) \<and> (\<forall>as. preserves Q (attestedPairs p as)) \<and>
     (\<forall>a i. preserves Q (verifiedFor p a i)) \<and> (\<forall>a. preserves Q (weeklyInvites p a)) \<and>
     (\<forall>a. preserves Q (rewardOfInvitee p a)) \<and> (\<forall>a. preserves Q (mappingFind (ipCopies p) a))"

lemma keeps_outside_anyVerified:
  "reads_only p Q \<Longrightarrow> keeps_outside Q (anyVerified p xs)"
  by (induction xs)
    (auto intro!: keeps_outside simp: isAddressVerifiedWithIdentifier_def reads_only_def)

lemma keeps_outside_inviteChecks:
  assumes "reads_only p Q" and "m \<in> set (map fst (inviteChecks p inviter invitee identifier))"
  shows "keeps_outside Q m"
  using assms
  by (auto simp: inviteChecks_def isAddressVerified_def isAddressVerifiedWithIdentifier_def findAccountAddresses_def
      inviterHasNotReachedWeeklyLimit_def inviteeRewardNotInProgress_def reads_only_def Let_def
      intro!: keeps_outside keeps_outside_anyVerified)

lemma keeps_outside_conditions:
  assumes "reads_only p Q"
  shows "keeps_outside Q (inviteRewardConditionsAreMet p inviter invitee identifier paymentId txHash)"
proof -
  have track: "keeps_outside Q (trackFailedChecks (notRewarded txHash inviter (Some invitee) paymentId) rs b)" for rs b
    by (induction rs arbitrary: b) (auto intro!: keeps_outside simp: notRewarded_def)
  have "keeps_outside Q (promiseAll (map fst (inviteChecks p inviter invitee identifier)))"
    using keeps_outside_inviteChecks [OF assms] unfolding keeps_outside_def by (intro keeps)
  with track show ?thesis
    unfolding inviteRewardConditionsAreMet_def Let_def by (intro keeps_outside)
qed

section \<open>Properties\<close>

text \<open>
  C33. A withdrawal makes a difference to what is stored only if it is rewarded by the rules: the token is
  one of the two stable tokens, the transaction was sent to an invitee by a relayer of the configuration,
  the inviter and the invitee are verified, the inviter has had fewer than 20 rewards this week, and
  the invitee has none.
\<close>

theorem reward_needs_conditions:
  fixes p :: "'w invite_port"
  assumes "reads_only p Q" and "Q w" and "handleWithdrawalEvent p cfg ev (s, w) = (r, (s', w'))" and "\<not> Q w'"
  shows "\<exists>tx invitee.
       (Some (js_lower (evReturn ev ''token'')) = cUsdTokenAddress s \<or> Some (js_lower (evReturn ev ''token'')) = cEurTokenAddress s)
     \<and> (\<exists>u u'. withdrawalTx p (evTxHash ev) u = (Inr (Some tx), u')) \<and> wtTo tx = Some invitee
     \<and> js_lower (wtFrom tx) \<in> set (komenciAddresses (icNetwork cfg))
     \<and> (\<exists>u u'. isAddressVerified p (js_lower (evReturn ev ''to'')) u = (Inr True, u'))
     \<and> (\<exists>u u'. verifiedFor p (js_lower invitee) (evReturn ev ''identifier'') u = (Inr True, u'))
     \<and> (\<exists>n u u'. n < 20 \<and> weeklyInvites p (js_lower (evReturn ev ''to'')) u = (Inr n, u'))
     \<and> (\<exists>u u'. rewardOfInvitee p (js_lower invitee) u = (Inr None, u'))"
proof -
  let ?P = "\<lambda>sw :: rewards \<times> 'w. Q (snd sw)" and ?inviter = "js_lower (evReturn ev ''to'')"
  have quiet: "notRewarded a b c d e sw = (q, sw') \<Longrightarrow> ?P sw \<Longrightarrow> ?P sw'" for a b c d e sw q sw'
    unfolding notRewarded_def by (rule keeps_outsideD [OF keeps_outside_rwEvent(2)])
  have token_keeps: "preserves ?P (getInviteToken t)" for t
    unfolding getInviteToken_def by (intro keeps)
  have tx_keeps: "preserves ?P (ext (withdrawalTx p h))" for h
    using keeps_outside_ext [of Q "withdrawalTx p h"] assms(1) by (simp add: reads_only_def keeps_outside_def)
  have cond_keeps: "preserves ?P (inviteRewardConditionsAreMet p a b c d e)" for a b c d e
    using keeps_outside_conditions [OF assms(1)] by (simp add: keeps_outside_def)
  have start: "?P (s, w)" and ends: "\<not> ?P (s', w')" using assms(2,4) by simp_all
  obtain token u where token: "getInviteToken (js_lower (evReturn ev ''token'')) (s, w) = (Inr token, u)" and "?P u"
    and tokened: "(case token of
        None \<Rightarrow> notRewarded (evTxHash ev) ?inviter None (evReturn ev ''paymentId'') NotStableTokenInvite
      | Some inviteToken \<Rightarrow>
          andThen (ext (withdrawalTx p (evTxHash ev))) (\<lambda>tx. case tx of None \<Rightarrow> throw (typeError ''Cannot read property of null'')
            | Some t \<Rightarrow> handleRedeemTx p cfg ev ?inviter inviteToken t)) u
      = (r, (s', w'))"
    using token_keeps start assms(3) [unfolded handleWithdrawalEvent_def Let_def] ends by (rule andThen_breaks)
  have "token \<noteq> None"
  proof
    assume "token = None"
    with tokened have "notRewarded (evTxHash ev) ?inviter None (evReturn ev ''paymentId'') NotStableTokenInvite u = (r, (s', w'))"
      by simp
    from quiet [OF this \<open>?P u\<close>] ends show False by simp
  qed
  then obtain t where t: "token = Some t" by blast
  have stable: "Some (js_lower (evReturn ev ''token'')) = cUsdTokenAddress s
      \<or> Some (js_lower (evReturn ev ''token'')) = cEurTokenAddress s"
    using token t by (auto simp: getInviteToken_def andThen_def getS_def ret_def split: if_splits)
  obtain found v where found: "ext (withdrawalTx p (evTxHash ev)) u = (Inr found, v)" and "?P v"
    and handled: "(case found of None \<Rightarrow> throw (typeError ''Cannot read property of null'')
      | Some tx \<Rightarrow> handleRedeemTx p cfg ev ?inviter t tx) v = (r, (s', w'))"
    using tx_keeps \<open>?P u\<close> tokened [unfolded t option.case] ends by (rule andThen_breaks)
  obtain tx where tx: "found = Some tx" using handled \<open>?P v\<close> ends by (cases found) (auto simp: throw_def)
  have redeemed: "handleRedeemTx p cfg ev ?inviter t tx v = (r, (s', w'))" using handled tx by simp
  have mute: "notRewarded a b c d e v \<noteq> (r, (s', w'))" for a b c d e
    using quiet [of a b c d e v r "(s', w')"] \<open>?P v\<close> ends by blast
  obtain invitee where invitee: "wtTo tx = Some invitee" and komenci: "isKomenciSender (icNetwork cfg) (wtFrom tx)"
    and rewarded: "rewardInvite p cfg ev ?inviter (js_lower invitee) t v = (r, (s', w'))"
    using redeemed mute by (cases "wtTo tx") (auto simp: handleRedeemTx_def Let_def split: if_splits)
  obtain met x where met: "inviteRewardConditionsAreMet p ?inviter (js_lower invitee) (evReturn ev ''identifier'')
      (evReturn ev ''paymentId'') (evTxHash ev) v = (Inr met, x)" and "?P x"
    and final: "(if \<not> met then ret () else andThen (createInviteReward p ?inviter (js_lower invitee)
      (evReturn ev ''identifier'') (evReturn ev ''paymentId'') t (evTxHash ev)) (\<lambda>reward. case reward of None \<Rightarrow> ret ()
       | Some r \<Rightarrow> andThen (attempt (sendInviteReward (ipSender p) (icSender cfg) r False (spRepo (ipSender p)))) (\<lambda>_. ret ())))
       x = (r, (s', w'))"
    using cond_keeps \<open>?P v\<close> rewarded [unfolded rewardInvite_def] ends by (rule andThen_breaks)
  have "met"
  proof (rule ccontr)
    assume "\<not> met"
    with final have "x = (s', w')" by (simp add: ret_def)
    with \<open>?P x\<close> ends show False by simp
  qed
  with met have "inviteRewardConditionsAreMet p ?inviter (js_lower invitee) (evReturn ev ''identifier'')
      (evReturn ev ''paymentId'') (evTxHash ev) v = (Inr True, x)" by simp
  from conditions_met [OF this] stable found tx invitee komenci show ?thesis
    by (cases u; cases v) (auto simp: ext_eq_iff isKomenciSender_def WEEKLY_INVITE_LIMIT_def)
qed

text \<open>The world of the sender, with a transaction that relayer sent for an invitee, everybody verified\<close>

definition demoInvitePort :: "string \<Rightarrow> reward_world invite_port" where
  "demoInvitePort relayer =
     \<lparr>ipCopies =
        \<lparr>cpEvents = \<lparr>loadContract = (\<lambda>_. ret ()), blockNumber = ret 20, pastEvents = (\<lambda>_ _ _. ret []),
           nbFindOne = (\<lambda>_. ret None), nbInsert = (\<lambda>_. ret ()), nbUpdate = (\<lambda>_ _ _. ret ()), rwUuid = ret ''r1'',
           stringifyEvent = evTxHash\<rparr>,
         cpNow = ret 5, attestationSave = ret, mappingSave = ret, mappingFind = (\<lambda>_. ret [])\<rparr>,
      ipSender = (demoSender (Some 1) None)\<lparr>encodeTransfer := (\<lambda>a n. a)\<rparr>,
      stableTokenAddress = (\<lambda>t. ret (case t of CUSD \<Rightarrow> ''0xa'' | CEUR \<Rightarrow> ''0xb'')),
      withdrawalTx = (\<lambda>_. ret (Some \<lparr>wtFrom = relayer, wtTo = Some ''0xInvitee''\<rparr>)),
      attestedPairs = (\<lambda>as. ret (map (\<lambda>a. (''id'', a)) as)), verifiedFor = (\<lambda>_ _. ret True),
      weeklyInvites = (\<lambda>_. ret 19), rewardOfInvitee = (\<lambda>i w. (Inr (find (\<lambda>r. irInvitee r = i) (fst w)), w)),
      rewardSave = (\<lambda>r w. (Inr r, (r # fst w, snd w)))\<rparr>"

definition demoInviteConfig :: invite_config where
  "demoInviteConfig = \<lparr>icNetwork = (configs baklava)\<lparr>relayers := [relayer_accounts.make ''0xrelayer'' ''0xwallet'']\<rparr>, icSender = demoSenderConfig, shouldSendRewards = True\<rparr>"

definition demoRewards :: rewards where
  "demoRewards = rewardsStart\<lparr>cUsdTokenAddress := Some ''0xa''\<rparr>"

lemma reward_needs_conditions_witness:
  "(\<exists>(tx :: withdrawal_tx) invitee. wtTo tx = Some invitee \<and> js_lower (wtFrom tx) \<in> set (komenciAddresses (icNetwork demoInviteConfig)))
     \<and> length (fst (snd (snd (handleWithdrawalEvent (demoInvitePort ''0xRelayer'')
           demoInviteConfig (demoEventLog ''0xh'' 12) (demoRewards, ([], [])))))) = 1"
proof -
  let ?p = "demoInvitePort ''0xRelayer''"
  let ?r = "handleWithdrawalEvent ?p demoInviteConfig (demoEventLog ''0xh'' 12) (demoRewards, ([], []))"
  have len: "length (fst (snd (snd ?r))) = 1" by code_simp
  obtain r s' w' where run: "?r = (r, (s', w'))" by (metis prod.collapse)
  have reads: "reads_only ?p (\<lambda>w. fst w = [])"
    by (auto simp: reads_only_def demoInvitePort_def preserves_def ret_def)
  have stored: "\<not> fst w' = []" using len run by auto
  have start: "fst ([] :: invite_reward list, [] :: raw_transaction list) = []" by simp
  have "\<exists>(tx :: withdrawal_tx) invitee. wtTo tx = Some invitee \<and> js_lower (wtFrom tx) \<in> set (komenciAddresses (icNetwork demoInviteConfig))"
    using reward_needs_conditions [OF reads start run stored] by blast
  with len show ?thesis by blast
qed

text \<open>
  A relayer whose address is configured with capital letters is never recognised, since only the
  sender's address is lowered before the comparison: of the production configuration, the twelfth relayer
  is one, and the invites redeemed through it are not rewarded.
\<close>

theorem capital_letters_are_not_komenci:
  "''0xbDD68B64e288171B37F01346042BEe6Eb7dFAE4f'' \<in> set (komenciAddresses (configs rc1))
   \<and> \<not> (\<exists>address. js_lower address = js_lower ''0xbDD68B64e288171B37F01346042BEe6Eb7dFAE4f''
          \<and> isKomenciSender (configs rc1) address)
   \<and> handleRedeemTx p \<lparr>icNetwork = configs rc1, icSender = sc, shouldSendRewards = True\<rparr> ev inviter token
       \<lparr>wtFrom = ''0xbDD68B64e288171B37F01346042BEe6Eb7dFAE4f'', wtTo = Some (c # cs)\<rparr>
     = notRewarded (evTxHash ev) inviter (Some (js_lower (c # cs))) (evReturn ev ''paymentId'') NotKomenciRedeem"
proof (intro conjI)
  let ?a = "''0xbDD68B64e288171B37F01346042BEe6Eb7dFAE4f''"
  have lowered: "js_lower ?a \<notin> set (komenciAddresses (configs rc1))" by code_simp
  then have never: "js_lower address = js_lower ?a \<Longrightarrow> \<not> isKomenciSender (configs rc1) address" for address
    by (simp only: isKomenciSender_def not_False_eq_True)
  then show "\<not> (\<exists>address. js_lower address = js_lower ?a \<and> isKomenciSender (configs rc1) address)" by blast
  show "?a \<in> set (komenciAddresses (configs rc1))" by code_simp
  show "handleRedeemTx p \<lparr>icNetwork = configs rc1, icSender = sc, shouldSendRewards = True\<rparr> ev inviter token
       \<lparr>wtFrom = ?a, wtTo = Some (c # cs)\<rparr>
     = notRewarded (evTxHash ev) inviter (Some (js_lower (c # cs))) (evReturn ev ''paymentId'') NotKomenciRedeem"
    using never [OF refl]
    by (simp only: handleRedeemTx_def Let_def withdrawal_tx.select_convs invite_config.select_convs option.map
        js_lower_Cons option.inject list.distinct option.distinct option.sel simp_thms if_True if_False)
qed

end
