(* ===== verification/Relayer_App.thy ===== *)
theory Relayer_App
  imports Transaction_Service Relayer_Proxy
begin

text \<open>
  The relayer (\<open>packages/apps/relayer/src\<close>) around its transaction service: the query of ODIS with its
  retry (\<open>odis/odis.service.ts\<close>), the choice of the relayer's meta-transaction wallet
  (\<open>contracts/MetaTransactionWallet.contract.ts\<close>), the commands it answers (\<open>app.controller.ts\<close>), and the
  relayer as the proxies of the other applications see it. Programs run on the state of the transaction
  service, whose log is the application's, and the outside world.
\<close>

section \<open>ODIS (odis.service.ts)\<close>

datatype odis_error = OdisOutOfQuotaError | OdisUnknownError thrown | OdisTimeoutError

fun odis_error_type :: "odis_error \<Rightarrow> string" where
  "odis_error_type OdisOutOfQuotaError = ''OutOfQuota''"
| "odis_error_type (OdisUnknownError _) = ''Unknown''"
| "odis_error_type OdisTimeoutError = ''Timeout''"

fun odis_error_object :: "odis_error \<Rightarrow> error_object" where
  "odis_error_object (OdisUnknownError err) = root_error ''Unknown'' (''Odis unknown error: '' @ message_text err)"
| "odis_error_object e = root_error (odis_error_type e) []"

text \<open>
  The node; \<open>getBlindedPhoneNumberSignature\<close> for an account, a blinded number and a client version, whose
  outcome carries the time at which it arrives (\<open>None\<close> if it never does); the lookup of the CELO token and
  its \<open>transfer(to, amount)\<close>, sent from an account and waited for; \<open>web3.eth.sign(data, account)\<close>; the
  relayer's meta-transaction wallet and the encoding of its \<open>executeTransactions\<close>; nest's \<open>isError\<close>.
\<close>

record ('w, 'r) relayer_port =
  rlNode :: "('w, 'r) node_port"
  odisSignature :: "string \<Rightarrow> string \<Rightarrow> string option \<Rightarrow> 'w \<Rightarrow> (int option \<times> (thrown + string)) \<times> 'w"
  loadGoldToken :: "('w, thrown, unit) io"
  goldTransfer :: "string \<Rightarrow> int \<Rightarrow> string \<Rightarrow> ('w, thrown, unit) io"
  ethSign :: "string \<Rightarrow> string \<Rightarrow> ('w, thrown, string) io"
  metaTxWallet :: string
  encodeExecuteTransactions :: "raw_transaction list \<Rightarrow> string"
  rlIsError :: "thrown \<Rightarrow> bool"

record relayer_config =
  rcTx :: tx_config
  odisTimeoutMs :: int

abbreviation rcAddress :: "relayer_config \<Rightarrow> string" where
  "rcAddress cfg \<equiv> walletAddress (rcTx cfg)"

definition replenishQuota :: "('w, 'r) relayer_port \<Rightarrow> string \<Rightarrow> ('w, unit) tx_io" where
  "replenishQuota p account =
     andThen (ext (loadGoldToken p)) (\<lambda>_. ext (goldTransfer p account 1 account))"

text \<open>The outcome of a query as \<open>queryOdis\<close> classifies it\<close>

definition odisOutcome :: "thrown + string \<Rightarrow> thrown + (odis_error, string) result" where
  "odisOutcome outcome =
     (case outcome of
        Inr signature \<Rightarrow> Inr (Ok signature)
      | Inl e \<Rightarrow>
          (case thrown_message e of
             None \<Rightarrow> Inl (typeError ''Cannot read property of undefined'')
           | Some m \<Rightarrow>
               Inr (Err (if js_includes m ''odisQuotaError'' then OdisOutOfQuotaError else OdisUnknownError e))))"

definition queryOdis ::
    "relayer_config \<Rightarrow> ('w, 'r) relayer_port \<Rightarrow> string \<Rightarrow> string option \<Rightarrow> 'w \<Rightarrow>
     (int option \<times> (thrown + (odis_error, string) result)) \<times> 'w" where
  "queryOdis cfg p blindedPhoneNumber clientVersion w =
     (case odisSignature p (rcAddress cfg) blindedPhoneNumber clientVersion w of
        ((arrival, outcome), w') \<Rightarrow> ((arrival, odisOutcome outcome), w'))"

text \<open>\<open>Promise.race\<close> of the query and the timeout; what arrives later is dropped.\<close>

definition raceOdis ::
    "relayer_config \<Rightarrow> ('w, 'r) relayer_port \<Rightarrow> string \<Rightarrow> string option \<Rightarrow>
     ('w, thrown, (odis_error, string) result) io" where
  "raceOdis cfg p blindedPhoneNumber clientVersion = (\<lambda>w.
     case queryOdis cfg p blindedPhoneNumber clientVersion w of
       ((arrival, outcome), w') \<Rightarrow>
         (if (case arrival of None \<Rightarrow> True | Some t \<Rightarrow> odisTimeoutMs cfg \<le> t)
          then Inr (Err OdisTimeoutError) else outcome, w'))"

definition replenishing :: log_entry where
  "replenishing = LogText LInfo ''Replenishing quota''"

definition odisAttempt ::
    "relayer_config \<Rightarrow> ('w, 'r) relayer_port \<Rightarrow> string \<Rightarrow> string option \<Rightarrow>
     ('w, (odis_error, string) result) tx_io" where
  "odisAttempt cfg p blindedPhoneNumber clientVersion =
     andThen (ext (raceOdis cfg p blindedPhoneNumber clientVersion)) (\<lambda>res.
     if res = Err OdisOutOfQuotaError
     then andThen (logTx replenishing) (\<lambda>_. andThen (replenishQuota p (rcAddress cfg)) (\<lambda>_. ret res))
     else ret res)"

text \<open>\<open>onRetry\<close> writes to the console, which is not part of the log.\<close>

definition odisRetryOptions :: "(tx_service \<times> 'w, thrown, odis_error, string) retry_options" where
  "odisRetryOptions =
     \<lparr>tries = 2, bailOnErrorTypes = Some [''Unknown''], shouldRetry = None, onRetry = Some (\<lambda>e k. ret ())\<rparr>"

definition getPhoneNumberSignature ::
    "relayer_config \<Rightarrow> ('w, 'r) relayer_port \<Rightarrow> string \<Rightarrow> string option \<Rightarrow>
     ('w, (odis_error, string) result) tx_io" where
  "getPhoneNumberSignature cfg p blindedPhoneNumber clientVersion =
     retried odisRetryOptions odis_error_type (odisAttempt cfg p blindedPhoneNumber clientVersion)"

section \<open>The relayer's wallet (MetaTransactionWallet.contract.ts)\<close>

datatype mtw_error = RelayerNotRegisteredError | InvalidMTWError string

fun mtw_error_object :: "mtw_error \<Rightarrow> error_object" where
  "mtw_error_object RelayerNotRegisteredError =
     root_error ''RelayerNotRegistered'' ''Relayer not registered as a relayer in config''"
| "mtw_error_object (InvalidMTWError address) =
     metadata_error ''InvalidMTW'' ''Relayer doesn't have a valid associated MTW in config'' [(''address'', JStr address)]"

definition logAndThrow :: "error_object \<Rightarrow> ('w, 'a) tx_io" where
  "logAndThrow e = andThen (logTx (LogThrown LError (ErrorObject e))) (\<lambda>_. throw (ErrorObject e))"

text \<open>
  The factory; \<open>isValidAddress\<close> of \<open>@celo/utils\<close> and the wrapper of an address, here the address itself, are
  outside.
\<close>

definition metaTransactionWalletFactory ::
    "celo_base \<Rightarrow> (string \<Rightarrow> bool) \<Rightarrow> network_config \<Rightarrow> string \<Rightarrow> ('w, string) tx_io" where
  "metaTransactionWalletFactory cb isValidAddress networkCfg address =
     (case find (\<lambda>r. normalizeAddress cb (relayerAccount r) = normalizeAddress cb address) (relayers networkCfg) of
        None \<Rightarrow> logAndThrow (mtw_error_object RelayerNotRegisteredError)
      | Some relayer \<Rightarrow>
          if isValidAddress (relayerWallet relayer)
          then andThen (logTx (LogEvent (EvRelayerMTWInit (relayerWallet relayer)) None)) (\<lambda>_. ret (relayerWallet relayer))
          else logAndThrow (mtw_error_object (InvalidMTWError (relayerWallet relayer))))"

section \<open>Commands (app.controller.ts)\<close>

definition wrapResponse :: "relayer_config \<Rightarrow> string \<Rightarrow> relayer_response" where
  "wrapResponse cfg x = \<lparr>rrPayload = x, rrAddress = rcAddress cfg\<rparr>"

definition ctrlSignPersonalMessage ::
    "relayer_config \<Rightarrow> ('w, 'r) relayer_port \<Rightarrow> string \<Rightarrow> ('w, relayer_response) tx_io" where
  "ctrlSignPersonalMessage cfg p msg =
     andThen (ext (ethSign p msg (rcAddress cfg))) (\<lambda>signature. ret (wrapResponse cfg signature))"

definition ctrlGetPhoneNumberIdentifier ::
    "relayer_config \<Rightarrow> ('w, 'r) relayer_port \<Rightarrow> string \<Rightarrow> string option \<Rightarrow> ('w, relayer_response) tx_io" where
  "ctrlGetPhoneNumberIdentifier cfg p blindedPhoneNumber clientVersion =
     andThen (getPhoneNumberSignature cfg p blindedPhoneNumber clientVersion) (\<lambda>res.
     andThen (throwErr odis_error_object res) (\<lambda>signature. ret (wrapResponse cfg signature)))"

definition ctrlSubmitTransaction ::
    "relayer_config \<Rightarrow> ('w, 'r) relayer_port \<Rightarrow> raw_transaction \<Rightarrow> trace_context \<Rightarrow> ('w, relayer_response) tx_io" where
  "ctrlSubmitTransaction cfg p tx ctx =
     andThen (submitTransaction (rcTx cfg) (rlNode p) tx (Some ctx)) (\<lambda>res.
     andThen (throwErr chain_error_object res) (\<lambda>txHash. ret (wrapResponse cfg txHash)))"

text \<open>\<open>toRawTransaction(this.metaTxWallet.executeTransactions(transactions).txo)\<close>\<close>

definition batchTransaction :: "('w, 'r) relayer_port \<Rightarrow> raw_transaction list \<Rightarrow> raw_transaction" where
  "batchTransaction p txs =
     \<lparr>destination = metaTxWallet p, txValue = ''0'', data = encodeExecuteTransactions p txs\<rparr>"

definition ctrlSubmitTransactionBatch ::
    "relayer_config \<Rightarrow> ('w, 'r) relayer_port \<Rightarrow> raw_transaction list \<Rightarrow> trace_context \<Rightarrow> ('w, relayer_response) tx_io" where
  "ctrlSubmitTransactionBatch cfg p txs ctx =
     andThen (submitTransaction (rcTx cfg) (rlNode p) (batchTransaction p txs) (Some ctx)) (\<lambda>res.
     andThen (throwErr chain_error_object res) (\<lambda>txHash. ret (wrapResponse cfg txHash)))"

text \<open>
  The proxies send each command with the input of its own type, which is what tells the handlers apart
  here.
\<close>

definition relayerHandle ::
    "relayer_config \<Rightarrow> ('w, 'r) relayer_port \<Rightarrow> relayer_input \<Rightarrow> trace_context \<Rightarrow> ('w, relayer_response) tx_io" where
  "relayerHandle cfg p input ctx =
     (case input of
        SignPersonalMessageInput msg \<Rightarrow> ctrlSignPersonalMessage cfg p msg
      | GetPhoneNumberSignatureInput blinded clientVersion \<Rightarrow> ctrlGetPhoneNumberIdentifier cfg p blinded clientVersion
      | SubmitTransactionInput tx \<Rightarrow> ctrlSubmitTransaction cfg p tx ctx
      | SubmitTransactionBatchInput txs \<Rightarrow> ctrlSubmitTransactionBatch cfg p txs ctx)"

text \<open>\<open>@UseFilters(RpcErrorFilter)\<close>: a thrown error is logged and sent back as its payload.\<close>

definition rpcFiltered ::
    "('w, 'r) relayer_port \<Rightarrow> ('w, relayer_response) tx_io \<Rightarrow> (tx_service \<times> 'w, js_value, relayer_response) io" where
  "rpcFiltered p m =
     catching m (\<lambda>e.
       andThen (modS (\<lambda>s. s\<lparr>svLog := svLog s @ [LogThrown LError e]\<rparr>)) (\<lambda>_. throw (rpcErrorPayload (rlIsError p) e)))"

text \<open>
  The relayer at the other end of the proxies' transport, answering after \<open>delay\<close>
\<close>

definition relayerOverTcp ::
    "relayer_config \<Rightarrow> ('w, 'r) relayer_port \<Rightarrow> int option \<Rightarrow> (tx_service \<times> 'w) relay_port" where
  "relayerOverTcp cfg p delay =
     \<lparr>relaySend = (\<lambda>cmd input ctx sw.
        case rpcFiltered p (relayerHandle cfg p input ctx) sw of (reply, sw') \<Rightarrow> ((delay, reply), sw'))\<rparr>"

section \<open>The relayer through its proxies\<close>

definition chainErrorPayload :: "chain_error \<Rightarrow> internal_error_payload" where
  "chainErrorPayload e =
     \<lparr>ieType = chain_error_type e, ieMessage = message (chain_error_object e),
      ieMetadata = (if errorClass (chain_error_object e) = MetadataError
                    then JObj (getMetadata (chain_error_object e)) else JUndefined)\<rparr>"

lemma decode_chain_error:
  "isErr (ErrorObject (chain_error_object e)) \<Longrightarrow>
   decodeInternalError (rpcErrorPayload isErr (ErrorObject (chain_error_object e))) = Some (chainErrorPayload e)"
  by (simp add: decode_rpcErrorPayload chainErrorPayload_def)

lemma filtered_submission:
  assumes "submitTransaction (rcTx cfg) (rlNode p) tx (Some ctx) (s, w) = (Inr res, (s', w'))"
  shows "rpcFiltered p (ctrlSubmitTransaction cfg p tx ctx) (s, w) =
     (case res of
        Ok h \<Rightarrow> (Inr (wrapResponse cfg h), (s', w'))
      | Err e \<Rightarrow> (Inl (rpcErrorPayload (rlIsError p) (ErrorObject (chain_error_object e))),
                  (s'\<lparr>svLog := svLog s' @ [LogThrown LError (ErrorObject (chain_error_object e))]\<rparr>, w')))"
  using assms
  by (cases res) (simp_all add: rpcFiltered_def ctrlSubmitTransaction_def catching_def andThen_def throwErr_def)

lemma batch_is_submission:
  "relayerHandle cfg p (SubmitTransactionBatchInput txs) ctx = ctrlSubmitTransaction cfg p (batchTransaction p txs) ctx"
  by (simp add: relayerHandle_def ctrlSubmitTransactionBatch_def ctrlSubmitTransaction_def)

text \<open>An attempt of the ODIS query, and how often the quota was replenished\<close>

definition replenishments :: "tx_service \<Rightarrow> nat" where
  "replenishments s = length (filter (\<lambda>e. e = replenishing) (svLog s))"

lemma odisAttempt_log:
  assumes "odisAttempt cfg p b cv (s, w) = (Inr r, (s', w'))"
  shows "svLog s' = svLog s @ (if r = Err OdisOutOfQuotaError then [replenishing] else [])"
  using assms
  by (auto simp: odisAttempt_def replenishQuota_def runs logTx_run split: if_splits)

lemma odisRetryOptions_fields [simp]:
  "tries odisRetryOptions = 2" "bailOnErrorTypes odisRetryOptions = Some [''Unknown'']"
  "shouldRetry odisRetryOptions = None" "callOnRetry odisRetryOptions e k = ret ()"
  by (simp_all add: odisRetryOptions_def callOnRetry_def)

lemma getPhoneNumberSignature_runs:
  "getPhoneNumberSignature cfg p b cv = andThen (odisAttempt cfg p b cv) (\<lambda>res.
     case res of
       Err e \<Rightarrow> if odis_error_type e = ''Unknown'' then ret res else odisAttempt cfg p b cv
     | Ok x \<Rightarrow> ret res)"
proof -
  have last: "retry_rest odisRetryOptions odis_error_type m 0 2 = m" for m :: "('a, (odis_error, string) result) tx_io"
    by (subst retry_rest.simps)
      (auto simp: andThen_def givesUp_def ret_def fun_eq_iff split: prod.split sum.split result.split)
  show ?thesis
    unfolding getPhoneNumberSignature_def retried_def
    by (subst retry_rest.simps)
      (auto simp: last givesUp_def andThen_def ret_def fun_eq_iff split: prod.split sum.split result.split)
qed

text \<open>
  A relayer starts with the first entry of the configuration that has its account, however the two are
  written; the wallet is then the entry's.
\<close>

lemma metaTransactionWalletFactory_Inr:
  assumes "metaTransactionWalletFactory cb valid net account (s, w) = (Inr wallet, (s', w'))"
  shows "\<exists>r \<in> set (relayers net). normalizeAddress cb (relayerAccount r) = normalizeAddress cb account
     \<and> wallet = relayerWallet r \<and> valid wallet \<and> svLog s' = svLog s @ [LogEvent (EvRelayerMTWInit wallet) None]"
  using assms
  by (auto simp: metaTransactionWalletFactory_def logAndThrow_def find_Some_iff runs logTx_run split: option.splits if_splits)

section \<open>Properties\<close>

text \<open>
  C38. What the api gets for a batch it submits through a relayer is the outcome of the relayer's transaction
  service for the one transaction that executes the batch on the relayer's wallet: the hash with the
  relayer's address, or the service's error, by its type, message and metadata, which the relayer has
  logged; and a timeout when the reply comes too late, although the submission has taken place. A hash
  means that the node accepted the transaction, and that the relayer watches it under the context of
  the api's request.
\<close>

theorem proxied_batch_refines_submission:
  assumes "submitTransaction (rcTx cfg) (rlNode p) (batchTransaction p txs) (Some (requestContext req)) (s, w)
      = (Inr res, (s', w'))"
    and "\<And>e. rlIsError p (ErrorObject e)"
  shows "proxySubmitTransactionBatch (relayerOverTcp cfg p delay) timeoutMs req txs (s, w) =
      (Inr (if (case delay of None \<Rightarrow> True | Some t \<Rightarrow> timeoutMs \<le> t)
            then Err (RelayerTimeout ''submitTransactionBatch'')
            else (case res of
                    Ok h \<Rightarrow> Ok \<lparr>rrPayload = h, rrAddress = rcAddress cfg\<rparr>
                  | Err e \<Rightarrow> Err (RelayerInternalError (chainErrorPayload e)))),
       (case res of
          Ok h \<Rightarrow> s'
        | Err e \<Rightarrow> s'\<lparr>svLog := svLog s' @ [LogThrown LError (ErrorObject (chain_error_object e))]\<rparr>, w'))
    \<and> (\<forall>h. res = Ok h \<longrightarrow>
        (\<exists>c. transactions s' h = Some c \<and> h \<in> set (watchedTransactions s')
           \<and> cachedContext c = Some (requestContext req) \<and> cachedNonce c = svNonce s' - 1
           \<and> node_accepted (rlNode p)
               (submit_request (rcTx cfg) (batchTransaction p txs) (cachedGasPrice c) (cachedNonce c)) h))"
proof (intro conjI allI impI)
  note runs = filtered_submission [OF assms(1)]
  show "proxySubmitTransactionBatch (relayerOverTcp cfg p delay) timeoutMs req txs (s, w) =
      (Inr (if (case delay of None \<Rightarrow> True | Some t \<Rightarrow> timeoutMs \<le> t)
            then Err (RelayerTimeout ''submitTransactionBatch'')
            else (case res of
                    Ok h \<Rightarrow> Ok \<lparr>rrPayload = h, rrAddress = rcAddress cfg\<rparr>
                  | Err e \<Rightarrow> Err (RelayerInternalError (chainErrorPayload e)))),
       (case res of
          Ok h \<Rightarrow> s'
        | Err e \<Rightarrow> s'\<lparr>svLog := svLog s' @ [LogThrown LError (ErrorObject (chain_error_object e))]\<rparr>, w'))"
    by (cases res; cases delay)
      (simp_all add: proxySubmitTransactionBatch_def executeRelay_def relayerOverTcp_def batch_is_submission runs
        decode_chain_error assms(2) wrapResponse_def)
  fix h
  assume "res = Ok h"
  with assms(1) obtain u v where
    "submitAttempt (rcTx cfg) (rlNode p) (batchTransaction p txs) (Some (requestContext req)) (u, v) = (Inr (Ok h), (s', w'))"
    using submitTransaction_attempt [of "rcTx cfg" "rlNode p" "batchTransaction p txs" "Some (requestContext req)" "(s, w)" h]
    by auto
  from submitAttempt_Ok [OF this]
  show "\<exists>c. transactions s' h = Some c \<and> h \<in> set (watchedTransactions s')
      \<and> cachedContext c = Some (requestContext req) \<and> cachedNonce c = svNonce s' - 1
      \<and> node_accepted (rlNode p) (submit_request (rcTx cfg) (batchTransaction p txs) (cachedGasPrice c) (cachedNonce c)) h"
    by auto
qed

definition demoRelayerConfig :: relayer_config where
  "demoRelayerConfig = \<lparr>rcTx = demoTxConfig, odisTimeoutMs = 10000\<rparr>"

text \<open>A relayer on the demo node, whose quota at ODIS runs out when the clock shows an odd time\<close>

definition demoRelayer :: "(send_request list \<times> int, nat) relayer_port" where
  "demoRelayer =
     \<lparr>rlNode = demoNode demoPending,
      odisSignature = (\<lambda>a b cv w. ((Some 10, if odd (snd w) then Inl (ErrorObject (plain_error ''odisQuotaError''))
         else Inr (''sig'' @ b)), w)),
      loadGoldToken = ret (), goldTransfer = (\<lambda>to n sender w. (Inr (), (fst w, snd w + 1))),
      ethSign = (\<lambda>d a. ret (a @ d)), metaTxWallet = ''0xmtw'', encodeExecuteTransactions = concat \<circ> map data,
      rlIsError = (\<lambda>_. True)\<rparr>"

lemma proxied_batch_refines_submission_witness:
  "\<exists>s' w'. proxySubmitTransactionBatch (relayerOverTcp demoRelayerConfig demoRelayer (Some 3)) 5
       \<lparr>reqId = ''a'', reqSession = None\<rparr> [demoRawTx, demoRawTx] (demoService, ([], 5))
     = (Inr (Ok \<lparr>rrPayload = ''0x0'', rrAddress = ''0xrelayer''\<rparr>), (s', w'))
     \<and> ''0x0'' \<in> set (watchedTransactions s')"
proof -
  let ?req = "\<lparr>reqId = ''a'', reqSession = None\<rparr>"
  let ?r = "submitTransaction (rcTx demoRelayerConfig) (rlNode demoRelayer) (batchTransaction demoRelayer [demoRawTx, demoRawTx])
      (Some (requestContext ?req)) (demoService, ([], 5))"
  have "fst ?r = Inr (Ok ''0x0'')"
    by (simp add: demoRelayerConfig_def demoRelayer_def demo_submitTransaction)
  then obtain s' w' where run: "?r = (Inr (Ok ''0x0''), (s', w'))" by (blast dest: run_of_fst)
  have isErr: "rlIsError demoRelayer (ErrorObject e)" for e by (simp add: demoRelayer_def)
  from proxied_batch_refines_submission [OF run isErr, where delay = "Some 3" and timeoutMs = 5]
  show ?thesis by (auto simp: demoRelayerConfig_def demoTxConfig_def)
qed

text \<open>
  ODIS is queried at most twice. The second query is made only when the first ran out of quota or timed
  out, never after another error; and every query that runs out of quota is followed by one payment that
  replenishes it, the second one too, after which nothing is queried any more.
\<close>

theorem odis_queried_at_most_twice:
  assumes "getPhoneNumberSignature cfg p b cv (s, w) = (Inr r, (s', w'))"
  shows "odisAttempt cfg p b cv (s, w) = (Inr r, (s', w')) \<and> (\<forall>e. r = Err e \<longrightarrow> odis_error_type e = ''Unknown'')
       \<and> replenishments s' = replenishments s
     \<or> (\<exists>e u v. odisAttempt cfg p b cv (s, w) = (Inr (Err e), (u, v)) \<and> e \<in> {OdisOutOfQuotaError, OdisTimeoutError}
       \<and> odisAttempt cfg p b cv (u, v) = (Inr r, (s', w'))
       \<and> replenishments s' = replenishments s + (if e = OdisOutOfQuotaError then 1 else 0)
           + (if r = Err OdisOutOfQuotaError then 1 else 0))"
proof -
  from assms obtain q u v where first: "odisAttempt cfg p b cv (s, w) = (Inr q, (u, v))"
    and rest: "(case q of Err e \<Rightarrow> if odis_error_type e = ''Unknown'' then ret q else odisAttempt cfg p b cv
        | Ok x \<Rightarrow> ret q) (u, v) = (Inr r, (s', w'))"
    by (auto simp: getPhoneNumberSignature_runs andThen_eq_Inr)
  note first_log = odisAttempt_log [OF first]
  show ?thesis
  proof (cases "\<exists>e. q = Err e \<and> odis_error_type e \<noteq> ''Unknown''")
    case True
    then obtain e where e: "q = Err e" "odis_error_type e \<noteq> ''Unknown''" by blast
    then have "e \<in> {OdisOutOfQuotaError, OdisTimeoutError}" by (cases e) auto
    moreover from e rest have second: "odisAttempt cfg p b cv (u, v) = (Inr r, (s', w'))" by simp
    ultimately show ?thesis
      using first e first_log odisAttempt_log [OF second] by (auto simp: replenishments_def)
  next
    case False
    with rest have "q = r" "u = s'" "v = w'" by (auto split: result.splits if_splits)
    with False first first_log show ?thesis by (auto simp: replenishments_def)
  qed
qed

lemma odis_queried_at_most_twice_witness:
  "\<exists>s' w'. getPhoneNumberSignature demoRelayerConfig demoRelayer ''x'' None (demoService, ([], 5)) = (Inr (Ok ''sigx''), (s', w'))
     \<and> replenishments s' = 1"
proof -
  let ?r = "getPhoneNumberSignature demoRelayerConfig demoRelayer ''x'' None (demoService, ([], 5))"
  have quota: "js_includes ''odisQuotaError'' ''odisQuotaError''" by simp
  have race: "raceOdis demoRelayerConfig demoRelayer ''x'' None ([], n) =
      (Inr (if odd n then Err OdisOutOfQuotaError else Ok ''sigx''), ([], n))" for n
    using quota
    by (simp add: raceOdis_def queryOdis_def odisOutcome_def demoRelayerConfig_def demoRelayer_def thrown_message_def plain_error_def)
  have first: "odisAttempt demoRelayerConfig demoRelayer ''x'' None (demoService, ([], 5)) =
      (Inr (Err OdisOutOfQuotaError), (demoService\<lparr>svLog := svLog demoService @ [replenishing]\<rparr>, ([], 6)))"
    by (simp add: odisAttempt_def andThen_def ext_app race logTx_def replenishQuota_def) (simp add: demoRelayer_def ext_app ret_app)
  then have "fst ?r = Inr (Ok ''sigx'')"
    by (simp add: getPhoneNumberSignature_runs andThen_def) (simp add: odisAttempt_def andThen_def ext_app race)
  then obtain s' w' where run: "?r = (Inr (Ok ''sigx''), (s', w'))"
    by (blast dest: run_of_fst)
  have "replenishments demoService = 0" by (simp add: replenishments_def demoService_def)
  with odis_queried_at_most_twice [OF run] first run show ?thesis by fastforce
qed

end
