(* ===== verification/Funding.thy ===== *)
theory Funding
  imports Core_Lib
begin

text \<open>
  The funding of relayers: the service that reads balances and disburses funds
  (\<open>packages/libs/blockchain/src/funding.service.ts\<close>), the configuration of the wallet it pays from
  (\<open>config/wallet.config.ts\<close>, \<open>truffle-deployer-config.ts\<close>, \<open>packages/apps/cli/src/fund.config.ts\<close>) and the
  commands of the tool (\<open>packages/apps/cli/src/fund.command.ts\<close>). The two token contracts are a port.
\<close>

section \<open>Amounts\<close>

text \<open>
  A \<open>BigNumber\<close>: a number, kept as the rational it stands for, or \<open>NaN\<close>, which is what \<open>parseFloat\<close> of an
  option that is no number gives, which arithmetic keeps and which compares as less than nothing.
\<close>

type_synonym big = "rat option"

definition bigTimes :: "big \<Rightarrow> big \<Rightarrow> big" where
  "bigTimes a b = (case (a, b) of (Some x, Some y) \<Rightarrow> Some (x * y) | _ \<Rightarrow> None)"

definition bigLess :: "big \<Rightarrow> big \<Rightarrow> bool" where
  "bigLess a b \<longleftrightarrow> (case (a, b) of (Some x, Some y) \<Rightarrow> x < y | _ \<Rightarrow> False)"

definition SUBUNITS :: rat where
  "SUBUNITS = 10 ^ 18"

section \<open>The service (funding.service.ts)\<close>

text \<open>
  The lookups of the two contracts, their \<open>balanceOf\<close>, and \<open>transfer(to, amount).send({from})\<close>, which is
  accepted with a \<open>TransactionResult\<close>; that result's hash and receipt (its hash and status).
\<close>

record ('w, 'r) funding_port =
  loadStable :: "('w, thrown, unit) io"
  loadCelo :: "('w, thrown, unit) io"
  celoOf :: "string \<Rightarrow> ('w, thrown, rat) io"
  cUSDOf :: "string \<Rightarrow> ('w, thrown, rat) io"
  celoSend :: "string \<Rightarrow> big \<Rightarrow> string \<Rightarrow> ('w, thrown, 'r) io"
  cUSDSend :: "string \<Rightarrow> big \<Rightarrow> string \<Rightarrow> ('w, thrown, 'r) io"
  resultHash :: "'r \<Rightarrow> ('w, thrown, string) io"
  waitReceipt :: "'r \<Rightarrow> ('w, thrown, string \<times> bool) io"

definition loadTokens :: "('w, 'r) funding_port \<Rightarrow> ('w, thrown, unit) io" where
  "loadTokens p = andThen (loadStable p) (\<lambda>_. loadCelo p)"

record relayer_balance =
  rbCelo :: rat
  rbCUSD :: rat

record 'r relayer_disbursement =
  dbCelo :: 'r
  dbCUSD :: 'r

text \<open>
  \<open>xs.reduce((summary, x, idx) => { summary[key] = value; return summary }, {})\<close>: a key that comes again keeps
  its place and gets the later value.
\<close>

definition summarize :: "(string \<times> 'a) list \<Rightarrow> (string \<times> 'a) list" where
  "summarize kvs = fold (\<lambda>(k, v) summary. AList.update k v summary) kvs []"

definition getRelayerBalances ::
    "('w, 'r) funding_port \<Rightarrow> relayer_accounts list \<Rightarrow> ('w, thrown, (string \<times> relayer_balance) list) io" where
  "getRelayerBalances p rs =
     andThen (loadTokens p) (\<lambda>_.
     andThen (promiseAll (map (\<lambda>r. promiseAll [celoOf p (relayerAccount r), cUSDOf p (relayerWallet r)]) rs)) (\<lambda>balances.
     ret (summarize (map2 (\<lambda>r b. (relayerAccount r, \<lparr>rbCelo = b ! 0, rbCUSD = b ! 1\<rparr>)) rs balances))))"

definition serviceFundBalance :: "('w, 'r) funding_port \<Rightarrow> string \<Rightarrow> ('w, thrown, relayer_balance) io" where
  "serviceFundBalance p fund =
     andThen (loadTokens p) (\<lambda>_.
     andThen (promiseAll [celoOf p fund, cUSDOf p fund]) (\<lambda>b. ret \<lparr>rbCelo = b ! 0, rbCUSD = b ! 1\<rparr>))"

definition fundHasEnoughBalance ::
    "('w, 'r) funding_port \<Rightarrow> string \<Rightarrow> big \<Rightarrow> big \<Rightarrow> nat \<Rightarrow> ('w, thrown, bool) io" where
  "fundHasEnoughBalance p fund cUSDAmount celoAmount relayerCount =
     andThen (serviceFundBalance p fund) (\<lambda>balances.
     let cUSDNeeded = bigTimes cUSDAmount (Some (of_nat relayerCount));
         celoNeeded = bigTimes celoAmount (Some (of_nat relayerCount)) in
     ret (if bigLess (Some (rbCelo balances)) celoNeeded then False
          else if bigLess (Some (rbCUSD balances)) cUSDNeeded then False
          else True))"

definition disburseToRelayer ::
    "('w, 'r) funding_port \<Rightarrow> string \<Rightarrow> big \<Rightarrow> big \<Rightarrow> relayer_accounts \<Rightarrow> ('w, thrown, 'r list) io" where
  "disburseToRelayer p fund cUSDAmountSubunit celoAmountSubunit relayer =
     promiseAll [cUSDSend p (relayerWallet relayer) cUSDAmountSubunit fund,
                 celoSend p (relayerAccount relayer) celoAmountSubunit fund]"

definition disburseFunds ::
    "('w, 'r) funding_port \<Rightarrow> string \<Rightarrow> relayer_accounts list \<Rightarrow> big \<Rightarrow> big \<Rightarrow>
     ('w, thrown, (string \<times> 'r relayer_disbursement) list) io" where
  "disburseFunds p fund rs cUSDAmount celoAmount =
     andThen (loadTokens p) (\<lambda>_.
     let cUSDAmountSubunit = bigTimes cUSDAmount (Some SUBUNITS);
         celoAmountSubunit = bigTimes celoAmount (Some SUBUNITS) in
     andThen (fundHasEnoughBalance p fund cUSDAmountSubunit celoAmountSubunit (length rs)) (\<lambda>enough.
     if \<not> enough then throw (ErrorObject (plain_error ''Fund balance to low to top-up relayers''))
     else
       andThen (promiseAll (map (disburseToRelayer p fund cUSDAmountSubunit celoAmountSubunit) rs)) (\<lambda>relayerTxs.
       ret (summarize (map2 (\<lambda>r txs. (relayerAccount r, \<lparr>dbCelo = txs ! 1, dbCUSD = txs ! 0\<rparr>)) rs relayerTxs)))))"

section \<open>Wallets (wallet.config.ts, fund.config.ts)\<close>

datatype wallet_config =
    LocalWallet string string
  | AzureHSMWallet string string string

text \<open>
  An environment variable that is not set is \<open>undefined\<close>; the fields are kept as they are read, here as
  empty strings.
\<close>

definition envOr :: "(string \<Rightarrow> string option) \<Rightarrow> string \<Rightarrow> string" where
  "envOr env name = (case env name of None \<Rightarrow> [] | Some v \<Rightarrow> v)"

definition envText :: "(string \<Rightarrow> string option) \<Rightarrow> string \<Rightarrow> string" where
  "envText env name = (case env name of None \<Rightarrow> ''undefined'' | Some v \<Rightarrow> v)"

definition walletConfig :: "(string \<Rightarrow> string option) \<Rightarrow> thrown + wallet_config" where
  "walletConfig env =
     (if env ''WALLET_TYPE'' = Some ''azure-hsm''
      then Inr (AzureHSMWallet (envOr env ''WALLET_ADDRESS'') (envOr env ''AZURE_VAULT_NAME'') (envOr env ''AZURE_KEY_NAME''))
      else if env ''WALLET_TYPE'' = Some ''local''
      then Inr (LocalWallet (envOr env ''WALLET_ADDRESS'') (envOr env ''WALLET_PRIVATE_KEY''))
      else Inl (ErrorObject (plain_error (''Invalid wallet type: '' @ envText env ''WALLET_TYPE''))))"

fun networkName :: "network \<Rightarrow> string" where
  "networkName alfajores = ''alfajores''"
| "networkName alfajoresstaging = ''alfajoresstaging''"
| "networkName baklava = ''baklava''"
| "networkName baklavastaging = ''baklavastaging''"
| "networkName rc1 = ''rc1''"

definition networkOf :: "string \<Rightarrow> network option" where
  "networkOf name = find (\<lambda>n. networkName n = name) [alfajores, alfajoresstaging, baklava, baklavastaging, rc1]"

text \<open>
  \<open>getDeployerMnemonic\<close>: the mnemonics of the decrypted file (\<open>None\<close> if it could not be parsed), and an
  empty one for what is missing.
\<close>

definition getDeployerMnemonic :: "(string \<Rightarrow> string option) option \<Rightarrow> string \<Rightarrow> string" where
  "getDeployerMnemonic parsed name =
     (case parsed of
        None \<Rightarrow> []
      | Some entries \<Rightarrow> (case entries (''FUND_'' @ name @ ''_MNEMONIC'') of None \<Rightarrow> [] | Some m \<Rightarrow> m))"

fun deployerMnemonics :: "(string \<Rightarrow> string option) option \<Rightarrow> network \<Rightarrow> string option" where
  "deployerMnemonics parsed alfajores = Some (getDeployerMnemonic parsed ''ALFAJORES'')"
| "deployerMnemonics parsed alfajoresstaging = Some (getDeployerMnemonic parsed ''ALFAJORES_STAGING'')"
| "deployerMnemonics parsed baklava = Some (getDeployerMnemonic parsed ''BAKLAVA'')"
| "deployerMnemonics parsed baklavastaging = Some (getDeployerMnemonic parsed ''BAKLAVA_STAGING'')"
| "deployerMnemonics parsed rc1 = Some (getDeployerMnemonic parsed ''RC1'')"

text \<open>The key derivation of BIP 32 and 39 and the address of a key are outside.\<close>

record key_port =
  derivePrivateKey :: "string \<Rightarrow> nat list \<Rightarrow> string"
  privateKeyToAddress :: "string \<Rightarrow> string"

definition buildFundConfig :: "key_port \<Rightarrow> string \<Rightarrow> wallet_config" where
  "buildFundConfig k mnemonic =
     (let privateKey = derivePrivateKey k mnemonic [0, 0] in
      LocalWallet (privateKeyToAddress k privateKey) privateKey)"

definition fundConfig ::
    "key_port \<Rightarrow> (network \<Rightarrow> string option) \<Rightarrow> (string \<Rightarrow> string option) \<Rightarrow> thrown + wallet_config" where
  "fundConfig k mnemonics env =
     (case networkOf (envText env ''NETWORK'') of
        None \<Rightarrow> Inl (ErrorObject (plain_error (''Unknown network: '' @ envText env ''NETWORK'')))
      | Some net \<Rightarrow>
          if net = rc1
          then Inr (AzureHSMWallet (envOr env ''FUND_ADDRESS'') (envOr env ''AZURE_VAULT_NAME'') (envOr env ''AZURE_KEY_NAME''))
          else (case mnemonics net of
                  None \<Rightarrow> Inl (ErrorObject (plain_error
                    (''No mnemonic found for '' @ networkName net @ '', check truffler-deployer-config'')))
                | Some mnemonic \<Rightarrow> Inr (buildFundConfig k mnemonic)))"

section \<open>Commands (fund.command.ts)\<close>

text \<open>What the spinner shows, and how a command ends early\<close>

datatype spin = SpinStart string | SpinInfo string | SpinWarn string | SpinFail string | SpinSucceed string

datatype cli_end = ProcessExit int | Uncaught thrown

type_synonym ('w, 'a) cli_io = "(spin list \<times> 'w, cli_end, 'a) io"

definition show_spin :: "spin \<Rightarrow> ('w, unit) cli_io" where
  "show_spin x = modS (\<lambda>out. out @ [x])"

definition awaiting :: "('w, thrown, 'a) io \<Rightarrow> ('w, 'a) cli_io" where
  "awaiting m = catching (ext m) (\<lambda>e. throw (Uncaught e))"

primrec findRelayers :: "network_config \<Rightarrow> string list \<Rightarrow> ('w, relayer_accounts list) cli_io" where
  "findRelayers cfg [] = ret []"
| "findRelayers cfg (r # rs) =
     (case find (\<lambda>pr. relayerAccount pr = r) (relayers cfg) of
        Some relayer \<Rightarrow> andThen (findRelayers cfg rs) (\<lambda>found. ret (relayer # found))
      | None \<Rightarrow> andThen (show_spin (SpinWarn (''Skipping '' @ r @ '': relayer not found in config''))) (\<lambda>_.
          findRelayers cfg rs))"

definition awaitRelayer ::
    "('w, 'r) funding_port \<Rightarrow> string \<times> 'r relayer_disbursement \<Rightarrow> ('w, (string \<times> bool) list) cli_io" where
  "awaitRelayer p entry =
     andThen (awaiting (resultHash p (dbCelo (snd entry)))) (\<lambda>celoTxHash.
     andThen (show_spin (SpinInfo (''-celo-> Relayer#'' @ fst entry))) (\<lambda>_.
     andThen (show_spin (SpinInfo (''        '' @ celoTxHash))) (\<lambda>_.
     andThen (awaiting (resultHash p (dbCUSD (snd entry)))) (\<lambda>cUSDTxHash.
     andThen (show_spin (SpinInfo (''-cUSD-> Relayer#'' @ fst entry))) (\<lambda>_.
     andThen (show_spin (SpinInfo (''        '' @ cUSDTxHash))) (\<lambda>_.
     promiseAll [awaiting (waitReceipt p (dbCelo (snd entry))), awaiting (waitReceipt p (dbCUSD (snd entry)))]))))))"

definition receiptLine :: "string \<times> bool \<Rightarrow> spin" where
  "receiptLine receipt =
     (if snd receipt then SpinSucceed (''Tx:'' @ fst receipt @ '' [OK]'') else SpinWarn (''Tx:'' @ fst receipt @ '' [REVERT]''))"

definition reportReceipts :: "(string \<times> bool) list list \<Rightarrow> ('w, unit) cli_io" where
  "reportReceipts results =
     andThen (forEach (forEach (\<lambda>receipt. show_spin (receiptLine receipt))) results) (\<lambda>_.
     let failedTxs = length (filter (\<lambda>receipt. \<not> snd receipt) (concat results)) in
     if failedTxs > 0
     then show_spin (SpinFail (show_nat failedTxs @ ''/'' @ show_nat (length results * 2) @ '' failed txs. Check summary''))
     else show_spin (SpinSucceed ''All transfers completed successfully!''))"

definition disburse ::
    "('w, 'r) funding_port \<Rightarrow> network_config \<Rightarrow> string \<Rightarrow> string list \<Rightarrow> big \<Rightarrow> big \<Rightarrow> ('w, unit) cli_io" where
  "disburse p cfg fund names cusdAmount celoAmount =
     andThen (show_spin (SpinStart ''Disbursing funds'')) (\<lambda>_.
     andThen (if names \<noteq> [] then findRelayers cfg names else ret (relayers cfg)) (\<lambda>rs.
     if rs = []
     then andThen (show_spin (SpinFail ''No relayers to fund'')) (\<lambda>_. throw (ProcessExit 1))
     else
       andThen (show_spin (SpinInfo ''Funding relayers: '')) (\<lambda>_.
       andThen (forEach (\<lambda>r. show_spin (SpinInfo (''   - '' @ relayerAccount r))) rs) (\<lambda>_.
       andThen
         (catching (ext (disburseFunds p fund rs cusdAmount celoAmount)) (\<lambda>e.
            andThen (show_spin (SpinFail (message_text e))) (\<lambda>_. throw (ProcessExit 1)))) (\<lambda>summary.
       andThen (show_spin (SpinSucceed ''Funding transactions submitted'')) (\<lambda>_.
       andThen (show_spin (SpinStart ''Funding relayers'')) (\<lambda>_.
       andThen (promiseAll (map (awaitRelayer p) summary)) (\<lambda>results.
       reportReceipts results))))))))"

text \<open>The two commands that show balances; the result is what is logged.\<close>

definition getFundBalance :: "('w, 'r) funding_port \<Rightarrow> string \<Rightarrow> ('w, string \<times> rat \<times> rat) cli_io" where
  "getFundBalance p fund =
     andThen (show_spin (SpinStart ''Getting fund balances'')) (\<lambda>_.
     andThen (awaiting (serviceFundBalance p fund)) (\<lambda>balances.
     andThen (show_spin (SpinSucceed ''Done loading balances'')) (\<lambda>_.
     ret (fund, rbCelo balances / SUBUNITS, rbCUSD balances / SUBUNITS))))"

definition getBalance ::
    "('w, 'r) funding_port \<Rightarrow> network_config \<Rightarrow> ('w, (string \<times> rat \<times> string \<times> rat) list) cli_io" where
  "getBalance p cfg =
     andThen (show_spin (SpinStart ''Collecting relayer balances'')) (\<lambda>_.
     andThen (awaiting (getRelayerBalances p (relayers cfg))) (\<lambda>summary.
     andThen (show_spin (SpinStart ''Done loading balances'')) (\<lambda>_.
     ret (summarize (map (\<lambda>r. let b = the (map_of summary (relayerAccount r)) in
       (relayerAccount r, rbCelo b / SUBUNITS, relayerWallet r, rbCUSD b / SUBUNITS)) (relayers cfg))))))"

section \<open>Summaries\<close>

lemma keys_summarize_from:
  "map fst (fold (\<lambda>(k, v) summary. AList.update k v summary) kvs acc) = fold (\<lambda>k ks. if k \<in> set ks then ks else ks @ [k]) (map fst kvs) (map fst acc)"
proof (induction kvs arbitrary: acc)
  case (Cons x kvs)
  have "fst ` set acc = set (map fst acc)" by simp
  with Cons show ?case by (cases x) (simp only: fold.simps case_prod_conv update_keys list.map o_apply fst_conv)
qed simp

lemma fold_new_keys:
  "distinct ks \<Longrightarrow> distinct (fold (\<lambda>k ks. if k \<in> set ks then ks else ks @ [k]) xs ks)
     \<and> set (fold (\<lambda>k ks. if k \<in> set ks then ks else ks @ [k]) xs ks) = set ks \<union> set xs"
  by (induction xs arbitrary: ks) auto

lemma summarize_keys:
  "distinct (map fst (summarize kvs))" "set (map fst (summarize kvs)) = set (map fst kvs)"
  using fold_new_keys [of "[]" "map fst kvs"]
  by (simp_all add: summarize_def keys_summarize_from)

lemma length_summarize: "length (summarize kvs) = card (set (map fst kvs))"
  by (metis distinct_card length_map summarize_keys)

lemma map_fst_map2: "length ys = length xs \<Longrightarrow> map fst (map2 (\<lambda>x y. (f x, g x y)) xs ys) = map f xs"
  by (induction xs ys rule: list_induct2') auto

section \<open>What is sent\<close>

datatype token = Celo | Cusd

type_synonym transfer = "token \<times> string \<times> big"

text \<open>
  Only an accepted transfer is recorded, and nothing else changes what has been sent; \<open>relayerTransfers\<close> are
  the two transfers a relayer is to get.
\<close>

definition records_transfers :: "('w, 'r) funding_port \<Rightarrow> string \<Rightarrow> ('w \<Rightarrow> transfer list) \<Rightarrow> bool" where
  "records_transfers p fund sent \<longleftrightarrow>
     (\<forall>to n. sends sent [(Celo, to, n)] (celoSend p to n fund) \<and> sends sent [(Cusd, to, n)] (cUSDSend p to n fund)) \<and>
     sends sent [] (loadStable p) \<and> sends sent [] (loadCelo p) \<and>
     (\<forall>a. sends sent [] (celoOf p a) \<and> sends sent [] (cUSDOf p a)) \<and>
     (\<forall>x. sends sent [] (resultHash p x) \<and> sends sent [] (waitReceipt p x))"

definition relayerTransfers :: "big \<Rightarrow> big \<Rightarrow> relayer_accounts \<Rightarrow> transfer list" where
  "relayerTransfers cUSD celo r = [(Cusd, relayerWallet r, cUSD), (Celo, relayerAccount r, celo)]"

definition disbursement :: "big \<Rightarrow> big \<Rightarrow> relayer_accounts list \<Rightarrow> transfer list" where
  "disbursement cUSDAmount celoAmount rs =
     concat (map (relayerTransfers (bigTimes cUSDAmount (Some SUBUNITS)) (bigTimes celoAmount (Some SUBUNITS))) rs)"

lemma sends_reads:
  assumes "records_transfers p fund sent"
  shows "sends sent [] (loadTokens p)" and "sends sent [] (serviceFundBalance p f)"
    and "sends sent [] (fundHasEnoughBalance p f a b n)"
proof -
  have load: "sends sent [] (loadTokens p)"
    unfolding loadTokens_def using assms by (intro sending) (auto simp: records_transfers_def)
  have both: "sends sent [] (promiseAll [celoOf p f, cUSDOf p f])"
    using sends_promiseBoth [of sent "[]" "celoOf p f" "[]" "cUSDOf p f"] assms by (simp add: records_transfers_def)
  have balance: "sends sent [] (serviceFundBalance p f)"
    unfolding serviceFundBalance_def by (intro sends_after_quiet load both sends_ret)
  show "sends sent [] (loadTokens p)" by (rule load)
  show "sends sent [] (serviceFundBalance p f)" by (rule balance)
  show "sends sent [] (fundHasEnoughBalance p f a b n)"
    unfolding fundHasEnoughBalance_def Let_def by (intro sends_after_quiet balance sends_ret)
qed

lemma sends_disburseToRelayer:
  "records_transfers p fund sent \<Longrightarrow> sends sent (relayerTransfers cUSD celo r) (disburseToRelayer p fund cUSD celo r)"
  using sends_promiseBoth [of sent "[(Cusd, relayerWallet r, cUSD)]" "cUSDSend p (relayerWallet r) cUSD fund"
      "[(Celo, relayerAccount r, celo)]" "celoSend p (relayerAccount r) celo fund"]
  by (simp add: records_transfers_def disburseToRelayer_def relayerTransfers_def)

text \<open>A run of \<open>disburseFunds\<close>: it fails without sending anything, or it has found enough and sends.\<close>

lemma fundHasEnough_True:
  assumes "fundHasEnoughBalance p fund (Some cu) (Some ce) n w = (Inr True, w')"
  shows "\<exists>bc bu u u' v v'. celoOf p fund u = (Inr bc, u') \<and> cUSDOf p fund v = (Inr bu, v')
     \<and> ce * of_nat n \<le> bc \<and> cu * of_nat n \<le> bu"
proof -
  from assms obtain b u1 u2 where both: "promiseAll [celoOf p fund, cUSDOf p fund] u1 = (Inr b, u2)"
    and enough: "\<not> bigLess (Some (b ! 0)) (bigTimes (Some ce) (Some (of_nat n)))"
      "\<not> bigLess (Some (b ! 1)) (bigTimes (Some cu) (Some (of_nat n)))"
    by (auto simp: fundHasEnoughBalance_def serviceFundBalance_def andThen_eq_Inr Let_def split: if_splits)
  from promiseAll_results [OF both] obtain bc bu where "b = [bc, bu]"
    "\<exists>u u'. celoOf p fund u = (Inr bc, u')" "\<exists>u u'. cUSDOf p fund u = (Inr bu, u')"
    by (auto simp: list_all2_Cons1)
  with enough show ?thesis by (fastforce simp: bigLess_def bigTimes_def not_less)
qed

lemma disburseFunds_run:
  assumes "records_transfers p fund sent" and "disburseFunds p fund rs cUSDAmount celoAmount w = (r, w')"
  shows "\<exists>new. sent w' = sent w @ new \<and> subseq new (disbursement cUSDAmount celoAmount rs)
     \<and> (\<forall>summary. r = Inr summary \<longrightarrow> new = disbursement cUSDAmount celoAmount rs
          \<and> set (map fst summary) = relayerAccount ` set rs \<and> distinct (map fst summary))
     \<and> (new \<noteq> [] \<longrightarrow> (\<exists>u u'. fundHasEnoughBalance p fund (bigTimes cUSDAmount (Some SUBUNITS))
          (bigTimes celoAmount (Some SUBUNITS)) (length rs) u = (Inr True, u')))"
proof -
  let ?cu = "bigTimes cUSDAmount (Some SUBUNITS)" and ?ce = "bigTimes celoAmount (Some SUBUNITS)"
  let ?pay = "promiseAll (map (disburseToRelayer p fund ?cu ?ce) rs)"
  have pays: "sends sent (disbursement cUSDAmount celoAmount rs) ?pay"
    unfolding disbursement_def by (intro sends_promiseAll sends_disburseToRelayer assms(1))
  obtain q u where load: "loadTokens p w = (q, u)" by fastforce
  then have u: "sent u = sent w" by (rule sends_nothing [OF sends_reads(1) [OF assms(1)]])
  obtain e v where check: "fundHasEnoughBalance p fund ?cu ?ce (length rs) u = (e, v)" by fastforce
  then have v: "sent v = sent u" by (rule sends_nothing [OF sends_reads(3) [OF assms(1)]])
  obtain t x where pay: "?pay v = (t, x)" by fastforce
  with pays obtain new where new: "sent x = sent v @ new" "subseq new (disbursement cUSDAmount celoAmount rs)"
    "\<And>y. t = Inr y \<Longrightarrow> new = disbursement cUSDAmount celoAmount rs" by (rule sendsD) blast
  show ?thesis
  proof (cases "(\<exists>y. q = Inr y) \<and> e = Inr True")
    case False
    with assms(2) load check u v have "sent w' = sent w" "\<And>summary. r \<noteq> Inr summary"
      by (auto simp: disburseFunds_def Let_def andThen_def throw_def split: sum.splits if_splits)
    then show ?thesis by auto
  next
    case True
    then have run: "andThen ?pay (\<lambda>relayerTxs.
        ret (summarize (map2 (\<lambda>r txs. (relayerAccount r, \<lparr>dbCelo = txs ! 1, dbCUSD = txs ! 0\<rparr>)) rs relayerTxs))) v = (r, w')"
      using assms(2) load check by (auto simp: disburseFunds_def Let_def andThen_def)
    with pay have "w' = x" by (auto simp: andThen_def ret_def split: sum.splits)
    moreover have "set (map fst summary) = relayerAccount ` set rs \<and> distinct (map fst summary)
        \<and> new = disbursement cUSDAmount celoAmount rs" if "r = Inr summary" for summary
    proof -
      from run pay that obtain y where y: "t = Inr y" and summary: "summary =
          summarize (map2 (\<lambda>r txs. (relayerAccount r, \<lparr>dbCelo = txs ! 1, dbCUSD = txs ! 0\<rparr>)) rs y)"
        by (auto simp: andThen_eq_Inr)
      have "length y = length rs"
        using promiseAll_results [OF pay [unfolded y]] by (auto dest: list_all2_lengthD)
      then have keys: "map fst (map2 (\<lambda>r txs. (relayerAccount r, \<lparr>dbCelo = txs ! 1, dbCUSD = txs ! 0\<rparr>)) rs y)
          = map relayerAccount rs" by (rule map_fst_map2)
      have "set (map fst summary) = set (map relayerAccount rs)"
        unfolding summary summarize_keys(2) keys by (rule refl)
      with new(3) [OF y] summarize_keys(1) show ?thesis by (simp add: summary)
    qed
    ultimately show ?thesis using new u v True check by auto
  qed
qed

text \<open>How much of a token was sent; an amount that is not a number counts as nothing.\<close>

definition totalSent :: "token \<Rightarrow> transfer list \<Rightarrow> rat" where
  "totalSent t xs = sum_list (map (\<lambda>(u, to, n). if u = t then (case n of None \<Rightarrow> 0 | Some x \<Rightarrow> x) else 0) xs)"

lemma totalSent_subseq:
  "subseq xs ys \<Longrightarrow> (\<And>u to x. (u, to, Some x) \<in> set ys \<Longrightarrow> 0 \<le> x) \<Longrightarrow> totalSent t xs \<le> totalSent t ys"
proof (induction rule: list_emb.induct)
  case (list_emb_Cons xs ys y)
  obtain u to n where y: "y = (u, to, n)" by (cases y)
  have "0 \<le> (if u = t then (case n of None \<Rightarrow> 0 | Some x \<Rightarrow> x) else 0)"
    using list_emb_Cons.prems [of u to] by (auto simp: y split: option.split)
  moreover have "totalSent t xs \<le> totalSent t ys" using list_emb_Cons by auto
  ultimately show ?case by (simp add: totalSent_def y)
next
  case (list_emb_Cons2 x y xs ys)
  then have "totalSent t xs \<le> totalSent t ys" by auto
  with list_emb_Cons2 show ?case by (cases y) (simp add: totalSent_def)
qed (auto simp: totalSent_def intro!: sum_list_nonneg split: option.split)

lemma totalSent_disbursement:
  "totalSent Cusd (disbursement (Some cu) (Some ce) rs) = of_nat (length rs) * (cu * SUBUNITS)"
  "totalSent Celo (disbursement (Some cu) (Some ce) rs) = of_nat (length rs) * (ce * SUBUNITS)"
  by (induction rs)
    (simp_all add: totalSent_def disbursement_def relayerTransfers_def bigTimes_def distrib_right)

lemma disbursement_amounts:
  "(u, to, Some x) \<in> set (disbursement (Some cu) (Some ce) rs) \<Longrightarrow> x = cu * SUBUNITS \<or> x = ce * SUBUNITS"
  by (auto simp: disbursement_def relayerTransfers_def bigTimes_def)

section \<open>Properties\<close>

text \<open>
  C39. A disbursement never sends more of a token than the balance of the fund that it has read: whatever
  fails, what was accepted are some of the transfers of the relayers, in their order, and their total is
  within the balances; and when it returns, every relayer's two transfers were accepted.
\<close>

theorem disburse_within_balance:
  assumes "records_transfers p fund sent" and "0 \<le> cu" and "0 \<le> ce"
    and "disburseFunds p fund rs (Some cu) (Some ce) w = (r, w')"
  shows "\<exists>new. sent w' = sent w @ new \<and> subseq new (disbursement (Some cu) (Some ce) rs)
     \<and> (\<forall>summary. r = Inr summary \<longrightarrow> new = disbursement (Some cu) (Some ce) rs)
     \<and> (new \<noteq> [] \<longrightarrow> (\<exists>bc bu u u' v v'. celoOf p fund u = (Inr bc, u') \<and> cUSDOf p fund v = (Inr bu, v')
          \<and> totalSent Celo new \<le> bc \<and> totalSent Cusd new \<le> bu))"
proof -
  from disburseFunds_run [OF assms(1,4)] obtain new where
    new: "sent w' = sent w @ new" "subseq new (disbursement (Some cu) (Some ce) rs)"
      "\<forall>summary. r = Inr summary \<longrightarrow> new = disbursement (Some cu) (Some ce) rs"
    and checked: "new \<noteq> [] \<longrightarrow> (\<exists>u u'. fundHasEnoughBalance p fund (Some (cu * SUBUNITS)) (Some (ce * SUBUNITS)) (length rs) u
        = (Inr True, u'))"
    by (auto simp: bigTimes_def)
  have "0 \<le> SUBUNITS" by (simp add: SUBUNITS_def)
  then have "\<And>u to x. (u, to, Some x) \<in> set (disbursement (Some cu) (Some ce) rs) \<Longrightarrow> 0 \<le> x"
    using assms(2,3) disbursement_amounts by (metis mult_nonneg_nonneg)
  then have total: "totalSent t new \<le> totalSent t (disbursement (Some cu) (Some ce) rs)" for t
    using new(2) by (rule totalSent_subseq [rotated])
  show ?thesis
  proof (intro exI [of _ new] conjI impI)
    assume "new \<noteq> []"
    with checked obtain bc bu u u' v v' where "celoOf p fund u = (Inr bc, u')" "cUSDOf p fund v = (Inr bu, v')"
      "ce * SUBUNITS * of_nat (length rs) \<le> bc" "cu * SUBUNITS * of_nat (length rs) \<le> bu"
      by (auto dest: fundHasEnough_True)
    with total [of Celo] total [of Cusd] show "\<exists>bc bu u u' v v'. celoOf p fund u = (Inr bc, u') \<and> cUSDOf p fund v = (Inr bu, v')
        \<and> totalSent Celo new \<le> bc \<and> totalSent Cusd new \<le> bu"
      by (auto simp: totalSent_disbursement mult.commute intro: order_trans)
  qed (use new in auto)
qed

text \<open>A fund with some of each token; the world is what was sent, newest last, each transfer its position.\<close>

definition demoFund :: "rat \<Rightarrow> (nat \<Rightarrow> bool) \<Rightarrow> (transfer list, nat) funding_port" where
  "demoFund balance status =
     \<lparr>loadStable = ret (), loadCelo = ret (), celoOf = (\<lambda>a. ret balance), cUSDOf = (\<lambda>a. ret balance),
      celoSend = (\<lambda>to n from w. (Inr (length w), w @ [(Celo, to, n)])),
      cUSDSend = (\<lambda>to n from w. (Inr (length w), w @ [(Cusd, to, n)])),
      resultHash = (\<lambda>k. ret (show_nat k)), waitReceipt = (\<lambda>k. ret (show_nat k, status k))\<rparr>"

lemma demoFund_records: "records_transfers (demoFund balance status) fund (\<lambda>w. w)"
  by (simp add: records_transfers_def demoFund_def sends_ret) (simp add: sends_def)

definition demoRelayers :: "relayer_accounts list" where
  "demoRelayers = [relayer_accounts.make ''0xa'' ''0xwa'', relayer_accounts.make ''0xb'' ''0xwb'']"

lemma disburse_within_balance_witness:
  "\<exists>summary new. disburseFunds (demoFund (4 * SUBUNITS) (\<lambda>k. True)) ''0xf'' demoRelayers (Some 2) (Some 1) [] = (Inr summary, new)
     \<and> length new = 4 \<and> totalSent Cusd new \<le> 4 * SUBUNITS"
proof -
  let ?p = "demoFund (4 * SUBUNITS) (\<lambda>k. True)"
  have pos: "0 \<le> SUBUNITS" by (simp add: SUBUNITS_def)
  obtain r new where run: "disburseFunds ?p ''0xf'' demoRelayers (Some 2) (Some 1) [] = (r, new)"
    by (metis prod.collapse)
  have "\<not> isl (fst (disburseFunds ?p ''0xf'' demoRelayers (Some 2) (Some 1) []))" by code_simp
  with run obtain summary where "r = Inr summary" by (cases r) auto
  with disburse_within_balance [OF demoFund_records _ _ run] run show ?thesis
    by (auto simp: totalSent_def demoFund_def disbursement_def relayerTransfers_def demoRelayers_def)
qed

section \<open>What the command looks at\<close>

text \<open>The lines about a receipt, and what the steps of the command leave alone: their number and what was sent\<close>

fun isReceiptLine :: "spin \<Rightarrow> bool" where
  "isReceiptLine (SpinSucceed s) = (take 3 s = ''Tx:'')"
| "isReceiptLine (SpinWarn s) = (take 3 s = ''Tx:'')"
| "isReceiptLine _ = False"

definition reported :: "('w \<Rightarrow> transfer list) \<Rightarrow> nat \<Rightarrow> transfer list \<Rightarrow> spin list \<times> 'w \<Rightarrow> bool" where
  "reported sent n L ow \<longleftrightarrow> length (filter isReceiptLine (fst ow)) = n \<and> sent (snd ow) = L"

lemma show_spin_app [simp]: "show_spin x (out, w) = (Inr (), (out @ [x], w))"
  by (simp add: show_spin_def)

lemma reported_show: "\<not> isReceiptLine x \<Longrightarrow> preserves (reported sent n L) (show_spin x)"
  unfolding show_spin_def by (intro keeps) (auto simp: reported_def)

lemma reported_awaiting:
  assumes "sends sent [] m"
  shows "preserves (reported sent n L) (awaiting m)"
proof (rule preservesI)
  fix ow r ow'
  assume kept: "reported sent n L ow" and run: "awaiting m ow = (r, ow')"
  obtain out w where ow: "ow = (out, w)" by fastforce
  obtain q u where m: "m w = (q, u)" by fastforce
  with run ow have "ow' = (out, u)"
    by (auto simp: awaiting_def catching_def ext_app throw_def split: sum.splits)
  with kept ow sends_nothing [OF assms m] show "reported sent n L ow'" by (simp add: reported_def)
qed

lemma reported_awaitRelayer:
  assumes "records_transfers p fund sent"
  shows "preserves (reported sent n L) (awaitRelayer p entry)"
  using assms unfolding awaitRelayer_def records_transfers_def
  by (auto intro!: keeps reported_show reported_awaiting)

lemma findRelayers_run:
  "findRelayers cfg names (out, w) = (Inr rs, (out', w')) \<Longrightarrow>
   rs = List.map_filter (\<lambda>r. find (\<lambda>pr. relayerAccount pr = r) (relayers cfg)) names \<and> w' = w
     \<and> filter isReceiptLine out' = filter isReceiptLine out"
  by (induction names arbitrary: rs out)
    (auto simp: List.map_filter_simps runs split: option.splits)

lemma show_all: "forEach (\<lambda>x. show_spin (f x)) xs (out, w) = (Inr (), (out @ map f xs, w))"
  by (induction xs arbitrary: out) (simp_all add: andThen_def ret_def)

lemma show_receipts:
  "forEach (forEach (\<lambda>receipt. show_spin (receiptLine receipt))) results (out, w)
     = (Inr (), (out @ map receiptLine (concat results), w))"
  by (induction results arbitrary: out) (simp_all add: andThen_def show_all ret_def)

lemma reportReceipts_run:
  assumes "reportReceipts results (out, w) = (r, (out', w'))"
  shows "w' = w \<and> length (filter isReceiptLine out') = length (filter isReceiptLine out) + length (concat results)"
proof -
  have "filter isReceiptLine (map receiptLine xs) = map receiptLine xs" for xs
    by (induction xs) (auto simp: receiptLine_def)
  with assms show ?thesis
    by (auto simp: reportReceipts_def andThen_def show_receipts Let_def split: if_splits)
qed

lemma awaited_receipts:
  assumes "promiseAll (map (awaitRelayer p) summary) ow = (Inr results, ow')"
  shows "length (concat results) = 2 * length summary"
proof -
  have two: "length x = 2" if "awaitRelayer p e u = (Inr x, u')" for e x u u'
  proof -
    from that have "\<exists>v. promiseAll [awaiting (waitReceipt p (dbCelo (snd e))), awaiting (waitReceipt p (dbCUSD (snd e)))] v
        = (Inr x, u')" unfolding awaitRelayer_def andThen_eq_Inr by blast
    then obtain v where "promiseAll [awaiting (waitReceipt p (dbCelo (snd e))), awaiting (waitReceipt p (dbCUSD (snd e)))] v
        = (Inr x, u')" by blast
    from promiseAll_results [OF this] show ?thesis by (auto dest: list_all2_lengthD)
  qed
  have "list_all2 (\<lambda>e x. length x = 2) summary results"
    using promiseAll_results [OF assms] by (auto simp: list_all2_map1 elim!: list_all2_mono dest: two)
  then show ?thesis by (induction rule: list_all2_induct) auto
qed

text \<open>
  An amount that is not a number is compared with the balances in vain, and a mnemonic that could not be
  read is an empty one, from which a wallet is derived all the same.
\<close>

lemma NaN_passes_balance_check:
  "serviceFundBalance p fund w = (Inr b, w') \<Longrightarrow> fundHasEnoughBalance p fund None None n w = (Inr True, w')"
  by (simp add: fundHasEnoughBalance_def andThen_def bigTimes_def bigLess_def ret_def)

lemma missing_mnemonic_unnoticed:
  "networkOf (envText env ''NETWORK'') = Some net \<Longrightarrow> net \<noteq> rc1 \<Longrightarrow>
   fundConfig k (deployerMnemonics None) env = Inr (buildFundConfig k [])"
  by (cases net) (simp_all add: fundConfig_def getDeployerMnemonic_def)

lemma length_disbursement: "length (disbursement cu ce rs) = 2 * length rs"
  by (induction rs) (simp_all add: disbursement_def relayerTransfers_def)

lemma then_show:
  "andThen (show_spin x) k (out, w) = k () (out @ [x], w)"
  "andThen (forEach (\<lambda>x. show_spin (f x)) xs) k (out, w) = k () (out @ map f xs, w)"
  by (simp_all add: andThen_def show_all)

text \<open>The steps of a command that comes to its end\<close>

definition selectedRelayers :: "network_config \<Rightarrow> string list \<Rightarrow> relayer_accounts list" where
  "selectedRelayers cfg names =
     (if names \<noteq> [] then List.map_filter (\<lambda>r. find (\<lambda>pr. relayerAccount pr = r) (relayers cfg)) names else relayers cfg)"

lemma chosen_run:
  assumes "(if names \<noteq> [] then findRelayers cfg names else ret (relayers cfg)) (out, w) = (Inr rs, (out', w'))"
  shows "rs = selectedRelayers cfg names \<and> w' = w \<and> filter isReceiptLine out' = filter isReceiptLine out"
  using assms by (cases "names = []") (auto simp: selectedRelayers_def dest: findRelayers_run)

lemma disburse_Inr:
  assumes "disburse p cfg fund names cu ce ([], w) = (Inr (), (out, w'))"
  obtains summary results out1 w1 ow2 where
    "disburseFunds p fund (selectedRelayers cfg names) cu ce w = (Inr summary, w1)" "filter isReceiptLine out1 = []"
    "promiseAll (map (awaitRelayer p) summary) (out1, w1) = (Inr results, ow2)"
    "reportReceipts results ow2 = (Inr (), (out, w'))"
proof -
  let ?choose = "if names \<noteq> [] then findRelayers cfg names else ret (relayers cfg)"
  obtain q o1 v1 where choose: "?choose ([SpinStart ''Disbursing funds''], w) = (q, (o1, v1))"
    by (metis prod.collapse)
  with assms obtain rs where q: "q = Inr rs" and "rs \<noteq> []"
    by (cases q) (auto simp: disburse_def then_show andThen_def split: if_splits)
  from chosen_run [OF choose [unfolded q]] have rs: "rs = selectedRelayers cfg names" "v1 = w" "filter isReceiptLine o1 = []"
    by simp_all
  let ?o2 = "(o1 @ [SpinInfo ''Funding relayers: '']) @ map (\<lambda>r. SpinInfo (''   - '' @ relayerAccount r)) rs"
  let ?rest = "\<lambda>summary. andThen (show_spin (SpinSucceed ''Funding transactions submitted'')) (\<lambda>_.
       andThen (show_spin (SpinStart ''Funding relayers'')) (\<lambda>_.
       andThen (promiseAll (map (awaitRelayer p) summary)) (\<lambda>results. reportReceipts results)))"
  have after: "andThen ?choose k ([SpinStart ''Disbursing funds''], w) = k rs (o1, v1)"
    for k :: "relayer_accounts list \<Rightarrow> ('a, unit) cli_io"
    by (simp only: andThen_def choose q prod.case sum.case)
  have "disburse p cfg fund names cu ce ([], w) = andThen
         (catching (ext (disburseFunds p fund rs cu ce)) (\<lambda>e.
            andThen (show_spin (SpinFail (message_text e))) (\<lambda>_. throw (ProcessExit 1)))) ?rest (?o2, w)"
    using \<open>rs \<noteq> []\<close> rs(2) unfolding disburse_def then_show append.simps after by (simp add: then_show)
  with assms obtain summary w1 where paid: "disburseFunds p fund rs cu ce w = (Inr summary, w1)"
    and rest: "?rest summary (?o2, w1) = (Inr (), (out, w'))"
    by (auto simp: andThen_eq_Inr catching_Inr ext_eq_iff then_show)
  let ?o4 = "(?o2 @ [SpinSucceed ''Funding transactions submitted'']) @ [SpinStart ''Funding relayers'']"
  from rest obtain results ow2 where "promiseAll (map (awaitRelayer p) summary) (?o4, w1) = (Inr results, ow2)"
    "reportReceipts results ow2 = (Inr (), (out, w'))"
    unfolding then_show by (auto simp: andThen_eq_Inr)
  moreover have "filter isReceiptLine ?o4 = []" using rs(3) by simp
  ultimately show thesis using that paid [unfolded rs(1)] by blast
qed

text \<open>
  The disburse command submits two transfers for every relayer it selected, but looks at two receipts
  per account: of a relayer that is named twice the first two transfers are never looked at, and the
  command may report that all transfers completed although they reverted.
\<close>

theorem disburse_checks_two_per_account:
  assumes "records_transfers p fund sent"
    and "disburse p cfg fund names cu ce ([], w) = (Inr (), (out, w'))"
  shows "sent w' = sent w @ disbursement cu ce (selectedRelayers cfg names)
     \<and> length (disbursement cu ce (selectedRelayers cfg names)) = 2 * length (selectedRelayers cfg names)
     \<and> length (filter isReceiptLine out) = 2 * card (relayerAccount ` set (selectedRelayers cfg names))"
proof -
  let ?rs = "selectedRelayers cfg names"
  obtain summary results o1 w1 ow2 where
    paid: "disburseFunds p fund ?rs cu ce w = (Inr summary, w1)" and o1: "filter isReceiptLine o1 = []"
    and awaited: "promiseAll (map (awaitRelayer p) summary) (o1, w1) = (Inr results, ow2)"
    and report: "reportReceipts results ow2 = (Inr (), (out, w'))" using assms(2) by (rule disburse_Inr)
  from disburseFunds_run [OF assms(1) paid] have sent: "sent w1 = sent w @ disbursement cu ce ?rs"
    and keys: "set (map fst summary) = relayerAccount ` set ?rs" "distinct (map fst summary)" by auto
  have "length summary = card (relayerAccount ` set ?rs)"
    using distinct_card [OF keys(2)] keys(1) by simp
  then have receipts: "length (concat results) = 2 * card (relayerAccount ` set ?rs)"
    using awaited_receipts [OF awaited] by simp
  have "preserves (reported sent 0 (sent w1)) (promiseAll (map (awaitRelayer p) summary))"
    by (intro keeps) (auto intro: reported_awaitRelayer [OF assms(1)])
  moreover have "reported sent 0 (sent w1) (o1, w1)" by (simp add: reported_def o1)
  ultimately have "reported sent 0 (sent w1) ow2" using awaited by (rule preservesD)
  then have "length (filter isReceiptLine (fst ow2)) = 0" "sent (snd ow2) = sent w1" by (simp_all add: reported_def)
  with reportReceipts_run [of results "fst ow2" "snd ow2" "Inr ()" out w'] report receipts sent show ?thesis
    by (simp add: length_disbursement)
qed

definition demoNetwork :: network_config where
  "demoNetwork = \<lparr>relayers = demoRelayers, MetaTransactionWalletDeployer = ''0xd'', MetaTransactionWalletVersions = [],
     fornoURL = [], odisPublicKey = [], odisUrl = []\<rparr>"

text \<open>A relayer named twice, whose first two transfers revert\<close>

lemma disburse_checks_two_per_account_witness:
  "\<exists>out new. disburse (demoFund 4000000000000000000 (\<lambda>k. 2 \<le> k)) demoNetwork ''0xf''
        [''0xa'', ''0xa''] (Some 2) (Some 1) ([], []) = (Inr (), (out, new))
     \<and> length new = 4 \<and> length (filter isReceiptLine out) = 2
     \<and> last out = SpinSucceed ''All transfers completed successfully!''"
proof -
  let ?p = "demoFund 4000000000000000000 (\<lambda>k. 2 \<le> k)" and ?cfg = demoNetwork
  let ?r = "disburse ?p ?cfg ''0xf'' [''0xa'', ''0xa''] (Some 2) (Some 1) ([], [])"
  have "(fst ?r, last (fst (snd ?r))) = (Inr (), SpinSucceed ''All transfers completed successfully!'')" by code_simp
  then have "fst ?r = Inr ()" and last: "last (fst (snd ?r)) = SpinSucceed ''All transfers completed successfully!''" by simp_all
  then obtain out new where run: "?r = (Inr (), (out, new))" by (metis prod.collapse)
  have "selectedRelayers ?cfg [''0xa'', ''0xa''] = [relayer_accounts.make ''0xa'' ''0xwa'', relayer_accounts.make ''0xa'' ''0xwa'']"
    by (simp add: selectedRelayers_def List.map_filter_simps demoNetwork_def demoRelayers_def relayer_accounts.make_def)
  with disburse_checks_two_per_account [OF demoFund_records run] run last show ?thesis by simp
qed

end
