(* ===== verification/Tx_Pool.thy ===== *)
theory Tx_Pool
  imports Transaction_Service
begin

text \<open>
  The pool of pending transactions (\<open>packages/libs/blockchain/src/blockchain.service.ts\<close>): the reply of the
  node to \<open>txpool_content\<close>, decoded as the io-ts codecs decode it, and what the transaction service reads
  of it when it starts.
\<close>

section \<open>Codecs\<close>

text \<open>A transaction of the pool; the fields that may be \<open>null\<close> are options.\<close>

record pool_transaction =
  ptHash :: string
  ptBlockHash :: "string option"
  ptBlockNumber :: "string option"
  ptTransactionIndex :: "string option"
  ptFrom :: string
  ptTo :: "string option"
  ptValue :: string
  ptFeeCurrency :: "string option"
  ptGatewayFee :: string
  ptGasPrice :: string
  ptGas :: string
  ptInput :: string
  ptV :: string
  ptR :: string
  ptS :: string

definition decodeString :: "js_value option \<Rightarrow> string option" where
  "decodeString v = (case v of Some (JStr s) \<Rightarrow> Some s | _ \<Rightarrow> None)"

definition decodeNullable :: "js_value option \<Rightarrow> string option option" where
  "decodeNullable v = (case v of Some (JStr s) \<Rightarrow> Some (Some s) | Some JNull \<Rightarrow> Some None | _ \<Rightarrow> None)"

definition decodePoolTransaction :: "js_value \<Rightarrow> pool_transaction option" where
  "decodePoolTransaction v =
     (case v of
        JObj kvs \<Rightarrow>
          (let str = (\<lambda>k. decodeString (map_of kvs k)); nul = (\<lambda>k. decodeNullable (map_of kvs k)) in
           Option.bind (str ''hash'') (\<lambda>h.
           Option.bind (nul ''blockHash'') (\<lambda>bh.
           Option.bind (nul ''blockNumber'') (\<lambda>bn.
           Option.bind (nul ''transactionIndex'') (\<lambda>ti.
           Option.bind (str ''from'') (\<lambda>fr.
           Option.bind (nul ''to'') (\<lambda>to.
           Option.bind (str ''value'') (\<lambda>va.
           Option.bind (nul ''feeCurrency'') (\<lambda>fc.
           Option.bind (str ''gatewayFee'') (\<lambda>gf.
           Option.bind (str ''gasPrice'') (\<lambda>gp.
           Option.bind (str ''gas'') (\<lambda>ga.
           Option.bind (str ''input'') (\<lambda>i.
           Option.bind (str ''v'') (\<lambda>v.
           Option.bind (str ''r'') (\<lambda>r.
           Option.bind (str ''s'') (\<lambda>s.
           Some \<lparr>ptHash = h, ptBlockHash = bh, ptBlockNumber = bn, ptTransactionIndex = ti, ptFrom = fr, ptTo = to,
             ptValue = va, ptFeeCurrency = fc, ptGatewayFee = gf, ptGasPrice = gp, ptGas = ga, ptInput = i,
             ptV = v, ptR = r, ptS = s\<rparr>))))))))))))))))
      | _ \<Rightarrow> None)"

text \<open>\<open>t.record(t.string, codec)\<close>: an object all of whose values decode\<close>

primrec decodeEntries :: "(js_value \<Rightarrow> 'a option) \<Rightarrow> (string \<times> js_value) list \<Rightarrow> (string \<times> 'a) list option" where
  "decodeEntries dec [] = Some []"
| "decodeEntries dec (kv # kvs) =
     (case (dec (snd kv), decodeEntries dec kvs) of
        (Some x, Some xs) \<Rightarrow> Some ((fst kv, x) # xs)
      | _ \<Rightarrow> None)"

definition decodeRecord :: "(js_value \<Rightarrow> 'a option) \<Rightarrow> js_value \<Rightarrow> (string \<times> 'a) list option" where
  "decodeRecord dec v = (case v of JObj kvs \<Rightarrow> decodeEntries dec kvs | _ \<Rightarrow> None)"

record 'tx tx_pool =
  poolPending :: "(string \<times> (string \<times> 'tx) list) list"
  poolQueued :: "(string \<times> (string \<times> 'tx) list) list"

definition decodeTxPoolRaw :: "js_value \<Rightarrow> pool_transaction tx_pool option" where
  "decodeTxPoolRaw v =
     (case v of
        JObj kvs \<Rightarrow>
          (case (Option.bind (map_of kvs ''pending'') (decodeRecord (decodeRecord decodePoolTransaction)),
                 Option.bind (map_of kvs ''queued'') (decodeRecord (decodeRecord decodePoolTransaction))) of
             (Some p, Some q) \<Rightarrow> Some \<lparr>poolPending = p, poolQueued = q\<rparr>
           | _ \<Rightarrow> None)
      | _ \<Rightarrow> None)"

section \<open>The service\<close>

text \<open>The errors; what io-ts reports of a failed decoding is not kept.\<close>

datatype blockchain_error = NodeRPCError js_value | DecodeError

fun blockchain_error_object :: "blockchain_error \<Rightarrow> error_object" where
  "blockchain_error_object (NodeRPCError _) = root_error ''RPC'' []"
| "blockchain_error_object DecodeError = root_error ''DecodeError'' []"

text \<open>\<open>formatters.outputTransactionFormatter\<close> of web3 is \<open>format\<close>; objects keep the order of their keys.\<close>

definition formatTransactions ::
    "(pool_transaction \<Rightarrow> 'tx) \<Rightarrow> (string \<times> (string \<times> pool_transaction) list) list \<Rightarrow>
     (string \<times> (string \<times> 'tx) list) list" where
  "formatTransactions format rawTxMap =
     map (\<lambda>(address, txs). (address, map (\<lambda>(nonce, tx). (nonce, format tx)) txs)) rawTxMap"

text \<open>
  The call of the provider: the error its callback gets, or the result of the response.
\<close>

definition getPendingTxPool ::
    "(pool_transaction \<Rightarrow> 'tx) \<Rightarrow> ('w \<Rightarrow> (js_value + js_value) \<times> 'w) \<Rightarrow>
     ('w, thrown, (blockchain_error, 'tx tx_pool) result) io" where
  "getPendingTxPool format send = (\<lambda>w.
     case send w of
       (Inl err, w') \<Rightarrow> (Inr (Err (NodeRPCError err)), w')
     | (Inr res, w') \<Rightarrow>
         (Inr (case decodeTxPoolRaw res of
                 None \<Rightarrow> Err DecodeError
               | Some raw \<Rightarrow> Ok \<lparr>poolPending = formatTransactions format (poolPending raw),
                                 poolQueued = formatTransactions format (poolQueued raw)\<rparr>), w'))"

text \<open>What the transaction service sees of it: the pending transactions of every address\<close>

definition withPool ::
    "(pool_transaction \<Rightarrow> chain_transaction) \<Rightarrow> ('w \<Rightarrow> (js_value + js_value) \<times> 'w) \<Rightarrow> ('w, 'r) node_port \<Rightarrow>
     ('w, 'r) node_port" where
  "withPool format send p = p\<lparr>pendingTxPool :=
     andThen (getPendingTxPool format send) (\<lambda>res. ret (case res of
       Err e \<Rightarrow> Err (blockchain_error_object e)
     | Ok pool \<Rightarrow> Ok (map (\<lambda>(address, txs). (address, map snd txs)) (poolPending pool))))\<rparr>"

section \<open>Lemmas\<close>

lemma decodeEntries_keys: "decodeEntries dec kvs = Some xs \<Longrightarrow> map fst xs = map fst kvs"
  by (induction kvs arbitrary: xs) (auto split: option.splits)

text \<open>One entry that does not decode is enough for nothing to be decoded.\<close>

lemma decodeEntries_None:
  "decodeEntries dec kvs = None \<longleftrightarrow> (\<exists>k v. (k, v) \<in> set kvs \<and> dec v = None)"
proof (induction kvs)
  case (Cons kv kvs)
  then show ?case by (cases kv) (auto split: option.splits)
qed simp

lemma malformed_transaction_hides_pool:
  assumes "map_of kvs ''queued'' = Some (JObj senders)" and "(address, JObj txs) \<in> set senders"
    and "(nonce, tx) \<in> set txs" and "decodePoolTransaction tx = None" and "send w = (Inr (JObj kvs), w')"
  shows "getPendingTxPool format send w = (Inr (Err DecodeError), w')"
proof -
  have "decodeRecord decodePoolTransaction (JObj txs) = None"
    using assms(3,4) by (auto simp: decodeRecord_def decodeEntries_None)
  then have "decodeRecord (decodeRecord decodePoolTransaction) (JObj senders) = None"
    using assms(2) by (auto simp: decodeRecord_def [of "decodeRecord _"] decodeEntries_None)
  with assms(1) have "decodeTxPoolRaw (JObj kvs) = None"
    by (simp add: decodeTxPoolRaw_def split: option.split)
  with assms(5) show ?thesis by (simp add: getPendingTxPool_def)
qed

text \<open>
  A transaction anywhere in the pool, of whatever account, that is not of the expected shape makes the
  relayer start without watching any of its own pending transactions.
\<close>

lemma malformed_transaction_unwatched:
  assumes "\<And>w. getPendingTxPool format send w = (Inr (Err DecodeError), w)"
    and "getPendingTransactions cfg (withPool format send p) (s, w) = (r, (s', w'))"
  shows "r = Inr [] \<and> watchedTransactions s' = watchedTransactions s \<and> w' = w"
  using assms(2)
  by (auto simp: getPendingTransactions_def withPool_def andThen_def ext_app assms(1) ret_def logTx_def
      root_error_def Let_def split: if_splits)

end
