(* ===== verification/Deployer.thy ===== *)
theory Deployer
  imports Funding Wallet_Verify
begin

text \<open>
  The command that gives every relayer a wallet (\<open>packages/apps/cli/src/deployer.command.ts\<close>): the choice of the
  implementation, the deployment of the wallets that are missing and the lookup of their events. The deployer
  contract is a port; the check mark that ends one line of the spinner and the line on the console are left out.
\<close>

section \<open>The deployer contract\<close>

record deploy_receipt =
  drStatus :: bool
  drBlockNumber :: int
  drTransactionHash :: string

text \<open>
  The accounts of contractkit's wallet, if it has one; \<open>isValidAddress\<close>; the call \<open>initialize(owner)\<close> encoded
  for the wallet contract at an address; \<open>deploy(...).sendAndWaitForReceipt({from})\<close>; and the events
  \<open>WalletDeployed\<close> between two blocks. An implementation that is \<open>undefined\<close> is \<open>None\<close>.
\<close>

record 'w deployer_port =
  dpAccounts :: "string list option"
  dpIsValidAddress :: "string \<Rightarrow> bool"
  dpEncodeInitialize :: "string option \<Rightarrow> string \<Rightarrow> string"
  dpDeploy :: "string \<Rightarrow> string option \<Rightarrow> string \<Rightarrow> string \<Rightarrow> ('w, thrown, deploy_receipt) io"
  dpDeployedEvents :: "int \<Rightarrow> int \<Rightarrow> ('w, thrown, wallet_deployed_event list) io"

section \<open>The command\<close>

text \<open>The last implementation of the configuration, or the configured one that the option names\<close>

definition chooseImplementation :: "celo_base \<Rightarrow> network_config \<Rightarrow> string option \<Rightarrow> thrown + string option" where
  "chooseImplementation cb cfg option =
     (let availableImplementations = map fst (MetaTransactionWalletVersions cfg) in
      case option of
        None \<Rightarrow> Inr (if availableImplementations = [] then None else Some (last availableImplementations))
      | Some implementation \<Rightarrow>
          (case find (\<lambda>impl. normalizeAddress cb impl = normalizeAddress cb implementation) availableImplementations of
             None \<Rightarrow> Inl (ErrorObject (plain_error ''Invalid implementation address''))
           | Some impl \<Rightarrow> Inr (Some impl)))"

definition ensureRelayer ::
    "'w deployer_port \<Rightarrow> string \<Rightarrow> string option \<Rightarrow> relayer_accounts \<Rightarrow> ('w, unit) cli_io" where
  "ensureRelayer p fund implementation relayer =
     (let relayerEOA = relayerAccount relayer; wallet = relayerWallet relayer in
      if dpIsValidAddress p wallet
      then show_spin (SpinInfo (''Relayer:'' @ relayerEOA @ '' has wallet: '' @ wallet))
      else
        andThen (show_spin (SpinInfo (''Relayer:'' @ relayerEOA @ '' needs wallet. Deploying.''))) (\<lambda>_.
        andThen (awaiting (dpDeploy p relayerEOA implementation (dpEncodeInitialize p implementation relayerEOA) fund)) (\<lambda>rc.
        if drStatus rc
        then
          andThen (awaiting (dpDeployedEvents p (drBlockNumber rc) (drBlockNumber rc))) (\<lambda>events.
          case find (\<lambda>evt. js_lower (evOwner evt) = relayerEOA) events of
            None \<Rightarrow> throw (Uncaught (typeError ''Cannot read property of undefined''))
          | Some event \<Rightarrow> show_spin (SpinInfo (''Relayer:'' @ relayerEOA @ '' wallet deployed to: '' @ evWallet event)))
        else show_spin (SpinFail (''Relayer:'' @ relayerEOA @ '' could not deploy wallet - tx:'' @ drTransactionHash rc)))))"

definition ensureHasMetaTxWallet ::
    "celo_base \<Rightarrow> 'w deployer_port \<Rightarrow> network_config \<Rightarrow> string \<Rightarrow> string option \<Rightarrow> ('w, unit) cli_io" where
  "ensureHasMetaTxWallet cb p cfg fund option =
     (case chooseImplementation cb cfg option of
        Inl e \<Rightarrow> throw (Uncaught e)
      | Inr implementation \<Rightarrow>
          (case dpAccounts p of
             None \<Rightarrow> throw (Uncaught (typeError ''Cannot read property of undefined''))
           | Some accounts \<Rightarrow>
               andThen (show_spin (SpinStart ''Ensuring all relayers have wallets'')) (\<lambda>_.
               andThen (promiseAll (map (ensureRelayer p fund implementation) (relayers cfg))) (\<lambda>_.
               show_spin (SpinSucceed [])))))"

section \<open>The implementation that is chosen\<close>

lemma find_Some_D: "find P xs = Some x \<Longrightarrow> x \<in> set xs \<and> P x"
  by (auto simp: find_Some_iff in_set_conv_nth)

lemma chooseImplementation_available:
  assumes "chooseImplementation cb cfg option = Inr (Some impl)"
  shows "impl \<in> fst ` set (MetaTransactionWalletVersions cfg)"
    and "option = Some asked \<Longrightarrow> normalizeAddress cb impl = normalizeAddress cb asked"
proof -
  let ?impls = "map fst (MetaTransactionWalletVersions cfg)"
  show "impl \<in> fst ` set (MetaTransactionWalletVersions cfg)"
    using assms last_in_set [of ?impls]
    by (auto simp: chooseImplementation_def Let_def split: option.splits if_splits dest!: find_Some_D)
  show "option = Some asked \<Longrightarrow> normalizeAddress cb impl = normalizeAddress cb asked"
    using assms by (auto simp: chooseImplementation_def Let_def split: option.splits dest!: find_Some_D)
qed

lemma chooseImplementation_undefined:
  "chooseImplementation cb cfg option = Inr None \<longleftrightarrow> option = None \<and> MetaTransactionWalletVersions cfg = []"
  by (auto simp: chooseImplementation_def Let_def split: option.splits)

lemma chooseImplementation_default:
  "chooseImplementation cb cfg None = Inr (if MetaTransactionWalletVersions cfg = [] then None
     else Some (fst (last (MetaTransactionWalletVersions cfg))))"
  by (simp add: chooseImplementation_def last_map)

lemma chooseImplementation_refused:
  "chooseImplementation cb cfg option = Inl e \<Longrightarrow> \<exists>asked. option = Some asked
     \<and> (\<forall>i \<in> fst ` set (MetaTransactionWalletVersions cfg). normalizeAddress cb i \<noteq> normalizeAddress cb asked)
     \<and> e = ErrorObject (plain_error ''Invalid implementation address'')"
  by (auto simp: chooseImplementation_def Let_def find_None_iff split: option.splits)

section \<open>What is deployed\<close>

text \<open>
  A deployment is its owner, implementation, initialisation and sender; only an accepted call of the
  deployer is recorded.
\<close>

type_synonym deployment = "string \<times> string option \<times> string \<times> string"

definition records_deployments :: "'w deployer_port \<Rightarrow> ('w \<Rightarrow> deployment list) \<Rightarrow> bool" where
  "records_deployments p sent \<longleftrightarrow>
     (\<forall>owner impl init from. sends sent [(owner, impl, init, from)] (dpDeploy p owner impl init from)) \<and>
     (\<forall>a b. sends sent [] (dpDeployedEvents p a b))"

definition relayerDeployment :: "'w deployer_port \<Rightarrow> string \<Rightarrow> string option \<Rightarrow> relayer_accounts \<Rightarrow> deployment" where
  "relayerDeployment p fund impl r =
     (relayerAccount r, impl, dpEncodeInitialize p impl (relayerAccount r), fund)"

definition missingWallets :: "'w deployer_port \<Rightarrow> network_config \<Rightarrow> relayer_accounts list" where
  "missingWallets p cfg = filter (\<lambda>r. \<not> dpIsValidAddress p (relayerWallet r)) (relayers cfg)"

lemma sends_show_spin [sending]: "sends (\<lambda>ow. sent (snd ow)) [] (show_spin x)"
  unfolding show_spin_def by (rule sends_quiet) (auto simp: preserves_def modS_def)

lemma sends_awaiting [sending]:
  assumes "sends sent full m"
  shows "sends (\<lambda>ow. sent (snd ow)) full (awaiting m)"
  unfolding sends_def
proof (intro allI impI)
  fix ow r ow'
  assume run: "awaiting m ow = (r, ow')"
  obtain q u where m: "m (snd ow) = (q, u)" by fastforce
  obtain new where "sent u = sent (snd ow) @ new" "subseq new full" "\<And>x. q = Inr x \<Longrightarrow> new = full"
    using assms m by (rule sendsD) blast
  with run m show "\<exists>new. sent (snd ow') = sent (snd ow) @ new \<and> subseq new full \<and> (\<forall>x. r = Inr x \<longrightarrow> new = full)"
    by (cases ow) (auto simp: awaiting_def catching_def ext_app throw_def split: sum.splits)
qed

lemma sends_ensureRelayer:
  assumes "records_deployments p sent"
  shows "sends (\<lambda>ow. sent (snd ow))
           (if dpIsValidAddress p (relayerWallet r) then [] else [relayerDeployment p fund impl r])
           (ensureRelayer p fund impl r)"
proof -
  have deploy: "sends sent [relayerDeployment p fund impl r]
      (dpDeploy p (relayerAccount r) impl (dpEncodeInitialize p impl (relayerAccount r)) fund)"
    and events: "\<And>a b. sends sent [] (dpDeployedEvents p a b)"
    using assms by (auto simp: records_deployments_def relayerDeployment_def)
  let ?init = "dpEncodeInitialize p impl (relayerAccount r)"
  have after: "sends (\<lambda>ow. sent (snd ow)) [relayerDeployment p fund impl r]
      (andThen (show_spin x) (\<lambda>_. andThen (awaiting (dpDeploy p (relayerAccount r) impl ?init fund)) k))"
    if "\<And>rc. sends (\<lambda>ow. sent (snd ow)) [] (k rc)" for x and k :: "deploy_receipt \<Rightarrow> ('a, unit) cli_io"
    using sends_andThen [OF sends_awaiting [OF deploy] that]
    by (intro sends_after_quiet [OF sends_show_spin]) simp
  show ?thesis
    unfolding ensureRelayer_def Let_def
    by (cases "dpIsValidAddress p (relayerWallet r)")
      (auto intro!: after sends_show_spin sends_after_quiet [OF sends_awaiting [OF events]] sends_throw
        split: option.split)
qed

lemma concat_missing:
  "concat (map (\<lambda>r. if dpIsValidAddress p (relayerWallet r) then [] else [f r]) rs)
     = map f (filter (\<lambda>r. \<not> dpIsValidAddress p (relayerWallet r)) rs)"
  by (induction rs) auto

text \<open>
  C40. The command deploys wallets only for configured relayers that have none, each at most once, in their order,
  owned by the relayer's account, and when it ends normally it has deployed all of them. The implementation is the last
  of the configuration when none is asked for, and the one asked for, as the configuration writes it, when there
  is one; for an address that is not in the configuration the command ends with an error and deploys nothing.
\<close>

theorem deploys_missing_wallets:
  assumes "records_deployments p sent"
    and "ensureHasMetaTxWallet cb p cfg fund option ([], w) = (r, (out, w'))"
  shows "\<exists>impl new. sent w' = sent w @ new
     \<and> subseq new (map (relayerDeployment p fund impl) (missingWallets p cfg))
     \<and> (r = Inr () \<longrightarrow> new = map (relayerDeployment p fund impl) (missingWallets p cfg))
     \<and> (case option of
          None \<Rightarrow> impl = (if MetaTransactionWalletVersions cfg = [] then None
                          else Some (fst (last (MetaTransactionWalletVersions cfg))))
        | Some asked \<Rightarrow>
            if \<exists>i \<in> fst ` set (MetaTransactionWalletVersions cfg). normalizeAddress cb i = normalizeAddress cb asked
            then \<exists>i \<in> fst ` set (MetaTransactionWalletVersions cfg). impl = Some i \<and> normalizeAddress cb i = normalizeAddress cb asked
            else new = [] \<and> r = Inl (Uncaught (ErrorObject (plain_error ''Invalid implementation address''))))"
    (is "\<exists>impl new. _ \<and> _ \<and> _ \<and> ?chosen impl new")
proof -
  let ?all = "\<lambda>impl. map (relayerDeployment p fund impl) (missingWallets p cfg)"
  show ?thesis
  proof (cases "chooseImplementation cb cfg option")
    case (Inl e)
    from chooseImplementation_refused [OF this] obtain asked where asked: "option = Some asked"
      "\<forall>i \<in> fst ` set (MetaTransactionWalletVersions cfg). normalizeAddress cb i \<noteq> normalizeAddress cb asked"
      "e = ErrorObject (plain_error ''Invalid implementation address'')" by blast
    from assms(2) Inl have "r = Inl (Uncaught e)" "w' = w" by (auto simp: ensureHasMetaTxWallet_def)
    with asked show ?thesis by (intro exI [of _ None] exI [of _ "[]"]) simp
  next
    case (Inr impl)
    have chosen: "?chosen impl new" for new
      using chooseImplementation_available [of cb cfg option] chooseImplementation_default [of cb cfg] Inr
        chooseImplementation_undefined [of cb cfg option]
      by (cases impl; cases option) auto
    have all: "sends (\<lambda>ow. sent (snd ow)) (?all impl) (promiseAll (map (ensureRelayer p fund impl) (relayers cfg)))"
      unfolding missingWallets_def concat_missing [symmetric]
      by (rule sends_promiseAll) (rule sends_ensureRelayer [OF assms(1)])
    have "sends (\<lambda>ow. sent (snd ow)) ([] @ ?all impl @ [])
        (andThen (show_spin (SpinStart ''Ensuring all relayers have wallets'')) (\<lambda>_.
         andThen (promiseAll (map (ensureRelayer p fund impl) (relayers cfg))) (\<lambda>_. show_spin (SpinSucceed []))))"
      by (intro sends_andThen sends_show_spin all)
    then have "sends (\<lambda>ow. sent (snd ow)) (?all impl) (ensureHasMetaTxWallet cb p cfg fund option)"
      unfolding ensureHasMetaTxWallet_def by (auto simp: Inr intro: sends_throw split: option.split)
    then obtain new where "sent (snd (out, w')) = sent (snd ([] :: spin list, w)) @ new"
      "subseq new (?all impl)" "\<And>x. r = Inr x \<Longrightarrow> new = ?all impl" using assms(2) by (rule sendsD) (rule that)
    with chosen show ?thesis by (intro exI [of _ impl] exI [of _ new]) simp
  qed
qed

text \<open>A deployer whose deployments are mined; the world is what was deployed, one block each.\<close>

definition demoDeployer :: "deployment list deployer_port" where
  "demoDeployer =
     \<lparr>dpAccounts = Some [''0xf''], dpIsValidAddress = (\<lambda>a. a \<noteq> []), dpEncodeInitialize = (\<lambda>impl owner. ''init'' @ owner),
      dpDeploy = (\<lambda>owner impl init from w.
        (Inr \<lparr>drStatus = True, drBlockNumber = int (length w), drTransactionHash = ''0xt''\<rparr>, w @ [(owner, impl, init, from)])),
      dpDeployedEvents = (\<lambda>a b w. (Inr [\<lparr>evOwner = fst (w ! nat a), evWallet = ''0xw'', evImplementation = ''0x1''\<rparr>], w))\<rparr>"

lemma demoDeployer_records: "records_deployments demoDeployer (\<lambda>w. w)"
  by (simp add: records_deployments_def demoDeployer_def sends_def)

definition demoRelayerNet :: "relayer_accounts list \<Rightarrow> network_config" where
  "demoRelayerNet rs = \<lparr>relayers = rs, MetaTransactionWalletDeployer = ''0xd'',
     MetaTransactionWalletVersions = [(''0x1'', ''p1''), (''0x2'', ''p2'')], fornoURL = [], odisPublicKey = [], odisUrl = []\<rparr>"

lemma deploys_missing_wallets_witness:
  "\<exists>out. ensureHasMetaTxWallet celo_base_std demoDeployer
        (demoRelayerNet [relayer_accounts.make ''0xa'' ''0xwa'', relayer_accounts.make ''0xb'' []]) ''0xf'' (Some ''1'') ([], [])
      = (Inr (), (out, [(''0xb'', Some ''0x1'', ''init0xb'', ''0xf'')]))"
proof -
  let ?cfg = "demoRelayerNet [relayer_accounts.make ''0xa'' ''0xwa'', relayer_accounts.make ''0xb'' []]"
  let ?r = "ensureHasMetaTxWallet celo_base_std demoDeployer ?cfg ''0xf'' (Some ''1'') ([], [])"
  obtain r out w' where run: "?r = (r, (out, w'))" by (metis prod.collapse)
  have "(fst ?r, snd (snd ?r)) = (Inr (), [(''0xb'', Some ''0x1'', ''init0xb'', ''0xf'')])" by code_simp
  with run have "r = Inr ()" "w' = [(''0xb'', Some ''0x1'', ''init0xb'', ''0xf'')]" by auto
  with deploys_missing_wallets [OF demoDeployer_records run] run show ?thesis by simp
qed

text \<open>
  A configured relayer whose account is written with capital letters cannot be given a wallet: when its
  deployment is mined the event, compared in lower case, is not found, and the command ends with a type error
  after the wallet was deployed and before it is reported.
\<close>

theorem capital_letters_break_deployment:
  assumes "r \<in> set (missingWallets p cfg)" and "js_lower (relayerAccount r) \<noteq> relayerAccount r"
    and "\<And>impl init u rc u'. dpDeploy p (relayerAccount r) impl init fund u = (Inr rc, u') \<Longrightarrow> drStatus rc"
  shows "fst (ensureHasMetaTxWallet cb p cfg fund option ow) \<noteq> Inr ()"
proof
  assume ended: "fst (ensureHasMetaTxWallet cb p cfg fund option ow) = Inr ()"
  have never: "ensureRelayer p fund impl r u \<noteq> (Inr x, u')" for impl u x u'
  proof
    assume run: "ensureRelayer p fund impl r u = (Inr x, u')"
    have none: "find (\<lambda>evt. js_lower (evOwner evt) = relayerAccount r) events = None"
      for events :: "wallet_deployed_event list"
      using assms(2) by (auto simp: find_None_iff) (metis js_lower_idem)
    from run assms(1) none show False
      by (cases u) (auto simp: ensureRelayer_def missingWallets_def awaiting_def runs catching_Inr dest: assms(3))
  qed
  from ended obtain impl u xs u' where "promiseAll (map (ensureRelayer p fund impl) (relayers cfg)) u = (Inr xs, u')"
    by (cases ow) (auto simp: ensureHasMetaTxWallet_def andThen_def show_spin_def modS_def throw_def
        split: sum.splits option.splits prod.splits)
  from promiseAll_results [OF this] have "\<forall>m \<in> set (map (ensureRelayer p fund impl) (relayers cfg)). \<exists>x u u'. m u = (Inr x, u')"
    by (fastforce simp: list_all2_conv_all_nth in_set_conv_nth)
  with assms(1) never show False by (auto simp: missingWallets_def)
qed

lemma capital_letters_break_deployment_witness:
  "fst (ensureHasMetaTxWallet celo_base_std demoDeployer (demoRelayerNet [relayer_accounts.make ''0xB'' []])
     ''0xf'' None ([], [])) \<noteq> Inr ()"
proof (rule capital_letters_break_deployment [where r = "relayer_accounts.make ''0xB'' []"])
  have "js_lower ''0xB'' \<noteq> ''0xB''" by code_simp
  then show "js_lower (relayerAccount (relayer_accounts.make ''0xB'' [])) \<noteq> relayerAccount (relayer_accounts.make ''0xB'' [])"
    by (simp add: relayer_accounts.make_def)
qed (auto simp: missingWallets_def demoRelayerNet_def demoDeployer_def relayer_accounts.make_def)

end
