(* ===== verification/Dto.thy ===== *)
theory Dto
  imports Api
begin

text \<open>
  What the endpoints accept: the decorated classes of \<open>packages/apps/api/src/dto\<close> and
  \<open>packages/apps/relayer/src/dto\<close>, and the decorator of \<open>packages/libs/core/src/validators.ts\<close>. A class is the list
  of its properties with their decorators, in the order of the source; the library that reads them,
  class-validator, is a parameter, of which \<open>class_validator_documented\<close> states the documentation.
\<close>

section \<open>Decorated classes\<close>

definition field :: "js_value \<Rightarrow> string \<Rightarrow> js_value" where
  "field obj name =
     (case obj of JObj kvs \<Rightarrow> (case map_of kvs name of Some v \<Rightarrow> v | None \<Rightarrow> JUndefined) | _ \<Rightarrow> JUndefined)"

text \<open>
  The decorators the classes use; \<open>Registered\<close> is one of the repository's own with its \<open>validate\<close>, and
  \<open>ValidateNested each cls\<close> is on a property whose declared type is the class.
\<close>

datatype decorator =
    IsString
  | IsNotEmpty
  | IsNumber
  | IsPositive
  | IsBase64
  | IsHexadecimal
  | IsNumberString
  | IsOptional
  | ValidateIf "js_value \<Rightarrow> bool"
  | ValidateNested bool "(string \<times> decorator list) list"
  | Registered "js_value \<Rightarrow> bool"

type_synonym dto_class = "(string \<times> decorator list) list"

text \<open>\<open>IsCeloAddress\<close> (validators.ts), where \<open>isAddress\<close> is the one of web3\<close>

definition IsCeloAddress :: "(string \<Rightarrow> bool) \<Rightarrow> decorator" where
  "IsCeloAddress isAddress = Registered (\<lambda>value. case value of JStr s \<Rightarrow> isAddress s | _ \<Rightarrow> False)"

definition RawTransactionDto :: "(string \<Rightarrow> bool) \<Rightarrow> dto_class" where
  "RawTransactionDto isAddress =
     [(''destination'', [IsCeloAddress isAddress]),
      (''value'', [IsNumberString]),
      (''data'', [IsHexadecimal])]"

definition StartSessionDto :: "(string \<Rightarrow> bool) \<Rightarrow> dto_class" where
  "StartSessionDto isAddress =
     [(''captchaResponseToken'', [IsNotEmpty]),
      (''externalAccount'', [IsNotEmpty, IsCeloAddress isAddress]),
      (''signature'', [IsNotEmpty, IsHexadecimal]),
      (''deviceType'', [IsOptional]),
      (''iosDeviceToken'', [ValidateIf (\<lambda>obj. field obj ''deviceType'' = JStr ''ios''), IsNotEmpty]),
      (''androidSignedAttestation'', [ValidateIf (\<lambda>obj. field obj ''deviceType'' = JStr ''android''), IsNotEmpty])]"

definition DistributedBlindedPepperDto :: dto_class where
  "DistributedBlindedPepperDto =
     [(''blindedPhoneNumber'', [IsString, IsBase64]),
      (''clientVersion'', [IsString, IsOptional])]"

definition DeployWalletDto :: "(string \<Rightarrow> bool) \<Rightarrow> dto_class" where
  "DeployWalletDto isAddress = [(''implementationAddress'', [IsCeloAddress isAddress])]"

definition SubmitMetaTransactionDto :: "(string \<Rightarrow> bool) \<Rightarrow> dto_class" where
  "SubmitMetaTransactionDto isAddress =
     [(''destination'', [IsCeloAddress isAddress]),
      (''data'', [IsHexadecimal])]"

definition RequestAttestationsDto :: "(string \<Rightarrow> bool) \<Rightarrow> dto_class" where
  "RequestAttestationsDto isAddress =
     [(''identifier'', [IsString, IsNotEmpty]),
      (''attestationsRequested'', [IsNumber, IsPositive]),
      (''walletAddress'', [IsCeloAddress isAddress]),
      (''requestTx'', [ValidateNested False (RawTransactionDto isAddress)]),
      (''approveTx'', [IsOptional, ValidateNested False (RawTransactionDto isAddress)])]"

text \<open>The commands of the relayer\<close>

definition TraceContextLabel :: dto_class where
  "TraceContextLabel = [(''key'', [IsString]), (''value'', [IsString])]"

definition RelayerTraceContext :: dto_class where
  "RelayerTraceContext =
     [(''traceId'', [IsHexadecimal]),
      (''labels'', [ValidateNested False TraceContextLabel])]"

definition RelayerCommandDto :: dto_class where
  "RelayerCommandDto = [(''context'', [ValidateNested False RelayerTraceContext])]"

definition SignPersonalMessageDto :: dto_class where
  "SignPersonalMessageDto = RelayerCommandDto @ [(''data'', [IsNotEmpty])]"

definition GetPhoneNumberSignatureDto :: dto_class where
  "GetPhoneNumberSignatureDto =
     RelayerCommandDto @ [(''blindedPhoneNumber'', [IsString, IsBase64]), (''clientVersion'', [IsString, IsOptional])]"

definition SubmitTransactionDto :: "(string \<Rightarrow> bool) \<Rightarrow> dto_class" where
  "SubmitTransactionDto isAddress =
     RelayerCommandDto @ [(''transaction'', [ValidateNested False (RawTransactionDto isAddress)])]"

definition SubmitTransactionBatchDto :: "(string \<Rightarrow> bool) \<Rightarrow> dto_class" where
  "SubmitTransactionBatchDto isAddress =
     RelayerCommandDto @ [(''transactions'', [ValidateNested True (RawTransactionDto isAddress)])]"

section \<open>The validator\<close>

text \<open>
  \<open>ValidationPipe\<close> accepts a body when class-validator finds no error. A property is not validated when one of
  its conditions says so; otherwise each of its decorators is a check of its value.
\<close>

record validator =
  validates :: "dto_class \<Rightarrow> js_value \<Rightarrow> bool"
  passes :: "decorator \<Rightarrow> js_value \<Rightarrow> bool"

fun skips :: "decorator \<Rightarrow> js_value \<Rightarrow> js_value \<Rightarrow> bool" where
  "skips IsOptional obj value = (value \<in> {JNull, JUndefined})"
| "skips (ValidateIf cond) obj value = (\<not> cond obj)"
| "skips _ obj value = False"

fun conditional :: "decorator \<Rightarrow> bool" where
  "conditional IsOptional = True"
| "conditional (ValidateIf cond) = True"
| "conditional _ = False"

definition class_validator_documented :: "validator \<Rightarrow> bool" where
  "class_validator_documented v \<longleftrightarrow>
     (\<forall>cls obj. validates v cls obj \<longleftrightarrow>
        (\<forall>(name, ds) \<in> set cls.
           (\<exists>d \<in> set ds. skips d obj (field obj name)) \<or>
           (\<forall>d \<in> set ds. conditional d \<or> passes v d (field obj name)))) \<and>
     (\<forall>x. passes v IsString x \<longleftrightarrow> (\<exists>s. x = JStr s)) \<and>
     (\<forall>x. passes v IsNotEmpty x \<longleftrightarrow> x \<notin> {JStr [], JNull, JUndefined}) \<and>
     (\<forall>x. passes v IsNumber x \<longleftrightarrow> (\<exists>n. x = JNum n)) \<and>
     (\<forall>x. passes v IsPositive x \<longleftrightarrow> (\<exists>n. x = JNum n \<and> 0 < n)) \<and>
     (\<forall>x d. d \<in> {IsBase64, IsHexadecimal, IsNumberString} \<longrightarrow> passes v d x \<longrightarrow> (\<exists>s. x = JStr s)) \<and>
     (\<forall>f x. passes v (Registered f) x \<longleftrightarrow> f x)"

lemma class_validatorD:
  assumes "class_validator_documented v"
  shows "validates v cls obj \<longleftrightarrow>
        (\<forall>(name, ds) \<in> set cls.
           (\<exists>d \<in> set ds. skips d obj (field obj name)) \<or>
           (\<forall>d \<in> set ds. conditional d \<or> passes v d (field obj name)))"
    and "passes v IsString x \<longleftrightarrow> (\<exists>s. x = JStr s)"
    and "passes v IsNotEmpty x \<longleftrightarrow> x \<notin> {JStr [], JNull, JUndefined}"
    and "passes v IsNumber x \<longleftrightarrow> (\<exists>n. x = JNum n)"
    and "passes v IsPositive x \<longleftrightarrow> (\<exists>n. x = JNum n \<and> 0 < n)"
    and "passes v (Registered f) x \<longleftrightarrow> f x"
    and "passes v IsHexadecimal x \<Longrightarrow> \<exists>s. x = JStr s"
    and "passes v IsBase64 x \<Longrightarrow> \<exists>s. x = JStr s"
    and "passes v IsNumberString x \<Longrightarrow> \<exists>s. x = JStr s"
  using assms unfolding class_validator_documented_def by auto

lemma passes_IsCeloAddress:
  "class_validator_documented v \<Longrightarrow>
   passes v (IsCeloAddress isAddress) x \<longleftrightarrow> (\<exists>a. x = JStr a \<and> isAddress a)"
  by (auto simp: IsCeloAddress_def class_validatorD(6) split: js_value.splits)

lemma IsCeloAddress_unconditional [simp]:
  "\<not> conditional (IsCeloAddress isAddress)" "\<not> skips (IsCeloAddress isAddress) obj x"
  by (simp_all add: IsCeloAddress_def)

text \<open>A validator that does what is documented; the strings its parameters accept are its arguments.\<close>

fun check_std :: "(string \<Rightarrow> bool) \<Rightarrow> decorator \<Rightarrow> js_value \<Rightarrow> bool" where
  "check_std f IsString x = (case x of JStr s \<Rightarrow> True | _ \<Rightarrow> False)"
| "check_std f IsNotEmpty x = (x \<notin> {JStr [], JNull, JUndefined})"
| "check_std f IsNumber x = (case x of JNum n \<Rightarrow> True | _ \<Rightarrow> False)"
| "check_std f IsPositive x = (case x of JNum n \<Rightarrow> 0 < n | _ \<Rightarrow> False)"
| "check_std f (Registered g) x = g x"
| "check_std f (ValidateNested b cls) x = True"
| "check_std f _ x = (case x of JStr s \<Rightarrow> f s | _ \<Rightarrow> False)"

definition std_validator :: "(string \<Rightarrow> bool) \<Rightarrow> validator" where
  "std_validator f =
     \<lparr>validates = (\<lambda>cls obj. list_all (\<lambda>(name, ds).
        list_ex (\<lambda>d. skips d obj (field obj name)) ds \<or>
        list_all (\<lambda>d. conditional d \<or> check_std f d (field obj name)) ds) cls),
      passes = check_std f\<rparr>"

lemma std_validator_documented: "class_validator_documented (std_validator f)"
  unfolding class_validator_documented_def std_validator_def
  by (auto simp: list_all_iff list_ex_iff split: js_value.splits)

section \<open>What is accepted\<close>

definition blank :: "js_value set" where
  "blank = {JStr [], JNull, JUndefined}"

text \<open>
  A session is started only for a body with an address, a signature in hexadecimal and a captcha token that
  is not blank, and a body that declares a device has that device's token; the captcha token may be
  any other value, and the type of the device any value at all.
\<close>

theorem startSession_validation:
  assumes "class_validator_documented v"
  shows "validates v (StartSessionDto isAddress) body \<longleftrightarrow>
     field body ''captchaResponseToken'' \<notin> blank
     \<and> (\<exists>a. field body ''externalAccount'' = JStr a \<and> a \<noteq> [] \<and> isAddress a)
     \<and> (\<exists>s. field body ''signature'' = JStr s \<and> s \<noteq> [] \<and> passes v IsHexadecimal (JStr s))
     \<and> (field body ''deviceType'' = JStr ''ios'' \<longrightarrow> field body ''iosDeviceToken'' \<notin> blank)
     \<and> (field body ''deviceType'' = JStr ''android'' \<longrightarrow> field body ''androidSignedAttestation'' \<notin> blank)"
proof -
  have hex: "passes v IsHexadecimal x \<longleftrightarrow> (\<exists>s. x = JStr s \<and> passes v IsHexadecimal (JStr s))" for x
    using class_validatorD(7) [OF assms, of x] by auto
  show ?thesis
    using hex [of "field body ''signature''"]
    by (auto simp: class_validatorD(1) [OF assms] StartSessionDto_def class_validatorD(3) [OF assms]
        passes_IsCeloAddress [OF assms] blank_def)
qed

lemma startSession_validation_witness:
  "\<not> validates (std_validator (\<lambda>s. True)) (StartSessionDto (\<lambda>s. True))
     (JObj [(''captchaResponseToken'', JStr ''c''), (''externalAccount'', JStr ''0xa''), (''signature'', JStr ''0x1''),
            (''deviceType'', JStr ''ios'')])
   \<and> validates (std_validator (\<lambda>s. True)) (StartSessionDto (\<lambda>s. True))
     (JObj [(''captchaResponseToken'', JNum 1), (''externalAccount'', JStr ''0xa''), (''signature'', JStr ''0x1''),
            (''deviceType'', JStr ''other'')])"
  unfolding startSession_validation [OF std_validator_documented]
  by (simp add: field_def blank_def std_validator_def)



lemma requestAttestations_validation:
  assumes "class_validator_documented v"
  shows "validates v (RequestAttestationsDto isAddress) body \<longleftrightarrow>
     (\<exists>i. field body ''identifier'' = JStr i \<and> i \<noteq> [])
     \<and> (\<exists>n. field body ''attestationsRequested'' = JNum n \<and> 0 < n)
     \<and> (\<exists>a. field body ''walletAddress'' = JStr a \<and> isAddress a)
     \<and> passes v (ValidateNested False (RawTransactionDto isAddress)) (field body ''requestTx'')
     \<and> (field body ''approveTx'' \<in> {JNull, JUndefined}
        \<or> passes v (ValidateNested False (RawTransactionDto isAddress)) (field body ''approveTx''))"
  by (auto simp: class_validatorD(1-5) [OF assms] RequestAttestationsDto_def passes_IsCeloAddress [OF assms])


text \<open>
  The value the handler receives, where its transactions have the types they are declared with: these are not
  validated with the request, since a nested plain object is no instance of its class.
\<close>

definition rawTransactionView :: "js_value \<Rightarrow> raw_transaction option" where
  "rawTransactionView x =
     (case (field x ''destination'', field x ''value'', field x ''data'') of
        (JStr d, JStr v, JStr c) \<Rightarrow> Some \<lparr>destination = d, txValue = v, data = c\<rparr>
      | _ \<Rightarrow> None)"

definition requestAttestationsView :: "js_value \<Rightarrow> request_attestations_dto option" where
  "requestAttestationsView body =
     (case (field body ''identifier'', field body ''attestationsRequested'', field body ''walletAddress'') of
        (JStr i, JNum n, JStr a) \<Rightarrow>
          Option.bind (rawTransactionView (field body ''requestTx'')) (\<lambda>request.
          if field body ''approveTx'' = JUndefined
          then Some \<lparr>dtoIdentifier = i, dtoAttestationsRequested = n, dtoWalletAddress = a,
                     dtoRequestTx = request, dtoApproveTx = None\<rparr>
          else map_option (\<lambda>approve. \<lparr>dtoIdentifier = i, dtoAttestationsRequested = n, dtoWalletAddress = a,
                     dtoRequestTx = request, dtoApproveTx = Some approve\<rparr>)
                 (rawTransactionView (field body ''approveTx'')))
      | _ \<Rightarrow> None)"


text \<open>What the model takes for granted of a body that was validated and could be read: the types, and a positive count.\<close>

lemma validated_view:
  assumes "class_validator_documented v" and "validates v (RequestAttestationsDto isAddress) body"
    and "requestAttestationsView body = Some dto"
  shows "0 < dtoAttestationsRequested dto \<and> isAddress (dtoWalletAddress dto) \<and> dtoIdentifier dto \<noteq> []"
  using assms(2,3) unfolding requestAttestations_validation [OF assms(1)]
  by (auto simp: requestAttestationsView_def bind_eq_Some_conv split: if_splits)

lemma null_approval_validates:
  assumes "class_validator_documented v" and "validates v (RequestAttestationsDto isAddress) body"
    and "field body ''approveTx'' \<in> {JNull, JUndefined}" and "field body' ''approveTx'' \<in> {JNull, JUndefined}"
    and "\<And>name. name \<noteq> ''approveTx'' \<Longrightarrow> field body' name = field body name"
  shows "validates v (RequestAttestationsDto isAddress) body'"
  using assms(2-) unfolding requestAttestations_validation [OF assms(1)] by simp

section \<open>Requests for a fraction of an attestation\<close>

text \<open>\<open>N\<close> successful requests in a row with one token, each for \<open>n\<close> attestations\<close>

inductive attestation_requests ::
    "api_env \<Rightarrow> ('w, 'm) api_port \<Rightarrow> string \<Rightarrow> rat \<Rightarrow> nat \<Rightarrow> 'w \<Rightarrow> 'w \<Rightarrow> bool"
  for env :: api_env and p :: "('w, 'm) api_port" and t :: string and n :: rat where
  none: "attestation_requests env p t n 0 w w"
| another: "attestation_requests env p t n N w u \<Longrightarrow> dtoAttestationsRequested dto = n \<Longrightarrow>
    apiRequestSubsidisedAttestations env p rid t dto (l, u) = (Inr h, (l', w')) \<Longrightarrow>
    attestation_requests env p t n (Suc N) w w'"







end
