(* ===== verification/Load_Test.thy ===== *)
theory Load_Test
  imports Dto
begin

text \<open>
  The load test (\<open>packages/load-testing/src\<close>): the hooks that a load generator calls around the requests of a
  virtual user (\<open>processor.ts\<close>) and the helpers that wait on the chain (\<open>utils.ts\<close>). The variables of a user and
  those of the module are the state; contractkit, ODIS and the runtime are the kit's port with the calls the
  kit does not make.
\<close>

section \<open>Tables (processor.ts)\<close>

definition loadForno :: "string \<Rightarrow> string option" where
  "loadForno =
     map_of [(''alfajores'', ''https://alfajores-forno.celo-testnet.org''), (''rc1'', ''https://rc1-forno.celo-testnet.org'')]"

definition WALLET_IMPLEMENTATIONS :: "string \<Rightarrow> (string \<Rightarrow> string option) option" where
  "WALLET_IMPLEMENTATIONS =
     map_of [(''alfajores'', map_of
                [(''1.1.0.0-p1'', ''0x88a2b9B8387A1823D821E406b4e951337fa1D46D''),
                 (''1.1.0.0-p2'', ''0x786ec5A4F8DCad3A58D5B1A04cc99B019E426065''),
                 (''1.1.0.0-p3'', ''0x5C9a6E3c3E862eD306E2E3348EBC8b8310A99e5A'')]),
             (''rc1'', map_of [(''1.1.0.0-p2'', ''0x6511FB5DBfe95859d8759AdAd5503D656E2555d7'')])]"

definition ODIS_PUB_KEYS :: "string \<Rightarrow> string option" where
  "ODIS_PUB_KEYS =
     map_of [(''alfajores'',
        ''kPoRxWdEdZ/Nd3uQnp3FJFs54zuiS+ksqvOm9x8vY6KHPG8jrfqysvIRU0wtqYsBKA7SoAsICMBv8C/Fb2ZpDOqhSqvr/sZbZoHmQfvbqrzbtDIPvUIrHgRS0ydJCMsA''),
             (''rc1'',
        ''FvreHfLmhBjwxHxsxeyrcOLtSonC9j7K3WrS4QapYsQH6LdaDTaNGmnlQMfFY04Bp/K4wAvqQwO9/bqPVCKf8Ze8OZo8Frmog4JY4xAiwrsqOXxug11+htjEe1pj4uMA'')]"

section \<open>State and port\<close>

text \<open>
  The variables of a user (\<open>context.vars\<close>), \<open>None\<close> where one is \<open>undefined\<close>; the kit is the URL it was created
  with. A wallet address is known from a response, so it is any value. A counter that was never reset is
  \<open>undefined\<close>, and so \<open>NaN\<close> once it is counted up.
\<close>

record 'm load_vars =
  vEnvironment :: string
  vPkey :: string
  vDek :: string
  vWallet :: "'m option"
  vContractKit :: "string option option"
  vAccount :: string
  vExternalAccount :: string
  vDekPublicKey :: string
  vE164Number :: string
  vBlsClient :: js_value
  vIdentifier :: string
  vPepper :: string
  vMetaTxWalletAddress :: js_value
  vWalletError :: "kit_error option"
  vRetryCounter :: "rat option"
  vLatestTxConfirmed :: "bool option"
  vLatestTxError :: "kit_error option"
  vStartSessionStatus :: "int option"

text \<open>The module's kit and cached wallet, the variables of the user at hand and the body of the request to be sent\<close>

record 'm load_state =
  lsKit :: "string option option"
  lsWallet :: "'m option"
  lsVars :: "'m load_vars"
  lsJson :: "js_value option"

record load_response =
  resStatusCode :: int
  resBody :: js_value

record ('w, 'm) load_port = "('w, 'm) kit_port" +
  lpRandomHex :: "('w, thrown, string) io"
  lpRandomNumber :: "('w, thrown, nat) io"
  lpAddAccount :: "string \<Rightarrow> ('w, thrown, unit) io"
  lpGetAccounts :: "('w, thrown, string list) io"
  lpCompressedPubKey :: "string \<Rightarrow> string"
  lpBlsClient :: "string option \<Rightarrow> js_value"
  lpProofLocally :: "js_value \<Rightarrow> js_value \<Rightarrow> string \<Rightarrow> string \<Rightarrow> ('w, thrown, js_value) io"
  lpWallet :: "js_value \<Rightarrow> ('w, thrown, 'm) io"

type_synonym ('w, 'm, 'a) load_io = "('m load_state \<times> 'w, thrown, 'a) io"

definition setVars :: "('m load_vars \<Rightarrow> 'm load_vars) \<Rightarrow> ('w, 'm, unit) load_io" where
  "setVars f = modS (\<lambda>s. s\<lparr>lsVars := f (lsVars s)\<rparr>)"

definition getVar :: "('m load_vars \<Rightarrow> 'a) \<Rightarrow> ('w, 'm, 'a) load_io" where
  "getVar f = getS (\<lambda>s. f (lsVars s))"

definition setJson :: "(string \<times> js_value) list \<Rightarrow> ('w, 'm, unit) load_io" where
  "setJson props = modS (\<lambda>s. s\<lparr>lsJson := Some (JObj props)\<rparr>)"

text \<open>Reading a property of \<open>context.vars.contractKit\<close>\<close>

definition withKit :: "('w, 'm, 'a) load_io \<Rightarrow> ('w, 'm, 'a) load_io" where
  "withKit m =
     andThen (getVar vContractKit) (\<lambda>kit.
     case kit of None \<Rightarrow> throw (typeError ''Cannot read property of undefined'') | Some url \<Rightarrow> m)"

section \<open>Helpers (utils.ts)\<close>

text \<open>The loop polls every 100 ms for 60 s: it is the kit's loop under fixed options.\<close>

definition loadOptions :: komenci_options where
  "loadOptions = \<lparr>kitUrl = [], kitToken = None, txRetryTimeoutMs = 60000, txPollingIntervalMs = 100\<rparr>"

definition utilsWaitForReceipt ::
    "('w, 'm, 'z) kit_port_scheme \<Rightarrow> string \<Rightarrow> ('w, thrown, (kit_error, receipt) result) io" where
  "utilsWaitForReceipt p txHash =
     andThen (receiptWithin (kit_port.truncate p) loadOptions txHash (maxPolls loadOptions)) (\<lambda>r.
     case r of
       None \<Rightarrow> ret (Err (TxErr TxTimeoutError))
     | Some rc \<Rightarrow>
         if \<not> receiptStatus rc then ret (Err (TxErr (TxRevertError txHash [])))
         else ret (Ok rc))"

definition utilsGetLoginSignature ::
    "celo_base \<Rightarrow> ('w, 'm, 'z) kit_port_scheme \<Rightarrow> string \<Rightarrow> string \<Rightarrow> ('w, thrown, (kit_error, string) result) io" where
  "utilsGetLoginSignature cb p account captchaToken =
     catching
       (andThen (signTypedData p account (buildLoginTypedData (normalizeAddressWith0x cb account) captchaToken)) (\<lambda>signature.
        ret (Ok (serializeSignature p signature))))
       (\<lambda>e. ret (Err (LoginSignatureError e)))"

definition utilsGetAddressFromDeploy ::
    "celo_base \<Rightarrow> ('w, 'm) load_port \<Rightarrow> string \<Rightarrow> string \<Rightarrow> ('w, thrown, (kit_error, string) result) io" where
  "utilsGetAddressFromDeploy cb p externalAccount txHash =
     andThenOk (utilsWaitForReceipt p txHash) (\<lambda>rc.
     andThen (getWalletDeployer p (receiptTo rc)) (\<lambda>deployer.
     andThen (getWalletDeployedEvents p deployer (receiptBlockNumber rc) (receiptBlockNumber rc)) (\<lambda>events.
     case find (\<lambda>event. normalizeAddressWith0x cb (evOwner event) = externalAccount) events of
       None \<Rightarrow> ret (Err (TxErr (TxEventNotFound txHash (walletDeployedEventType p deployer))))
     | Some deployWalletLog \<Rightarrow> ret (Ok (evWallet deployWalletLog)))))"

section \<open>Hooks (processor.ts)\<close>

text \<open>
  \<open>wrapped(fn)\<close>: the last argument is the callback, called with nothing when \<open>fn\<close> is done and with what was thrown
  otherwise; what the callback throws when it is called with nothing is passed to it again.
\<close>

definition wrapped ::
    "('w, 'e, unit) io \<Rightarrow> ('e option \<Rightarrow> ('w, 'e, unit) io) \<Rightarrow> ('w, 'e, unit) io" where
  "wrapped fn next = catching (andThen fn (\<lambda>_. next None)) (\<lambda>e. next (Some e))"

text \<open>
  \<open>getWallet\<close> keeps the wrapper of the last address in the module. A token, an account and a number are made
  for each user; the kit is the one of the first environment asked for.
\<close>

definition loadGetWallet :: "('w, 'm) load_port \<Rightarrow> js_value \<Rightarrow> ('w, 'm, 'm) load_io" where
  "loadGetWallet p address =
     withKit (andThen (getS lsWallet) (\<lambda>cached.
     case cached of
       Some wallet \<Rightarrow>
         if JStr (mtwAddress p wallet) = address then ret wallet
         else andThen (ext (lpWallet p address)) (\<lambda>new. andThen (modS (\<lambda>s. s\<lparr>lsWallet := Some new\<rparr>)) (\<lambda>_. ret new))
     | None \<Rightarrow>
         andThen (ext (lpWallet p address)) (\<lambda>new. andThen (modS (\<lambda>s. s\<lparr>lsWallet := Some new\<rparr>)) (\<lambda>_. ret new))))"

definition loadCaptchaToken :: string where
  "loadCaptchaToken = ''special-captcha-bypass-token''"

definition prepareStartSession :: "celo_base \<Rightarrow> ('w, 'm) load_port \<Rightarrow> ('w, 'm, unit) load_io" where
  "prepareStartSession cb p =
     andThen (getVar vEnvironment) (\<lambda>env.
     andThen (modS (\<lambda>s. if lsKit s = None then s\<lparr>lsKit := Some (loadForno env)\<rparr> else s)) (\<lambda>_.
     andThen (ext (lpRandomHex p)) (\<lambda>pkey.
     andThen (setVars (\<lambda>v. v\<lparr>vPkey := pkey\<rparr>)) (\<lambda>_.
     andThen (ext (lpRandomHex p)) (\<lambda>dek.
     andThen (setVars (\<lambda>v. v\<lparr>vDek := dek\<rparr>)) (\<lambda>_.
     andThen (ext (lpAddAccount p pkey)) (\<lambda>_.
     andThen (modS (\<lambda>s. s\<lparr>lsVars := (lsVars s)\<lparr>vWallet := lsWallet s, vContractKit := lsKit s\<rparr>\<rparr>)) (\<lambda>_.
     andThen (ext (lpGetAccounts p)) (\<lambda>accounts.
     andThen (if accounts = [] then throw (typeError ''Cannot read property of undefined'')
              else setVars (\<lambda>v. v\<lparr>vAccount := last accounts\<rparr>)) (\<lambda>_.
     andThen (setVars (\<lambda>v. v\<lparr>vExternalAccount := normalizeAddressWith0x cb (vAccount v)\<rparr>)) (\<lambda>_.
     andThen (setVars (\<lambda>v. v\<lparr>vDekPublicKey := lpCompressedPubKey p (vDek v)\<rparr>)) (\<lambda>_.
     andThen (ext (lpRandomNumber p)) (\<lambda>n.
     andThen (setVars (\<lambda>v. v\<lparr>vE164Number := ''+40'' @ show_nat n, vBlsClient := lpBlsClient p (ODIS_PUB_KEYS env)\<rparr>)) (\<lambda>_.
     andThen (getVar vExternalAccount) (\<lambda>externalAccount.
     andThen (ext (signTypedData p externalAccount (buildLoginTypedData externalAccount loadCaptchaToken))) (\<lambda>signature.
     setJson [(''externalAccount'', JStr externalAccount), (''captchaResponseToken'', JStr loadCaptchaToken),
              (''signature'', JStr (serializeSignature p signature))]))))))))))))))))"

definition prepareDeployWallet :: "('w, 'm, unit) load_io" where
  "prepareDeployWallet =
     andThen (getVar vEnvironment) (\<lambda>env.
     case WALLET_IMPLEMENTATIONS env of
       None \<Rightarrow> throw (typeError ''Cannot read property of undefined'')
     | Some versions \<Rightarrow>
         setJson [(''implementationAddress'', (case versions ''1.1.0.0-p3'' of Some a \<Rightarrow> JStr a | None \<Rightarrow> JUndefined))])"

definition preparePepperRequest :: "('w, 'm) load_port \<Rightarrow> ('w, 'm, unit) load_io" where
  "preparePepperRequest p =
     andThen (getVar vE164Number) (\<lambda>number.
     andThen (getVar vBlsClient) (\<lambda>bls.
     andThen (ext (getBlindedPhoneNumber p number bls)) (\<lambda>blinded.
     setJson [(''blindedPhoneNumber'', JStr blinded), (''clientVersion'', JStr ''1.1.0.0-p3'')])))"

text \<open>
  Where a function of a library takes a string and the response has another value, the model passes a string
  that no response has: an empty signature, the hash or address ''undefined''.
\<close>

definition recordPepperAndIdentifier :: "('w, 'm) load_port \<Rightarrow> load_response \<Rightarrow> ('w, 'm, unit) load_io" where
  "recordPepperAndIdentifier p response =
     andThen (liftSum (js_get (resBody response) ''combinedSignature'')) (\<lambda>combinedSignature.
     if \<not> js_truthy combinedSignature then ret ()
     else
       andThen (getVar vE164Number) (\<lambda>number.
       andThen (getVar vBlsClient) (\<lambda>bls.
       andThen (ext (getPhoneNumberIdentifierFromSignature p number
         (case combinedSignature of JStr s \<Rightarrow> s | _ \<Rightarrow> []) bls)) (\<lambda>(phoneHash, pepper).
       setVars (\<lambda>v. v\<lparr>vIdentifier := phoneHash, vPepper := pepper\<rparr>)))))"

text \<open>The body of a meta-transaction of a wallet\<close>

definition setMetaTx :: "('w, 'm) load_port \<Rightarrow> 'm \<Rightarrow> js_value \<Rightarrow> js_value \<Rightarrow> ('w, 'm, unit) load_io" where
  "setMetaTx p wallet txo signature =
     (let rawMetaTx = toRawTransaction p (executeMetaTransaction p wallet txo signature) in
      setJson [(''destination'', JStr (destination rawMetaTx)), (''data'', JStr (data rawMetaTx))])"

definition prepareSetAccount :: "('w, 'm) load_port \<Rightarrow> ('w, 'm, unit) load_io" where
  "prepareSetAccount p =
     withKit (andThen (ext (getAccounts p)) (\<lambda>accounts.
     andThen (getVar id) (\<lambda>v.
     andThen (ext (lpProofLocally p accounts (vMetaTxWalletAddress v) (vExternalAccount v) (vPkey v))) (\<lambda>proofOfPossession.
     andThen (loadGetWallet p (vMetaTxWalletAddress v)) (\<lambda>wallet.
     andThen (ext (mtwNonce p wallet)) (\<lambda>nonce.
     let tx = accSetAccount p accounts [] (vDekPublicKey v) (vExternalAccount v) proofOfPossession in
     andThen (ext (signMetaTransaction p wallet tx (Some nonce))) (\<lambda>signature.
     setMetaTx p wallet tx signature)))))))"

definition waitForWallet :: "celo_base \<Rightarrow> ('w, 'm) load_port \<Rightarrow> load_response \<Rightarrow> ('w, 'm, unit) load_io" where
  "waitForWallet cb p response =
     andThen (liftSum (js_get (resBody response) ''status'')) (\<lambda>status.
     if status = JStr ''deployed''
     then
       andThen (liftSum (js_get (resBody response) ''walletAddress'')) (\<lambda>a.
       setVars (\<lambda>v. v\<lparr>vMetaTxWalletAddress := a\<rparr>))
     else
       andThen (getVar vExternalAccount) (\<lambda>externalAccount.
       andThen (liftSum (js_get (resBody response) ''txHash'')) (\<lambda>txHash.
       withKit (andThen (ext (utilsGetAddressFromDeploy cb p externalAccount (case txHash of JStr h \<Rightarrow> h | _ \<Rightarrow> ''undefined''))) (\<lambda>addressResp.
       case addressResp of
         Ok a \<Rightarrow> setVars (\<lambda>v. v\<lparr>vMetaTxWalletAddress := JStr a\<rparr>)
       | Err e \<Rightarrow> setVars (\<lambda>v. v\<lparr>vWalletError := Some e, vMetaTxWalletAddress := JUndefined\<rparr>))))))"

definition prepareSubsidisedAttestations :: "('w, 'm) load_port \<Rightarrow> ('w, 'm, unit) load_io" where
  "prepareSubsidisedAttestations p =
     withKit (andThen (ext (getAttestations p)) (\<lambda>attestations.
     andThen (getVar id) (\<lambda>v.
     andThen (loadGetWallet p (vMetaTxWalletAddress v)) (\<lambda>wallet.
     andThen (ext (mtwNonce p wallet)) (\<lambda>nonce.
     let attestationsRequested = 3 in
     andThen (ext (approveAttestationFee p attestations attestationsRequested)) (\<lambda>approveTx.
     andThen (ext (signMetaTransaction p wallet approveTx (Some nonce))) (\<lambda>approveTxSig.
     let approveMetaTx = executeMetaTransaction p wallet approveTx approveTxSig in
     andThen (ext (attRequest p attestations (vIdentifier v) attestationsRequested)) (\<lambda>requestTx.
     andThen (ext (signMetaTransaction p wallet requestTx (Some (nonce + 1)))) (\<lambda>requestTxSig.
     let requestMetaTx = executeMetaTransaction p wallet requestTx requestTxSig in
     setJson [(''identifier'', JStr (vIdentifier v)), (''attestationsRequested'', JNum attestationsRequested),
              (''walletAddress'', vMetaTxWalletAddress v),
              (''requestTx'', raw_to_value (toRawTransaction p requestMetaTx)),
              (''approveTx'', raw_to_value (toRawTransaction p approveMetaTx))])))))))))"

definition prepareSelectIssuers :: "('w, 'm) load_port \<Rightarrow> ('w, 'm, unit) load_io" where
  "prepareSelectIssuers p =
     withKit (andThen (ext (getAttestations p)) (\<lambda>attestations.
     andThen (getVar id) (\<lambda>v.
     andThen (ext (waitForSelectingIssuers p attestations (vIdentifier v)
       (case vMetaTxWalletAddress v of JStr a \<Rightarrow> a | _ \<Rightarrow> ''undefined''))) (\<lambda>_.
     let issuer = attSelectIssuers p attestations (vIdentifier v) in
     andThen (loadGetWallet p (vMetaTxWalletAddress v)) (\<lambda>wallet.
     andThen (ext (mtwNonce p wallet)) (\<lambda>nonce.
     andThen (ext (signMetaTransaction p wallet issuer (Some nonce))) (\<lambda>signature.
     setMetaTx p wallet issuer signature)))))))"

definition waitForTransaction :: "('w, 'm) load_port \<Rightarrow> load_response \<Rightarrow> ('w, 'm, unit) load_io" where
  "waitForTransaction p response =
     andThen (liftSum (js_get (resBody response) ''txHash'')) (\<lambda>txHash.
     withKit (andThen (ext (utilsWaitForReceipt p (case txHash of JStr h \<Rightarrow> h | _ \<Rightarrow> ''undefined''))) (\<lambda>rc.
     case rc of
       Err e \<Rightarrow> setVars (\<lambda>v. v\<lparr>vLatestTxConfirmed := Some False, vLatestTxError := Some e\<rparr>)
     | Ok _ \<Rightarrow> setVars (\<lambda>v. v\<lparr>vLatestTxConfirmed := Some True\<rparr>))))"

text \<open>
  The hooks that are not wrapped: the first is called before a loop of requests, the next two after each of its
  requests, to tell whether the loop goes on; \<open>NaN\<close> is not greater than 5. They throw what was kept of an
  error, which is \<open>undefined\<close> if there was none. \<open>JStr\<close> is the only value whose type is a string.
\<close>

definition resetRetryCounter :: "'m load_vars \<Rightarrow> 'm load_vars" where
  "resetRetryCounter v = v\<lparr>vRetryCounter := Some 0\<rparr>"

definition countRetry :: "'m load_vars \<Rightarrow> 'm load_vars" where
  "countRetry v = v\<lparr>vRetryCounter := map_option (\<lambda>n. n + 1) (vRetryCounter v)\<rparr>"

definition tooManyRetries :: "'m load_vars \<Rightarrow> bool" where
  "tooManyRetries v = (case vRetryCounter v of None \<Rightarrow> False | Some n \<Rightarrow> 5 < n)"

definition walletNotDeployed :: "'m load_vars \<Rightarrow> (kit_error option + bool) \<times> 'm load_vars" where
  "walletNotDeployed v =
     (let v' = countRetry v in
      if tooManyRetries v' then (Inl (vWalletError v'), v')
      else (Inr (case vMetaTxWalletAddress v' of JStr _ \<Rightarrow> False | _ \<Rightarrow> True), v'))"

definition latestTxNotConfirmed :: "'m load_vars \<Rightarrow> (kit_error option + bool) \<times> 'm load_vars" where
  "latestTxNotConfirmed v =
     (let v' = countRetry v in
      if tooManyRetries v' then (Inl (vLatestTxError v'), v')
      else (Inr (vLatestTxConfirmed v' = Some False), v'))"

definition saveStartSessionStatus :: "load_response \<Rightarrow> 'm load_vars \<Rightarrow> 'm load_vars" where
  "saveStartSessionStatus response v = v\<lparr>vStartSessionStatus := Some (resStatusCode response)\<rparr>"

definition startSessionRateLimited :: "'m load_vars \<Rightarrow> bool" where
  "startSessionRateLimited v \<longleftrightarrow> vStartSessionStatus v = Some 429"

text \<open>\<open>countTry(event)\<close> emits one count of its event, and \<open>logHeaders\<close> only writes to the console.\<close>

definition countTry :: "string \<Rightarrow> (string \<times> int) list \<Rightarrow> (string \<times> int) list" where
  "countTry event counters = counters @ [(event, 1)]"

section \<open>Waiting\<close>

lemma loadOptions_polls: "maxPolls loadOptions = 600"
  by (simp add: maxPolls_def loadOptions_def)

text \<open>The loop of the source, which is the kit's, ends for these options after at most 600 polls.\<close>

lemma utils_loop_ends:
  "receipt_loop p loadOptions txHash 0 w = Some (receiptWithin p loadOptions txHash 600 w)"
  using receipt_loop_returns [of loadOptions p txHash w] by (simp add: loadOptions_polls) (simp add: loadOptions_def)

section \<open>Rounds of a loop\<close>

text \<open>
  The variables after \<open>n\<close> rounds of a loop whose requests are \<open>body\<close> and whose condition is the hook, and what
  the hook says in round \<open>n\<close>
\<close>

primrec afterRounds ::
    "(nat \<Rightarrow> 'v \<Rightarrow> 'v) \<Rightarrow> ('v \<Rightarrow> ('e + bool) \<times> 'v) \<Rightarrow> nat \<Rightarrow> 'v \<Rightarrow> 'v" where
  "afterRounds body hook 0 v = v"
| "afterRounds body hook (Suc n) v = snd (hook (body n (afterRounds body hook n v)))"

definition roundSays ::
    "(nat \<Rightarrow> 'v \<Rightarrow> 'v) \<Rightarrow> ('v \<Rightarrow> ('e + bool) \<times> 'v) \<Rightarrow> nat \<Rightarrow> 'v \<Rightarrow> 'e + bool" where
  "roundSays body hook n v = fst (hook (body n (afterRounds body hook n v)))"

text \<open>Requests leave the counter alone.\<close>

definition keepsCounter :: "(nat \<Rightarrow> 'm load_vars \<Rightarrow> 'm load_vars) \<Rightarrow> bool" where
  "keepsCounter body \<longleftrightarrow> (\<forall>n v. vRetryCounter (body n v) = vRetryCounter v)"

lemma counter_after_rounds:
  assumes "keepsCounter body" and "\<And>v. snd (hook v) = countRetry v"
  shows "vRetryCounter (afterRounds body hook n (resetRetryCounter v)) = Some (of_nat n)"
  using assms
  by (induction n) (simp_all add: keepsCounter_def countRetry_def resetRetryCounter_def)

lemma hooks_count:
  "snd (walletNotDeployed v) = countRetry v" "snd (latestTxNotConfirmed v) = countRetry v"
  by (simp_all add: walletNotDeployed_def latestTxNotConfirmed_def Let_def)

lemma tooMany_after_rounds:
  assumes "keepsCounter body" and "\<And>v. snd (hook v) = countRetry v"
  shows "tooManyRetries (countRetry (body n (afterRounds body hook n (resetRetryCounter v)))) \<longleftrightarrow> 5 \<le> n"
proof -
  have "vRetryCounter (body n (afterRounds body hook n (resetRetryCounter v))) = Some (of_nat n)"
    using counter_after_rounds [OF assms] assms(1) by (simp add: keepsCounter_def)
  moreover have "5 < (of_nat n + 1 :: rat) \<longleftrightarrow> 5 \<le> n"
  proof -
    have "5 < (of_nat n + 1 :: rat) \<longleftrightarrow> (of_nat 5 :: rat) < of_nat (Suc n)" by simp
    also have "\<dots> \<longleftrightarrow> 5 < Suc n" by (rule of_nat_less_iff)
    finally show ?thesis by auto
  qed
  ultimately show ?thesis by (simp add: tooManyRetries_def countRetry_def)
qed

text \<open>
  After the counter was reset the loops of the load test make at most six requests: the first five end the loop
  when the wallet is known, or the transaction confirmed, and the sixth ends it with the error kept last
  although its own request may have succeeded.
\<close>

theorem retry_loops_bounded:
  assumes "keepsCounter body"
  shows "roundSays body walletNotDeployed n (resetRetryCounter v)
       = (let u = body n (afterRounds body walletNotDeployed n (resetRetryCounter v)) in
          if n < 5 then Inr (\<forall>a. vMetaTxWalletAddress u \<noteq> JStr a) else Inl (vWalletError u))
     \<and> roundSays body latestTxNotConfirmed n (resetRetryCounter v)
       = (let u = body n (afterRounds body latestTxNotConfirmed n (resetRetryCounter v)) in
          if n < 5 then Inr (vLatestTxConfirmed u = Some False) else Inl (vLatestTxError u))"
proof -
  have "vMetaTxWalletAddress (countRetry u) = vMetaTxWalletAddress u" "vWalletError (countRetry u) = vWalletError u"
    "vLatestTxConfirmed (countRetry u) = vLatestTxConfirmed u" "vLatestTxError (countRetry u) = vLatestTxError u"
    for u :: "'a load_vars" by (simp_all add: countRetry_def)
  moreover have "(case x of JStr _ \<Rightarrow> False | _ \<Rightarrow> True) \<longleftrightarrow> (\<forall>a. x \<noteq> JStr a)" for x :: js_value
    by (cases x) auto
  ultimately show ?thesis
    using tooMany_after_rounds [OF assms, where hook = walletNotDeployed, OF hooks_count(1), of n v]
      tooMany_after_rounds [OF assms, where hook = latestTxNotConfirmed, OF hooks_count(2), of n v]
    by (simp add: roundSays_def walletNotDeployed_def latestTxNotConfirmed_def Let_def not_le)
qed

definition demoVars :: "string \<Rightarrow> nat load_vars" where
  "demoVars env = \<lparr>vEnvironment = env, vPkey = [], vDek = [], vWallet = None, vContractKit = Some None, vAccount = [],
     vExternalAccount = [], vDekPublicKey = [], vE164Number = [], vBlsClient = JNull, vIdentifier = [], vPepper = [],
     vMetaTxWalletAddress = JUndefined, vWalletError = None, vRetryCounter = None, vLatestTxConfirmed = None,
     vLatestTxError = None, vStartSessionStatus = None\<rparr>"

text \<open>A wallet that is deployed by the sixth request\<close>

lemma retry_loops_bounded_witness:
  "let body = (\<lambda>n v. if n = 5 then v\<lparr>vMetaTxWalletAddress := JStr ''0xw''\<rparr> else v);
       v = resetRetryCounter (demoVars ''alfajores''); u = body 5 (afterRounds body walletNotDeployed 5 v)
   in vMetaTxWalletAddress u = JStr ''0xw'' \<and> roundSays body walletNotDeployed 5 v = Inl (vWalletError u)"
proof -
  let ?body = "\<lambda>n v. if n = 5 then v\<lparr>vMetaTxWalletAddress := JStr ''0xw''\<rparr> else v"
  have "keepsCounter ?body" by (simp add: keepsCounter_def)
  from retry_loops_bounded [OF this, of 5 "demoVars ''alfajores''"]
  show ?thesis by (simp add: Let_def)
qed

section \<open>Requests\<close>

lemma setJson_run: "setJson props (s, w) = (Inr (), (s\<lparr>lsJson := Some (JObj props)\<rparr>, w))"
  by (simp add: setJson_def)

lemma getVar_run: "getVar f (s, w) = (Inr (f (lsVars s)), (s, w))"
  by (simp add: getVar_def)

lemma prepareDeployWallet_run:
  "prepareDeployWallet (s, w) =
     (case WALLET_IMPLEMENTATIONS (vEnvironment (lsVars s)) of
        None \<Rightarrow> (Inl (typeError ''Cannot read property of undefined''), (s, w))
      | Some versions \<Rightarrow> (Inr (), (s\<lparr>lsJson := Some (JObj [(''implementationAddress'',
          (case versions ''1.1.0.0-p3'' of Some a \<Rightarrow> JStr a | None \<Rightarrow> JUndefined))])\<rparr>, w)))"
  by (simp add: prepareDeployWallet_def andThen_def getVar_run setJson_run split: option.split)

text \<open>
  Of all environments only alfajores gives a deployment request that the api accepts: for rc1 there is no
  implementation of the version asked for, so the request has no address, and for any other one the hook throws.
\<close>

theorem deploy_request_needs_alfajores:
  assumes "class_validator_documented v" and "isAddress ''0x5C9a6E3c3E862eD306E2E3348EBC8b8310A99e5A''"
  shows "(\<exists>s' js. prepareDeployWallet (s, w) = (Inr (), (s', w)) \<and> lsJson s' = Some js
            \<and> validates v (DeployWalletDto isAddress) js)
     \<longleftrightarrow> vEnvironment (lsVars s) = ''alfajores''"
proof -
  let ?env = "vEnvironment (lsVars s)"
  have valid: "validates v (DeployWalletDto isAddress) (JObj [(''implementationAddress'', x)]) \<longleftrightarrow>
      (\<exists>a. x = JStr a \<and> isAddress a)" for x
    by (simp add: class_validatorD(1) [OF assms(1)] DeployWalletDto_def passes_IsCeloAddress [OF assms(1)] field_def)
  consider "?env = ''alfajores''" | "?env = ''rc1''" | "?env \<noteq> ''alfajores''" "?env \<noteq> ''rc1''" by blast
  then show ?thesis
    by cases (use assms(2) in \<open>simp_all add: prepareDeployWallet_run valid WALLET_IMPLEMENTATIONS_def\<close>)
qed

lemma deploy_request_needs_alfajores_witness:
  "\<exists>s' js. prepareDeployWallet (\<lparr>lsKit = None, lsWallet = None, lsVars = demoVars ''alfajores'', lsJson = None\<rparr>, ())
       = (Inr (), (s', ())) \<and> lsJson s' = Some js"
  using deploy_request_needs_alfajores [of "std_validator (\<lambda>s. True)" "\<lambda>s. True", OF std_validator_documented TrueI,
      of "\<lparr>lsKit = None, lsWallet = None, lsVars = demoVars ''alfajores'', lsJson = None\<rparr>" "()"]
  by (auto simp: demoVars_def)

text \<open>The wallet a hook works with is at the address the user has, whatever the module kept of another user.\<close>

lemma loadGetWallet_address:
  assumes "\<And>a u m u'. lpWallet p a u = (Inr m, u') \<Longrightarrow> JStr (mtwAddress p m) = a"
    and "loadGetWallet p a (s, w) = (Inr m, (s', w'))"
  shows "JStr (mtwAddress p m) = a \<and> lsWallet s' = Some m \<and> lsVars s' = lsVars s"
  using assms(2)
  by (auto simp: loadGetWallet_def withKit_def getVar_def runs dest: assms(1) split: if_splits)

text \<open>The batch is signed with the nonce of that wallet and the next, and is valid for the api if the parts are.\<close>

lemma load_attestations_request:
  assumes "class_validator_documented v"
    and "prepareSubsidisedAttestations p (s, w) = (Inr (), (s', w'))"
    and "\<And>tx. passes v (ValidateNested False (RawTransactionDto isAddress)) (raw_to_value tx)"
  shows "\<exists>js. lsJson s' = Some js \<and> field js ''attestationsRequested'' = JNum 3
     \<and> (validates v (RequestAttestationsDto isAddress) js \<longleftrightarrow> vIdentifier (lsVars s) \<noteq> []
          \<and> (\<exists>a. vMetaTxWalletAddress (lsVars s) = JStr a \<and> isAddress a))"
  using assms(2,3)
  by (auto simp: prepareSubsidisedAttestations_def withKit_def runs getVar_def setJson_run field_def
      requestAttestations_validation [OF assms(1)])

end
