(* ===== verification/Kit_Over_Api.thy ===== *)
theory Kit_Over_Api
  imports Dto Relayer_App
begin

text \<open>
  The kit, the api and a relayer together: the responses of the api's endpoints and the decoders of the kit's
  actions (\<open>komencikit/src/actions.ts\<close>) that read them, the api as the kit's \<open>fetch\<close> reaches it, with its guards,
  its validation and its error filter in the order nest runs them, and what follows for a
  meta-transaction on its way from the kit to the node.
\<close>

section \<open>Responses and decoders\<close>

text \<open>The objects the endpoints return (app.controller.ts)\<close>

definition healthBody :: js_value where
  "healthBody = JObj [(''status'', JStr apiHealth)]"

definition startSessionBody :: "string \<times> string \<Rightarrow> js_value" where
  "startSessionBody r = JObj [(''token'', JStr (fst r)), (''callbackUrl'', JStr (snd r))]"

definition checkSessionBody :: "check_session_response \<Rightarrow> js_value" where
  "checkSessionBody r =
     JObj [(''quotaLeft'', JObj (map (\<lambda>(action, n). (trackedActionValue action, JNum n)) (csQuotaLeft r))),
           (''metaTxWalletAddress'', (case csWalletAddress r of Some a \<Rightarrow> JStr a | None \<Rightarrow> JUndefined))]"

fun deployWalletBody :: "deploy_wallet_resp \<Rightarrow> js_value" where
  "deployWalletBody (DeployWalletDeployed wallet) =
     JObj [(''status'', JStr ''deployed''), (''walletAddress'', JStr wallet)]"
| "deployWalletBody (DeployWalletInProgress txHash deployerAddress) =
     JObj [(''status'', JStr ''in-progress''), (''txHash'', JStr txHash), (''deployerAddress'', JStr deployerAddress)]"

definition pepperBody :: "string \<Rightarrow> js_value" where
  "pepperBody signature = JObj [(''combinedSignature'', JStr signature)]"

definition txHashBody :: "string \<Rightarrow> js_value" where
  "txHashBody h = JObj [(''txHash'', JStr h)]"

text \<open>
  The decoders of io-ts that the actions are declared with: a string, a number, an optional string, and
  objects of these.
\<close>

definition asString :: "js_value \<Rightarrow> string option" where
  "asString x = (case x of JStr s \<Rightarrow> Some s | _ \<Rightarrow> None)"

definition asNumber :: "js_value \<Rightarrow> rat option" where
  "asNumber x = (case x of JNum n \<Rightarrow> Some n | _ \<Rightarrow> None)"

definition asOptionalString :: "js_value \<Rightarrow> string option option" where
  "asOptionalString x = (case x of JStr s \<Rightarrow> Some (Some s) | JUndefined \<Rightarrow> Some None | _ \<Rightarrow> None)"

definition decodeCheckSession :: "js_value \<Rightarrow> check_session_resp option" where
  "decodeCheckSession v =
     (let left = field v ''quotaLeft'' in
      case (asNumber (field left ''distributedBlindedPepper''), asNumber (field left ''requestSubsidisedAttestation''),
            asNumber (field left ''submitMetaTransaction''), asOptionalString (field v ''metaTxWalletAddress'')) of
        (Some pepper, Some attestations, Some metaTxs, Some wallet) \<Rightarrow>
          Some \<lparr>distributedBlindedPepperLeft = pepper, requestSubsidisedAttestationLeft = attestations,
                submitMetaTransactionLeft = metaTxs, metaTxWalletAddress = wallet\<rparr>
      | _ \<Rightarrow> None)"

definition decodeStartSession :: "js_value \<Rightarrow> start_session_resp option" where
  "decodeStartSession v =
     (case (asString (field v ''token''), asOptionalString (field v ''callbackUrl'')) of
        (Some t, Some url) \<Rightarrow> Some \<lparr>respToken = t, respCallbackUrl = url\<rparr>
      | _ \<Rightarrow> None)"

definition decodeDeployWallet :: "js_value \<Rightarrow> deploy_wallet_resp option" where
  "decodeDeployWallet v =
     (case (field v ''status'', asString (field v ''walletAddress'')) of
        (JStr status, wallet) \<Rightarrow>
          if status = ''deployed'' \<and> wallet \<noteq> None then Some (DeployWalletDeployed (the wallet))
          else if status = ''in-progress''
          then (case (asString (field v ''txHash''), asString (field v ''deployerAddress'')) of
                  (Some h, Some d) \<Rightarrow> Some (DeployWalletInProgress h d)
                | _ \<Rightarrow> None)
          else None
      | _ \<Rightarrow> None)"

definition actionCodecs :: codecs where
  "actionCodecs =
     \<lparr>CheckServiceResponse = (\<lambda>v. asString (field v ''status'')),
      CheckSessionResp = decodeCheckSession,
      StartSessionResp = decodeStartSession,
      GetCombinedSignatureResp = (\<lambda>v. asString (field v ''combinedSignature'')),
      DeployWalletResp = decodeDeployWallet,
      SubmitMetaTransactionResp = (\<lambda>v. asString (field v ''txHash''))\<rparr>"

lemma quotaLeft_shape:
  assumes "quotaLeft cfg s = Inr left"
  shows "\<exists>a b c. left = [(DistributedBlindedPepperAction, a), (RequestSubsidisedAttestationAction, b),
     (SubmitMetaTransactionAction, c)]"
  using assms by (auto simp: quotaLeft_def enum_tracked_action_def split: sum.splits)

text \<open>
  C15. What the api answers is what the kit reads: every response of the endpoints is decoded by the decoder of the
  action that asks for it to the same values, the three quotas under their names.
\<close>

theorem responses_roundtrip:
  assumes "quotaLeft cfg s = Inr (csQuotaLeft session)"
  shows "CheckServiceResponse actionCodecs healthBody = Some ''OK''
     \<and> StartSessionResp actionCodecs (startSessionBody (t, url)) = Some \<lparr>respToken = t, respCallbackUrl = Some url\<rparr>
     \<and> (\<exists>a b c. csQuotaLeft session = [(DistributedBlindedPepperAction, a), (RequestSubsidisedAttestationAction, b),
            (SubmitMetaTransactionAction, c)]
          \<and> CheckSessionResp actionCodecs (checkSessionBody session) = Some
              \<lparr>distributedBlindedPepperLeft = a, requestSubsidisedAttestationLeft = b,
               submitMetaTransactionLeft = c, metaTxWalletAddress = csWalletAddress session\<rparr>)
     \<and> DeployWalletResp actionCodecs (deployWalletBody d) = Some d
     \<and> GetCombinedSignatureResp actionCodecs (pepperBody sig) = Some sig
     \<and> SubmitMetaTransactionResp actionCodecs (txHashBody h) = Some h"
proof -
  from quotaLeft_shape [OF assms] obtain a b c where
    left: "csQuotaLeft session = [(DistributedBlindedPepperAction, a), (RequestSubsidisedAttestationAction, b),
       (SubmitMetaTransactionAction, c)]" by blast
  have "decodeCheckSession (checkSessionBody session) = Some
      \<lparr>distributedBlindedPepperLeft = a, requestSubsidisedAttestationLeft = b,
       submitMetaTransactionLeft = c, metaTxWalletAddress = csWalletAddress session\<rparr>"
    by (simp add: decodeCheckSession_def checkSessionBody_def left field_def asNumber_def asOptionalString_def
        split: option.split)
  moreover have "decodeDeployWallet (deployWalletBody d) = Some d"
    by (cases d) (simp_all add: decodeDeployWallet_def field_def asString_def)
  ultimately show ?thesis
    using left
    by (simp add: actionCodecs_def healthBody_def apiHealth_def startSessionBody_def decodeStartSession_def
        pepperBody_def txHashBody_def field_def asString_def asOptionalString_def)
qed

lemma responses_roundtrip_witness:
  "\<exists>a b c. CheckSessionResp actionCodecs (checkSessionBody \<lparr>csQuotaLeft =
       [(DistributedBlindedPepperAction, 1), (RequestSubsidisedAttestationAction, 10), (SubmitMetaTransactionAction, 20)],
       csWalletAddress = None\<rparr>)
     = Some \<lparr>distributedBlindedPepperLeft = a, requestSubsidisedAttestationLeft = b,
             submitMetaTransactionLeft = c, metaTxWalletAddress = None\<rparr>"
proof -
  let ?resp = "\<lparr>csQuotaLeft = [(DistributedBlindedPepperAction, 1), (RequestSubsidisedAttestationAction, 10),
     (SubmitMetaTransactionAction, 20)], csWalletAddress = None\<rparr>"
  have "quotaLeft (quotaConfig (\<lambda>_. None)) freshRow = Inr (csQuotaLeft ?resp)"
    by (simp add: quotaLeft_def enum_tracked_action_def getActionCount_def freshRow_def quotaConfig_def)
  from responses_roundtrip [OF this] show ?thesis by auto
qed

section \<open>The api behind the kit's fetch\<close>

text \<open>
  The token of the request; \<open>ValidationPipe\<close>, which runs after the guards, so that a body that is not valid is
  refused by them or by it (the guards only read: for a valid body they are those of the endpoint); and the
  reply, where nest's own exceptions have their status and \<open>ApiErrorFilter\<close> handles the others.
\<close>

definition bearerToken :: "fetch_request \<Rightarrow> string" where
  "bearerToken req =
     (case map_of (reqHeaders req) ''Authorization'' of
        Some h \<Rightarrow> if take 7 h = ''Bearer '' then drop 7 h else []
      | None \<Rightarrow> [])"

definition requestBody :: "fetch_request \<Rightarrow> js_value" where
  "requestBody req = (case reqBody req of Some body \<Rightarrow> body | None \<Rightarrow> JUndefined)"

definition badRequestException :: thrown where
  "badRequestException = ErrorObject (plain_error ''Bad Request'')"

definition validated ::
    "validator \<Rightarrow> dto_class \<Rightarrow> js_value \<Rightarrow> ('w, unit) api_io \<Rightarrow> ('w, 'a) api_io \<Rightarrow> ('w, 'a) api_io" where
  "validated v cls body guards handler =
     (if validates v cls body then handler else andThen guards (\<lambda>_. throw badRequestException))"

definition apiGuards :: "api_env \<Rightarrow> ('w, 'm) api_port \<Rightarrow> string \<Rightarrow> tracked_action option \<Rightarrow> ('w, unit) api_io" where
  "apiGuards env p t action =
     andThen (authGuard p t) (\<lambda>s.
     case action of None \<Rightarrow> ret () | Some a \<Rightarrow> andThen (quotaGuard env a s) (\<lambda>_. ret ()))"

definition unknownExceptionMessage :: string where
  "unknownExceptionMessage = ''Internal server error''"

definition apiReply :: "int \<Rightarrow> thrown + js_value \<Rightarrow> fetch_response" where
  "apiReply status r =
     (case r of
        Inr body \<Rightarrow> \<lparr>httpStatus = status, respJson = Inr body\<rparr>
      | Inl e \<Rightarrow>
          if e = unauthorizedException then \<lparr>httpStatus = 401, respJson = Inr (JObj [(''statusCode'', JNum 401)])\<rparr>
          else if e = badRequestException then \<lparr>httpStatus = 400, respJson = Inr (JObj [(''statusCode'', JNum 400)])\<rparr>
          else (case handleUnknownError unknownExceptionMessage e of
                  (code, body) \<Rightarrow> \<lparr>httpStatus = code, respJson = Inr (JObj body)\<rparr>))"

text \<open>
  An api: its environment, port and method filter, the validator, the id it gives the request, and its base URL.
\<close>

record ('w, 'm) api_server =
  srvEnv :: api_env
  srvPort :: "('w, 'm) api_port"
  srvFilter :: method_filter
  srvValidator :: validator
  srvIsAddress :: "string \<Rightarrow> bool"
  srvRequestId :: string
  srvBase :: string

definition serveSubmit :: "('w, 'm) api_server \<Rightarrow> fetch_request \<Rightarrow> ('w, js_value) api_io" where
  "serveSubmit srv req =
     (let t = bearerToken req; body = requestBody req in
      validated (srvValidator srv) (SubmitMetaTransactionDto (srvIsAddress srv)) body
        (apiGuards (srvEnv srv) (srvPort srv) t (Some SubmitMetaTransactionAction))
        (case (field body ''destination'', field body ''data'') of
           (JStr d, JStr c) \<Rightarrow>
             andThen (apiSubmitMetaTransaction (srvEnv srv) (srvPort srv) (srvFilter srv) (srvRequestId srv) t d c) (\<lambda>h.
             ret (txHashBody h))
         | _ \<Rightarrow> throw badRequestException))"

definition serveAttestations :: "('w, 'm) api_server \<Rightarrow> fetch_request \<Rightarrow> ('w, js_value) api_io" where
  "serveAttestations srv req =
     (let t = bearerToken req; body = requestBody req in
      validated (srvValidator srv) (RequestAttestationsDto (srvIsAddress srv)) body
        (apiGuards (srvEnv srv) (srvPort srv) t (Some RequestSubsidisedAttestationAction))
        (case requestAttestationsView body of
           Some dto \<Rightarrow>
             andThen (apiRequestSubsidisedAttestations (srvEnv srv) (srvPort srv) (srvRequestId srv) t dto) (\<lambda>h.
             ret (txHashBody h))
         | None \<Rightarrow> throw (typeError ''Cannot read property of undefined'')))"

definition servePepper :: "('w, 'm) api_server \<Rightarrow> fetch_request \<Rightarrow> ('w, js_value) api_io" where
  "servePepper srv req =
     (let t = bearerToken req; body = requestBody req in
      validated (srvValidator srv) DistributedBlindedPepperDto body
        (apiGuards (srvEnv srv) (srvPort srv) t (Some DistributedBlindedPepperAction))
        (case field body ''blindedPhoneNumber'' of
           JStr b \<Rightarrow>
             andThen (apiDistributedBlindedPepper (srvEnv srv) (srvPort srv) (srvRequestId srv) t b
               (asString (field body ''clientVersion''))) (\<lambda>sig.
             ret (pepperBody sig))
         | _ \<Rightarrow> throw badRequestException))"

definition serveDeploy :: "('w, 'm) api_server \<Rightarrow> fetch_request \<Rightarrow> ('w, js_value) api_io" where
  "serveDeploy srv req =
     (let t = bearerToken req; body = requestBody req in
      validated (srvValidator srv) (DeployWalletDto (srvIsAddress srv)) body
        (apiGuards (srvEnv srv) (srvPort srv) t None)
        (case field body ''implementationAddress'' of
           JStr a \<Rightarrow>
             andThen (apiDeploy (srvEnv srv) (srvPort srv) (srvRequestId srv) t a) (\<lambda>d. ret (deployWalletBody d))
         | _ \<Rightarrow> throw badRequestException))"

definition serveCheckSession :: "('w, 'm) api_server \<Rightarrow> fetch_request \<Rightarrow> ('w, js_value) api_io" where
  "serveCheckSession srv req =
     andThen (apiCheckSession (srvEnv srv) (srvPort srv) (bearerToken req)) (\<lambda>r. ret (checkSessionBody r))"

text \<open>The endpoints by method and path; another path is not found.\<close>

definition apiRoutes :: "('w, 'm) api_server \<Rightarrow> ((request_method \<times> string) \<times> (fetch_request \<Rightarrow> ('w, js_value) api_io)) list" where
  "apiRoutes srv =
     [((POST, ''v1/submitMetaTransaction''), serveSubmit srv),
      ((POST, ''v1/requestSubsidisedAttestations''), serveAttestations srv),
      ((POST, ''v1/distributedBlindedPepper''), servePepper srv),
      ((POST, ''v1/deployWallet''), serveDeploy srv),
      ((GET, ''v1/checkSession''), serveCheckSession srv),
      ((GET, ''v1/health''), (\<lambda>req. ret healthBody))]"

definition apiFetch :: "('w, 'm) api_server \<Rightarrow> (log_entry list \<times> 'w) fetch" where
  "apiFetch srv req =
     (case map_of (apiRoutes srv) (reqMethod req, drop (length (srvBase srv)) (reqUrl req)) of
        None \<Rightarrow> ret \<lparr>httpStatus = 404, respJson = Inr (JObj [(''statusCode'', JNum 404)])\<rparr>
      | Some serve \<Rightarrow>
          andThen (attempt (serve req)) (\<lambda>r. ret (apiReply (if reqMethod req = GET then 200 else 201) r)))"

section \<open>From the kit to the node\<close>

lemma apiFetch_submit:
  assumes "callbackUrl c = srvBase srv"
  shows "apiFetch srv (buildRequest c (submitMetaTransactionAction cs tx)) =
     andThen (attempt (serveSubmit srv (buildRequest c (submitMetaTransactionAction cs tx)))) (\<lambda>r. ret (apiReply 201 r))"
  using assms by (simp add: apiFetch_def buildRequest_def submitMetaTransactionAction_def apiRoutes_def)

lemma submit_token:
  "clientToken c = Some t \<Longrightarrow> t \<noteq> [] \<Longrightarrow> bearerToken (buildRequest c act) = t"
  by (simp add: bearerToken_def buildRequest_def)

lemma submit_body:
  "requestBody (buildRequest c (submitMetaTransactionAction cs tx)) = raw_to_value tx"
  by (simp add: requestBody_def buildRequest_def submitMetaTransactionAction_def)

lemma serveSubmit_valid:
  assumes "validates (srvValidator srv) (SubmitMetaTransactionDto (srvIsAddress srv)) (raw_to_value tx)"
  shows "serveSubmit srv (buildRequest c (submitMetaTransactionAction cs tx)) =
     andThen (apiSubmitMetaTransaction (srvEnv srv) (srvPort srv) (srvFilter srv) (srvRequestId srv)
       (bearerToken (buildRequest c (submitMetaTransactionAction cs tx))) (destination tx) (data tx))
       (\<lambda>h. ret (txHashBody h))"
  using assms
  by (simp add: serveSubmit_def Let_def submit_body validated_def raw_to_value_def field_def)

lemma apiReply_decodes:
  assumes "classify c (submitMetaTransactionAction actionCodecs tx) (apiReply 201 r) = Ok h"
  shows "\<exists>body. r = Inr body \<and> field body ''txHash'' = JStr h"
proof (cases r)
  case (Inl e)
  have "SubmitMetaTransactionResp actionCodecs (JObj (toJSON err)) = None" for err
    by (simp add: actionCodecs_def asString_def field_def toJSON_def)
  moreover have "SubmitMetaTransactionResp actionCodecs (JObj (UNKNOWN_EXCEPTION_BODY m)) = None" for m
    by (simp add: actionCodecs_def asString_def field_def UNKNOWN_EXCEPTION_BODY_def)
  ultimately show ?thesis
    using assms Inl
    by (auto simp: apiReply_def classify_def Let_def handleUnknownError_def submitMetaTransactionAction_def
        split: if_splits thrown.splits error_class.splits)
next
  case (Inr body)
  with assms show ?thesis
    by (auto simp: apiReply_def classify_def Let_def submitMetaTransactionAction_def actionCodecs_def asString_def
        split: js_value.splits)
qed

text \<open>A hash in the reply of a relayer means that its service submitted the transaction, in time.\<close>

lemma relayed_submission:
  assumes "proxySubmitTransaction (relayerOverTcp cfg rp delay) timeoutMs req tx u = (Inr (Ok resp), u')"
  shows "(\<exists>d. delay = Some d \<and> d < timeoutMs)
     \<and> submitTransaction (rcTx cfg) (rlNode rp) tx (Some (requestContext req)) u = (Inr (Ok (rrPayload resp)), u')"
proof -
  obtain reply sw where sent: "rpcFiltered rp (ctrlSubmitTransaction cfg rp tx (requestContext req)) u = (reply, sw)"
    by (metis surj_pair)
  have transport: "relaySend (relayerOverTcp cfg rp delay) SubmitTransaction (SubmitTransactionInput tx) (requestContext req) u
      = ((delay, reply), sw)"
    using sent by (simp add: relayerOverTcp_def relayerHandle_def)
  from assms transport have reply: "reply = Inr resp" "sw = u'" and "\<exists>d. delay = Some d \<and> d < timeoutMs"
    by (auto simp: proxySubmitTransaction_def executeRelay_def split: option.splits if_splits sum.splits)
  obtain s w where u: "u = (s, w)" by (metis surj_pair)
  obtain res v where run: "submitTransaction (rcTx cfg) (rlNode rp) tx (Some (requestContext req)) (s, w) = (res, v)"
    by (metis surj_pair)
  obtain s2 w2 where v: "v = (s2, w2)" by (metis surj_pair)
  show ?thesis
  proof (cases res)
    case (Inl e)
    with sent reply run show ?thesis
      by (auto simp: u v rpcFiltered_def ctrlSubmitTransaction_def catching_def andThen_def throw_def)
  next
    case (Inr r)
    with run v have "submitTransaction (rcTx cfg) (rlNode rp) tx (Some (requestContext req)) (s, w) = (Inr r, (s2, w2))"
      by simp
    from filtered_submission [OF this] sent reply run Inr v
    show ?thesis using \<open>\<exists>d. delay = Some d \<and> d < timeoutMs\<close>
      by (cases r) (auto simp: u wrapResponse_def)
  qed
qed

lemma submitted_hash:
  assumes "apiSubmitMetaTransaction env p dflt rid t dest calldata (l, u) = (Inr h, x)"
    and "wpRelay (apWallet p) = relayerOverTcp cfg rp delay"
  shows "\<exists>s pl used v v' w. apVerifyToken p t = Some pl \<and> recoverSession (apSession p) pl u = (Inr s, w)
     \<and> getActionCount s SubmitMetaTransactionAction = Inr used \<and> used < aeQuotas env SubmitMetaTransactionAction
     \<and> submitTransaction (rcTx cfg) (rlNode rp) \<lparr>destination = dest, txValue = ''0x0'', data = calldata\<rparr>
         (Some (requestContext (sessionRequest rid s))) v = (Inr (Ok h), v')"
proof -
  let ?tx = "\<lparr>destination = dest, txValue = ''0x0'', data = calldata\<rparr>"
  obtain l' u' where x: "x = (l', u')" by (metis surj_pair)
  from assms(1) obtain s cs l1 u1 where
    admitted: "submitAdmission env p dflt t ?tx (l, u) = (Inr (s, cs), (l1, u1))" and
    acted: "submitAction env p rid ?tx s cs (l1, u1) = (Inr h, (l', u'))"
    unfolding x by (auto simp: apiSubmit_split runs)
  from acted obtain resp v where
    "proxySubmitTransaction (wpRelay (apWallet p)) (relayerRpcTimeoutMs (aeWallet env)) (sessionRequest rid s) ?tx u1
       = (Inr (Ok resp), v)" and "h = rrPayload resp"
    by (auto simp: submitAction_def runs throwErr_Inr)
  with relayed_submission [of cfg rp delay] assms(2) submitAdmission_Inr [OF admitted] show ?thesis
    by (metis (no_types, lifting))
qed

text \<open>
  C2. A hash that the kit gets for a meta-transaction comes from a node: the kit's last request had a body that is
  valid, its token was that of a session which the api recovered from the state before that request and which
  had quota left, and the transaction service of the relayer submitted exactly the kit's destination and data,
  under the id of the request and of that session, and got the hash from its node, which it watches from then on.
\<close>

theorem kit_hash_was_accepted:
  assumes "wpRelay (apWallet (srvPort srv)) = relayerOverTcp cfg rp delay" and "callbackUrl (cl c) = srvBase srv"
    and "class_validator_documented (srvValidator srv)"
    and "(exec cl (apiFetch srv) (submitMetaTransactionAction actionCodecs tx) :: (_, 'x, _) io) (c, lw)
       = (Inr (Ok h), (c', lw'))"
  shows "c' = c \<and> validates (srvValidator srv) (SubmitMetaTransactionDto (srvIsAddress srv)) (raw_to_value tx)
     \<and> (\<exists>l u reply pl s u' used ctx v s' w'.
          apiFetch srv (buildRequest (cl c) (submitMetaTransactionAction actionCodecs tx)) (l, u) = (Inr reply, lw')
          \<and> apVerifyToken (srvPort srv) (bearerToken (buildRequest (cl c) (submitMetaTransactionAction actionCodecs tx))) = Some pl
          \<and> recoverSession (apSession (srvPort srv)) pl u = (Inr s, u')
          \<and> getActionCount s SubmitMetaTransactionAction = Inr used
          \<and> used < aeQuotas (srvEnv srv) SubmitMetaTransactionAction
          \<and> ctx = requestContext (sessionRequest (srvRequestId srv) s)
          \<and> submitTransaction (rcTx cfg) (rlNode rp) \<lparr>destination = destination tx, txValue = ''0x0'', data = data tx\<rparr>
              (Some ctx) v = (Inr (Ok h), (s', w'))
          \<and> h \<in> set (watchedTransactions s')
          \<and> (\<exists>price n. node_accepted (rlNode rp)
                (submit_request (rcTx cfg) \<lparr>destination = destination tx, txValue = ''0x0'', data = data tx\<rparr> price n) h))"
proof -
  let ?act = "submitMetaTransactionAction actionCodecs tx" and ?raw = "\<lparr>destination = destination tx, txValue = ''0x0'', data = data tx\<rparr>"
  have frame: "preserves (\<lambda>(d, _). d = c) (exec_once cl (apiFetch srv) ?act :: (_, 'x, _) io)"
    by (rule preservesI) (auto dest: exec_once_frame)
  have "\<exists>z. (case z of (d, _) \<Rightarrow> d = c) \<and> (exec_once cl (apiFetch srv) ?act :: (_, 'x, _) io) z = (Inr (Ok h), (c', lw'))"
    by (rule retried_from_attempt [OF assms(4) [unfolded exec_def] frame]) (auto intro: keeps)
  then obtain u where attempt: "(exec_once cl (apiFetch srv) ?act :: (_, 'x, _) io) (c, u) = (Inr (Ok h), (c', lw'))"
    by (auto simp: split_beta)
  obtain r u' where "serveSubmit srv (buildRequest (cl c) ?act) u = (r, u')" by (metis surj_pair)
  then have served: "attempt (serveSubmit srv (buildRequest (cl c) ?act)) u = (Inr r :: string + _, u')"
    by (simp add: attempt_def)
  then have fetched: "apiFetch srv (buildRequest (cl c) ?act) u = (Inr (apiReply 201 r), u')"
    by (simp add: apiFetch_submit [OF assms(2)] andThen_def ret_app)
  have "(exec_once cl (apiFetch srv) ?act :: (_, 'x, _) io) (c, u) = (Inr (classify (cl c) ?act (apiReply 201 r)), (c, u'))"
    by (rule exec_once_classify) (rule fetched)
  with attempt have "classify (cl c) ?act (apiReply 201 r) = Ok h" "c' = c" and last: "u' = lw'" by auto
  from apiReply_decodes [OF \<open>classify (cl c) ?act (apiReply 201 r) = Ok h\<close>] obtain body where body: "r = Inr body" "field body ''txHash'' = JStr h" by blast
  with served have run: "serveSubmit srv (buildRequest (cl c) ?act) u = (Inr body, u')"
    by (auto simp: attempt_def split: prod.splits)
  have valid: "validates (srvValidator srv) (SubmitMetaTransactionDto (srvIsAddress srv)) (raw_to_value tx)"
    using run by (rule_tac ccontr) (auto simp: serveSubmit_def Let_def submit_body validated_def runs)
  from run body(2) obtain k where
    "apiSubmitMetaTransaction (srvEnv srv) (srvPort srv) (srvFilter srv) (srvRequestId srv)
       (bearerToken (buildRequest (cl c) ?act)) (destination tx) (data tx) u = (Inr h, k)"
    by (auto simp: serveSubmit_valid [OF valid] runs txHashBody_def field_def)
  then obtain l u0 where u: "u = (l, u0)" and "apiSubmitMetaTransaction (srvEnv srv) (srvPort srv) (srvFilter srv) (srvRequestId srv)
       (bearerToken (buildRequest (cl c) ?act)) (destination tx) (data tx) (l, u0) = (Inr h, k)"
    by (metis surj_pair)
  from submitted_hash [OF this(2) assms(1)] obtain s pl used v v' w1 where
    session: "apVerifyToken (srvPort srv) (bearerToken (buildRequest (cl c) ?act)) = Some pl"
      "recoverSession (apSession (srvPort srv)) pl u0 = (Inr s, w1)"
    and quota: "getActionCount s SubmitMetaTransactionAction = Inr used" "used < aeQuotas (srvEnv srv) SubmitMetaTransactionAction"
    and sent: "submitTransaction (rcTx cfg) (rlNode rp) ?raw
      (Some (requestContext (sessionRequest (srvRequestId srv) s))) v = (Inr (Ok h), v')" by blast
  obtain s' w' where v': "v' = (s', w')" by (metis surj_pair)
  from submitTransaction_attempt [OF sent] obtain t x where
    "submitAttempt (rcTx cfg) (rlNode rp) ?raw (Some (requestContext (sessionRequest (srvRequestId srv) s))) (t, x)
       = (Inr (Ok h), (s', w'))" unfolding v' by auto
  from submitAttempt_Ok [OF this] have "h \<in> set (watchedTransactions s')"
    "\<exists>price n. node_accepted (rlNode rp) (submit_request (rcTx cfg) ?raw price n) h" by auto
  moreover from fetched have "apiFetch srv (buildRequest (cl c) ?act) (l, u0) = (Inr (apiReply 201 r), lw')"
    unfolding u last .
  ultimately show ?thesis using \<open>c' = c\<close> valid session quota sent [unfolded v'] by blast
qed

section \<open>A reply that comes too late\<close>

text \<open>An attempt that fails three times in a row, none of them conclusively, is what the kit reports.\<close>

lemma exec_fails_thrice:
  assumes "\<And>i. i < 3 \<Longrightarrow> (exec_once cl fetch act :: (_, 'x, _) io) (c, st i) = (Inr (Err e), (c, st (Suc i)))"
    and "e \<noteq> Unauthorised" and "\<And>v. e \<noteq> RequestError v"
  shows "(exec cl fetch act :: (_, 'x, _) io) (c, st 0) = (Inr (Err e), (c, st 3))"
proof -
  have three: "nat (tries (client_retry :: ('s \<times> 'w, 'x, fetch_error, string) retry_options) - 1) = Suc (Suc 0)" by simp
  have one: "(exec_once cl fetch act :: (_, 'x, _) io) (c, st 0) = (Inr (Err e), (c, st (Suc 0)))"
    "(exec_once cl fetch act :: (_, 'x, _) io) (c, st (Suc 0)) = (Inr (Err e), (c, st (Suc (Suc 0))))"
    "(exec_once cl fetch act :: (_, 'x, _) io) (c, st (Suc (Suc 0))) = (Inr (Err e), (c, st (Suc (Suc (Suc 0)))))"
    using assms(1) [of 0] assms(1) [of "Suc 0"] assms(1) [of "Suc (Suc 0)"] by simp_all
  show ?thesis
    unfolding exec_def retried_def three
    by (simp add: retry_rest.simps andThen_def one givesUp_client assms(2,3) numeral_3_eq_3 ret_app)
qed

text \<open>The transaction of a request, as the api hands it to a relayer\<close>

definition handedOver :: "raw_transaction \<Rightarrow> raw_transaction" where
  "handedOver tx = \<lparr>destination = destination tx, txValue = ''0x0'', data = data tx\<rparr>"

lemma serveSubmit_timeout:
  assumes "validates (srvValidator srv) (SubmitMetaTransactionDto (srvIsAddress srv)) (raw_to_value tx)"
    and "clientToken c = Some t" and "t \<noteq> []"
    and "submitAdmission (srvEnv srv) (srvPort srv) (srvFilter srv) t (handedOver tx) (l, w) = (Inr (s, cs), (l1, w1))"
    and "\<And>ctx. relaySend (wpRelay (apWallet (srvPort srv))) SubmitTransaction (SubmitTransactionInput (handedOver tx)) ctx w1
           = ((arrival ctx, reply ctx), w2 ctx)"
    and "\<forall>ctx d. arrival ctx = Some d \<longrightarrow> relayerRpcTimeoutMs (aeWallet (srvEnv srv)) \<le> d"
  shows "\<exists>e ctx. serveSubmit srv (buildRequest c (submitMetaTransactionAction cs' tx)) (l, w) = (Inl e, (l1, w2 ctx))
     \<and> apiReply 201 (Inl e) = \<lparr>httpStatus = 500, respJson = Inr (JObj (UNKNOWN_EXCEPTION_BODY unknownExceptionMessage))\<rparr>"
proof -
  let ?e = "ErrorObject (relayer_error_object (RelayerTimeout (relayerCmdValue SubmitTransaction)))"
  let ?ctx = "requestContext (sessionRequest (srvRequestId srv) s)"
  have "serveSubmit srv (buildRequest c (submitMetaTransactionAction cs' tx)) (l, w) = (Inl ?e, (l1, w2 ?ctx))"
    unfolding serveSubmit_valid [OF assms(1)] submit_token [OF assms(2,3)] apiSubmit_split
    using assms(4,5) assms(6)
    by (cases "arrival ?ctx") (simp_all add: handedOver_def andThen_def submitAction_def ext_app
        proxySubmitTransaction_def executeRelay_def throwErr_def throw_def)
  moreover have "apiReply 201 (Inl ?e) =
      \<lparr>httpStatus = 500, respJson = Inr (JObj (UNKNOWN_EXCEPTION_BODY unknownExceptionMessage))\<rparr>"
    by (simp add: apiReply_def unauthorizedException_def badRequestException_def plain_error_def metadata_error_def
        handleUnknownError_def)
  ultimately show ?thesis by blast
qed

text \<open>
  C3. When a relayer takes the transaction but its reply, whatever it says, comes after the timeout or never, the kit
  sends the meta-transaction again: one call hands it to relayers three times, reports that the service is
  unavailable, and none of the three is counted against the quota.
\<close>

theorem late_replies_resubmit:
  fixes look :: "'w \<Rightarrow> session list \<times> raw_transaction list"
  assumes "callbackUrl (cl c) = srvBase srv" and "clientToken (cl c) = Some t" and "t \<noteq> []"
    and "validates (srvValidator srv) (SubmitMetaTransactionDto (srvIsAddress srv)) (raw_to_value tx)"
    and "\<And>l w. fst (look w) = rows \<Longrightarrow> \<exists>s cs l' w'. look w' = look w \<and>
           submitAdmission (srvEnv srv) (srvPort srv) (srvFilter srv) t (handedOver tx) (l, w) = (Inr (s, cs), (l', w'))"
    and "\<And>raw ctx w. \<exists>arrival reply w'. look w' = (fst (look w), snd (look w) @ [raw]) \<and>
           (\<forall>d. arrival = Some d \<longrightarrow> relayerRpcTimeoutMs (aeWallet (srvEnv srv)) \<le> d) \<and>
           relaySend (wpRelay (apWallet (srvPort srv))) SubmitTransaction (SubmitTransactionInput raw) ctx w
           = ((arrival, reply), w')"
    and "look w = (rows, sent)"
  shows "\<exists>l' w'. (exec cl (apiFetch srv) (submitMetaTransactionAction cs tx) :: (_, 'x, _) io) (c, (l, w))
       = (Inr (Err ServiceUnavailable), (c, (l', w')))
     \<and> look w' = (rows, sent @ [handedOver tx, handedOver tx, handedOver tx])"
proof -
  let ?req = "buildRequest (cl c) (submitMetaTransactionAction cs tx)"
  have again: "\<exists>v. (exec_once cl (apiFetch srv) (submitMetaTransactionAction cs tx) :: (_, 'x, _) io) (c, u)
      = (Inr (Err ServiceUnavailable), (c, v)) \<and> look (snd v) = (rows, acc @ [handedOver tx])"
    if "look (snd u) = (rows, acc)" for u acc
  proof -
    obtain k x where u: "u = (k, x)" by (metis surj_pair)
    from that assms(5) [of x k] obtain s cs' k1 x1 where look1: "look x1 = (rows, acc)" and
      admitted: "submitAdmission (srvEnv srv) (srvPort srv) (srvFilter srv) t (handedOver tx) (k, x) = (Inr (s, cs'), (k1, x1))"
      by (auto simp: u)
    from assms(6) [where w = x1 and raw = "handedOver tx"] obtain arrival reply x2 where
      relay: "\<And>ctx. relaySend (wpRelay (apWallet (srvPort srv))) SubmitTransaction (SubmitTransactionInput (handedOver tx)) ctx x1
        = ((arrival ctx, reply ctx), x2 ctx)" and
      late: "\<forall>ctx d. arrival ctx = Some d \<longrightarrow> relayerRpcTimeoutMs (aeWallet (srvEnv srv)) \<le> d" and look2: "\<And>ctx. look (x2 ctx) = (rows, acc @ [handedOver tx])"
      using look1 by (simp only: fst_conv snd_conv) metis
    from serveSubmit_timeout [OF assms(4,2,3) admitted relay late, where cs' = cs] obtain e ctx where
      served: "serveSubmit srv ?req (k, x) = (Inl e, (k1, x2 ctx))" and
      reply: "apiReply 201 (Inl e) = \<lparr>httpStatus = 500, respJson = Inr (JObj (UNKNOWN_EXCEPTION_BODY unknownExceptionMessage))\<rparr>"
      by blast
    have fetched: "apiFetch srv ?req (k, x) = (Inr (apiReply 201 (Inl e)), (k1, x2 ctx))"
      using served by (simp add: apiFetch_submit [OF assms(1)] andThen_def attempt_def ret_app)
    have "(exec_once cl (apiFetch srv) (submitMetaTransactionAction cs tx) :: (_, 'x, _) io) (c, (k, x))
        = (Inr (classify (cl c) (submitMetaTransactionAction cs tx) (apiReply 201 (Inl e))), (c, (k1, x2 ctx)))"
      by (rule exec_once_classify) (rule fetched)
    then show ?thesis using look2 by (auto simp: u reply classify_def)
  qed
  from again [of "(l, w)"] assms(7) obtain v1 where
    1: "(exec_once cl (apiFetch srv) (submitMetaTransactionAction cs tx) :: (_, 'x, _) io) (c, (l, w))
        = (Inr (Err ServiceUnavailable), (c, v1))" "look (snd v1) = (rows, sent @ [handedOver tx])" by auto
  from again [OF 1(2)] obtain v2 where
    2: "(exec_once cl (apiFetch srv) (submitMetaTransactionAction cs tx) :: (_, 'x, _) io) (c, v1)
        = (Inr (Err ServiceUnavailable), (c, v2))" "look (snd v2) = (rows, (sent @ [handedOver tx]) @ [handedOver tx])" by blast
  from again [OF 2(2)] obtain v3 where
    3: "(exec_once cl (apiFetch srv) (submitMetaTransactionAction cs tx) :: (_, 'x, _) io) (c, v2)
        = (Inr (Err ServiceUnavailable), (c, v3))"
      "look (snd v3) = (rows, ((sent @ [handedOver tx]) @ [handedOver tx]) @ [handedOver tx])" by blast
  define st where "st i = (if i = 0 then (l, w) else if i = 1 then v1 else if i = 2 then v2 else v3)" for i :: nat
  have "(exec cl (apiFetch srv) (submitMetaTransactionAction cs tx) :: (_, 'x, _) io) (c, st 0)
      = (Inr (Err ServiceUnavailable), (c, st 3))"
  proof (rule exec_fails_thrice)
    fix i :: nat
    assume "i < 3"
    then consider "i = 0" | "i = 1" | "i = 2" by linarith
    then show "(exec_once cl (apiFetch srv) (submitMetaTransactionAction cs tx) :: (_, 'x, _) io) (c, st i)
        = (Inr (Err ServiceUnavailable), (c, st (Suc i)))"
      by cases (use 1 2 3 in \<open>simp_all add: st_def\<close>)
  qed simp_all
  then have "(exec cl (apiFetch srv) (submitMetaTransactionAction cs tx) :: (_, 'x, _) io) (c, (l, w))
      = (Inr (Err ServiceUnavailable), (c, v3))" by (simp add: st_def)
  with 3(2) show ?thesis by (cases v3) auto
qed

text \<open>
  An api whose sessions, chain and contracts always answer the same, with a relay of one's own
\<close>

definition constantPort :: "'w relay_port \<Rightarrow> ('w, string) wallet_port" where
  "constantPort relay =
     \<lparr>wpChain = \<lparr>getCode = (\<lambda>a. ret ''proxy''), soliditySha3 = (\<lambda>s. Some PROXY_BYTECODE_SHA3),
        ethCall = (\<lambda>a d. ret ''raw''), getImplementationSignature = ''0x42404e07'',
        decodeAddress = (\<lambda>raw. Inr ''0x88a2b9B8387A1823D821E406b4e951337fa1D46D''), getMetaTransactionWallet = ret,
        walletSigner = (\<lambda>m. ret ''0xAcc'')\<rparr>,
      wpSession = \<lparr>repoSave = ret, repoUpdateMeta = (\<lambda>sid m. ret ()), repoFindOne = (\<lambda>sid. ret (Some (rowWith 3))),
        repoFindLast = (\<lambda>a. ret None), repoDelete = (\<lambda>sid. ret ()), uuidv4 = ret ''i'', dateNow = ret 7\<rparr>,
      wpRelay = relay,
      wpParser = \<lparr>ppGetWallet = (\<lambda>a. ret demoWallet),
        ppGetContract = (\<lambda>n. ret \<lparr>wrapperAddress = ''0xEE'', wrapperMethodIds = (\<lambda>m. ''0x33'')\<rparr>)\<rparr>,
      wpDecoder = demoDecoder, wpTransaction = (\<lambda>h. ret None), wpDeployedEvents = (\<lambda>f t. ret []),
      wpDeployTx = (\<lambda>o' i d. \<lparr>destination = ''0xDD'', txValue = ''0x0'', data = d\<rparr>),
      wpEncodeInitialize = (\<lambda>i o'. ''0x44''), wpAttestationFee = (\<lambda>n. ret (n * 5)),
      wpTransferTx = (\<lambda>a fee. \<lparr>destination = a, txValue = ''0x0'', data = ''0x55''\<rparr>)\<rparr>"

definition constantServer :: "'w gateway_port \<Rightarrow> 'w relay_port \<Rightarrow> ('w, string) api_server" where
  "constantServer gw relay =
     \<lparr>srvEnv = demoApiEnv,
      srvPort = \<lparr>apWallet = constantPort relay, apGateway = gw, apVerifyToken = (\<lambda>t. Some (tokenPayload t)), apSign = demoSign\<rparr>,
      srvFilter = buildFilter celo_base_std demoGrants, srvValidator = std_validator (\<lambda>s. True),
      srvIsAddress = (\<lambda>s. True), srvRequestId = ''r'', srvBase = ''url/''\<rparr>"

definition constantTx :: raw_transaction where
  "constantTx = \<lparr>destination = ''0xAB'', txValue = ''0x0'', data = ''0x11''\<rparr>"

definition constantAdmission ::
    "'w gateway_port \<Rightarrow> 'w relay_port \<Rightarrow> ('w, session \<times> transaction_with_metadata list) api_io" where
  "constantAdmission gw relay = submitAdmission demoApiEnv (srvPort (constantServer gw relay))
     (buildFilter celo_base_std demoGrants) ''i'' (handedOver constantTx)"

lemma constant_calm: "calm (constantPort relay) P"
  by (auto simp: calm_def constantPort_def intro!: keeps)

lemma constantAdmission_run: "\<exists>s cs l'. constantAdmission gw relay (l, w) = (Inr (s, cs), (l', w))"
proof -
  have ok: "\<not> isl (fst (constantAdmission gw relay (l, w)))" by code_simp
  obtain r l' w' where run: "constantAdmission gw relay (l, w) = (r, (l', w'))" by (metis surj_pair)
  have "preserves (\<lambda>(l, u). u = w) (constantAdmission gw relay)"
    unfolding constantAdmission_def
    by (rule preserves_submitAdmission) (simp add: constantServer_def constant_calm)
  from preservesD [OF this _ run] have "w' = w" by simp
  with ok run show ?thesis by (cases r) auto
qed

text \<open>A relayer that takes every transaction and answers with a hash, after more than the 10 milliseconds allowed\<close>

definition tardyRelay :: "(session list \<times> raw_transaction list) relay_port" where
  "tardyRelay = \<lparr>relaySend = (\<lambda>cmd input ctx (rows, sent).
     ((Some 99, Inr \<lparr>rrPayload = ''0xHASH'', rrAddress = ''0xREL''\<rparr>), (rows, case input of SubmitTransactionInput raw \<Rightarrow> sent @ [raw] | _ \<Rightarrow> sent)))\<rparr>"

definition constantClient :: client_state where
  "constantClient = \<lparr>clientToken = Some ''i'', callbackUrl = ''url/''\<rparr>"

lemma constantServer_fields:
  "srvEnv (constantServer gw relay) = demoApiEnv" "srvFilter (constantServer gw relay) = buildFilter celo_base_std demoGrants"
  "wpRelay (apWallet (srvPort (constantServer gw relay))) = relay" "srvBase (constantServer gw relay) = ''url/''"
  "srvValidator (constantServer gw relay) = std_validator (\<lambda>s. True)" "srvIsAddress (constantServer gw relay) = (\<lambda>s. True)"
  "srvRequestId (constantServer gw relay) = ''r''"
  by (simp_all add: constantServer_def constantPort_def)

lemma constantTx_valid: "validates (std_validator (\<lambda>s. True)) (SubmitMetaTransactionDto (\<lambda>s. True)) (raw_to_value constantTx)"
  by (simp add: std_validator_def SubmitMetaTransactionDto_def IsCeloAddress_def raw_to_value_def constantTx_def field_def)

lemma late_replies_resubmit_witness:
  "\<forall>gw. \<exists>l' w'. (exec id (apiFetch (constantServer gw tardyRelay)) (submitMetaTransactionAction actionCodecs constantTx)
       :: (_, unit, _) io) (constantClient, ([], ([rowWith 3], [])))
     = (Inr (Err ServiceUnavailable), (constantClient, (l', w')))
   \<and> w' = ([rowWith 3], [handedOver constantTx, handedOver constantTx, handedOver constantTx])"
proof
  fix gw :: "(session list \<times> raw_transaction list) gateway_port"
  let ?srv = "constantServer gw tardyRelay"
  have admitted: "\<exists>s cs l' w'. w' = w \<and> submitAdmission (srvEnv ?srv) (srvPort ?srv) (srvFilter ?srv) ''i''
      (handedOver constantTx) (l, w) = (Inr (s, cs), (l', w'))" for l w
    using constantAdmission_run [of gw tardyRelay l w] by (simp add: constantAdmission_def constantServer_fields)
  have "relayerRpcTimeoutMs (aeWallet (srvEnv ?srv)) = 10"
    by (simp add: constantServer_fields demoApiEnv_def demoEnv_def)
  then have relayed: "\<exists>arrival reply w'. w' = (fst w, snd w @ [raw]) \<and>
      (\<forall>d. arrival = Some d \<longrightarrow> relayerRpcTimeoutMs (aeWallet (srvEnv ?srv)) \<le> d) \<and>
      relaySend (wpRelay (apWallet (srvPort ?srv))) SubmitTransaction (SubmitTransactionInput raw) ctx w = ((arrival, reply), w')"
    for raw ctx w
    by (cases w) (simp add: constantServer_fields tardyRelay_def)
  show "\<exists>l' w'. (exec id (apiFetch ?srv) (submitMetaTransactionAction actionCodecs constantTx)
       :: (_, unit, _) io) (constantClient, ([], ([rowWith 3], [])))
     = (Inr (Err ServiceUnavailable), (constantClient, (l', w')))
   \<and> w' = ([rowWith 3], [handedOver constantTx, handedOver constantTx, handedOver constantTx])"
    using late_replies_resubmit [where cl = id and c = constantClient and srv = ?srv and t = "''i''" and look = "\<lambda>w. w"
        and rows = "[rowWith 3]" and sent = "[]" and tx = constantTx, OF _ _ _ _ admitted relayed refl]
    by (simp add: constantClient_def constantServer_fields constantTx_valid)
qed

text \<open>The demo relayer behind the constant api\<close>

lemma constant_submitAction:
  assumes "getActionCount s SubmitMetaTransactionAction = Inr used"
  shows "\<exists>x. submitAction demoApiEnv (srvPort (constantServer gw (relayerOverTcp demoRelayerConfig demoRelayer (Some 3))))
      ''r'' tx s cs (l, (demoService, ([], 5))) = (Inr ''0x0'', x)"
proof -
  let ?relay = "relayerOverTcp demoRelayerConfig demoRelayer (Some 3)"
  let ?ctx = "requestContext (sessionRequest ''r'' s)"
  obtain s' w' where "submitTransaction (rcTx demoRelayerConfig) (rlNode demoRelayer) tx (Some ?ctx) (demoService, ([], 5))
      = (Inr (Ok ''0x0''), (s', w'))"
    using run_of_fst [OF demo_submitTransaction] by (simp add: demoRelayerConfig_def demoRelayer_def) blast
  from filtered_submission [OF this] have sent:
    "proxySubmitTransaction ?relay 10 (sessionRequest ''r'' s) tx (demoService, ([], 5))
       = (Inr (Ok (wrapResponse demoRelayerConfig ''0x0'')), (s', w'))"
    by (simp add: proxySubmitTransaction_def executeRelay_def relayerOverTcp_def relayerHandle_def)
  have quiet: "never_throws (logMetaTransaction demoApiEnv resp tx cs s)" for resp
    unfolding logMetaTransaction_def logEv_def by (intro no_throw)
  have "never_throws (incrementUsage (apSession (srvPort (constantServer gw ?relay))) s SubmitMetaTransactionAction 1)"
    using assms by (simp add: incrementUsage_def updateSession_def apSession_def constantServer_def constantPort_def never_throws_ret)
  with quiet have "never_throws (andThen (logMetaTransaction demoApiEnv (wrapResponse demoRelayerConfig ''0x0'') tx cs s) (\<lambda>_.
      andThen (ext (incrementUsage (apSession (srvPort (constantServer gw ?relay))) s SubmitMetaTransactionAction 1)) (\<lambda>_.
      ret ''0x0'')))" by (intro no_throw)
  then obtain h x where "andThen (logMetaTransaction demoApiEnv (wrapResponse demoRelayerConfig ''0x0'') tx cs s) (\<lambda>_.
      andThen (ext (incrementUsage (apSession (srvPort (constantServer gw ?relay))) s SubmitMetaTransactionAction 1)) (\<lambda>_.
      ret ''0x0'')) (l, (s', w')) = (Inr h, x)" by (rule never_throwsE)
  moreover from this have "h = ''0x0''" by (auto simp: runs)
  moreover have "relayerRpcTimeoutMs (aeWallet demoApiEnv) = 10" by (simp add: demoApiEnv_def demoEnv_def)
  moreover have "rrPayload (wrapResponse demoRelayerConfig ''0x0'') = ''0x0''" by (simp add: wrapResponse_def)
  ultimately show ?thesis
    using sent
    by (intro exI [of _ x]) (simp add: submitAction_def andThen_app_Inr ext_eq_iff ext_app throwErr_def constantServer_fields)
qed

lemma admitted_count:
  "submitAdmission env p dflt t tx (l, w) = (Inr (s, cs), (l', w')) \<Longrightarrow>
   \<exists>used. getActionCount s SubmitMetaTransactionAction = Inr used"
  by (drule submitAdmission_Inr, elim exE conjE, rule exI, assumption)

lemma kit_hash_was_accepted_witness:
  "\<forall>gw. \<exists>x. (exec id (apiFetch (constantServer gw (relayerOverTcp demoRelayerConfig demoRelayer (Some 3))))
        (submitMetaTransactionAction actionCodecs constantTx) :: (_, unit, _) io) (constantClient, ([], (demoService, ([], 5))))
      = (Inr (Ok ''0x0''), (constantClient, x))
    \<and> (\<exists>price n. node_accepted (rlNode demoRelayer) (submit_request demoTxConfig (handedOver constantTx) price n) ''0x0'')"
proof
  fix gw :: "(tx_service \<times> send_request list \<times> int) gateway_port"
  let ?relay = "relayerOverTcp demoRelayerConfig demoRelayer (Some 3)"
  let ?srv = "constantServer gw ?relay" and ?act = "submitMetaTransactionAction actionCodecs constantTx"
  from constantAdmission_run [of gw ?relay "[]" "(demoService, ([], 5))"] obtain s cs l' where
    admitted: "submitAdmission demoApiEnv (srvPort ?srv) (buildFilter celo_base_std demoGrants) ''i'' (handedOver constantTx)
      ([], (demoService, ([], 5))) = (Inr (s, cs), (l', (demoService, ([], 5))))"
    unfolding constantAdmission_def by blast
  obtain used where "getActionCount s SubmitMetaTransactionAction = Inr used"
    using admitted_count [OF admitted] ..
  from constant_submitAction [OF this] obtain x where
    acted: "submitAction demoApiEnv (srvPort ?srv) ''r'' (handedOver constantTx) s cs (l', (demoService, ([], 5))) = (Inr ''0x0'', x)"
    by blast
  have token: "bearerToken (buildRequest constantClient ?act) = ''i''" by (rule submit_token) (simp_all add: constantClient_def)
  have "serveSubmit ?srv (buildRequest constantClient ?act) ([], (demoService, ([], 5))) = (Inr (txHashBody ''0x0''), x)"
    using admitted acted
    by (simp add: serveSubmit_valid constantServer_fields constantTx_valid token apiSubmit_split andThen_def ret_app handedOver_def)
  then have fetched: "apiFetch ?srv (buildRequest constantClient ?act) ([], (demoService, ([], 5)))
      = (Inr (apiReply 201 (Inr (txHashBody ''0x0''))), x)"
    by (simp add: apiFetch_submit constantClient_def constantServer_fields andThen_def attempt_def ret_app)
  have "(exec_once id (apiFetch ?srv) ?act :: (_, unit, _) io) (constantClient, ([], (demoService, ([], 5))))
      = (Inr (classify (id constantClient) ?act (apiReply 201 (Inr (txHashBody ''0x0'')))), (constantClient, x))"
    by (rule exec_once_classify) (simp add: fetched)
  then have once: "(exec_once id (apiFetch ?srv) ?act :: (_, unit, _) io) (constantClient, ([], (demoService, ([], 5))))
      = (Inr (Ok ''0x0''), (constantClient, x))"
    by (simp add: classify_def apiReply_def txHashBody_def submitMetaTransactionAction_def actionCodecs_def asString_def field_def)
  have run: "(exec id (apiFetch ?srv) ?act :: (_, unit, _) io)
      (constantClient, ([], (demoService, ([], 5)))) = (Inr (Ok ''0x0''), (constantClient, x))"
    unfolding exec_def by (rule retried_first_Ok) (rule once)
  have "rcTx demoRelayerConfig = demoTxConfig" by (simp add: demoRelayerConfig_def)
  moreover have "wpRelay (apWallet (srvPort ?srv)) = ?relay" "callbackUrl (id constantClient) = srvBase ?srv"
    "class_validator_documented (srvValidator ?srv)"
    by (simp_all add: constantServer_fields constantClient_def std_validator_documented)
  note kit_hash_was_accepted [OF this run]
  ultimately have "\<exists>price n. node_accepted (rlNode demoRelayer) (submit_request demoTxConfig (handedOver constantTx) price n) ''0x0''"
    unfolding handedOver_def by auto
  with run show "\<exists>x. (exec id (apiFetch ?srv) ?act :: (_, unit, _) io) (constantClient, ([], (demoService, ([], 5))))
      = (Inr (Ok ''0x0''), (constantClient, x))
    \<and> (\<exists>price n. node_accepted (rlNode demoRelayer) (submit_request demoTxConfig (handedOver constantTx) price n) ''0x0'')"
    by blast
qed

end
