(* ===== verification/Session_Flow.thy ===== *)
theory Session_Flow
  imports Kit_Over_Api
begin

text \<open>
  The endpoints of the api that are throttled, \<open>ready\<close> and \<open>startSession\<close> (\<open>app.controller.ts\<close>), with the
  others as the kit's \<open>fetch\<close> reaches them, and a session from its start by the kit to the guard of the
  requests that use it: the validation of the body, the throttler, the gateway, the row of the session, the
  token in the kit's client and back.
\<close>

section \<open>The throttled endpoints\<close>

text \<open>
  An api with the throttler in front of it: its storage and options, what it reads of the kit's connection, and
  the limit. A valid body may hold tokens that are not strings, against the types of \<open>StartSessionDto\<close>:
  what becomes of such a request is a parameter.
\<close>

record ('w, 'm) throttled_server =
  tsServer :: "('w, 'm) api_server"
  tsThrottler :: "'w throttler_port"
  tsConfig :: throttler_config
  tsConnection :: throttled_request
  tsLimit :: int
  tsTtl :: int
  tsUntyped :: "fetch_request \<Rightarrow> ('w, js_value) api_io"

text \<open>The headers are set on a response of their own; no client of the api here reads them.\<close>

definition withHeaders :: "(headers \<times> 'w, thrown, 'a) io \<Rightarrow> ('w, 'a) api_io" where
  "withHeaders m = (\<lambda>(l, w). case m ([], w) of (r, (h, w')) \<Rightarrow> (r, (l, w')))"

definition throttled :: "('w, 'm) throttled_server \<Rightarrow> throttle_options \<Rightarrow> ('w, bool) api_io" where
  "throttled ts opts = withHeaders
     (throttlerGuard (tsConfig ts) (tsThrottler ts) opts (tsConnection ts) (tsLimit ts) (tsTtl ts))"

definition readyBody :: "string \<Rightarrow> js_value" where
  "readyBody status = JObj [(''status'', JStr status)]"

text \<open>The body as the handler takes it (\<open>StartSessionDto\<close>); only two types of device are told apart.\<close>

definition startSessionView :: "js_value \<Rightarrow> start_session_dto option" where
  "startSessionView body =
     (case (field body ''captchaResponseToken'', field body ''externalAccount'', field body ''signature'',
            asOptionalString (field body ''iosDeviceToken''), asOptionalString (field body ''androidSignedAttestation'')) of
        (JStr captcha, JStr account, JStr signature, Some ios, Some android) \<Rightarrow>
          Some \<lparr>captchaResponseToken = captcha, startAccount = account, startSignature = signature,
                deviceType = (if field body ''deviceType'' = JStr ''ios'' then Some IOS
                              else if field body ''deviceType'' = JStr ''android'' then Some Android else None),
                iosDeviceToken = ios, androidSignedAttestation = android\<rparr>
      | _ \<Rightarrow> None)"

definition serveReady :: "('w, 'm) throttled_server \<Rightarrow> fetch_request \<Rightarrow> ('w, js_value) api_io" where
  "serveReady ts req =
     andThen (withHeaders (apiReady (tsConfig ts) (tsThrottler ts) (tsConnection ts) (tsLimit ts) (tsTtl ts)))
       (\<lambda>status. ret (readyBody status))"

definition serveStartSession :: "('w, 'm) throttled_server \<Rightarrow> fetch_request \<Rightarrow> ('w, js_value) api_io" where
  "serveStartSession ts req =
     (let srv = tsServer ts; body = requestBody req in
      andThen (throttled ts startSessionThrottle) (\<lambda>_.
      if \<not> validates (srvValidator srv) (StartSessionDto (srvIsAddress srv)) body then throw badRequestException
      else (case startSessionView body of
              None \<Rightarrow> tsUntyped ts req
            | Some dto \<Rightarrow> andThen (apiStartSession (srvEnv srv) (srvPort srv) dto) (\<lambda>r. ret (startSessionBody r)))))"

definition throttledRoutes ::
    "('w, 'm) throttled_server \<Rightarrow> ((request_method \<times> string) \<times> (fetch_request \<Rightarrow> ('w, js_value) api_io)) list" where
  "throttledRoutes ts =
     [((GET, ''v1/ready''), serveReady ts),
      ((POST, ''v1/startSession''), serveStartSession ts)]"

definition throttledReply :: "int \<Rightarrow> thrown + js_value \<Rightarrow> fetch_response" where
  "throttledReply status r =
     (if r = Inl throttlerException then \<lparr>httpStatus = 429, respJson = Inr (JObj [(''statusCode'', JNum 429)])\<rparr>
      else apiReply status r)"

text \<open>All of the api\<close>

definition apiFetchAll :: "('w, 'm) throttled_server \<Rightarrow> (log_entry list \<times> 'w) fetch" where
  "apiFetchAll ts req =
     (case map_of (throttledRoutes ts) (reqMethod req, drop (length (srvBase (tsServer ts))) (reqUrl req)) of
        None \<Rightarrow> apiFetch (tsServer ts) req
      | Some serve \<Rightarrow>
          andThen (attempt (serve req)) (\<lambda>r. ret (throttledReply (if reqMethod req = GET then 200 else 201) r)))"

lemma apiFetchAll_start:
  assumes "callbackUrl c = srvBase (tsServer ts)"
  shows "apiFetchAll ts (buildRequest c (startSessionAction cs captcha account sig)) =
     andThen (attempt (serveStartSession ts (buildRequest c (startSessionAction cs captcha account sig))))
       (\<lambda>r. ret (throttledReply 201 r))"
  using assms by (simp add: apiFetchAll_def buildRequest_def startSessionAction_def throttledRoutes_def)

text \<open>The body the kit sends, as the handler takes it\<close>

definition kitStartDto :: "string \<Rightarrow> string \<Rightarrow> string \<Rightarrow> start_session_dto" where
  "kitStartDto captcha account sig =
     \<lparr>captchaResponseToken = captcha, startAccount = account, startSignature = sig,
      deviceType = None, iosDeviceToken = None, androidSignedAttestation = None\<rparr>"

lemma startSessionView_kit:
  "startSessionView (requestBody (buildRequest c (startSessionAction cs captcha account sig))) =
     Some (kitStartDto captcha account sig)"
  by (simp add: requestBody_def buildRequest_def startSessionAction_def startSessionView_def kitStartDto_def
      field_def asOptionalString_def)

section \<open>Too many requests\<close>





section \<open>The rows of the sessions\<close>

text \<open>What every row the service wrote satisfies, and what keeps it\<close>

definition sound_rows :: "celo_base \<Rightarrow> session list \<Rightarrow> bool" where
  "sound_rows cb rows \<longleftrightarrow> countable_rows rows \<and> accounts_normalized cb rows \<and> distinct (map sessionId rows)"

definition usable :: "(tracked_action \<Rightarrow> rat) \<Rightarrow> session \<Rightarrow> bool" where
  "usable quotas s \<longleftrightarrow> (\<forall>a. \<exists>used. getActionCount s a = Inr used \<and> used < quotas a)"

lemma usable_guard: "usable (aeQuotas env) s \<Longrightarrow> quotaGuard env a s w = (Inr True, w)"
proof -
  assume "usable (aeQuotas env) s"
  then obtain used where "getActionCount s a = Inr used" "used < aeQuotas env a" unfolding usable_def by blast
  then have "canActivate (aeQuotas env) (Some a) s = Inr True" by (simp add: canActivate_iff)
  then show ?thesis by (simp add: quotaGuard_def ret_app)
qed

lemma authStart_run:
  assumes "stores_in p tbl" and "celo_base_documented cb" and "sound_rows cb (tbl w)" and "\<forall>a. 0 < quotas a"
  shows "\<exists>s w'. authStartSession cb quotas sign p account w
         = (Inr (sessionId s, sign (tokenPayload (sessionId s))), w')
     \<and> sessionAccount s = normalizeAddress cb account \<and> usable quotas s
     \<and> find (\<lambda>r. sessionId r = sessionId s) (tbl w') = Some s \<and> sound_rows cb (tbl w')"
proof -
  from assms(3) have rows: "countable_rows (tbl w)" "accounts_normalized cb (tbl w)" "distinct (map sessionId (tbl w))"
    by (auto simp: sound_rows_def)
  from findOrCreate_session [OF assms(1,2) rows(1,2), of quotas account] assms(4) obtain s w' where
    run: "findOrCreateForAccount cb quotas p account w = (Inr s, w')" and
    s: "sessionAccount s = normalizeAddress cb account" "usable quotas s" "s \<in> set (tbl w')"
       "accounts_normalized cb (tbl w')" "countable_rows (tbl w')"
    unfolding usable_def by blast
  from findOrCreate_run [OF assms(1) rows(1), of cb quotas account] run
  have "tbl w' = tbl w \<or> tbl w' = s # filter (\<lambda>r. sessionId r \<noteq> sessionId s) (tbl w)" by auto
  with rows(3) have "distinct (map sessionId (tbl w'))" by (auto simp: distinct_map_filter)
  with s run find_key [OF this s(3)] show ?thesis
    by (intro exI [of _ s] exI [of _ w']) (simp add: authStartSession_def andThen_def ret_app sound_rows_def)
qed

text \<open>The ports in front of the sessions write nothing of what \<open>P\<close> is about.\<close>

definition undisturbed :: "('w, 'm) throttled_server \<Rightarrow> ('w \<Rightarrow> bool) \<Rightarrow> bool" where
  "undisturbed ts P \<longleftrightarrow>
     (\<forall>k. preserves P (getRecord (tsThrottler ts) k)) \<and> (\<forall>k ttl. preserves P (addRecord (tsThrottler ts) k ttl)) \<and>
     preserves P (throttleNow (tsThrottler ts)) \<and>
     (\<forall>t. preserves P (gpCaptcha (apGateway (srvPort (tsServer ts))) t)) \<and>
     (\<forall>a. preserves P (gpSafetyNet (apGateway (srvPort (tsServer ts))) a)) \<and>
     (\<forall>t. preserves P (gpDeviceCheck (apGateway (srvPort (tsServer ts))) t))"

lemma preserves_withHeaders: "preserves (\<lambda>(h, w). P w) m \<Longrightarrow> preserves (\<lambda>(l, w). P w) (withHeaders m)"
  by (fastforce simp: withHeaders_def split: prod.splits intro: preservesI dest: preservesD)

lemma preserves_throttled:
  assumes "undisturbed ts P"
  shows "preserves (\<lambda>(l, w). P w) (throttled ts opts)"
  unfolding throttled_def throttlerGuard_def handleRequest_def setHeader_def Let_def
  using assms by (intro preserves_withHeaders keeps preserves_ext_world) (auto simp: undisturbed_def)

lemma preserves_ruleVerify:
  assumes "undisturbed ts P"
  shows "preserves P (ruleVerify cb cfg (apGateway (srvPort (tsServer ts))) dto r)"
  using assms
  by (cases r)
    (auto simp: undisturbed_def dailyCapRule_def captchaRule_def verifyCaptcha_def deviceAttestationRule_def
      safetyNetVerify_def deviceCheckVerify_def signatureRule_def Let_def intro!: keeps
      split: option.split device_type.split)

lemma preserves_gatewayVerify:
  assumes "undisturbed ts P"
  shows "preserves (\<lambda>(l, w). P w) (gatewayVerify cb cfg (apGateway (srvPort (tsServer ts))) dto)"
proof -
  have "preserves (\<lambda>(l, w). P w) (logResults account rs failing)" for account rs failing
    by (rule preservesI) (auto simp: logResults_run)
  moreover have "preserves P (promiseAll (map (ruleVerify cb cfg (apGateway (srvPort (tsServer ts))) dto) (enabledRules cfg)))"
    by (rule preserves_promiseAll) (auto intro: preserves_ruleVerify [OF assms])
  ultimately show ?thesis
    unfolding gatewayVerify_def by (intro preserves_andThen preserves_ret preserves_ext_world)
qed

section \<open>From the start of a session to its use\<close>

lemma preserves_apiStartSession:
  fixes ts :: "('w, 'm) throttled_server"
  defines "srv \<equiv> tsServer ts"
  defines "cb \<equiv> weBase (aeWallet (srvEnv srv))"
  assumes "undisturbed ts (\<lambda>w. sound_rows cb (tbl w))" and "stores_in (apSession (srvPort srv)) tbl"
    and "celo_base_documented cb" and "\<forall>a. 0 < aeQuotas (srvEnv srv) a"
  shows "preserves (\<lambda>(l, w). sound_rows cb (tbl w)) (apiStartSession (srvEnv srv) (srvPort srv) dto)"
proof -
  have auth: "preserves (\<lambda>w. sound_rows cb (tbl w))
      (authStartSession cb (aeQuotas (srvEnv srv)) (apSign (srvPort srv)) (apSession (srvPort srv)) (startAccount dto))"
  proof (rule preservesI)
    fix w r w'
    assume "sound_rows cb (tbl w)"
      "authStartSession cb (aeQuotas (srvEnv srv)) (apSign (srvPort srv)) (apSession (srvPort srv)) (startAccount dto) w = (r, w')"
    with authStart_run [OF assms(4,5) this(1) assms(6), of "apSign (srvPort srv)" "startAccount dto"]
    show "sound_rows cb (tbl w')" by auto
  qed
  have gateway: "preserves (\<lambda>(l, w). sound_rows cb (tbl w)) (gatewayVerify cb (aeRules (srvEnv srv)) (apGateway (srvPort srv)) dto)"
    unfolding srv_def by (rule preserves_gatewayVerify) (use assms(3) in simp)
  show ?thesis
    unfolding apiStartSession_def logEv_def cb_def [symmetric]
    by (intro preserves_andThen preserves_if gateway preserves_ext_world auth) (auto intro!: keeps)
qed

text \<open>
  What is assumed of an api for its sessions: the repository stores in a table, the ports in front of it do not
  write that table, every quota is positive, and the JWT library reads back what it signed.
\<close>

definition session_server :: "('w, 'm) throttled_server \<Rightarrow> ('w \<Rightarrow> session list) \<Rightarrow> bool" where
  "session_server ts tbl \<longleftrightarrow>
     (let srv = tsServer ts; p = srvPort srv in
      stores_in (apSession p) tbl \<and> celo_base_documented (weBase (aeWallet (srvEnv srv)))
      \<and> (\<forall>rows. undisturbed ts (\<lambda>w. tbl w = rows))
      \<and> (\<forall>a. 0 < aeQuotas (srvEnv srv) a)
      \<and> (\<forall>sid. apVerifyToken p (apSign p (tokenPayload sid)) = Some (tokenPayload sid)
             \<and> apSign p (tokenPayload sid) \<noteq> []))"

lemma preserves_value: "(\<And>x. preserves (\<lambda>w. f w = x) m) \<Longrightarrow> preserves (\<lambda>w. P (f w)) m"
  by (rule preservesI) (metis (mono_tags, lifting) preservesD)

lemma undisturbed_value: "(\<forall>x. undisturbed ts (\<lambda>w. f w = x)) \<Longrightarrow> undisturbed ts (\<lambda>w. P (f w))"
  unfolding undisturbed_def by (simp add: preserves_value [of f _ P])

lemma session_serverD:
  assumes "session_server ts tbl"
  shows "stores_in (apSession (srvPort (tsServer ts))) tbl"
    and "celo_base_documented (weBase (aeWallet (srvEnv (tsServer ts))))"
    and "undisturbed ts (\<lambda>w. P (tbl w))" and "\<forall>a. 0 < aeQuotas (srvEnv (tsServer ts)) a"
    and "apVerifyToken (srvPort (tsServer ts)) (apSign (srvPort (tsServer ts)) (tokenPayload sid)) = Some (tokenPayload sid)"
    and "apSign (srvPort (tsServer ts)) (tokenPayload sid) \<noteq> []"
  using assms undisturbed_value [of ts tbl P] by (auto simp: session_server_def Let_def)

lemma preserves_serveStartSession:
  assumes "session_server ts tbl" and "startSessionView (requestBody req) = Some dto"
  shows "preserves (\<lambda>(l, w). sound_rows (weBase (aeWallet (srvEnv (tsServer ts)))) (tbl w)) (serveStartSession ts req)"
proof -
  let ?cb = "weBase (aeWallet (srvEnv (tsServer ts)))"
  let ?sound = "\<lambda>(l :: log_entry list, w). sound_rows ?cb (tbl w)"
  note server = session_serverD [OF assms(1)]
  have calm: "undisturbed ts (\<lambda>w. sound_rows ?cb (tbl w))"
    using server(3) [where P = "sound_rows ?cb"] .
  have 1: "preserves ?sound (throttled ts startSessionThrottle)"
    by (rule preserves_throttled [OF calm])
  have 2: "preserves ?sound (apiStartSession (srvEnv (tsServer ts)) (srvPort (tsServer ts)) dto)"
    by (rule preserves_apiStartSession [OF calm server(1,2,4)])
  have 3: "preserves ?sound (andThen (apiStartSession (srvEnv (tsServer ts)) (srvPort (tsServer ts)) dto)
      (\<lambda>r. ret (startSessionBody r)))"
    by (rule preserves_andThen [OF 2 preserves_ret])
  have 4: "preserves ?sound (if \<not> b then throw badRequestException
      else andThen (apiStartSession (srvEnv (tsServer ts)) (srvPort (tsServer ts)) dto) (\<lambda>r. ret (startSessionBody r)))" for b
    by (rule preserves_if [OF preserves_throw 3])
  show ?thesis
    unfolding serveStartSession_def Let_def assms(2) option.case by (rule preserves_andThen [OF 1 4])
qed

lemma decode_tokenPayload: "decodeTokenPayload (tokenPayload sid) = Some sid"
  by (simp add: decodeTokenPayload_def tokenPayload_def)

text \<open>The session a row stands for is the one its token is recovered to.\<close>

lemma authGuard_row:
  assumes "session_server ts tbl" and "find (\<lambda>r. sessionId r = sessionId s) (tbl w) = Some s"
  shows "\<exists>x. authGuard (srvPort (tsServer ts)) (apSign (srvPort (tsServer ts)) (tokenPayload (sessionId s))) (l, w) = (Inr s, (l, x))
     \<and> tbl x = tbl w"
proof -
  obtain x where "repoFindOne (apSession (srvPort (tsServer ts))) (sessionId s) w = (Inr (Some s), x)" "tbl x = tbl w"
    using stores_inD(3) [OF session_serverD(1) [OF assms(1)], of "sessionId s" w] assms(2) by auto
  then show ?thesis
    by (simp add: authGuard_def session_serverD(5) [OF assms(1)] recoverSession_def decode_tokenPayload
        findOneSession_def ext_app andThen_def ret_app)
qed

lemma started_attempt:
  assumes "session_server ts tbl" and "startSessionView (requestBody req) = Some dto"
    and "sound_rows (weBase (aeWallet (srvEnv (tsServer ts)))) (tbl w)"
    and "serveStartSession ts req (l, w) = (Inr body, (l', w'))"
  shows "\<exists>s v v'. body = startSessionBody
        (apSign (srvPort (tsServer ts)) (tokenPayload (sessionId s)), aeCallbackUrl (srvEnv (tsServer ts)))
     \<and> gatewayVerify (weBase (aeWallet (srvEnv (tsServer ts)))) (aeRules (srvEnv (tsServer ts)))
         (apGateway (srvPort (tsServer ts))) dto v = (Inr True, v')
     \<and> sessionAccount s = normalizeAddress (weBase (aeWallet (srvEnv (tsServer ts)))) (startAccount dto)
     \<and> usable (aeQuotas (srvEnv (tsServer ts))) s
     \<and> find (\<lambda>r. sessionId r = sessionId s) (tbl w') = Some s"
proof -
  let ?srv = "tsServer ts"
  let ?cb = "weBase (aeWallet (srvEnv ?srv))" and ?p = "srvPort ?srv"
  note server = session_serverD [OF assms(1)]
  let ?sound = "\<lambda>(l, w). sound_rows ?cb (tbl w)"
  from assms(4) obtain b l1 w1 r where
    passed: "throttled ts startSessionThrottle (l, w) = (Inr b, (l1, w1))" and
    started: "apiStartSession (srvEnv ?srv) ?p dto (l1, w1) = (Inr r, (l', w'))" and body: "body = startSessionBody r"
    by (auto simp: serveStartSession_def Let_def assms(2) runs)
  have w1: "sound_rows ?cb (tbl w1)"
    using preservesD [OF preserves_throttled [OF server(3)] _ passed, of "sound_rows ?cb"] assms(3) by simp
  from started obtain l2 w2 sid t where
    gate: "gatewayVerify ?cb (aeRules (srvEnv ?srv)) (apGateway ?p) dto (l1, w1) = (Inr True, (l2, w2))" and
    auth: "authStartSession ?cb (aeQuotas (srvEnv ?srv)) (apSign ?p) (apSession ?p) (startAccount dto) w2 = (Inr (sid, t), w')" and
    r: "r = (t, aeCallbackUrl (srvEnv ?srv))"
    by (auto simp: apiStartSession_def runs logEv_def split: if_splits)
  have "sound_rows ?cb (tbl w2)"
    using preservesD [OF preserves_gatewayVerify [OF server(3)] _ gate, of "sound_rows ?cb"] w1 by simp
  from authStart_run [OF server(1,2) this server(4), of "apSign ?p" "startAccount dto"] auth obtain s where
    "sid = sessionId s" "t = apSign ?p (tokenPayload (sessionId s))"
    "sessionAccount s = normalizeAddress ?cb (startAccount dto)" "usable (aeQuotas (srvEnv ?srv)) s"
    "find (\<lambda>r. sessionId r = sessionId s) (tbl w') = Some s" by auto
  with gate body r show ?thesis by blast
qed

lemma apiReply_started:
  assumes "classify c (startSessionAction actionCodecs captcha account sig) (throttledReply 201 r) = Ok resp"
  shows "\<exists>body. r = Inr body \<and> decodeStartSession body = Some resp"
proof (cases r)
  case (Inl e)
  have "StartSessionResp actionCodecs (JObj (toJSON err)) = None" for err
    by (simp add: actionCodecs_def decodeStartSession_def asString_def field_def toJSON_def)
  moreover have "StartSessionResp actionCodecs (JObj (UNKNOWN_EXCEPTION_BODY m)) = None" for m
    by (simp add: actionCodecs_def decodeStartSession_def asString_def field_def UNKNOWN_EXCEPTION_BODY_def)
  ultimately show ?thesis
    using assms Inl
    by (auto simp: throttledReply_def apiReply_def classify_def Let_def handleUnknownError_def startSessionAction_def
        split: if_splits thrown.splits error_class.splits)
next
  case (Inr body)
  with assms show ?thesis
    by (auto simp: throttledReply_def apiReply_def classify_def Let_def startSessionAction_def actionCodecs_def
        split: option.splits)
qed

lemma exec_once_fetched:
  "exec_once cl fetch act (s, w) = (r, (s', w')) \<Longrightarrow> \<exists>resp. fetch (buildRequest (cl s) act) w = (resp, w')"
  by (auto simp: exec_once_def io_defs handleResponse_def split: prod.splits sum.splits if_splits option.splits)

lemma start_attempt_fetch:
  assumes "callbackUrl c = srvBase (tsServer ts)"
    and "apiFetchAll ts (buildRequest c (startSessionAction cs captcha account sig)) u = (resp, u')"
  shows "\<exists>r. serveStartSession ts (buildRequest c (startSessionAction cs captcha account sig)) u = (r, u')
     \<and> resp = Inr (throttledReply 201 r)"
  using assms(2) unfolding apiFetchAll_start [OF assms(1)]
  by (auto simp: andThen_def attempt_def ret_app split: prod.splits)

text \<open>The attempt of the kit that got the session\<close>

lemma start_exec_attempt:
  fixes cl :: "'s \<Rightarrow> client_state"
  assumes "session_server ts tbl" and "callbackUrl (cl c) = srvBase (tsServer ts)"
    and "sound_rows (weBase (aeWallet (srvEnv (tsServer ts)))) (tbl w)"
    and "(exec cl (apiFetchAll ts) (startSessionAction actionCodecs captcha account sig) :: (_, 'x, _) io) (c, (l, w))
       = (Inr (Ok resp), (c', (l', w')))"
  shows "\<exists>k u body. serveStartSession ts (buildRequest (cl c) (startSessionAction actionCodecs captcha account sig)) (k, u)
       = (Inr body, (l', w'))
     \<and> decodeStartSession body = Some resp \<and> sound_rows (weBase (aeWallet (srvEnv (tsServer ts)))) (tbl u)"
proof -
  let ?act = "startSessionAction actionCodecs captcha account sig" and ?cb = "weBase (aeWallet (srvEnv (tsServer ts)))"
  let ?P = "\<lambda>(d, (k :: log_entry list, u)). d = c \<and> sound_rows ?cb (tbl u)"
  have keeps: "preserves ?P (exec_once cl (apiFetchAll ts) ?act :: (_, 'x, _) io)"
  proof (rule preservesI)
    fix z r z'
    assume P: "?P z" and run: "(exec_once cl (apiFetchAll ts) ?act :: (_, 'x, _) io) z = (r, z')"
    obtain k u where z: "z = (c, (k, u))" using P by (cases z) auto
    obtain d k' u' where z': "z' = (d, (k', u'))" by (metis surj_pair)
    from exec_once_fetched [OF run [unfolded z z']] obtain resp where
      "apiFetchAll ts (buildRequest (cl c) ?act) (k, u) = (resp, (k', u'))" by blast
    from start_attempt_fetch [OF assms(2) this] obtain r' where
      "serveStartSession ts (buildRequest (cl c) ?act) (k, u) = (r', (k', u'))" by blast
    from preservesD [OF preserves_serveStartSession [OF assms(1) startSessionView_kit] _ this] P z
    have "sound_rows ?cb (tbl u')" by simp
    with exec_once_frame [OF run [unfolded z z']] z' show "?P z'" by simp
  qed
  have "\<exists>z. ?P z \<and> (exec_once cl (apiFetchAll ts) ?act :: (_, 'x, _) io) z = (Inr (Ok resp), (c', (l', w')))"
    by (rule retried_from_attempt [OF assms(4) [unfolded exec_def] keeps]) (use assms(3) in \<open>simp_all add: preserves_ret\<close>)
  then obtain k u where sound: "sound_rows ?cb (tbl u)" and
    attempt: "(exec_once cl (apiFetchAll ts) ?act :: (_, 'x, _) io) (c, (k, u)) = (Inr (Ok resp), (c', (l', w')))"
    by auto
  from exec_once_fetched [OF attempt] obtain reply where
    fetched: "apiFetchAll ts (buildRequest (cl c) ?act) (k, u) = (reply, (l', w'))" by blast
  from start_attempt_fetch [OF assms(2) this] obtain r where
    served: "serveStartSession ts (buildRequest (cl c) ?act) (k, u) = (r, (l', w'))" "reply = Inr (throttledReply 201 r)"
    by blast
  have "(exec_once cl (apiFetchAll ts) ?act :: (_, 'x, _) io) (c, (k, u))
      = (Inr (classify (cl c) ?act (throttledReply 201 r)), (c, (l', w')))"
    by (rule exec_once_classify) (use fetched served(2) in simp)
  with attempt have "classify (cl c) ?act (throttledReply 201 r) = Ok resp" by auto
  from apiReply_started [OF this] served(1) sound show ?thesis by blast
qed

lemma login_keeps_rows:
  assumes "\<And>a d rows. preserves (\<lambda>(l, w). tbl w = rows) (signTypedData p a d)"
    and "getLoginSignature p captcha (s, (l, w)) = (r, (s', (l', w')))"
  shows "tbl w' = tbl w"
proof -
  have sign: "preserves (\<lambda>(s, (l, v)). tbl v = tbl w) (ext (signTypedData p a d))" for a d
    using assms(1) by (auto simp: preserves_def ext_app)
  have "preserves (\<lambda>(_, (_, v)). tbl v = tbl w) (getLoginSignature p captcha)"
    unfolding getLoginSignature_def by (intro preserves_catching preserves_andThen preserves_getS preserves_ret sign)
  from preservesD [OF this _ assms(2)] show ?thesis by simp
qed

text \<open>The guards of every endpoint let the token of a usable row through, and leave the table.\<close>

lemma row_passes_guards:
  assumes "session_server ts tbl" and "find (\<lambda>x. sessionId x = sessionId row) (tbl w) = Some row"
    and "usable (aeQuotas (srvEnv (tsServer ts))) row"
  shows "\<exists>x. authGuard (srvPort (tsServer ts)) (apSign (srvPort (tsServer ts)) (tokenPayload (sessionId row))) (k, w)
        = (Inr row, (k, x))
     \<and> apiGuards (srvEnv (tsServer ts)) (srvPort (tsServer ts))
         (apSign (srvPort (tsServer ts)) (tokenPayload (sessionId row))) a (k, w) = (Inr (), (k, x))"
proof -
  obtain x where auth: "authGuard (srvPort (tsServer ts)) (apSign (srvPort (tsServer ts)) (tokenPayload (sessionId row))) (k, w)
      = (Inr row, (k, x))"
    using authGuard_row [OF assms(1,2), of k] by blast
  have "quotaGuard (srvEnv (tsServer ts)) b row (k, x) = (Inr True, (k, x))" for b
    by (rule usable_guard [OF assms(3)])
  with auth show ?thesis
    by (cases a) (simp_all add: apiGuards_def andThen_def ret_app)
qed

text \<open>
  C4. A session that the kit starts over the api is served: the gateway accepted the kit's account, captcha token
  and signature, the token stands for a stored row of that account (normalized) with quota left for every action,
  and every request the kit builds from then on passes the guards of every endpoint and is handled for that row.
\<close>

theorem started_session_is_served:
  assumes "session_server ts tbl" and "kpFetch p = apiFetchAll ts" and "kpCodecs p = actionCodecs"
    and "callbackUrl (kitClient s) = srvBase (tsServer ts)"
    and "\<And>a d rows. preserves (\<lambda>(l, w). tbl w = rows) (signTypedData p a d)"
    and "sound_rows (weBase (aeWallet (srvEnv (tsServer ts)))) (tbl w)"
    and "kitStartSession p captcha (s, (l, w)) = (Inr (Ok r), (s', (l', w')))"
  shows "\<exists>row. respToken r = apSign (srvPort (tsServer ts)) (tokenPayload (sessionId row))
     \<and> (\<exists>sig v v'. gatewayVerify (weBase (aeWallet (srvEnv (tsServer ts)))) (aeRules (srvEnv (tsServer ts)))
          (apGateway (srvPort (tsServer ts))) (kitStartDto captcha (kitAccount s) sig) v = (Inr True, v'))
     \<and> sessionAccount row = normalizeAddress (weBase (aeWallet (srvEnv (tsServer ts)))) (kitAccount s)
     \<and> usable (aeQuotas (srvEnv (tsServer ts))) row
     \<and> find (\<lambda>x. sessionId x = sessionId row) (tbl w') = Some row
     \<and> (\<forall>a k. \<exists>x. authGuard (srvPort (tsServer ts)) (bearerToken (buildRequest (kitClient s') act)) (k, w') = (Inr row, (k, x))
          \<and> apiGuards (srvEnv (tsServer ts)) (srvPort (tsServer ts)) (bearerToken (buildRequest (kitClient s') act)) a (k, w')
              = (Inr (), (k, x)))"
proof -
  let ?srv = "tsServer ts"
  let ?cb = "weBase (aeWallet (srvEnv ?srv))" and ?port = "srvPort ?srv"
  from assms(7) obtain sig s1 l1 w1 z where
    1: "getLoginSignature p captcha (s, (l, w)) = (Inr (Ok sig), (s1, (l1, w1)))" and
    2: "exec kitClient (kpFetch p) (startSessionAction (kpCodecs p) captcha (kitAccount s1) sig) (s1, (l1, w1))
        = (Inr (Ok r) :: thrown + _, (z, (l', w')))" and
    3: "clientToken (kitClient s') = Some (respToken r)"
    by (auto simp: kitStartSession_def runs setToken_def setCallbackUrl_def split: option.splits if_splits)
  have s1: "s1 = s" using getLoginSignature_frame [OF 1] .
  have w1: "sound_rows ?cb (tbl w1)" using login_keeps_rows [OF assms(5) 1] assms(6) by simp
  from start_exec_attempt [OF assms(1) _ w1 2 [unfolded assms(2,3)]] assms(4) s1 obtain k u body where
    run: "serveStartSession ts (buildRequest (kitClient s) (startSessionAction actionCodecs captcha (kitAccount s) sig)) (k, u)
       = (Inr body, (l', w'))" and body: "decodeStartSession body = Some r" and u: "sound_rows ?cb (tbl u)"
    by auto
  from started_attempt [OF assms(1) startSessionView_kit u run] obtain row v v' where
    row: "body = startSessionBody (apSign ?port (tokenPayload (sessionId row)), aeCallbackUrl (srvEnv ?srv))"
      "gatewayVerify ?cb (aeRules (srvEnv ?srv)) (apGateway ?port) (kitStartDto captcha (kitAccount s) sig) v = (Inr True, v')"
      "sessionAccount row = normalizeAddress ?cb (startAccount (kitStartDto captcha (kitAccount s) sig))"
      "usable (aeQuotas (srvEnv ?srv)) row" "find (\<lambda>x. sessionId x = sessionId row) (tbl w') = Some row" by blast
  have tok: "respToken r = apSign ?port (tokenPayload (sessionId row))"
    using body unfolding row(1) by (auto simp: decodeStartSession_def startSessionBody_def field_def asString_def asOptionalString_def)
  have bearer: "bearerToken (buildRequest (kitClient s') act) = apSign ?port (tokenPayload (sessionId row))"
    by (rule submit_token) (use 3 tok session_serverD(6) [OF assms(1)] in simp_all)
  have account: "startAccount (kitStartDto captcha (kitAccount s) sig) = kitAccount s" by (simp add: kitStartDto_def)
  show ?thesis
    using tok row(2,3,4,5) row_passes_guards [OF assms(1) row(5,4)] unfolding bearer account by blast
qed

text \<open>An api with an empty table and the kit of an account; whatever the kit's other ports are, it gets a session.\<close>

definition demoSessionServer :: "(session list \<times> int, string) throttled_server" where
  "demoSessionServer =
     \<lparr>tsServer = \<lparr>srvEnv = demoApiEnv,
        srvPort = demoApi\<lparr>apVerifyToken := (\<lambda>t. Some (tokenPayload (drop 1 t))), apSign := (\<lambda>v. ''t'' @ demoSign v)\<rparr>,
        srvFilter = buildFilter celo_base_std demoGrants, srvValidator = std_validator (\<lambda>s. True),
        srvIsAddress = (\<lambda>s. True), srvRequestId = ''r'', srvBase = ''url/''\<rparr>,
      tsThrottler = \<lparr>getRecord = (\<lambda>k. ret []), addRecord = (\<lambda>k ttl. ret ()), throttleNow = ret 0, generateKey = id\<rparr>,
      tsConfig = \<lparr>ignoreUserAgents = None, headerPrefix = ''X-RateLimit''\<rparr>,
      tsConnection = \<lparr>userAgent = ''a'', tracker = ''ip''\<rparr>, tsLimit = 15, tsTtl = 60,
      tsUntyped = (\<lambda>req. throw badRequestException)\<rparr>"

definition sessionKit :: "string kit_state" where
  "sessionKit = demoKit\<lparr>kitClient := \<lparr>clientToken = None, callbackUrl = ''url/''\<rparr>\<rparr>"

definition signingPort :: "(log_entry list \<times> (session list \<times> int), string) kit_port \<Rightarrow>
    (log_entry list \<times> (session list \<times> int), string) kit_port" where
  "signingPort q = q\<lparr>kpFetch := apiFetchAll demoSessionServer, kpCodecs := actionCodecs,
     signTypedData := (\<lambda>a d. ret JNull), serializeSignature := (\<lambda>s. ''00'')\<rparr>"

lemma demo_session_server: "session_server demoSessionServer fst"
proof -
  have "0 < quotaConfig (\<lambda>_. None) a" for a by (cases a) (simp_all add: quotaConfig_def)
  then show ?thesis
    by (simp add: session_server_def demoSessionServer_def Let_def apSession_def demoApi_def demo_stored
        demoApiEnv_base celo_base_std_documented undisturbed_def demoGatewayPort_def demoApiEnv_def demoEnv_def
        demoSign_def decode_tokenPayload preserves_ret)
qed

definition demoStartRequest :: fetch_request where
  "demoStartRequest = buildRequest (kitClient sessionKit) (startSessionAction actionCodecs ''good'' (kitAccount sessionKit) ''00'')"

lemma demo_start_fetched:
  "\<exists>t x. apiFetchAll demoSessionServer demoStartRequest ([], ([], 7))
     = (Inr \<lparr>httpStatus = 201, respJson = Inr (startSessionBody (t, ''url''))\<rparr>, x)"
  by (intro exI) code_simp

lemma classify_started:
  "classify c (startSessionAction actionCodecs captcha account sig) \<lparr>httpStatus = 201, respJson = Inr (startSessionBody (t, url))\<rparr>
     = Ok \<lparr>respToken = t, respCallbackUrl = Some url\<rparr>"
  by (simp add: classify_def Let_def startSessionAction_def actionCodecs_def decodeStartSession_def
      startSessionBody_def field_def asString_def asOptionalString_def)

lemma started_session_is_served_witness:
  "\<forall>q. \<exists>t s' l' w' row. kitStartSession (signingPort q) ''good'' (sessionKit, ([], ([], 7)))
        = (Inr (Ok \<lparr>respToken = t, respCallbackUrl = Some ''url''\<rparr>), (s', (l', w')))
     \<and> find (\<lambda>x. sessionId x = sessionId row) (fst w') = Some row \<and> usable (quotaConfig (\<lambda>_. None)) row
     \<and> (\<exists>x. authGuard (srvPort (tsServer demoSessionServer))
          (bearerToken (buildRequest (kitClient s') (checkSessionAction actionCodecs))) ([], w') = (Inr row, ([], x)))"
proof
  fix q :: "(log_entry list \<times> (session list \<times> int), string) kit_port"
  let ?act = "startSessionAction actionCodecs ''good'' (kitAccount sessionKit) ''00''"
  obtain t l' w' where "apiFetchAll demoSessionServer demoStartRequest ([], ([], 7))
     = (Inr \<lparr>httpStatus = 201, respJson = Inr (startSessionBody (t, ''url''))\<rparr>, (l', w'))"
    using demo_start_fetched by (metis surj_pair)
  then have "(exec_once kitClient (apiFetchAll demoSessionServer) ?act :: (_, thrown, _) io) (sessionKit, ([], ([], 7)))
      = (Inr (Ok \<lparr>respToken = t, respCallbackUrl = Some ''url''\<rparr>), (sessionKit, (l', w')))"
    using exec_once_classify [of "apiFetchAll demoSessionServer" kitClient sessionKit ?act] classify_started
    unfolding demoStartRequest_def by metis
  then have exec: "(exec kitClient (apiFetchAll demoSessionServer) ?act :: (_, thrown, _) io) (sessionKit, ([], ([], 7)))
      = (Inr (Ok \<lparr>respToken = t, respCallbackUrl = Some ''url''\<rparr>), (sessionKit, (l', w')))"
    unfolding exec_def by (rule retried_first_Ok)
  define s' where "s' = sessionKit\<lparr>kitClient := setCallbackUrl ''url'' (setToken t (kitClient sessionKit))\<rparr>"
  have run: "kitStartSession (signingPort q) ''good'' (sessionKit, ([], ([], 7)))
        = (Inr (Ok \<lparr>respToken = t, respCallbackUrl = Some ''url''\<rparr>), (s', (l', w')))"
    using exec
    by (simp add: kitStartSession_def getLoginSignature_def signingPort_def andThenOk_def andThen_def catching_def
        getS_def ext_app ret_app modS_def s'_def)
  have rows: "sound_rows (weBase (aeWallet (srvEnv (tsServer demoSessionServer)))) (fst ([], 7 :: int))"
    by (simp add: sound_rows_def countable_rows_def accounts_normalized_def)
  have ports: "kpFetch (signingPort q) = apiFetchAll demoSessionServer" "kpCodecs (signingPort q) = actionCodecs"
    "callbackUrl (kitClient sessionKit) = srvBase (tsServer demoSessionServer)"
    "preserves (\<lambda>(l, w). fst w = rows) (signTypedData (signingPort q) a d)" for rows a d
    by (simp_all add: signingPort_def sessionKit_def demoSessionServer_def preserves_ret)
  from started_session_is_served [OF demo_session_server ports rows run, of "checkSessionAction actionCodecs"]
  obtain row where "find (\<lambda>x. sessionId x = sessionId row) (fst w') = Some row"
    "usable (aeQuotas (srvEnv (tsServer demoSessionServer))) row"
    "\<exists>x. authGuard (srvPort (tsServer demoSessionServer))
          (bearerToken (buildRequest (kitClient s') (checkSessionAction actionCodecs))) ([], w') = (Inr row, ([], x))" by blast
  moreover have "aeQuotas (srvEnv (tsServer demoSessionServer)) = quotaConfig (\<lambda>_. None)"
    by (simp add: demoSessionServer_def demoApiEnv_def)
  ultimately show "\<exists>t s' l' w' row. kitStartSession (signingPort q) ''good'' (sessionKit, ([], ([], 7)))
        = (Inr (Ok \<lparr>respToken = t, respCallbackUrl = Some ''url''\<rparr>), (s', (l', w')))
     \<and> find (\<lambda>x. sessionId x = sessionId row) (fst w') = Some row \<and> usable (quotaConfig (\<lambda>_. None)) row
     \<and> (\<exists>x. authGuard (srvPort (tsServer demoSessionServer))
          (bearerToken (buildRequest (kitClient s') (checkSessionAction actionCodecs))) ([], w') = (Inr row, ([], x)))"
    using run by metis
qed

end
