(* ===== verification/Service_Config.thy ===== *)
theory Service_Config
  imports Deployer Dto Relayer_App Invite_Reward
begin

text \<open>
  What the services are started with: the configurations read from the environment (\<open>config/*.ts\<close> of the three
  applications and of \<open>packages/libs/blockchain\<close>), the factories of the modules that use them (\<open>app.module.ts\<close>,
  \<open>tools.module.ts\<close>, \<open>blockchain.providers.ts\<close>) and the configuration of the deployment of the contracts
  (\<open>truffle-config.js\<close>).
\<close>

section \<open>Values of the environment\<close>

definition is_digit :: "char \<Rightarrow> bool" where
  "is_digit c \<longleftrightarrow> 48 \<le> (of_char c :: nat) \<and> (of_char c :: nat) \<le> 57"

definition digits_value :: "string \<Rightarrow> nat" where
  "digits_value = foldl (\<lambda>n c. n * 10 + (of_char c - 48)) 0"

text \<open>
  \<open>parseInt(s, 10)\<close>: white space, a sign and the digits that follow; what comes after them is ignored. Without
  digits it is \<open>NaN\<close>, here \<open>None\<close>, as for \<open>undefined\<close>. The number is rounded as numbers are.
\<close>

definition parseInt10 :: "string \<Rightarrow> int option" where
  "parseInt10 s =
     (let t = dropWhile is_space s;
          negative = (take 1 t = ''-'');
          u = (if take 1 t \<in> {''-'', ''+''} then drop 1 t else t);
          digits = takeWhile is_digit u;
          n = int (js_round_nat (digits_value digits)) in
      if digits = [] then None else Some (if negative then - n else n))"

definition intFrom :: "environment \<Rightarrow> string \<Rightarrow> int option" where
  "intFrom env name = (case env name of None \<Rightarrow> None | Some s \<Rightarrow> parseInt10 s)"

text \<open>\<open>parseInt(process.env.X, 10) || n\<close> and \<open>process.env.X || s\<close>: zero and the empty string are false, too.\<close>

definition intOr :: "environment \<Rightarrow> string \<Rightarrow> int \<Rightarrow> int" where
  "intOr env name dflt = (case intFrom env name of None \<Rightarrow> dflt | Some n \<Rightarrow> if n = 0 then dflt else n)"

definition textOr :: "environment \<Rightarrow> string \<Rightarrow> string \<Rightarrow> string" where
  "textOr env name dflt = (case env name of None \<Rightarrow> dflt | Some s \<Rightarrow> if s = [] then dflt else s)"

section \<open>Configurations of the api\<close>

record api_app_config =
  aaHost :: string
  aaPort :: int
  aaJwtSecret :: string
  aaLogLevel :: string
  aaTransactionTimeoutMs :: int
  aaUseAttestationGuards :: bool
  aaRelayerRpcTimeoutMs :: int
  aaCallbackUrl :: string
  aaVersion :: string
  aaService :: string
  aaFornoApiKey :: string

definition apiAppConfig :: "environment \<Rightarrow> api_app_config" where
  "apiAppConfig env =
     \<lparr>aaHost = textOr env ''HOST'' ''0.0.0.0'',
      aaPort = intOr env ''PORT'' 3000,
      aaJwtSecret = textOr env ''JWT_SECRET'' ''secret123456789'',
      aaLogLevel = textOr env ''LOG_LEVEL'' ''debug'',
      aaTransactionTimeoutMs = intOr env ''TRANSACTION_TIMEOUT_MS'' 10000,
      aaUseAttestationGuards = (env ''USE_ATTESTATION_GUARDS'' = Some ''true''),
      aaRelayerRpcTimeoutMs = intOr env ''RELAYER_RPC_TIMEOUT_MS'' 5000,
      aaCallbackUrl = textOr env ''PUBLIC_URL'' ''http://localhost:3000'',
      aaVersion = textOr env ''KOMENCI_VERSION'' ''version-missing'',
      aaService = textOr env ''KOMENCI_SERVICE'' ''komenci-api'',
      aaFornoApiKey = envOr env ''FORNO_API_KEY''\<rparr>"

record throttle_config =
  thTtl :: rat
  thLimit :: rat

definition throttleConfig :: "(string \<Rightarrow> rat option) \<Rightarrow> environment \<Rightarrow> throttle_config" where
  "throttleConfig toNumber env =
     \<lparr>thTtl = numberFromEnv toNumber env ''THROTTLE_TTL'' 60,
      thLimit = numberFromEnv toNumber env ''THROTTLE_LIMIT'' 15\<rparr>"

record third_party_config =
  tpRecaptchaUri :: string
  tpRecaptchaToken :: "string option"
  tpAppleDeviceCheckUrl :: string
  tpAppleDeviceCheckToken :: "string option"
  tpAppleDeviceCheckTeamID :: "string option"
  tpAppleDeviceCheckKeyID :: "string option"
  tpAppleDeviceCheckCert :: "string option"
  tpAndroidSafetyNetUrl :: string
  tpAndroidSafetyNetToken :: "string option"

definition thirdPartyConfig :: "environment \<Rightarrow> third_party_config" where
  "thirdPartyConfig env =
     \<lparr>tpRecaptchaUri = ''https://www.google.com/recaptcha/api/siteverify'',
      tpRecaptchaToken = env ''RECAPTCHA_TOKEN'',
      tpAppleDeviceCheckUrl = ''https://api.development.devicecheck.apple.com'',
      tpAppleDeviceCheckToken = env ''APPLE_DEVICE_CHECK_TOKEN'',
      tpAppleDeviceCheckTeamID = env ''TEAM_ID'',
      tpAppleDeviceCheckKeyID = env ''APPLE_DEVICE_KEY_ID'',
      tpAppleDeviceCheckCert = env ''APPLE_DEVICE_CERT'',
      tpAndroidSafetyNetUrl = ''https://www.googleapis.com/androidcheck/v1/attestations/verify'',
      tpAndroidSafetyNetToken = env ''ANDROID_SAFETYNET_TOKEN''\<rparr>"

text \<open>The options of the TCP client that calls the relayer; a port that is \<open>NaN\<close> is \<open>None\<close>.\<close>

record tcp_client_options =
  tcpHost :: "string option"
  tcpPort :: "int option"

definition apiRelayerConfig :: "environment \<Rightarrow> tcp_client_options" where
  "apiRelayerConfig env = \<lparr>tcpHost = env ''RELAYER_HOST'', tcpPort = intFrom env ''RELAYER_PORT''\<rparr>"

text \<open>The connection to the database; its entities and migrations are those of the service.\<close>

record database_config =
  dbHost :: string
  dbPort :: int
  dbUsername :: string
  dbPassword :: string
  dbDatabase :: string
  dbMigrationsTableName :: string
  dbMigrationsRun :: bool
  dbSsl :: bool
  dbSynchronize :: bool

definition apiDatabaseConfig :: "environment \<Rightarrow> database_config" where
  "apiDatabaseConfig env =
     \<lparr>dbHost = textOr env ''DB_HOST'' ''0.0.0.0'',
      dbPort = intOr env ''DB_PORT'' 5432,
      dbUsername = textOr env ''DB_USERNAME'' ''postgres'',
      dbPassword = textOr env ''DB_PASSWORD'' ''docker'',
      dbDatabase = textOr env ''DB_DATABASE'' ''postgres'',
      dbMigrationsTableName = ''migrations_typeorm'',
      dbMigrationsRun = (env ''DB_MIGRATIONS'' = Some ''true''),
      dbSsl = (env ''DB_SSL'' = Some ''true''),
      dbSynchronize = (env ''DB_SYNCHRONIZE'' = Some ''false'')\<rparr>"

section \<open>Configurations of the rewards service\<close>

record rewards_app_config =
  raHost :: string
  raPort :: int
  raJwtSecret :: string
  raLogLevel :: string
  raService :: string
  raVersion :: string
  raRelayerRpcTimeoutMs :: int
  raInviteRewardAmountInCusd :: rat
  raSegmentApiKey :: "string option"
  raShouldSendRewards :: bool
  raFornoApiKey :: string

definition rewardsAppConfig :: "environment \<Rightarrow> rewards_app_config" where
  "rewardsAppConfig env =
     \<lparr>raHost = textOr env ''HOST'' ''0.0.0.0'',
      raPort = intOr env ''PORT'' 3000,
      raJwtSecret = textOr env ''JWT_SECRET'' ''secret123456789'',
      raLogLevel = textOr env ''LOG_LEVEL'' ''debug'',
      raService = textOr env ''KOMENCI_SERVICE'' ''komenci-rewards'',
      raVersion = textOr env ''KOMENCI_VERSION'' ''version-missing'',
      raRelayerRpcTimeoutMs = intOr env ''RELAYER_RPC_TIMEOUT_MS'' 5000,
      raInviteRewardAmountInCusd =
        (case intFrom env ''INVITE_REWARD_AMOUNT_IN_CUSD'' of
           None \<Rightarrow> 1 / 1000 | Some n \<Rightarrow> if n = 0 then 1 / 1000 else of_int n),
      raSegmentApiKey = env ''SEGMENT_API_KEY'',
      raShouldSendRewards = shouldSendRewardsConfig env,
      raFornoApiKey = envOr env ''FORNO_API_KEY''\<rparr>"

definition rewardsRelayerConfig :: "environment \<Rightarrow> tcp_client_options" where
  "rewardsRelayerConfig env = \<lparr>tcpHost = env ''RELAYER_HOST'', tcpPort = intFrom env ''RELAYER_PORT''\<rparr>"

definition rewardsDatabaseConfig :: "environment \<Rightarrow> database_config" where
  "rewardsDatabaseConfig env =
     (apiDatabaseConfig env)\<lparr>dbSynchronize := (env ''DB_SYNCHRONIZE'' = Some ''true'')\<rparr>"

text \<open>The configuration of the command line of TypeORM (\<open>migration.config.ts\<close>), the same for both databases\<close>

definition migrationConfig :: "environment \<Rightarrow> database_config" where
  "migrationConfig env =
     (apiDatabaseConfig env)\<lparr>dbMigrationsTableName := ''migration'', dbMigrationsRun := False, dbSsl := False\<rparr>"

section \<open>Configuration of the relayer\<close>

record relayer_app_config =
  laHost :: string
  laPort :: int
  laLogLevel :: string
  laTransactionCheckIntervalMs :: int
  laTransactionTimeoutMs :: int
  laTransactionMaxGas :: int
  laVersion :: string
  laService :: string
  laGasPriceUpdateIntervalMs :: int
  laGasPriceMultiplier :: rat
  laGasPriceFallback :: string
  laMaxGasPrice :: string
  laOdisTimeoutMs :: int
  laFornoApiKey :: string

definition relayerAppConfig :: "(string \<Rightarrow> rat option) \<Rightarrow> environment \<Rightarrow> relayer_app_config" where
  "relayerAppConfig parseFloat env =
     \<lparr>laHost = textOr env ''RELAYER_HOST'' ''0.0.0.0'',
      laPort = intOr env ''RELAYER_PORT'' 3000,
      laLogLevel = textOr env ''LOG_LEVEL'' ''debug'',
      laTransactionCheckIntervalMs = intOr env ''TRANSACTION_CHECK_INTERVAL_MS'' 3000,
      laTransactionTimeoutMs = intOr env ''TRANSACTION_TIMEOUT_MS'' 60000,
      laTransactionMaxGas = intOr env ''TRANSACTION_MAX_GAS'' 1000000,
      laVersion = textOr env ''KOMENCI_VERSION'' ''version-missing'',
      laService = textOr env ''KOMENCI_SERVICE'' ''komenci-relayer'',
      laGasPriceUpdateIntervalMs = intOr env ''GAS_PRICE_UPDATE_INTERVAL_MS'' 5000,
      laGasPriceMultiplier =
        (case Option.bind (env ''GAS_PRICE_MULTIPLIER'') parseFloat of
           None \<Rightarrow> 5 | Some m \<Rightarrow> if m = 0 then 5 else m),
      laGasPriceFallback = textOr env ''GAS_PRICE_FALLBACK'' ''1000000000'',
      laMaxGasPrice = textOr env ''MAX_GAS_PRICE'' ''100000000000'',
      laOdisTimeoutMs = intOr env ''ODIS_TIMEOUT_MS'' 10000,
      laFornoApiKey = envOr env ''FORNO_API_KEY''\<rparr>"

section \<open>The node and the wallet of a service (blockchain.providers.ts)\<close>

text \<open>The options of \<open>BlockchainModule\<close>: a node, and a wallet unless the service only reads\<close>

record node_config =
  nodeProviderType :: "string option"
  nodeApiKey :: "string option"
  nodeUrl :: "string option"

definition nodeConfig :: "environment \<Rightarrow> node_config" where
  "nodeConfig env =
     \<lparr>nodeProviderType = env ''NODE_PROVIDER_TYPE'', nodeApiKey = env ''NODE_API_KEY'', nodeUrl = env ''NODE_URL''\<rparr>"

record blockchain_options =
  boNode :: node_config
  boWallet :: "wallet_config option"

datatype web3_provider =
    HttpProvider "string option" "(string \<times> string option) list"
  | WebsocketProvider "string option"
  | IpcProvider "string option"

definition web3ProviderDef :: "blockchain_options \<Rightarrow> thrown + web3_provider" where
  "web3ProviderDef options =
     (let url = nodeUrl (boNode options); kind = nodeProviderType (boNode options) in
      if kind = Some ''http'' then Inr (HttpProvider url [(''apikey'', nodeApiKey (boNode options))])
      else if kind = Some ''ws'' then Inr (WebsocketProvider url)
      else if kind = Some ''ipc'' then Inr (IpcProvider url)
      else Inl (ErrorObject (plain_error (''Invalid NodeProviderType: '' @
             (case kind of None \<Rightarrow> ''undefined'' | Some s \<Rightarrow> s)))))"

text \<open>The wallets of contractkit: none, that of a vault, which has to be reached, or the keys given to it\<close>

datatype kit_wallet = NoWallet | VaultWallet string | KeyWallet "string list"

record 'w signer_port =
  sgInitVault :: "string \<Rightarrow> ('w, thrown, unit) io"
  sgAddAccount :: "string \<Rightarrow> ('w, thrown, unit) io"

definition walletDef :: "'w signer_port \<Rightarrow> blockchain_options \<Rightarrow> ('w, thrown, kit_wallet) io" where
  "walletDef sg options =
     (case boWallet options of
        None \<Rightarrow> ret NoWallet
      | Some (AzureHSMWallet address vaultName keyName) \<Rightarrow>
          andThen (sgInitVault sg vaultName) (\<lambda>_. ret (VaultWallet vaultName))
      | Some (wallet_config.LocalWallet address privateKey) \<Rightarrow>
          andThen (sgAddAccount sg privateKey) (\<lambda>_. ret (KeyWallet [privateKey])))"

section \<open>Starting the services (app.module.ts, tools.module.ts)\<close>

text \<open>
  What a service is connected to: its provider and wallet, and the address of the deployer contract for the
  services that have \<open>ContractsModule\<close>.
\<close>

record connections =
  cnProvider :: web3_provider
  cnWallet :: kit_wallet
  cnDeployer :: "string option"

definition httpNode :: "network_config \<Rightarrow> string \<Rightarrow> node_config" where
  "httpNode cfg apiKey =
     \<lparr>nodeProviderType = Some ''http'', nodeApiKey = Some apiKey, nodeUrl = Some (fornoURL cfg)\<rparr>"

definition apiBlockchain :: "network_config \<Rightarrow> api_app_config \<Rightarrow> blockchain_options" where
  "apiBlockchain cfg app = \<lparr>boNode = httpNode cfg (aaFornoApiKey app), boWallet = None\<rparr>"

definition rewardsBlockchain :: "network_config \<Rightarrow> rewards_app_config \<Rightarrow> blockchain_options" where
  "rewardsBlockchain cfg app = \<lparr>boNode = httpNode cfg (raFornoApiKey app), boWallet = None\<rparr>"

definition relayerBlockchain :: "network_config \<Rightarrow> relayer_app_config \<Rightarrow> wallet_config \<Rightarrow> blockchain_options" where
  "relayerBlockchain cfg app wallet = \<lparr>boNode = httpNode cfg (laFornoApiKey app), boWallet = Some wallet\<rparr>"

definition toolsBlockchain :: "network_config \<Rightarrow> wallet_config \<Rightarrow> blockchain_options" where
  "toolsBlockchain cfg wallet = \<lparr>boNode = httpNode cfg [], boWallet = Some wallet\<rparr>"

definition connected ::
    "'w signer_port \<Rightarrow> string option \<Rightarrow> blockchain_options \<Rightarrow> ('w, thrown, connections) io" where
  "connected sg deployer options =
     andThen (liftSum (web3ProviderDef options)) (\<lambda>provider.
     andThen (walletDef sg options) (\<lambda>wallet.
     ret \<lparr>cnProvider = provider, cnWallet = wallet, cnDeployer = deployer\<rparr>))"

text \<open>The configurations are loaded first, each in turn, and the first that throws ends the start.\<close>

definition loadNetwork :: "environment \<Rightarrow> ('w, thrown, network_config) io" where
  "loadNetwork env =
     (case networkConfig (env ''NETWORK'') of Inl e \<Rightarrow> throw (ErrorObject e) | Inr cfg \<Rightarrow> ret cfg)"

definition startApi :: "'w signer_port \<Rightarrow> environment \<Rightarrow> ('w, thrown, connections) io" where
  "startApi sg env =
     andThen (loadNetwork env) (\<lambda>cfg.
     connected sg (Some (MetaTransactionWalletDeployer cfg)) (apiBlockchain cfg (apiAppConfig env)))"

definition startRewards :: "'w signer_port \<Rightarrow> environment \<Rightarrow> ('w, thrown, connections) io" where
  "startRewards sg env =
     andThen (loadNetwork env) (\<lambda>cfg. connected sg None (rewardsBlockchain cfg (rewardsAppConfig env)))"

definition startRelayer ::
    "'w signer_port \<Rightarrow> (string \<Rightarrow> rat option) \<Rightarrow> environment \<Rightarrow> ('w, thrown, connections) io" where
  "startRelayer sg parseFloat env =
     andThen (loadNetwork env) (\<lambda>cfg.
     andThen (liftSum (walletConfig env)) (\<lambda>wallet.
     connected sg (Some (MetaTransactionWalletDeployer cfg))
       (relayerBlockchain cfg (relayerAppConfig parseFloat env) wallet)))"

definition startTools ::
    "'w signer_port \<Rightarrow> key_port \<Rightarrow> (network \<Rightarrow> string option) \<Rightarrow> environment
      \<Rightarrow> ('w, thrown, connections) io" where
  "startTools sg k mnemonics env =
     andThen (loadNetwork env) (\<lambda>cfg.
     andThen (liftSum (fundConfig k mnemonics env)) (\<lambda>fund.
     connected sg (Some (MetaTransactionWalletDeployer cfg)) (toolsBlockchain cfg fund)))"

section \<open>Deployment of the contracts (truffle-config.js)\<close>

text \<open>
  The deployment reads the mnemonics of \<open>truffle-deployer-config.ts\<close> as compiled: the module's default export is
  a property named \<open>default\<close> of what \<open>require\<close> gives. Derivation and addresses are outside, and the former is
  given whatever value is found.
\<close>

definition requiredMnemonics :: "(string \<Rightarrow> string option) option \<Rightarrow> js_value" where
  "requiredMnemonics parsed =
     JObj [(''__esModule'', JBool True),
           (''default'', JObj (map (\<lambda>n. (networkName n, case deployerMnemonics parsed n of Some m \<Rightarrow> JStr m | None \<Rightarrow> JUndefined))
              [alfajores, alfajoresstaging, baklava, baklavastaging, rc1]))]"

record truffle_port =
  tkPrivateKey :: "js_value \<Rightarrow> nat list \<Rightarrow> thrown + string"
  tkAddress :: "string \<Rightarrow> string"

text \<open>A wallet is the list of its keys; \<open>walletCache\<close> is the state.\<close>

type_synonym 'a truffle_io = "(string \<Rightarrow> string list option, thrown, 'a) io"

definition walletForEnv :: "truffle_port \<Rightarrow> js_value \<Rightarrow> string \<Rightarrow> string list truffle_io" where
  "walletForEnv k mnemonics env =
     andThen (gets (\<lambda>cache. cache env)) (\<lambda>cached.
     case cached of
       Some wallet \<Rightarrow> ret wallet
     | None \<Rightarrow>
         andThen (liftSum (tkPrivateKey k (field mnemonics env) [0, 0])) (\<lambda>privateKey.
         andThen (modify (\<lambda>cache. cache(env \<mapsto> [privateKey]))) (\<lambda>_. ret [privateKey])))"

definition migratorAddressForEnv :: "truffle_port \<Rightarrow> js_value \<Rightarrow> string \<Rightarrow> string truffle_io" where
  "migratorAddressForEnv k mnemonics env =
     andThen (walletForEnv k mnemonics env) (\<lambda>wallet. ret (tkAddress k (hd wallet)))"

definition fornoURLForEnv :: "string \<Rightarrow> string" where
  "fornoURLForEnv env = ''https://'' @ env @ ''-forno.celo-testnet.org''"

text \<open>\<open>provider()\<close>, which truffle calls when it connects: the node and the wallet of the environment\<close>

definition providerForEnv :: "truffle_port \<Rightarrow> js_value \<Rightarrow> string \<Rightarrow> (string \<times> string list) truffle_io" where
  "providerForEnv k mnemonics env =
     andThen (walletForEnv k mnemonics env) (\<lambda>wallet. ret (fornoURLForEnv env, wallet))"

record truffle_network =
  tnGas :: "int option"
  tnGasPrice :: "int option"
  tnProviderEnv :: "string option"
  tnFrom :: "string option"
  tnHostPort :: "(string \<times> string) option"
  tnNetworkId :: int

definition baseNetworkConfig :: truffle_network where
  "baseNetworkConfig =
     \<lparr>tnGas = Some 5000000, tnGasPrice = Some 100000000000, tnProviderEnv = None, tnFrom = None, tnHostPort = None,
      tnNetworkId = 0\<rparr>"

definition emptyNetworkConfig :: truffle_network where
  "emptyNetworkConfig = baseNetworkConfig\<lparr>tnGas := None, tnGasPrice := None\<rparr>"

definition truffleNetworks :: "truffle_port \<Rightarrow> js_value \<Rightarrow> (string \<times> truffle_network) list truffle_io" where
  "truffleNetworks k mnemonics =
     andThen (migratorAddressForEnv k mnemonics ''alfajores'') (\<lambda>a1.
     andThen (migratorAddressForEnv k mnemonics ''alfajoresstaging'') (\<lambda>a2.
     andThen (migratorAddressForEnv k mnemonics ''baklava'') (\<lambda>a3.
     andThen (migratorAddressForEnv k mnemonics ''baklavastaging'') (\<lambda>a4.
     andThen (migratorAddressForEnv k mnemonics ''rc1'') (\<lambda>a5.
     ret
       [(''alfajores'', baseNetworkConfig\<lparr>tnProviderEnv := Some ''alfajores'', tnFrom := Some a1, tnNetworkId := 44787\<rparr>),
        (''alfajoresstaging'', baseNetworkConfig\<lparr>tnProviderEnv := Some ''alfajoresstaging'', tnFrom := Some a2,
           tnNetworkId := 1101, tnGasPrice := Some 0\<rparr>),
        (''baklava'', baseNetworkConfig\<lparr>tnProviderEnv := Some ''baklava'', tnFrom := Some a3, tnNetworkId := 62320\<rparr>),
        (''baklavastaging'', emptyNetworkConfig\<lparr>tnProviderEnv := Some ''baklavastaging'', tnFrom := Some a4,
           tnNetworkId := 44787, tnGasPrice := Some 0\<rparr>),
        (''rc1'', emptyNetworkConfig\<lparr>tnProviderEnv := Some ''rc1'', tnFrom := Some a5, tnNetworkId := 42220\<rparr>),
        (''test'', baseNetworkConfig\<lparr>tnHostPort := Some (''localhost'', ''8565''), tnNetworkId := 1101\<rparr>)])))))"

section \<open>Ports and numbers\<close>

lemma show_nat_digits: "list_all is_digit (show_nat n) \<and> show_nat n \<noteq> [] \<and> digits_value (show_nat n) = n"
proof (induction n rule: show_nat.induct)
  case (1 n)
  have digit: "is_digit (char_of (48 + m))" "of_char (char_of (48 + m) :: char) - 48 = m" if "m < 10" for m :: nat
    using that by (simp_all add: is_digit_def)
  show ?case
  proof (cases "n < 10")
    case True
    then show ?thesis by (subst (1 2 3) show_nat.simps) (simp add: digit digits_value_def)
  next
    case False
    with 1 show ?thesis
      by (subst (1 2 3) show_nat.simps) (simp add: digit digits_value_def)
  qed
qed

lemma parseInt10_show_nat:
  assumes "n < 2 ^ 53"
  shows "parseInt10 (show_nat n) = Some (int n)"
proof -
  obtain c s where cs: "show_nat n = c # s" using show_nat_digits [of n] by (cases "show_nat n") auto
  have digits: "list_all is_digit (c # s)" "digits_value (c # s) = n" using show_nat_digits [of n] by (simp_all add: cs)
  then have "\<not> is_space c" "c \<noteq> CHR ''-''" "c \<noteq> CHR ''+''" by (auto simp: is_digit_def is_space_def)
  moreover have "takeWhile is_digit (c # s) = c # s" using digits(1) by (simp add: list_all_iff)
  ultimately show ?thesis
    using assms digits(2) by (simp add: parseInt10_def cs js_round_nat_def)
qed

lemma intOr_nonzero: "dflt \<noteq> 0 \<Longrightarrow> intOr env name dflt \<noteq> 0"
  by (simp add: intOr_def split: option.split)

text \<open>The TCP client of the framework uses the port of its options, or its own default where that is false.\<close>

definition clientPort :: "int \<Rightarrow> tcp_client_options \<Rightarrow> int" where
  "clientPort default_port options =
     (case tcpPort options of None \<Rightarrow> default_port | Some n \<Rightarrow> if n = 0 then default_port else n)"

text \<open>
  Whatever the variable for the relayer's port holds, the api and the rewards service call the port that a
  relayer with the same variable listens on, where the default of their client is 3000, as documented; and a
  port that is written in decimal is the one used.
\<close>

theorem relayer_port_agrees:
  assumes "env ''RELAYER_PORT'' = env' ''RELAYER_PORT''"
  shows "clientPort 3000 (apiRelayerConfig env) = laPort (relayerAppConfig pf env')
     \<and> clientPort 3000 (rewardsRelayerConfig env) = laPort (relayerAppConfig pf env')
     \<and> laPort (relayerAppConfig pf env') \<noteq> 0
     \<and> (\<forall>n. env ''RELAYER_PORT'' = Some (show_nat n) \<and> 0 < n \<and> n < 2 ^ 53 \<longrightarrow>
          laPort (relayerAppConfig pf env') = int n)"
  using assms
  by (auto simp: clientPort_def apiRelayerConfig_def rewardsRelayerConfig_def relayerAppConfig_def intOr_nonzero
      intOr_def intFrom_def parseInt10_show_nat split: option.split)

lemma relayer_port_agrees_witness:
  "laPort (relayerAppConfig Map.empty [''RELAYER_PORT'' \<mapsto> ''4000'']) = 4000
     \<and> clientPort 3000 (apiRelayerConfig [''RELAYER_PORT'' \<mapsto> ''4000'', ''HOST'' \<mapsto> ''h'']) = 4000"
proof -
  let ?env = "[''RELAYER_PORT'' \<mapsto> ''4000'', ''HOST'' \<mapsto> ''h'']" and ?env' = "[''RELAYER_PORT'' \<mapsto> ''4000'']"
  have "show_nat 4000 = ''4000''"
    by (simp add: show_nat.simps [of 4000] show_nat.simps [of 400] show_nat.simps [of 40] show_nat.simps [of 4] char_of_def bit_0)
  then have port: "?env ''RELAYER_PORT'' = Some (show_nat 4000)" by simp
  have same: "?env ''RELAYER_PORT'' = ?env' ''RELAYER_PORT''" by simp
  from relayer_port_agrees [of ?env ?env' Map.empty, OF same] port
  have "laPort (relayerAppConfig Map.empty ?env') = int 4000
      \<and> clientPort 3000 (apiRelayerConfig ?env) = laPort (relayerAppConfig Map.empty ?env')"
    by (elim conjE allE [of _ 4000]) simp
  then show ?thesis by simp
qed

section \<open>Starting\<close>

definition chosenWallet :: "wallet_config \<Rightarrow> kit_wallet" where
  "chosenWallet cfg =
     (case cfg of
        AzureHSMWallet address vaultName keyName \<Rightarrow> VaultWallet vaultName
      | wallet_config.LocalWallet address privateKey \<Rightarrow> KeyWallet [privateKey])"

lemma connected_http:
  assumes "boNode options = httpNode cfg key"
  shows "connected sg deployer options =
     andThen (walletDef sg options) (\<lambda>wallet.
     ret \<lparr>cnProvider = HttpProvider (Some (fornoURL cfg)) [(''apikey'', Some key)], cnWallet = wallet, cnDeployer = deployer\<rparr>)"
  using assms by (simp add: connected_def web3ProviderDef_def httpNode_def liftSum_def)

lemma walletDef_chosen:
  "walletDef sg options w = (Inr wallet, w') \<Longrightarrow>
   wallet = (case boWallet options of None \<Rightarrow> NoWallet | Some cfg \<Rightarrow> chosenWallet cfg)"
  by (cases "boWallet options"; cases "the (boWallet options)") (auto simp: walletDef_def chosenWallet_def runs)

lemma loadNetwork_Inr:
  "loadNetwork env w = (Inr cfg, w') \<Longrightarrow> \<exists>n. network_of_env (env ''NETWORK'') = Some n \<and> cfg = configs n \<and> w' = w"
  by (auto simp: loadNetwork_def networkConfig_def runs split: option.splits)

lemma startApi_run:
  "startApi sg env w =
     (case network_of_env (env ''NETWORK'') of
        None \<Rightarrow> (Inl (ErrorObject (plain_error (''Unknown network: '' @ envText env ''NETWORK''))), w)
      | Some n \<Rightarrow> (Inr \<lparr>cnProvider = HttpProvider (Some (fornoURL (configs n))) [(''apikey'', Some (envOr env ''FORNO_API_KEY''))],
                      cnWallet = NoWallet, cnDeployer = Some (MetaTransactionWalletDeployer (configs n))\<rparr>, w))"
proof -
  have node: "boNode (apiBlockchain cfg app) = httpNode cfg (aaFornoApiKey app)" for cfg app
    by (simp add: apiBlockchain_def)
  show ?thesis
    unfolding startApi_def connected_http [OF node]
    by (simp add: loadNetwork_def networkConfig_def envText_def walletDef_def apiBlockchain_def apiAppConfig_def
        andThen_def throw_def ret_def split: option.split)
qed

text \<open>
  The api starts exactly when \<open>NETWORK\<close> names a network, without touching anything. When a relayer, and the
  command line, start with the same variable, all three are connected by HTTP to the public node of that
  network, each with its own key in the header, and to the deployer contract configured for it; the api has
  no wallet, the relayer the one of its variables and the command line the fund's.
\<close>

theorem services_share_network:
  assumes "env ''NETWORK'' = env' ''NETWORK''" and "env ''NETWORK'' = env'' ''NETWORK''"
    and "startRelayer sg pf env' w = (Inr relayer, w')"
    and "startTools sg k mnemonics env'' u = (Inr tools, u')"
  shows "\<exists>n wallet fund api. network_of_env (env ''NETWORK'') = Some n
     \<and> startApi sg env v = (Inr api, v)
     \<and> walletConfig env' = Inr wallet \<and> fundConfig k mnemonics env'' = Inr fund
     \<and> cnWallet api = NoWallet \<and> cnWallet relayer = chosenWallet wallet \<and> cnWallet tools = chosenWallet fund
     \<and> cnProvider api = HttpProvider (Some (fornoURL (configs n))) [(''apikey'', Some (envOr env ''FORNO_API_KEY''))]
     \<and> cnProvider relayer = HttpProvider (Some (fornoURL (configs n))) [(''apikey'', Some (envOr env' ''FORNO_API_KEY''))]
     \<and> cnProvider tools = HttpProvider (Some (fornoURL (configs n))) [(''apikey'', Some [])]
     \<and> (\<forall>c \<in> {api, relayer, tools}. cnDeployer c = Some (MetaTransactionWalletDeployer (configs n)))"
proof -
  let ?api = "\<lparr>cnProvider = HttpProvider (Some (fornoURL (configs (the (network_of_env (env ''NETWORK''))))))
       [(''apikey'', Some (envOr env ''FORNO_API_KEY''))],
     cnWallet = NoWallet, cnDeployer = Some (MetaTransactionWalletDeployer (configs (the (network_of_env (env ''NETWORK'')))))\<rparr>"
  have relayer_node: "boNode (relayerBlockchain cfg app wallet) = httpNode cfg (laFornoApiKey app)" for cfg app wallet
    by (simp add: relayerBlockchain_def)
  have tools_node: "boNode (toolsBlockchain cfg wallet) = httpNode cfg []" for cfg wallet by (simp add: toolsBlockchain_def)
  from assms(3) obtain n wallet w1 w2 w3 where
    n: "network_of_env (env' ''NETWORK'') = Some n" and
    wallet: "liftSum (walletConfig env') w1 = (Inr wallet, w2)" and
    relayer: "connected sg (Some (MetaTransactionWalletDeployer (configs n)))
      (relayerBlockchain (configs n) (relayerAppConfig pf env') wallet) w2 = (Inr relayer, w3)"
    by (auto simp: startRelayer_def runs dest!: loadNetwork_Inr)
  from assms(4) n assms(1,2) obtain fund u1 u2 u3 where
    fund: "liftSum (fundConfig k mnemonics env'') u1 = (Inr fund, u2)" and
    tools: "connected sg (Some (MetaTransactionWalletDeployer (configs n))) (toolsBlockchain (configs n) fund) u2
      = (Inr tools, u3)"
    by (auto simp: startTools_def runs dest!: loadNetwork_Inr)
  have "walletConfig env' = Inr wallet" "fundConfig k mnemonics env'' = Inr fund"
    using wallet fund by (auto simp: liftSum_def runs split: sum.splits)
  moreover have "startApi sg env v = (Inr ?api, v)" using n assms(1) by (simp add: startApi_run)
  moreover have "cnWallet relayer = chosenWallet wallet"
    "cnDeployer relayer = Some (MetaTransactionWalletDeployer (configs n))"
    "cnProvider relayer = HttpProvider (Some (fornoURL (configs n))) [(''apikey'', Some (envOr env' ''FORNO_API_KEY''))]"
    using relayer unfolding connected_http [OF relayer_node]
    by (auto simp: runs relayerBlockchain_def relayerAppConfig_def dest!: walletDef_chosen)
  moreover have "cnWallet tools = chosenWallet fund"
    "cnDeployer tools = Some (MetaTransactionWalletDeployer (configs n))"
    "cnProvider tools = HttpProvider (Some (fornoURL (configs n))) [(''apikey'', Some [])]"
    using tools unfolding connected_http [OF tools_node]
    by (auto simp: runs toolsBlockchain_def dest!: walletDef_chosen)
  ultimately show ?thesis using n assms(1)
    by (intro exI [of _ n] exI [of _ wallet] exI [of _ fund] exI [of _ ?api]) simp
qed

lemma services_share_network_witness:
  "\<exists>api. startApi \<lparr>sgInitVault = (\<lambda>v. ret ()), sgAddAccount = (\<lambda>k. ret ())\<rparr> [''NETWORK'' \<mapsto> ''alfajores''] ()
       = (Inr api, ()) \<and> cnWallet api = NoWallet
     \<and> cnProvider api = HttpProvider (Some (fornoURL (configs alfajores))) [(''apikey'', Some [])]"
proof -
  let ?sg = "\<lparr>sgInitVault = (\<lambda>v. ret ()), sgAddAccount = (\<lambda>k. ret ())\<rparr> :: unit signer_port"
  let ?env = "[''NETWORK'' \<mapsto> ''alfajores'']"
  let ?env' = "[''NETWORK'' \<mapsto> ''alfajores'', ''WALLET_TYPE'' \<mapsto> ''local'', ''WALLET_PRIVATE_KEY'' \<mapsto> ''0x1'']"
  let ?k = "\<lparr>derivePrivateKey = (\<lambda>m path. m), privateKeyToAddress = (\<lambda>key. key)\<rparr>"
  have net: "loadNetwork ?env' () = (Inr (configs alfajores), ())" "loadNetwork ?env () = (Inr (configs alfajores), ())"
    by (simp_all add: loadNetwork_def networkConfig_def ret_app del: configs.simps)
  have connects: "\<exists>c. connected ?sg d (\<lparr>boNode = httpNode cfg key, boWallet = Some w\<rparr>) () = (Inr c, ())" for d cfg key w
    by (cases w) (simp_all add: connected_def web3ProviderDef_def httpNode_def walletDef_def liftSum_def andThen_def ret_app)
  have wallet: "walletConfig ?env' = Inr (wallet_config.LocalWallet [] ''0x1'')"
    by (simp add: walletConfig_def envOr_def)
  have fund: "fundConfig ?k (\<lambda>_. Some ''m'') ?env = Inr (wallet_config.LocalWallet ''m'' ''m'')"
    by (simp add: fundConfig_def envText_def networkOf_def buildFundConfig_def Let_def)
  have "\<exists>c. startRelayer ?sg Map.empty ?env' () = (Inr c, ())"
    using connects
    by (simp add: startRelayer_def net wallet liftSum_def andThen_def ret_app relayerBlockchain_def del: configs.simps)
  then obtain relayer where "startRelayer ?sg Map.empty ?env' () = (Inr relayer, ())" ..
  moreover have "\<exists>c. startTools ?sg ?k (\<lambda>_. Some ''m'') ?env () = (Inr c, ())"
    using connects
    by (simp add: startTools_def net fund liftSum_def andThen_def ret_app toolsBlockchain_def del: configs.simps)
  then obtain tools where "startTools ?sg ?k (\<lambda>_. Some ''m'') ?env () = (Inr tools, ())" ..
  moreover have "?env ''NETWORK'' = ?env' ''NETWORK''" "network_of_env (?env ''NETWORK'') = Some alfajores"
    "envOr ?env ''FORNO_API_KEY'' = []" by (simp_all add: envOr_def)
  ultimately show ?thesis
    using services_share_network [of ?env ?env' ?env ?sg Map.empty "()" relayer "()" ?k "\<lambda>_. Some ''m''" "()" tools "()" "()"]
    by (elim exE conjE meta_impE) (auto simp del: configs.simps)
qed

section \<open>The account that deploys\<close>

lemma required_undefined:
  "env \<notin> {''__esModule'', ''default''} \<Longrightarrow> field (requiredMnemonics parsed) env = JUndefined"
  by (simp add: field_def requiredMnemonics_def)

lemma walletForEnv_run:
  assumes "env \<notin> {''__esModule'', ''default''}" and "cache env \<in> {None, Some [key]}"
    and "tkPrivateKey k JUndefined [0, 0] = Inr key"
  shows "walletForEnv k (requiredMnemonics parsed) env cache = (Inr [key], cache(env \<mapsto> [key]))"
  using assms(2)
  by (auto simp: walletForEnv_def required_undefined [OF assms(1)] assms(3) gets_def modify_def liftSum_def andThen_def
      ret_app fun_upd_idem)

lemma migrator_run:
  assumes "tkPrivateKey k JUndefined [0, 0] = Inr key" and "env \<notin> {''__esModule'', ''default''}"
    and "cache env = None"
  shows "migratorAddressForEnv k (requiredMnemonics parsed) env cache = (Inr (tkAddress k key), cache(env \<mapsto> [key]))"
  using assms(3)
  by (simp add: migratorAddressForEnv_def andThen_def walletForEnv_run [OF assms(2) _ assms(1)] ret_app)

text \<open>
  The file of mnemonics has no influence on the deployment: the mnemonics are looked up in the module and not in
  its default export, so none is found, and every network that has an account has the one and the same,
  derived from \<open>undefined\<close>; if that cannot be derived there is no configuration at all. So it is not the
  fund's account of any network, as the comment on the file says.
\<close>

theorem truffle_ignores_mnemonics:
  shows "truffleNetworks k (requiredMnemonics parsed) Map.empty = truffleNetworks k (requiredMnemonics parsed') Map.empty
     \<and> (case tkPrivateKey k JUndefined [0, 0] of
          Inl e \<Rightarrow> fst (truffleNetworks k (requiredMnemonics parsed) Map.empty) = Inl e
        | Inr key \<Rightarrow> \<exists>nets. fst (truffleNetworks k (requiredMnemonics parsed) Map.empty) = Inr nets
            \<and> map fst nets = [''alfajores'', ''alfajoresstaging'', ''baklava'', ''baklavastaging'', ''rc1'', ''test'']
            \<and> map (tnFrom \<circ> snd) nets = replicate 5 (Some (tkAddress k key)) @ [None]
            \<and> map (tnNetworkId \<circ> snd) nets = [44787, 1101, 62320, 44787, 42220, 1101])"
proof (cases "tkPrivateKey k JUndefined [0, 0]")
  case (Inl e)
  have "migratorAddressForEnv k (requiredMnemonics parsed) ''alfajores'' Map.empty = (Inl e, Map.empty)" for parsed
    by (simp add: migratorAddressForEnv_def walletForEnv_def required_undefined Inl gets_def liftSum_def andThen_def throw_def)
  then have "truffleNetworks k (requiredMnemonics parsed) Map.empty = (Inl e, Map.empty)" for parsed
    by (simp add: truffleNetworks_def andThen_def)
  then show ?thesis by (simp add: Inl)
next
  case (Inr key)
  have "truffleNetworks k (requiredMnemonics parsed) Map.empty =
      (Inr (let a = Some (tkAddress k key) in
       [(''alfajores'', baseNetworkConfig\<lparr>tnProviderEnv := Some ''alfajores'', tnFrom := a, tnNetworkId := 44787\<rparr>),
        (''alfajoresstaging'', baseNetworkConfig\<lparr>tnProviderEnv := Some ''alfajoresstaging'', tnFrom := a,
           tnNetworkId := 1101, tnGasPrice := Some 0\<rparr>),
        (''baklava'', baseNetworkConfig\<lparr>tnProviderEnv := Some ''baklava'', tnFrom := a, tnNetworkId := 62320\<rparr>),
        (''baklavastaging'', emptyNetworkConfig\<lparr>tnProviderEnv := Some ''baklavastaging'', tnFrom := a,
           tnNetworkId := 44787, tnGasPrice := Some 0\<rparr>),
        (''rc1'', emptyNetworkConfig\<lparr>tnProviderEnv := Some ''rc1'', tnFrom := a, tnNetworkId := 42220\<rparr>),
        (''test'', baseNetworkConfig\<lparr>tnHostPort := Some (''localhost'', ''8565''), tnNetworkId := 1101\<rparr>)]),
       [''alfajores'' \<mapsto> [key], ''alfajoresstaging'' \<mapsto> [key], ''baklava'' \<mapsto> [key], ''baklavastaging'' \<mapsto> [key],
        ''rc1'' \<mapsto> [key]])" for parsed
    by (simp add: truffleNetworks_def andThen_def migrator_run [OF Inr] ret_app Let_def)
  then show ?thesis by (simp add: Inr Let_def baseNetworkConfig_def emptyNetworkConfig_def numeral_eq_Suc)
qed

end
