(* ===== verification/Db_Schema.thy ===== *)
theory Db_Schema
  imports Session
begin

text \<open>
  The databases of the api and of the rewards service: the migrations of \<open>packages/apps/api/src/migrations\<close> and
  \<open>packages/apps/rewards/src/migrations\<close> as the commands they send, the tables the entities declare
  (\<open>*.entity.ts\<close>), and how the two fit. The database and TypeORM's query runner are a parameter, of which
  \<open>sql_documented\<close> states what the commands are documented to do.
\<close>

section \<open>Tables and commands\<close>

text \<open>
  A column as in TypeORM's \<open>Table\<close> and \<open>@Column\<close>: not nullable, not unique and not part of the key unless it
  says so. The value of a default is the JSON that is stored.
\<close>

record table_column =
  colName :: string
  colType :: string
  isNullable :: bool
  isUnique :: bool
  isPrimary :: bool
  colDefault :: "js_value option"

definition column :: "string \<Rightarrow> string \<Rightarrow> table_column" where
  "column name type =
     \<lparr>colName = name, colType = type, isNullable = False, isUnique = False, isPrimary = False, colDefault = None\<rparr>"

record table_def =
  tblName :: string
  tblColumns :: "table_column list"
  tblIndices :: "string list list"
  tblUniques :: "string list list"

type_synonym database = "string \<Rightarrow> table_def option"

datatype ddl =
    CreateTable table_def bool
  | RawQuery string
  | CreateIndex string "string list"
  | DropIndex string "string list"

text \<open>A migration awaits its commands, but for one that is sent and left to itself.\<close>

datatype migration_step = Awaited ddl | Unawaited ddl

record migration =
  migTimestamp :: nat
  up :: "migration_step list"
  down :: "migration_step list"

section \<open>Migrations of the rewards service\<close>

definition inviteRewardTable :: table_def where
  "inviteRewardTable =
     \<lparr>tblName = ''invite_reward'',
      tblColumns =
        [(column ''id'' ''uuid'')\<lparr>isPrimary := True\<rparr>,
         column ''inviter'' ''varchar'',
         (column ''invitee'' ''varchar'')\<lparr>isUnique := True\<rparr>,
         (column ''inviteeIdentifier'' ''varchar'')\<lparr>isUnique := True\<rparr>,
         column ''state'' ''varchar'',
         (column ''rewardTxHash'' ''varchar'')\<lparr>isNullable := True, isUnique := True\<rparr>,
         column ''createdAt'' ''timestamp''],
      tblIndices = [[''inviter'']],
      tblUniques = []\<rparr>"

definition CreateInviteReward :: migration where
  "CreateInviteReward =
     \<lparr>migTimestamp = 1616435724783,
      up = [Awaited (CreateTable inviteRewardTable True)],
      down = [Awaited (RawQuery ''DROP TABLE invite_reward'')]\<rparr>"

definition notifiedBlockTable :: table_def where
  "notifiedBlockTable =
     \<lparr>tblName = ''notified_block'',
      tblColumns =
        [(column ''id'' ''uuid'')\<lparr>isPrimary := True\<rparr>,
         (column ''key'' ''varchar'')\<lparr>isUnique := True\<rparr>,
         column ''blockNumber'' ''integer''],
      tblIndices = [],
      tblUniques = []\<rparr>"

definition CreateNotifiedBlock :: migration where
  "CreateNotifiedBlock =
     \<lparr>migTimestamp = 1616435756861,
      up = [Awaited (CreateTable notifiedBlockTable True)],
      down = [Awaited (RawQuery ''DROP TABLE notified_block'')]\<rparr>"

definition attestationTable :: table_def where
  "attestationTable =
     \<lparr>tblName = ''attestation'',
      tblColumns =
        [(column ''id'' ''uuid'')\<lparr>isPrimary := True\<rparr>,
         column ''txHash'' ''varchar'',
         column ''issuer'' ''varchar'',
         column ''address'' ''varchar'',
         column ''identifier'' ''varchar'',
         column ''createdAt'' ''timestamp''],
      tblIndices = [],
      tblUniques = [[''issuer'', ''txHash'']]\<rparr>"

definition CreateAttestation :: migration where
  "CreateAttestation =
     \<lparr>migTimestamp = 1617063533846,
      up = [Awaited (CreateTable attestationTable True)],
      down = [Awaited (RawQuery ''DROP TABLE \"attestation\"'')]\<rparr>"

definition AddIndexOnRewardState :: migration where
  "AddIndexOnRewardState =
     \<lparr>migTimestamp = 1620185961145,
      up = [Awaited (CreateIndex ''invite_reward'' [''state''])],
      down = [Awaited (DropIndex ''invite_reward'' [''state''])]\<rparr>"

definition accountWalletMappingTable :: table_def where
  "accountWalletMappingTable =
     \<lparr>tblName = ''account_wallet_mapping'',
      tblColumns =
        [(column ''id'' ''uuid'')\<lparr>isPrimary := True\<rparr>,
         column ''txHash'' ''varchar'',
         column ''accountAddress'' ''varchar'',
         column ''walletAddress'' ''varchar'',
         column ''createdAt'' ''timestamp''],
      tblIndices = [[''walletAddress'']],
      tblUniques = [[''accountAddress'', ''walletAddress'']]\<rparr>"

definition CreateAccountWalletMapping :: migration where
  "CreateAccountWalletMapping =
     \<lparr>migTimestamp = 1621997305128,
      up = [Awaited (CreateTable accountWalletMappingTable True)],
      down = [Awaited (RawQuery ''DROP TABLE \"account_wallet_mapping\"'')]\<rparr>"

definition AddInviteTokenToInviteReward :: migration where
  "AddInviteTokenToInviteReward =
     \<lparr>migTimestamp = 1633031131296,
      up = [Awaited (RawQuery ''ALTER TABLE invite_reward ADD COLUMN \"inviteToken\" varchar(10)'')],
      down = []\<rparr>"

definition rewardsMigrations :: "migration list" where
  "rewardsMigrations =
     [CreateInviteReward, CreateNotifiedBlock, CreateAttestation, AddIndexOnRewardState,
      CreateAccountWalletMapping, AddInviteTokenToInviteReward]"

section \<open>The migration of the api\<close>

definition sessionTable :: table_def where
  "sessionTable =
     \<lparr>tblName = ''session'',
      tblColumns =
        [column ''id'' ''uuid'',
         column ''externalAccount'' ''varchar'',
         (column ''meta'' ''json'')\<lparr>isNullable := True\<rparr>,
         column ''createdAt'' ''timestamp'',
         (column ''expiredAt'' ''timestamp'')\<lparr>isNullable := True\<rparr>,
         (column ''completedAt'' ''timestamp'')\<lparr>isNullable := True\<rparr>],
      tblIndices = [],
      tblUniques = []\<rparr>"

definition sessionMigration :: migration where
  "sessionMigration =
     \<lparr>migTimestamp = 1607954006850,
      up = [Awaited (CreateTable sessionTable True)],
      down = [Unawaited (RawQuery ''DROP TABLE session'')]\<rparr>"

section \<open>Entities\<close>

text \<open>
  The table and the columns an entity declares. \<open>@Entity()\<close> names the table after the class, in snake case, and
  \<open>@Column()\<close> takes its type from the type of the property.
\<close>

record entity =
  enTable :: string
  enColumns :: "table_column list"

definition InviteRewardEntity :: entity where
  "InviteRewardEntity =
     \<lparr>enTable = ''invite_reward'',
      enColumns =
        [(column ''id'' ''uuid'')\<lparr>isPrimary := True\<rparr>,
         column ''inviter'' ''varchar'',
         (column ''invitee'' ''varchar'')\<lparr>isUnique := True\<rparr>,
         (column ''inviteeIdentifier'' ''varchar'')\<lparr>isUnique := True\<rparr>,
         column ''state'' ''varchar'',
         (column ''rewardTxHash'' ''varchar'')\<lparr>isUnique := True\<rparr>,
         column ''inviteToken'' ''varchar'',
         column ''createdAt'' ''timestamp'']\<rparr>"

definition NotifiedBlockEntity :: entity where
  "NotifiedBlockEntity =
     \<lparr>enTable = ''notified_block'',
      enColumns =
        [(column ''id'' ''uuid'')\<lparr>isPrimary := True\<rparr>,
         (column ''key'' ''varchar'')\<lparr>isUnique := True\<rparr>,
         column ''blockNumber'' ''integer'']\<rparr>"

definition AttestationEntity :: entity where
  "AttestationEntity =
     \<lparr>enTable = ''attestation'',
      enColumns =
        [(column ''id'' ''uuid'')\<lparr>isPrimary := True\<rparr>,
         column ''txHash'' ''varchar'',
         column ''issuer'' ''varchar'',
         column ''address'' ''varchar'',
         column ''identifier'' ''varchar'',
         column ''createdAt'' ''timestamp'']\<rparr>"

definition AddressMappingsEntity :: entity where
  "AddressMappingsEntity =
     \<lparr>enTable = ''account_wallet_mapping'',
      enColumns =
        [(column ''id'' ''uuid'')\<lparr>isPrimary := True\<rparr>,
         column ''txHash'' ''varchar'',
         column ''walletAddress'' ''varchar'',
         column ''accountAddress'' ''varchar'',
         column ''createdAt'' ''timestamp'']\<rparr>"

definition SessionEntity :: entity where
  "SessionEntity =
     \<lparr>enTable = ''session'',
      enColumns =
        [(column ''id'' ''uuid'')\<lparr>isPrimary := True\<rparr>,
         column ''externalAccount'' ''varchar'',
         (column ''meta'' ''json'')\<lparr>isNullable := True, colDefault := Some (JObj [(''callCount'', JObj [])])\<rparr>,
         column ''createdAt'' ''timestamp'',
         (column ''expiredAt'' ''timestamp'')\<lparr>isNullable := True\<rparr>,
         (column ''completedAt'' ''timestamp'')\<lparr>isNullable := True\<rparr>]\<rparr>"

text \<open>The entities of the configurations of the two databases (\<open>database.config.ts\<close>)\<close>

definition rewardsEntities :: "entity list" where
  "rewardsEntities = [InviteRewardEntity, NotifiedBlockEntity, AttestationEntity, AddressMappingsEntity]"

definition apiEntities :: "entity list" where
  "apiEntities = [SessionEntity]"

section \<open>Running migrations\<close>

text \<open>
  Names of tables and columns, and those that need no quotes. A table is created unless it exists and that is
  tolerated; an index has a name made of its table and columns, so it cannot be created twice; an added
  column may be null.
\<close>

definition plain_name :: "string \<Rightarrow> bool" where
  "plain_name n \<longleftrightarrow> n \<noteq> [] \<and> list_all (\<lambda>c. c \<noteq> CHR '' '' \<and> c \<noteq> CHR 0x22) n"

definition folded_name :: "string \<Rightarrow> bool" where
  "folded_name n \<longleftrightarrow> plain_name n \<and> js_lower n = n"

definition dropTable :: "string \<Rightarrow> database \<Rightarrow> database option" where
  "dropTable n db = (case db n of None \<Rightarrow> None | Some t \<Rightarrow> Some (db(n := None)))"

definition addColumn :: "string \<Rightarrow> string \<Rightarrow> string \<Rightarrow> database \<Rightarrow> database option" where
  "addColumn n c type db =
     (case db n of
        None \<Rightarrow> None
      | Some t \<Rightarrow>
          if c \<in> colName ` set (tblColumns t) then None
          else Some (db(n \<mapsto> t\<lparr>tblColumns := tblColumns t @ [(column c type)\<lparr>isNullable := True\<rparr>]\<rparr>)))"

definition createTable :: "table_def \<Rightarrow> bool \<Rightarrow> database \<Rightarrow> database option" where
  "createTable t ifNotExist db =
     (case db (tblName t) of
        None \<Rightarrow> Some (db(tblName t \<mapsto> t))
      | Some _ \<Rightarrow> if ifNotExist then Some db else None)"

definition createIndex :: "string \<Rightarrow> string list \<Rightarrow> database \<Rightarrow> database option" where
  "createIndex n cols db =
     (case db n of
        None \<Rightarrow> None
      | Some t \<Rightarrow>
          if cols \<in> set (tblIndices t) then None
          else Some (db(n \<mapsto> t\<lparr>tblIndices := tblIndices t @ [cols]\<rparr>)))"

definition dropIndex :: "string \<Rightarrow> string list \<Rightarrow> database \<Rightarrow> database option" where
  "dropIndex n cols db =
     (case db n of
        None \<Rightarrow> None
      | Some t \<Rightarrow>
          if cols \<in> set (tblIndices t) then Some (db(n \<mapsto> t\<lparr>tblIndices := filter (\<lambda>i. i \<noteq> cols) (tblIndices t)\<rparr>))
          else None)"

type_synonym runner = "ddl \<Rightarrow> database \<Rightarrow> database option"

definition sql_documented :: "runner \<Rightarrow> bool" where
  "sql_documented R \<longleftrightarrow>
     (\<forall>t b. R (CreateTable t b) = createTable t b) \<and>
     (\<forall>n cols. R (CreateIndex n cols) = createIndex n cols) \<and>
     (\<forall>n cols. R (DropIndex n cols) = dropIndex n cols) \<and>
     (\<forall>n. folded_name n \<longrightarrow> R (RawQuery (''DROP TABLE '' @ n)) = dropTable n) \<and>
     (\<forall>n. plain_name n \<longrightarrow> R (RawQuery (''DROP TABLE \"'' @ n @ ''\"'')) = dropTable n) \<and>
     (\<forall>n c type. folded_name n \<and> plain_name c \<and> plain_name type \<longrightarrow>
        R (RawQuery (''ALTER TABLE '' @ n @ '' ADD COLUMN \"'' @ c @ ''\" '' @ type)) = addColumn n c type)"

fun runSteps :: "runner \<Rightarrow> migration_step list \<Rightarrow> database \<Rightarrow> database option" where
  "runSteps R [] db = Some db"
| "runSteps R (Awaited d # steps) db = (case R d db of None \<Rightarrow> None | Some db' \<Rightarrow> runSteps R steps db')"
| "runSteps R (Unawaited d # steps) db = runSteps R steps (case R d db of None \<Rightarrow> db | Some db' \<Rightarrow> db')"

definition migrate :: "runner \<Rightarrow> migration list \<Rightarrow> database \<Rightarrow> database option" where
  "migrate R ms = runSteps R (concat (map up ms))"

definition revert :: "runner \<Rightarrow> migration list \<Rightarrow> database \<Rightarrow> database option" where
  "revert R ms = runSteps R (concat (map down (rev ms)))"

lemma migrations_in_order:
  "sorted (map migTimestamp rewardsMigrations)"
  by (simp add: rewardsMigrations_def CreateInviteReward_def CreateNotifiedBlock_def CreateAttestation_def
      AddIndexOnRewardState_def CreateAccountWalletMapping_def AddInviteTokenToInviteReward_def)

text \<open>The commands of the migrations, as they are documented\<close>

lemma documented_commands:
  assumes "sql_documented R"
  shows "R (CreateTable t b) = createTable t b"
    and "R (CreateIndex n cols) = createIndex n cols"
    and "R (DropIndex n cols) = dropIndex n cols"
    and "R (RawQuery ''DROP TABLE invite_reward'') = dropTable ''invite_reward''"
    and "R (RawQuery ''DROP TABLE notified_block'') = dropTable ''notified_block''"
    and "R (RawQuery ''DROP TABLE session'') = dropTable ''session''"
    and "R (RawQuery ''DROP TABLE \"attestation\"'') = dropTable ''attestation''"
    and "R (RawQuery ''DROP TABLE \"account_wallet_mapping\"'') = dropTable ''account_wallet_mapping''"
    and "R (RawQuery ''ALTER TABLE invite_reward ADD COLUMN \"inviteToken\" varchar(10)'')
           = addColumn ''invite_reward'' ''inviteToken'' ''varchar(10)''"
proof -
  note doc = assms [unfolded sql_documented_def]
  show "R (CreateTable t b) = createTable t b" "R (CreateIndex n cols) = createIndex n cols"
    "R (DropIndex n cols) = dropIndex n cols" using doc by simp_all
  have folded: "folded_name ''invite_reward''" "folded_name ''notified_block''" "folded_name ''session''" by code_simp+
  have plain: "plain_name ''attestation''" "plain_name ''account_wallet_mapping''" "plain_name ''inviteToken''"
    "plain_name ''varchar(10)''" by code_simp+
  have drop: "folded_name n \<Longrightarrow> R (RawQuery (''DROP TABLE '' @ n)) = dropTable n" for n using doc by blast
  have quoted: "plain_name n \<Longrightarrow> R (RawQuery (''DROP TABLE \"'' @ n @ ''\"'')) = dropTable n" for n using doc by blast
  have alter: "folded_name n \<Longrightarrow> plain_name c \<Longrightarrow> plain_name type \<Longrightarrow>
      R (RawQuery (''ALTER TABLE '' @ n @ '' ADD COLUMN \"'' @ c @ ''\" '' @ type)) = addColumn n c type" for n c type
    using doc by blast
  show "R (RawQuery ''DROP TABLE invite_reward'') = dropTable ''invite_reward''"
    "R (RawQuery ''DROP TABLE notified_block'') = dropTable ''notified_block''"
    "R (RawQuery ''DROP TABLE session'') = dropTable ''session''"
    using drop [OF folded(1)] drop [OF folded(2)] drop [OF folded(3)] by simp_all
  show "R (RawQuery ''DROP TABLE \"attestation\"'') = dropTable ''attestation''"
    "R (RawQuery ''DROP TABLE \"account_wallet_mapping\"'') = dropTable ''account_wallet_mapping''"
    using quoted [OF plain(1)] quoted [OF plain(2)] by simp_all
  show "R (RawQuery ''ALTER TABLE invite_reward ADD COLUMN \"inviteToken\" varchar(10)'')
      = addColumn ''invite_reward'' ''inviteToken'' ''varchar(10)''"
    using alter [OF folded(1) plain(3,4)] by simp
qed

lemmas migration_defs = CreateInviteReward_def CreateNotifiedBlock_def CreateAttestation_def
  AddIndexOnRewardState_def CreateAccountWalletMapping_def AddInviteTokenToInviteReward_def

text \<open>What is there after the migrations: the table of the invites has its index and its added column.\<close>

definition migratedInviteReward :: table_def where
  "migratedInviteReward = inviteRewardTable
     \<lparr>tblIndices := [[''inviter''], [''state'']],
      tblColumns := tblColumns inviteRewardTable @ [(column ''inviteToken'' ''varchar(10)'')\<lparr>isNullable := True\<rparr>]\<rparr>"

definition rewardsDatabase :: "database \<Rightarrow> database" where
  "rewardsDatabase db = db(''invite_reward'' \<mapsto> migratedInviteReward, ''notified_block'' \<mapsto> notifiedBlockTable,
     ''attestation'' \<mapsto> attestationTable, ''account_wallet_mapping'' \<mapsto> accountWalletMappingTable)"

definition without_tables :: "entity list \<Rightarrow> database \<Rightarrow> bool" where
  "without_tables es db \<longleftrightarrow> (\<forall>e \<in> set es. db (enTable e) = None)"

lemma rewards_migrated:
  assumes "sql_documented R" and "without_tables rewardsEntities db"
  shows "migrate R rewardsMigrations db = Some (rewardsDatabase db)"
proof -
  have none: "db ''invite_reward'' = None" "db ''notified_block'' = None" "db ''attestation'' = None"
    "db ''account_wallet_mapping'' = None"
    using assms(2)
    by (simp_all add: without_tables_def rewardsEntities_def InviteRewardEntity_def NotifiedBlockEntity_def
        AttestationEntity_def AddressMappingsEntity_def)
  have names: "tblName inviteRewardTable = ''invite_reward''" "tblName notifiedBlockTable = ''notified_block''"
    "tblName attestationTable = ''attestation''" "tblName accountWalletMappingTable = ''account_wallet_mapping''"
    "tblIndices inviteRewardTable = [[''inviter'']]"
    by (simp_all add: inviteRewardTable_def notifiedBlockTable_def attestationTable_def accountWalletMappingTable_def)
  have new: "''inviteToken'' \<notin> colName ` set (tblColumns inviteRewardTable)"
    by (simp add: inviteRewardTable_def column_def)
  show ?thesis
    unfolding migrate_def rewardsMigrations_def migration_defs
    using new
    by (simp add: documented_commands [OF assms(1)] createTable_def createIndex_def addColumn_def none names
        rewardsDatabase_def migratedInviteReward_def fun_upd_twist)
qed

section \<open>Tables and entities\<close>

text \<open>
  An entity fits a table when they have the same columns, of the same types up to a length, and the table
  allows every null and enforces every uniqueness that the entity declares.
\<close>

definition baseType :: "string \<Rightarrow> string" where
  "baseType t = takeWhile (\<lambda>c. c \<noteq> CHR ''('') t"

definition columnTypes :: "table_column list \<Rightarrow> (string \<times> string) set" where
  "columnTypes cs = (\<lambda>c. (colName c, baseType (colType c))) ` set cs"

definition nullables :: "table_column list \<Rightarrow> string set" where
  "nullables cs = colName ` {c \<in> set cs. isNullable c}"

definition uniqueSets :: "table_column list \<Rightarrow> string list set" where
  "uniqueSets cs = (\<lambda>c. [colName c]) ` {c \<in> set cs. isUnique c}"

definition fits :: "entity \<Rightarrow> table_def \<Rightarrow> bool" where
  "fits e t \<longleftrightarrow>
     columnTypes (enColumns e) = columnTypes (tblColumns t)
     \<and> nullables (enColumns e) \<subseteq> nullables (tblColumns t)
     \<and> uniqueSets (enColumns e) \<subseteq> uniqueSets (tblColumns t) \<union> set (tblUniques t)"

text \<open>What a table has and its entity does not declare\<close>

definition undeclaredNullables :: "entity \<Rightarrow> table_def \<Rightarrow> string set" where
  "undeclaredNullables e t = nullables (tblColumns t) - nullables (enColumns e)"

definition undeclaredUniques :: "entity \<Rightarrow> table_def \<Rightarrow> string list set" where
  "undeclaredUniques e t = (uniqueSets (tblColumns t) \<union> set (tblUniques t)) - uniqueSets (enColumns e)"

lemmas schema_defs = InviteRewardEntity_def NotifiedBlockEntity_def AttestationEntity_def AddressMappingsEntity_def
  inviteRewardTable_def migratedInviteReward_def notifiedBlockTable_def attestationTable_def accountWalletMappingTable_def

lemma columns_Cons:
  "columnTypes [] = {}" "columnTypes (c # cs) = insert (colName c, baseType (colType c)) (columnTypes cs)"
  "nullables [] = {}" "nullables (c # cs) = (if isNullable c then insert (colName c) (nullables cs) else nullables cs)"
  "uniqueSets [] = {}" "uniqueSets (c # cs) = (if isUnique c then insert [colName c] (uniqueSets cs) else uniqueSets cs)"
  by (auto simp: columnTypes_def nullables_def uniqueSets_def)

lemma rewards_entities_fit:
  "fits InviteRewardEntity migratedInviteReward" "fits NotifiedBlockEntity notifiedBlockTable"
  "fits AttestationEntity attestationTable" "fits AddressMappingsEntity accountWalletMappingTable"
  unfolding fits_def schema_defs
  by (auto simp add: column_def columns_Cons baseType_def)

lemma rewards_undeclared:
  "undeclaredNullables InviteRewardEntity migratedInviteReward = {''rewardTxHash'', ''inviteToken''}"
  "undeclaredUniques AttestationEntity attestationTable = {[''issuer'', ''txHash'']}"
  "undeclaredUniques AddressMappingsEntity accountWalletMappingTable = {[''accountAddress'', ''walletAddress'']}"
  unfolding undeclaredNullables_def undeclaredUniques_def schema_defs
  by (auto simp add: column_def columns_Cons)

text \<open>
  In a database without its tables the migrations of the rewards service run to their end, touch no other
  table, and leave for every entity a table it fits. The tables promise more than the entities say: an
  issuer's transaction and a pair of account and wallet are stored once; and they allow a reward without
  transaction, which the entity does not.
\<close>

theorem migrations_fit_entities:
  assumes "sql_documented R" and "without_tables rewardsEntities db"
  shows "\<exists>db'. migrate R rewardsMigrations db = Some db'
     \<and> (\<forall>e \<in> set rewardsEntities. \<exists>t. db' (enTable e) = Some t \<and> fits e t)
     \<and> (\<forall>n. n \<notin> enTable ` set rewardsEntities \<longrightarrow> db' n = db n)
     \<and> undeclaredUniques AttestationEntity (the (db' ''attestation'')) = {[''issuer'', ''txHash'']}
     \<and> undeclaredUniques AddressMappingsEntity (the (db' ''account_wallet_mapping''))
         = {[''accountAddress'', ''walletAddress'']}
     \<and> undeclaredNullables InviteRewardEntity (the (db' ''invite_reward'')) = {''rewardTxHash'', ''inviteToken''}"
proof (intro exI conjI)
  show "migrate R rewardsMigrations db = Some (rewardsDatabase db)" by (rule rewards_migrated) (rule assms)+
  have tables: "enTable InviteRewardEntity = ''invite_reward''" "enTable NotifiedBlockEntity = ''notified_block''"
    "enTable AttestationEntity = ''attestation''" "enTable AddressMappingsEntity = ''account_wallet_mapping''"
    by (simp_all add: InviteRewardEntity_def NotifiedBlockEntity_def AttestationEntity_def AddressMappingsEntity_def)
  have at: "rewardsDatabase db ''invite_reward'' = Some migratedInviteReward"
    "rewardsDatabase db ''notified_block'' = Some notifiedBlockTable"
    "rewardsDatabase db ''attestation'' = Some attestationTable"
    "rewardsDatabase db ''account_wallet_mapping'' = Some accountWalletMappingTable"
    by (simp_all add: rewardsDatabase_def)
  show "\<forall>e \<in> set rewardsEntities. \<exists>t. rewardsDatabase db (enTable e) = Some t \<and> fits e t"
    by (simp add: rewardsEntities_def tables at rewards_entities_fit)
  show "\<forall>n. n \<notin> enTable ` set rewardsEntities \<longrightarrow> rewardsDatabase db n = db n"
    by (simp add: rewardsEntities_def tables rewardsDatabase_def)
  show "undeclaredUniques AttestationEntity (the (rewardsDatabase db ''attestation'')) = {[''issuer'', ''txHash'']}"
    "undeclaredUniques AddressMappingsEntity (the (rewardsDatabase db ''account_wallet_mapping''))
       = {[''accountAddress'', ''walletAddress'']}"
    "undeclaredNullables InviteRewardEntity (the (rewardsDatabase db ''invite_reward'')) = {''rewardTxHash'', ''inviteToken''}"
    by (simp_all add: at rewards_undeclared)
qed

text \<open>
  A runner that does what is documented, on the words of a query; a database without any table
\<close>

fun sql_words :: "string \<Rightarrow> string list" where
  "sql_words [] = [[]]"
| "sql_words (c # s) =
     (if c = CHR '' '' then [] # sql_words s
      else (case sql_words s of [] \<Rightarrow> [[c]] | w # ws \<Rightarrow> (c # w) # ws))"

definition unquote :: "string \<Rightarrow> string" where
  "unquote w = (if take 1 w = [CHR 0x22] then butlast (tl w) else w)"

fun std_runner :: runner where
  "std_runner (CreateTable t b) = createTable t b"
| "std_runner (CreateIndex n cols) = createIndex n cols"
| "std_runner (DropIndex n cols) = dropIndex n cols"
| "std_runner (RawQuery q) =
     (case sql_words q of
        [w1, w2, n] \<Rightarrow> if w1 = ''DROP'' \<and> w2 = ''TABLE'' then dropTable (unquote n) else (\<lambda>db. None)
      | [w1, w2, n, w3, w4, c, type] \<Rightarrow>
          if w1 = ''ALTER'' \<and> w2 = ''TABLE'' \<and> w3 = ''ADD'' \<and> w4 = ''COLUMN''
          then addColumn (unquote n) (unquote c) type else (\<lambda>db. None)
      | _ \<Rightarrow> (\<lambda>db. None))"

lemma sql_words_one: "CHR '' '' \<notin> set w \<Longrightarrow> sql_words w = [w]"
  by (induction w) auto

lemma sql_words_append: "CHR '' '' \<notin> set w \<Longrightarrow> sql_words (w @ CHR '' '' # s) = w # sql_words s"
  by (induction w) auto

lemma plain_nameD:
  "plain_name n \<Longrightarrow> CHR '' '' \<notin> set n" "plain_name n \<Longrightarrow> unquote n = n"
  "plain_name n \<Longrightarrow> unquote (CHR 0x22 # n @ [CHR 0x22]) = n"
  by (cases n; auto simp: plain_name_def list_all_iff unquote_def)+

lemma std_runner_documented: "sql_documented std_runner"
proof -
  have drop: "std_runner (RawQuery (''DROP TABLE '' @ n)) = dropTable (unquote n)" if "CHR '' '' \<notin> set n" for n
    using sql_words_one [OF that] by simp
  have alter: "std_runner (RawQuery (''ALTER TABLE '' @ n @ '' ADD COLUMN \"'' @ c @ ''\" '' @ type))
      = addColumn n (unquote (CHR 0x22 # c @ [CHR 0x22])) type"
    if "plain_name n" "plain_name c" "plain_name type" for n c type
  proof -
    have "CHR '' '' \<notin> set (CHR 0x22 # c @ [CHR 0x22])" using plain_nameD(1) [OF that(2)] by simp
    from sql_words_append [OF this, of type] have
      "sql_words (CHR 0x22 # c @ CHR 0x22 # CHR '' '' # type) = [CHR 0x22 # c @ [CHR 0x22], type]"
      by (simp add: sql_words_one plain_nameD(1) [OF that(3)] del: sql_words.simps)
    then have "sql_words (''ADD COLUMN \"'' @ c @ ''\" '' @ type) = [''ADD'', ''COLUMN'', CHR 0x22 # c @ [CHR 0x22], type]"
      using sql_words_append [of "''ADD''"] sql_words_append [of "''COLUMN''"] by simp
    then have "sql_words (n @ CHR '' '' # (''ADD COLUMN \"'' @ c @ ''\" '' @ type))
        = [n, ''ADD'', ''COLUMN'', CHR 0x22 # c @ [CHR 0x22], type]"
      by (simp only: sql_words_append plain_nameD(1) [OF that(1)] not_False_eq_True)
    then have "sql_words (''ALTER TABLE '' @ n @ '' ADD COLUMN \"'' @ c @ ''\" '' @ type)
        = [''ALTER'', ''TABLE'', n, ''ADD'', ''COLUMN'', CHR 0x22 # c @ [CHR 0x22], type]"
      by simp
    then show ?thesis by (simp add: plain_nameD(2) [OF that(1)])
  qed
  show ?thesis
    unfolding sql_documented_def
  proof (intro conjI allI impI)
    fix n :: string
    assume "plain_name n"
    then show "std_runner (RawQuery (''DROP TABLE \"'' @ n @ ''\"'')) = dropTable n"
      using drop [of "CHR 0x22 # n @ [CHR 0x22]"] plain_nameD(1,3) [of n] by simp
  next
    fix n :: string
    assume "folded_name n"
    then show "std_runner (RawQuery (''DROP TABLE '' @ n)) = dropTable n"
      using drop [of n] plain_nameD(1,2) [of n] by (simp add: folded_name_def)
  next
    fix n c type :: string
    assume "folded_name n \<and> plain_name c \<and> plain_name type"
    then show "std_runner (RawQuery (''ALTER TABLE '' @ n @ '' ADD COLUMN \"'' @ c @ ''\" '' @ type)) = addColumn n c type"
      using alter [of n c type] plain_nameD(3) [of c] by (simp add: folded_name_def)
  qed simp_all
qed

lemma migrations_fit_entities_witness:
  "\<exists>db'. migrate std_runner rewardsMigrations (\<lambda>_. None) = Some db'
     \<and> (\<forall>e \<in> set rewardsEntities. \<exists>t. db' (enTable e) = Some t \<and> fits e t)"
proof -
  have "without_tables rewardsEntities (\<lambda>_. None)" by (simp add: without_tables_def)
  from migrations_fit_entities [OF std_runner_documented this] show ?thesis
    by (elim exE conjE) (intro exI conjI, assumption+)
qed

section \<open>Rolling back\<close>

lemma tables_removed:
  assumes "db i = None" "db n = None" "db a = None" "db m = None"
  shows "(db(i := i', n := n', a := a', m := m'))(m := None, i := t, a := None, n := None, i := None) = db"
  using assms by (auto simp: fun_eq_iff)

text \<open>
  Reverting the migrations of the rewards service gives the database back as it was before them. But the
  last one alone cannot be reverted: its \<open>down\<close> does nothing, so that the column stays and running the
  migration again fails; nor can a database that has all of them run them once more, as it does when their
  history was kept in another table.
\<close>

theorem migrations_roll_back:
  assumes "sql_documented R" and "without_tables rewardsEntities db"
    and "migrate R rewardsMigrations db = Some db'"
  shows "revert R rewardsMigrations db' = Some db
     \<and> revert R [AddInviteTokenToInviteReward] db' = Some db'
     \<and> migrate R [AddInviteTokenToInviteReward] db' = None
     \<and> migrate R rewardsMigrations db' = None"
proof -
  have db': "db' = rewardsDatabase db" using rewards_migrated [OF assms(1,2)] assms(3) by simp
  have none: "db ''invite_reward'' = None" "db ''notified_block'' = None" "db ''attestation'' = None"
    "db ''account_wallet_mapping'' = None"
    using assms(2)
    by (simp_all add: without_tables_def rewardsEntities_def InviteRewardEntity_def NotifiedBlockEntity_def
        AttestationEntity_def AddressMappingsEntity_def)
  have at: "rewardsDatabase db ''invite_reward'' = Some migratedInviteReward"
    "rewardsDatabase db ''notified_block'' = Some notifiedBlockTable"
    "rewardsDatabase db ''attestation'' = Some attestationTable"
    "rewardsDatabase db ''account_wallet_mapping'' = Some accountWalletMappingTable"
    by (simp_all add: rewardsDatabase_def)
  have indices: "tblIndices migratedInviteReward = [[''inviter''], [''state'']]"
    and column: "''inviteToken'' \<in> colName ` set (tblColumns migratedInviteReward)"
    by (simp_all add: migratedInviteReward_def column_def)
  have names: "tblName inviteRewardTable = ''invite_reward''" "tblName notifiedBlockTable = ''notified_block''"
    "tblName attestationTable = ''attestation''"
    by (simp_all add: inviteRewardTable_def notifiedBlockTable_def attestationTable_def)
  note run = documented_commands [OF assms(1)]
  have cleared: "(rewardsDatabase db)(''account_wallet_mapping'' := None, ''invite_reward'' := t, ''attestation'' := None,
      ''notified_block'' := None, ''invite_reward'' := None) = db" for t
    unfolding rewardsDatabase_def by (rule tables_removed) (simp_all add: none)
  have "revert R rewardsMigrations db' = Some db"
    unfolding revert_def rewardsMigrations_def migration_defs db'
    by (simp add: run dropTable_def dropIndex_def at indices cleared)
  moreover have "revert R [AddInviteTokenToInviteReward] db' = Some db'"
    by (simp add: revert_def AddInviteTokenToInviteReward_def)
  moreover have "migrate R [AddInviteTokenToInviteReward] db' = None"
    using column by (simp add: migrate_def AddInviteTokenToInviteReward_def run addColumn_def db' at)
  moreover have "migrate R rewardsMigrations db' = None"
    unfolding migrate_def rewardsMigrations_def migration_defs db'
    by (simp add: run createTable_def createIndex_def names at indices)
  ultimately show ?thesis by simp
qed

lemma migrations_roll_back_witness:
  "\<exists>db'. migrate std_runner rewardsMigrations (\<lambda>_. None) = Some db'
     \<and> revert std_runner rewardsMigrations db' = Some (\<lambda>_. None)
     \<and> migrate std_runner [AddInviteTokenToInviteReward] db' = None"
proof -
  have empty: "without_tables rewardsEntities (\<lambda>_. None)" by (simp add: without_tables_def)
  note run = rewards_migrated [OF std_runner_documented empty]
  from migrations_roll_back [OF std_runner_documented empty run] run show ?thesis
    by (elim conjE) (intro exI conjI, assumption+)
qed

section \<open>Sessions\<close>

text \<open>
  The table of the sessions fits its entity, but has no key and not the default of the metadata: a session
  is stored without metadata, as \<open>createSession\<close> has it, while in a table made from the entity it would have
  empty call counts.
\<close>

lemma session_table_lacks_default:
  assumes "sql_documented R" and "db ''session'' = None"
  shows "migrate R [sessionMigration] db = Some (db(''session'' \<mapsto> sessionTable))
     \<and> fits SessionEntity sessionTable
     \<and> (\<forall>c \<in> set (tblColumns sessionTable). colDefault c = None \<and> \<not> isPrimary c)
     \<and> (\<exists>c \<in> set (enColumns SessionEntity). colName c = ''meta''
          \<and> colDefault c = Some (JObj [(''callCount'', JObj [])]))"
proof (intro conjI)
  have "tblName sessionTable = ''session''" by (simp add: sessionTable_def)
  then show "migrate R [sessionMigration] db = Some (db(''session'' \<mapsto> sessionTable))"
    by (simp add: migrate_def sessionMigration_def documented_commands [OF assms(1)] createTable_def assms(2))
  show "fits SessionEntity sessionTable"
    by (auto simp add: fits_def SessionEntity_def sessionTable_def column_def columns_Cons baseType_def)
  show "\<forall>c \<in> set (tblColumns sessionTable). colDefault c = None \<and> \<not> isPrimary c"
    by (simp add: sessionTable_def column_def)
  show "\<exists>c \<in> set (enColumns SessionEntity). colName c = ''meta'' \<and> colDefault c = Some (JObj [(''callCount'', JObj [])])"
    by (simp add: SessionEntity_def column_def)
qed

end
