(* ===== verification/Example_Flow.thy ===== *)
theory Example_Flow
  imports Load_Test
begin

text \<open>
  The example of the kit (\<open>packages/libs/komencikit/examples/attestation-flow.ts\<close>), a client that takes an account
  from a captcha token to verified attestations: its choice of a service and a wallet implementation, the
  calls of the kit it makes one after the other, and the loop that asks for codes. What it writes to the
  console is left out.
\<close>

section \<open>What it is started with\<close>

text \<open>The tables by name of environment and network, in their order\<close>

definition exampleEnvs :: "string list" where
  "exampleEnvs = [''local'', ''alfajores_weu'', ''alfajores_eus'', ''rc1_br'', ''rc1_sea'']"

definition exampleNetwork :: "string \<Rightarrow> thrown + string" where
  "exampleNetwork env =
     (if env = ''alfajores_weu'' \<or> env = ''alfajores_eus'' \<or> env = ''local'' then Inr ''alfajores''
      else if env = ''rc1_br'' \<or> env = ''rc1_sea'' then Inr ''rc1''
      else Inl (ErrorObject (plain_error ''Could not determine network'')))"

definition exampleImplementations :: "string \<Rightarrow> (string \<times> string) list" where
  "exampleImplementations network =
     (if network = ''alfajores''
      then [(''1.1.0.0-p1'', ''0x88a2b9B8387A1823D821E406b4e951337fa1D46D''),
            (''1.1.0.0-p2'', ''0x786ec5A4F8DCad3A58D5B1A04cc99B019E426065''),
            (''1.1.0.0-p3'', ''0x5C9a6E3c3E862eD306E2E3348EBC8b8310A99e5A'')]
      else [(''1.1.0.0-p2'', ''0x6511FB5DBfe95859d8759AdAd5503D656E2555d7'')])"

definition exampleOdisKey :: "string \<Rightarrow> string" where
  "exampleOdisKey network =
     (if network = ''alfajores''
      then ''kPoRxWdEdZ/Nd3uQnp3FJFs54zuiS+ksqvOm9x8vY6KHPG8jrfqysvIRU0wtqYsBKA7SoAsICMBv8C/Fb2ZpDOqhSqvr/sZbZoHmQfvbqrzbtDIPvUIrHgRS0ydJCMsA''
      else ''FvreHfLmhBjwxHxsxeyrcOLtSonC9j7K3WrS4QapYsQH6LdaDTaNGmnlQMfFY04Bp/K4wAvqQwO9/bqPVCKf8Ze8OZo8Frmog4JY4xAiwrsqOXxug11+htjEe1pj4uMA'')"

definition exampleForno :: "string \<Rightarrow> string" where
  "exampleForno network =
     (if network = ''alfajores'' then ''https://alfajores-forno.celo-testnet.org''
      else ''https://rc1-forno.celo-testnet.org'')"

definition exampleService :: "string \<Rightarrow> string option" where
  "exampleService =
     map_of [(''local'', ''http://localhost:3000''),
             (''alfajores_weu'', ''https://weu.komenci.alfajores.celo-testnet.org''),
             (''alfajores_eus'', ''https://eus.komenci.alfajores.celo-testnet.org''),
             (''rc1_br'', ''https://br.komenci.rc1.celo-testnet.org''),
             (''rc1_sea'', ''https://sea.komenci.rc1.celo-testnet.org'')]"

text \<open>
  The arguments of the command line: environment, captcha token and version of the wallet. A version that is a
  property every object has is left out.
\<close>

record example_config =
  exCaptchaToken :: string
  exNetwork :: string
  exImplementation :: string
  exUrl :: string

definition argumentOr :: "string option \<Rightarrow> string \<Rightarrow> string" where
  "argumentOr a dflt = (case a of None \<Rightarrow> dflt | Some s \<Rightarrow> if s = [] then dflt else s)"

definition exampleConfig :: "string option \<Rightarrow> string option \<Rightarrow> string option \<Rightarrow> thrown + example_config" where
  "exampleConfig envArg captchaArg versionArg =
     (let env = argumentOr envArg ''local'' in
      case exampleNetwork env of
        Inl e \<Rightarrow> Inl e
      | Inr network \<Rightarrow>
          (let implementations = exampleImplementations network;
               contractVersion = (case versionArg of None \<Rightarrow> fst (last implementations) | Some v \<Rightarrow> v) in
           case map_of implementations contractVersion of
             None \<Rightarrow> Inl (ErrorObject (plain_error ''invalid contract version''))
           | Some implementation \<Rightarrow>
               Inr \<lparr>exCaptchaToken = argumentOr captchaArg ''special-captcha-bypass-token'', exNetwork = network,
                    exImplementation = implementation, exUrl = the (exampleService env)\<rparr>))"

section \<open>The flow\<close>

text \<open>
  What the flow calls beside the kit: the contract of the attestations, the blinding client and the terminal. An
  attestation that can be completed is its issuer.
\<close>

record ('w, 'm) example_port = "('w, 'm) kit_port" +
  xpBlsClient :: "string \<Rightarrow> js_value"
  xpAttestationStat :: "js_value \<Rightarrow> string \<Rightarrow> string \<Rightarrow> ('w, thrown, js_value) io"
  xpPastEvents :: "js_value \<Rightarrow> string \<Rightarrow> int \<Rightarrow> int \<Rightarrow> ('w, thrown, js_value list) io"
  xpActionable :: "js_value \<Rightarrow> string \<Rightarrow> string \<Rightarrow> ('w, thrown, string list) io"
  xpQuestion :: "('w, thrown, string) io"
  xpBase64ToHex :: "string \<Rightarrow> string"
  xpFindMatchingIssuer :: "js_value \<Rightarrow> string \<Rightarrow> string \<Rightarrow> string \<Rightarrow> string list \<Rightarrow> ('w, thrown, string option) io"
  xpValidateCode :: "js_value \<Rightarrow> string \<Rightarrow> string \<Rightarrow> string \<Rightarrow> string \<Rightarrow> ('w, thrown, bool) io"

type_synonym ('w, 'm, 'a) flow_io = "('m kit_state \<times> 'w, thrown, 'a) io"

text \<open>
  Where a flow returns early, and how one that does not ends: with no attestation left to complete, by the
  answer \<open>exit\<close>, or in a callback that threw, whose promise is then never resolved.
\<close>

datatype flow_step =
    AtStartSession
  | AtCheckSession
  | AtDeployWallet
  | AtGetIdentifier
  | AtSecondCheckSession
  | AtSetAccount
  | AtRequestAttestations
  | AtSelectIssuers

datatype flow_end = Stopped flow_step | Completed | Exited | CallbackThrew thrown

definition atStep :: "flow_step \<Rightarrow> ('w, 'm, ('e, 'a) result) flow_io \<Rightarrow> ('w, 'm, (flow_step, 'a) result) flow_io" where
  "atStep step m = mapErr (\<lambda>_. step) m"

text \<open>Up to the wallet: the attestations contract and the wallet's address\<close>

definition flowWallet ::
    "celo_base \<Rightarrow> ('w, 'm) example_port \<Rightarrow> example_config \<Rightarrow> ('w, 'm, (flow_step, js_value \<times> string) result) flow_io" where
  "flowWallet cb p cfg =
     (let kit = kit_port.truncate p in
      andThen (ext (getAttestations p)) (\<lambda>attestations.
      andThenOk (atStep AtStartSession (kitStartSession kit (exCaptchaToken cfg))) (\<lambda>_.
      andThenOk (atStep AtCheckSession (kitCheckSession kit)) (\<lambda>_.
      andThenOk (atStep AtDeployWallet (kitDeployWallet cb kit (exImplementation cfg))) (\<lambda>walletAddr.
      ret (Ok (attestations, walletAddr)))))))"

text \<open>From the wallet to the loop: the identifier whose attestations are to be completed\<close>

definition flowAttestations ::
    "('w, 'm) example_port \<Rightarrow> example_config \<Rightarrow> string \<Rightarrow> string \<Rightarrow> js_value \<Rightarrow> string
      \<Rightarrow> ('w, 'm, (flow_step, string) result) flow_io" where
  "flowAttestations p cfg account dekPublicKey attestations walletAddr =
     (let kit = kit_port.truncate p in
      andThenOk (atStep AtGetIdentifier (kitGetDistributedBlindedPepper kit ''+105551234'' ''komenci-test''
          (xpBlsClient p (exampleOdisKey (exNetwork cfg))))) (\<lambda>(identifier, pepper).
      andThenOk (atStep AtSecondCheckSession (kitCheckSession kit)) (\<lambda>_.
      andThenOk (atStep AtSetAccount (kitSetAccount kit walletAddr [] dekPublicKey account)) (\<lambda>_.
      andThen (ext (xpAttestationStat p attestations identifier walletAddr)) (\<lambda>statsBefore.
      andThen (kitRequestAttestations kit walletAddr identifier 3) (\<lambda>requested.
      andThen (ext (xpAttestationStat p attestations identifier walletAddr)) (\<lambda>statsAfter.
      andThenOk (atStep AtRequestAttestations (ret requested)) (\<lambda>requestReceipt.
      andThen (ext (xpPastEvents p attestations ''AttestationsRequested''
          (receiptBlockNumber requestReceipt) (receiptBlockNumber requestReceipt))) (\<lambda>events.
      andThenOk (atStep AtSelectIssuers (kitSelectIssuers kit walletAddr identifier)) (\<lambda>selectReceipt.
      andThen (ext (xpPastEvents p attestations ''AttestationIssuerSelected''
          (receiptBlockNumber selectReceipt) (receiptBlockNumber selectReceipt))) (\<lambda>issuersEvents.
      andThen (ext (xpActionable p attestations identifier walletAddr)) (\<lambda>attestationsToComplete.
      ret (Ok identifier)))))))))))))"

text \<open>The callback of one question; it answers whether the program goes on.\<close>

definition codeAnswered ::
    "('w, 'm) example_port \<Rightarrow> js_value \<Rightarrow> string \<Rightarrow> string \<Rightarrow> string list \<Rightarrow> ('w, 'm, bool) flow_io" where
  "codeAnswered p attestations walletAddr identifier issuers =
     andThen (ext (xpQuestion p)) (\<lambda>base64Code.
     if base64Code = ''exit'' then ret False
     else
       (let code = xpBase64ToHex p base64Code in
        andThen (ext (xpFindMatchingIssuer p attestations identifier walletAddr code issuers)) (\<lambda>matchingIssuer.
        case matchingIssuer of
          None \<Rightarrow> ret True
        | Some issuer \<Rightarrow>
            andThen (ext (xpValidateCode p attestations identifier walletAddr issuer code)) (\<lambda>isValidRequest.
            if \<not> isValidRequest then ret True
            else
              andThen (kitCompleteAttestation (kit_port.truncate p) walletAddr identifier issuer code) (\<lambda>_.
              ret True)))))"

partial_function (option) code_loop ::
    "('w, 'm) example_port \<Rightarrow> js_value \<Rightarrow> string \<Rightarrow> string \<Rightarrow> 'm kit_state \<times> 'w \<Rightarrow>
     ((thrown + flow_end) \<times> ('m kit_state \<times> 'w)) option" where
  "code_loop p attestations walletAddr identifier sw =
     (case ext (xpActionable p attestations identifier walletAddr) sw of
        (Inl e, sw1) \<Rightarrow> Some (Inl e, sw1)
      | (Inr issuers, sw1) \<Rightarrow>
          if issuers = [] then Some (Inr Completed, sw1)
          else (case codeAnswered p attestations walletAddr identifier issuers sw1 of
                  (Inl e, sw2) \<Rightarrow> Some (Inr (CallbackThrew e), sw2)
                | (Inr goesOn, sw2) \<Rightarrow>
                    if goesOn then code_loop p attestations walletAddr identifier sw2
                    else Some (Inr Exited, sw2)))"

declare code_loop.simps [code]

definition exampleRun ::
    "celo_base \<Rightarrow> ('w, 'm) example_port \<Rightarrow> example_config \<Rightarrow> string \<Rightarrow> string \<Rightarrow> 'm kit_state \<times> 'w \<Rightarrow>
     ((thrown + flow_end) \<times> ('m kit_state \<times> 'w)) option" where
  "exampleRun cb p cfg account dekPublicKey sw =
     (case flowWallet cb p cfg sw of
        (Inl e, sw1) \<Rightarrow> Some (Inl e, sw1)
      | (Inr (Err step), sw1) \<Rightarrow> Some (Inr (Stopped step), sw1)
      | (Inr (Ok (attestations, walletAddr)), sw1) \<Rightarrow>
          (case flowAttestations p cfg account dekPublicKey attestations walletAddr sw1 of
             (Inl e, sw2) \<Rightarrow> Some (Inl e, sw2)
           | (Inr (Err step), sw2) \<Rightarrow> Some (Inr (Stopped step), sw2)
           | (Inr (Ok identifier), sw2) \<Rightarrow> code_loop p attestations walletAddr identifier sw2))"

text \<open>The kit the flow starts with\<close>

definition exampleKit :: "celo_base \<Rightarrow> example_config \<Rightarrow> string \<Rightarrow> 'm kit_state" where
  "exampleKit cb cfg account =
     newKit cb account \<lparr>inUrl = exUrl cfg, inToken = None, inTxRetryTimeoutMs = None, inTxPollingIntervalMs = None\<rparr>"

section \<open>The tables\<close>

lemma exampleNetwork_Inr:
  "exampleNetwork env = Inr network \<Longrightarrow> network = ''alfajores'' \<or> network = ''rc1''"
  by (simp add: exampleNetwork_def split: if_splits)

lemma exampleConfig_Inr:
  assumes "exampleConfig envArg captchaArg versionArg = Inr cfg"
  shows "(exNetwork cfg = ''alfajores'' \<or> exNetwork cfg = ''rc1'')
     \<and> exImplementation cfg \<in> snd ` set (exampleImplementations (exNetwork cfg))"
proof -
  from assms obtain network v where network: "exampleNetwork (argumentOr envArg ''local'') = Inr network" and
    impl: "map_of (exampleImplementations network) v = Some (exImplementation cfg)" and "exNetwork cfg = network"
    by (auto simp: exampleConfig_def Let_def split: sum.splits option.splits)
  from map_of_SomeD [OF impl] have "exImplementation cfg \<in> snd ` set (exampleImplementations network)" by force
  with exampleNetwork_Inr [OF network] \<open>exNetwork cfg = network\<close> show ?thesis by simp
qed

lemma load_implementations:
  "WALLET_IMPLEMENTATIONS ''alfajores'' = Some versions \<Longrightarrow> versions v = Some a \<Longrightarrow>
     a \<in> snd ` set (exampleImplementations ''alfajores'')"
  "WALLET_IMPLEMENTATIONS ''rc1'' = Some versions' \<Longrightarrow> versions' v = Some a \<Longrightarrow>
     a \<in> snd ` set (exampleImplementations ''rc1'')"
  by (auto simp: WALLET_IMPLEMENTATIONS_def exampleImplementations_def split: if_splits)

lemma tables_alfajores:
  "snd ` set (exampleImplementations ''alfajores'') \<subseteq> fst ` set (MetaTransactionWalletVersions (configs alfajores))"
  "exampleOdisKey ''alfajores'' = odisPublicKey (configs alfajores)"
  "ODIS_PUB_KEYS ''alfajores'' = Some (odisPublicKey (configs alfajores))"
  "loadForno ''alfajores'' = Some (exampleForno ''alfajores'')" "exampleForno ''alfajores'' = fornoURL (configs alfajores)"
  by code_simp+

lemma tables_rc1:
  "snd ` set (exampleImplementations ''rc1'') \<subseteq> fst ` set (MetaTransactionWalletVersions (configs rc1))"
  "exampleOdisKey ''rc1'' = odisPublicKey (configs rc1)"
  "ODIS_PUB_KEYS ''rc1'' = Some (odisPublicKey (configs rc1))"
  "loadForno ''rc1'' = Some (exampleForno ''rc1'')" "exampleForno ''rc1'' \<noteq> fornoURL (configs rc1)"
  by code_simp+

text \<open>
  Whatever the arguments, if the example starts then with a wallet implementation that the services' own
  configuration lists for the network, and with its ODIS key, which are those of the load test, too; but the
  node it reads from is the configured one only for alfajores.
\<close>

theorem example_tables_agree:
  assumes "exampleConfig envArg captchaArg versionArg = Inr cfg"
  shows "\<exists>n. network_of_env (Some (exNetwork cfg)) = Some n
     \<and> exImplementation cfg \<in> fst ` set (MetaTransactionWalletVersions (configs n))
     \<and> exampleOdisKey (exNetwork cfg) = odisPublicKey (configs n)
     \<and> ODIS_PUB_KEYS (exNetwork cfg) = Some (odisPublicKey (configs n))
     \<and> (\<forall>versions v a. WALLET_IMPLEMENTATIONS (exNetwork cfg) = Some versions \<and> versions v = Some a \<longrightarrow>
          a \<in> fst ` set (MetaTransactionWalletVersions (configs n)))
     \<and> loadForno (exNetwork cfg) = Some (exampleForno (exNetwork cfg))
     \<and> (exampleForno (exNetwork cfg) = fornoURL (configs n) \<longleftrightarrow> n = alfajores)"
proof -
  note impl = conjunct2 [OF exampleConfig_Inr [OF assms]]
  consider (a) "exNetwork cfg = ''alfajores''" | (r) "exNetwork cfg = ''rc1''" using exampleConfig_Inr [OF assms] by blast
  then show ?thesis
  proof cases
    case a
    have "network_of_env (Some ''alfajores'') = Some alfajores" by simp
    with a tables_alfajores impl load_implementations(1) show ?thesis
      by (intro exI [of _ alfajores]) (auto simp del: configs.simps)
  next
    case r
    have "network_of_env (Some ''rc1'') = Some rc1" by simp
    with r tables_rc1 impl load_implementations(2) show ?thesis
      by (intro exI [of _ rc1]) (auto simp del: configs.simps)
  qed
qed

lemma example_tables_agree_witness:
  "\<exists>n. network_of_env (Some ''rc1'') = Some n \<and> exampleOdisKey ''rc1'' = odisPublicKey (configs n)
     \<and> ''0x6511FB5DBfe95859d8759AdAd5503D656E2555d7'' \<in> fst ` set (MetaTransactionWalletVersions (configs n))
     \<and> (exampleForno ''rc1'' = fornoURL (configs n) \<longleftrightarrow> n = alfajores)"
proof -
  let ?cfg = "\<lparr>exCaptchaToken = ''special-captcha-bypass-token'', exNetwork = ''rc1'',
     exImplementation = ''0x6511FB5DBfe95859d8759AdAd5503D656E2555d7'', exUrl = ''https://br.komenci.rc1.celo-testnet.org''\<rparr>"
  have "exampleConfig (Some ''rc1_br'') None None = Inr ?cfg"
    by (simp add: exampleConfig_def Let_def argumentOr_def exampleNetwork_def exampleImplementations_def exampleService_def)
  from example_tables_agree [OF this] obtain n where "network_of_env (Some (exNetwork ?cfg)) = Some n"
    "exImplementation ?cfg \<in> fst ` set (MetaTransactionWalletVersions (configs n))"
    "exampleOdisKey (exNetwork ?cfg) = odisPublicKey (configs n)"
    "exampleForno (exNetwork ?cfg) = fornoURL (configs n) \<longleftrightarrow> n = alfajores"
    by (elim exE conjE)
  then show ?thesis by (intro exI [of _ n] conjI) (simp_all only: example_config.select_convs)
qed

section \<open>The wallet of a flow\<close>

lemma atStep_run:
  assumes "andThenOk (atStep step m) f x = (Inr r, y)"
  shows "r = Err step \<or> (\<exists>v z. m x = (Inr (Ok v), z) \<and> f v z = (Inr r, y))"
  using assms by (auto simp: andThenOk_def atStep_def mapErr_def runs split: result.splits)

lemma preserves_kitStartSession [keeps]:
  assumes "\<And>s w w'. P (s, w) \<Longrightarrow> P (s, w')" and "\<And>s w c. P (s, w) \<Longrightarrow> P (s\<lparr>kitClient := c\<rparr>, w)"
  shows "preserves P (kitStartSession p captchaToken)"
  unfolding kitStartSession_def getLoginSignature_def
  by (intro keeps) (auto intro!: keeps dest: assms split: result.split option.split)

lemma flow_wallet:
  assumes "flowWallet cb p cfg (s, w) = (Inr r, x)"
  shows "r \<in> Err ` {AtStartSession, AtCheckSession, AtDeployWallet}
     \<or> (\<exists>att addr u v. r = Ok (att, addr) \<and> kitAccount (fst u) = kitAccount s
          \<and> kitDeployWallet cb (kit_port.truncate p) (exImplementation cfg) u = (Inr (Ok addr), v))"
proof (rule disjCI)
  let ?kit = "kit_port.truncate p"
  assume later: "\<not> (\<exists>att addr u v. r = Ok (att, addr) \<and> kitAccount (fst u) = kitAccount s
          \<and> kitDeployWallet cb ?kit (exImplementation cfg) u = (Inr (Ok addr), v))"
  have keep: "\<And>c. preserves (\<lambda>(t, _). kitAccount t = kitAccount s) (kitStartSession ?kit c)"
    "preserves (\<lambda>(t, _). kitAccount t = kitAccount s) (kitCheckSession ?kit)"
    unfolding kitCheckSession_def by (intro keeps; simp)+
  from assms obtain attestations w1 where
    1: "andThenOk (atStep AtStartSession (kitStartSession ?kit (exCaptchaToken cfg))) (\<lambda>_.
      andThenOk (atStep AtCheckSession (kitCheckSession ?kit)) (\<lambda>_.
      andThenOk (atStep AtDeployWallet (kitDeployWallet cb ?kit (exImplementation cfg))) (\<lambda>walletAddr.
      ret (Ok (attestations, walletAddr))))) (s, w1) = (Inr r, x)"
    by (auto simp: flowWallet_def Let_def andThen_eq_Inr ext_eq_iff)
  show "r \<in> Err ` {AtStartSession, AtCheckSession, AtDeployWallet}"
  proof (rule ccontr)
    assume not: "r \<notin> Err ` {AtStartSession, AtCheckSession, AtDeployWallet}"
    from atStep_run [OF 1] not obtain v z where
      started: "kitStartSession ?kit (exCaptchaToken cfg) (s, w1) = (Inr (Ok v), z)" and
      2: "andThenOk (atStep AtCheckSession (kitCheckSession ?kit)) (\<lambda>_.
        andThenOk (atStep AtDeployWallet (kitDeployWallet cb ?kit (exImplementation cfg))) (\<lambda>walletAddr.
        ret (Ok (attestations, walletAddr)))) z = (Inr r, x)" by auto
    from atStep_run [OF 2] not obtain v' z' where
      checked: "kitCheckSession ?kit z = (Inr (Ok v'), z')" and
      3: "andThenOk (atStep AtDeployWallet (kitDeployWallet cb ?kit (exImplementation cfg))) (\<lambda>walletAddr.
        ret (Ok (attestations, walletAddr))) z' = (Inr r, x)" by auto
    from atStep_run [OF 3] not obtain addr z'' where
      deployed: "kitDeployWallet cb ?kit (exImplementation cfg) z' = (Inr (Ok addr), z'')" and
      r: "r = Ok (attestations, addr)" by (auto simp: runs)
    from preservesD [OF keep(1) _ started] have "kitAccount (fst z) = kitAccount s" by (cases z) simp
    with preservesD [OF keep(2) _ checked] have "kitAccount (fst z') = kitAccount s" by (cases z; cases z') simp
    with deployed r later show False by blast
  qed
qed

text \<open>A loop that ends with nothing left to complete has seen that there is nothing.\<close>

lemma code_loop_completed:
  assumes "code_loop p att addr ident sw = Some r" and "fst r = Inr Completed"
  shows "\<exists>x x'. xpActionable p att ident addr x = (Inr [], x')"
proof -
  have "fst r = Inr Completed \<longrightarrow> (\<exists>x x'. xpActionable p att ident addr x = (Inr [], x'))"
  proof (rule code_loop.raw_induct [where P = "\<lambda>p att addr ident sw r.
          fst r = Inr Completed \<longrightarrow> (\<exists>x x'. xpActionable p att ident addr x = (Inr [], x'))", OF _ assms(1)])
    fix loop p att addr ident sw r
    assume IH: "\<And>p att addr ident sw r. loop p att addr ident sw = Some r \<Longrightarrow>
        fst r = Inr Completed \<longrightarrow> (\<exists>x x'. xpActionable p att ident addr x = (Inr [], x'))"
      and run: "(case ext (xpActionable p att ident addr) sw of
          (Inl e, sw1) \<Rightarrow> Some (Inl e, sw1)
        | (Inr issuers, sw1) \<Rightarrow>
            if issuers = [] then Some (Inr Completed, sw1)
            else (case codeAnswered p att addr ident issuers sw1 of
                    (Inl e, sw2) \<Rightarrow> Some (Inr (CallbackThrew e), sw2)
                  | (Inr goesOn, sw2) \<Rightarrow> if goesOn then loop p att addr ident sw2 else Some (Inr Exited, sw2))) = Some r"
    obtain q y where looked: "ext (xpActionable p att ident addr) sw = (q, y)" by (metis surj_pair)
    show "fst r = Inr Completed \<longrightarrow> (\<exists>x x'. xpActionable p att ident addr x = (Inr [], x'))"
    proof (cases "q = Inr []")
      case True
      with looked show ?thesis by (cases sw; cases y) (auto simp: ext_eq_iff)
    next
      case False
      then show ?thesis
        using run looked IH [of p att addr ident _ r] by (auto split: prod.splits sum.splits if_splits)
    qed
  qed
  with assms(2) show ?thesis by simp
qed

text \<open>
  A flow that gets past the deployment does so with a wallet that was verified, against the implementation it
  was started with and the account of the kit; and when it is completed, nothing was left to complete for
  that wallet.
\<close>

theorem flow_uses_verified_wallet:
  assumes "exampleRun cb p cfg account dek (s, w) = Some (Inr e, y)"
    and "e \<notin> Stopped ` {AtStartSession, AtCheckSession, AtDeployWallet}"
  shows "\<exists>addr. (\<exists>u v. verifyWallet cb (kpChain p) addr [exImplementation cfg] (kitAccount s) u = (Inr (Ok ()), v))
     \<and> (e = Completed \<longrightarrow> (\<exists>att ident x x'. xpActionable p att ident addr x = (Inr [], x')))"
proof -
  obtain q x where first: "flowWallet cb p cfg (s, w) = (q, x)" by (metis surj_pair)
  with assms obtain r where r: "q = Inr r" by (cases q) (auto simp: exampleRun_def)
  have "r \<notin> Err ` {AtStartSession, AtCheckSession, AtDeployWallet}"
    using assms first r by (auto simp: exampleRun_def)
  with flow_wallet [OF first [unfolded r]] obtain att addr u v where
    ok: "r = Ok (att, addr)" and account: "kitAccount (fst u) = kitAccount s" and
    deployed: "kitDeployWallet cb (kit_port.truncate p) (exImplementation cfg) u = (Inr (Ok addr), v)" by blast
  have chain: "kpChain (kit_port.truncate p) = kpChain p" by (simp add: kit_port.truncate_def)
  have "\<exists>u v. verifyWallet cb (kpChain p) addr [exImplementation cfg] (kitAccount s) u = (Inr (Ok ()), v)"
    using deployed_verified [of cb "kit_port.truncate p" "exImplementation cfg" "fst u" "snd u" addr "fst v" "snd v"]
      deployed account chain by simp
  moreover have "\<exists>att ident x x'. xpActionable p att ident addr x = (Inr [], x')" if "e = Completed"
  proof -
    from assms(1) that first r ok obtain ident z where "code_loop p att addr ident z = Some (Inr Completed, y)"
      by (auto simp: exampleRun_def split: prod.splits sum.splits result.splits)
    from code_loop_completed [OF this] show ?thesis by simp blast
  qed
  ultimately show ?thesis by blast
qed

text \<open>
  The kit's demo port with an answer to the check of a session and \<open>w\<close> answers at the terminal left: a code without
  an issuer each time, then \<open>exit\<close>
\<close>

definition demoExample :: "(nat, string) example_port" where
  "demoExample =
     kit_port.extend
       (demoPort\<lparr>kpCodecs := demoCodecs\<lparr>CheckSessionResp := (\<lambda>_. Some \<lparr>distributedBlindedPepperLeft = 1,
          requestSubsidisedAttestationLeft = 10, submitMetaTransactionLeft = 20, metaTxWalletAddress = None\<rparr>)\<rparr>\<rparr>)
       (example_port.fields (\<lambda>key. JStr key) (\<lambda>a i w. ret JNull) (\<lambda>a e f t. ret []) (\<lambda>a i w. ret [])
          (\<lambda>n. if n = 0 then (Inr ''exit'', n) else (Inr ''code'', n - 1)) id
          (\<lambda>a i w c is. ret None) (\<lambda>a i w is c. ret True))"

definition demoExampleConfig :: example_config where
  "demoExampleConfig = \<lparr>exCaptchaToken = ''c'', exNetwork = ''alfajores'', exImplementation = ''0x1m'', exUrl = ''http://a''\<rparr>"

lemma flow_uses_verified_wallet_witness:
  "\<exists>addr. \<exists>u v. verifyWallet celo_base_std demoChain addr [''0x1m''] ''0xacc'' u = (Inr (Ok ()), v)"
proof -
  let ?run = "exampleRun celo_base_std demoExample demoExampleConfig ''0xACC'' ''dek'' (demoKit, 0)"
  have "case ?run of Some (Inr Completed, _) \<Rightarrow> True | _ \<Rightarrow> False" by code_simp
  then obtain e y where run: "?run = Some (Inr e, y)" and "case e of Completed \<Rightarrow> True | _ \<Rightarrow> False"
    by (auto split: option.splits sum.splits prod.splits)
  then have "e = Completed" by (cases e) simp_all
  with run have "?run = Some (Inr Completed, y)" by simp
  from flow_uses_verified_wallet [OF this] show ?thesis
    by (auto simp: demoExample_def demoExampleConfig_def kit_port.defs example_port.defs demoKit_account demoPort_chain)
qed

section \<open>The loop ends\<close>

text \<open>
  The flow returns when whoever answers gets on: when some measure goes down with every answer after which the
  program goes on, and is not increased by looking at what is left.
\<close>

theorem flow_returns:
  fixes pending :: "'m kit_state \<times> 'w \<Rightarrow> nat" and p :: "('w, 'm) example_port"
  assumes "\<And>att addr ident issuers x y. issuers \<noteq> [] \<Longrightarrow>
      codeAnswered p att addr ident issuers x = (Inr True, y) \<Longrightarrow> pending y < pending x"
    and "\<And>att addr ident x r y. ext (xpActionable p att ident addr) x = (r, y) \<Longrightarrow> pending y \<le> pending x"
  shows "\<exists>r. exampleRun cb p cfg account dek sw = Some r"
proof -
  have loop: "\<exists>r. code_loop p att addr ident x = Some r" for att addr ident x
  proof (induction "pending x" arbitrary: x rule: less_induct)
    case less
    obtain r y where looked: "ext (xpActionable p att ident addr) x = (r, y)" by (metis surj_pair)
    show ?case
    proof (cases "\<exists>issuers. r = Inr issuers \<and> issuers \<noteq> []")
      case True
      then obtain issuers where some: "r = Inr issuers" "issuers \<noteq> []" by blast
      obtain a z where answered: "codeAnswered p att addr ident issuers y = (a, z)" by (metis surj_pair)
      have "\<exists>r. code_loop p att addr ident z = Some r" if "a = Inr True"
      proof -
        have "pending z < pending x"
          using assms(1) [OF some(2) answered [unfolded that]] assms(2) [OF looked] by simp
        then show ?thesis by (rule less.hyps)
      qed
      then show ?thesis
        using looked some answered by (subst code_loop.simps) (auto split: sum.split)
    next
      case False
      then show ?thesis using looked by (subst code_loop.simps) (auto split: sum.split)
    qed
  qed
  show ?thesis
    unfolding exampleRun_def using loop
    by (auto simp del: split_paired_Ex split: prod.split sum.split result.split)
qed

text \<open>A terminal with \<open>n\<close> codes left to enter, at which an attestation is open until there is none\<close>

definition demoTerminal :: "(nat, string) example_port" where
  "demoTerminal = demoExample\<lparr>xpActionable := (\<lambda>a i w n. (Inr (if n = 0 then [] else [''issuer'']), n))\<rparr>"

lemma flow_returns_witness:
  "\<forall>n. \<exists>r. exampleRun celo_base_std demoTerminal demoExampleConfig ''0xACC'' ''dek'' (demoKit, n) = Some r"
proof (rule allI, rule flow_returns [where pending = snd])
  fix att addr ident issuers and x y :: "string kit_state \<times> nat"
  assume "codeAnswered demoTerminal att addr ident issuers x = (Inr True, y)"
  then show "snd y < snd x"
    by (cases x) (auto simp: codeAnswered_def demoTerminal_def demoExample_def kit_port.defs example_port.defs
        Let_def andThen_def ext_app ret_app split: if_splits)
next
  fix att addr ident r and x y :: "string kit_state \<times> nat"
  assume "ext (xpActionable demoTerminal att ident addr) x = (r, y)"
  then show "snd y \<le> snd x" by (cases x) (auto simp: demoTerminal_def ext_app)
qed

end
