(* ===== verification/Logger_Config.thy ===== *)
theory Logger_Config
  imports Gateway
begin

text \<open>
  The configuration of the logs: what is written of a record and of a request (\<open>logger-config.factory.ts\<close> of
  \<open>packages/libs/logger/src\<close> and of the relayer). An object is the list of its properties; of a response the
  parts that are read are a record.
\<close>

section \<open>Records\<close>

text \<open>\<open>a?.k\<close>, and \<open>a.k\<close> of a value that has properties\<close>

definition js_optional :: "js_value \<Rightarrow> string \<Rightarrow> js_value" where
  "js_optional v key = (case js_get v key of Inl e \<Rightarrow> JUndefined | Inr x \<Rightarrow> x)"

definition property :: "(string \<times> js_value) list \<Rightarrow> string \<Rightarrow> js_value" where
  "property obj key = (case map_of obj key of None \<Rightarrow> JUndefined | Some v \<Rightarrow> v)"

text \<open>The formatter \<open>log\<close>: a record with the response of a request gets the request and its session.\<close>

definition formatLog :: "(string \<times> js_value) list \<Rightarrow> thrown + (string \<times> js_value) list" where
  "formatLog obj =
     (let errorStack = js_optional (property obj ''err'') ''stack'';
          stackProp = (if js_truthy errorStack then [(''stack_trace'', errorStack)] else []) in
      if ''res'' \<in> fst ` set obj
      then (case js_get (property obj ''res'') ''req'' of
              Inl e \<Rightarrow> Inl e
            | Inr req \<Rightarrow>
                Inr (spread (spread obj stackProp)
                  [(''httpRequest'', JObj obj),
                   (''sessionId'', js_optional (js_optional req ''session'') ''id''),
                   (''externalAccount'', js_optional (js_optional req ''session'') ''externalAccount''),
                   (''res'', JUndefined),
                   (''responseTime'', JUndefined)]))
      else Inr (spread obj stackProp))"

text \<open>The serializer of \<open>httpRequest\<close>; the notation of numbers is outside.\<close>

record server_response =
  srMethod :: js_value
  srUrl :: js_value
  srReadableLength :: rat
  srStatusCode :: rat
  srHeader :: "string \<Rightarrow> js_value"
  srRequestHeader :: "string \<Rightarrow> js_value"
  srRemoteAddress :: js_value

definition serializeHttpRequest :: "(rat \<Rightarrow> string) \<Rightarrow> server_response \<Rightarrow> rat \<Rightarrow> (string \<times> js_value) list" where
  "serializeHttpRequest showNumber res responseTime =
     [(''requestMethod'', srMethod res),
      (''requestUrl'', srUrl res),
      (''requestSize'', JStr (showNumber (srReadableLength res))),
      (''status'', JNum (srStatusCode res)),
      (''responseSize'', srHeader res ''content-length''),
      (''userAgent'', srRequestHeader res ''user-agent''),
      (''remoteIp'', (let forwarded = srRequestHeader res ''x-forwarded-for'' in
                      if js_truthy forwarded then forwarded else srRemoteAddress res)),
      (''referer'', srRequestHeader res ''referer''),
      (''latency'', JStr (showNumber (responseTime / 1000) @ ''s''))]"

section \<open>Parameters of the logger\<close>

text \<open>
  The values of the configuration; what is not given the library does its own way. \<open>genReqId\<close> is \<open>uuidv4\<close>, and
  the serializer of \<open>req\<close> its id.
\<close>

record logger_params =
  lpExclude :: "string list"
  lpLevel :: "string \<Rightarrow> (string \<times> js_value) list"
  lpLog :: "((string \<times> js_value) list \<Rightarrow> thrown + (string \<times> js_value) list) option"
  lpHttpRequest :: "(server_response \<Rightarrow> rat \<Rightarrow> (string \<times> js_value) list) option"
  lpBase :: "(string \<times> js_value) list"
  lpRequestAttribute :: "string option"
  lpSuccessMessage :: "string option"
  lpErrorMessage :: "error_object \<Rightarrow> string option"
  lpMessageKey :: string
  lpPrettyPrint :: bool

definition loggerConfigFactory :: "(rat \<Rightarrow> string) \<Rightarrow> environment \<Rightarrow> service_config \<Rightarrow> logger_params" where
  "loggerConfigFactory showNumber env cfg =
     \<lparr>lpExclude = [''v1/health''],
      lpLevel = levelFormatter cfg,
      lpLog = Some formatLog,
      lpHttpRequest = Some (serializeHttpRequest showNumber),
      lpBase = buildLabels cfg [],
      lpRequestAttribute = Some ''logging.googleapis.com/trace'',
      lpSuccessMessage = Some ''Success'',
      lpErrorMessage = (\<lambda>e. Some (''Error: '' @ message e)),
      lpMessageKey = ''message'',
      lpPrettyPrint = (env ''NODE_ENV'' \<noteq> Some ''production'')\<rparr>"

text \<open>The relayer's, which adds its address to the labels and leaves the rest to the library\<close>

definition relayerLoggerConfig :: "environment \<Rightarrow> service_config \<Rightarrow> string \<Rightarrow> logger_params" where
  "relayerLoggerConfig env cfg relayer =
     \<lparr>lpExclude = [],
      lpLevel = levelFormatter cfg,
      lpLog = None,
      lpHttpRequest = None,
      lpBase = buildLabels cfg [(''relayer'', JStr relayer)],
      lpRequestAttribute = None,
      lpSuccessMessage = None,
      lpErrorMessage = (\<lambda>e. None),
      lpMessageKey = ''message'',
      lpPrettyPrint = (env ''NODE_ENV'' \<noteq> Some ''production'')\<rparr>"

section \<open>What is written\<close>

lemma map_of_spread_other: "k \<notin> fst ` set b \<Longrightarrow> map_of (spread a b) k = map_of a k"
  by (simp add: map_of_spread map_of_eq_None_iff [THEN iffD2] split: option.split)

text \<open>A record whose response is missing makes the formatter throw; no other does.\<close>

lemma formatLog_throws:
  "(\<exists>e. formatLog obj = Inl e) \<longleftrightarrow> ''res'' \<in> fst ` set obj \<and> property obj ''res'' \<in> {JUndefined, JNull}"
  by (cases "property obj ''res''") (auto simp: formatLog_def Let_def js_get_def)

text \<open>
  The record of a request keeps every property it had but the response and its time, which are blanked; the
  whole record becomes the request to be rendered, and the session is that of the request, or undefined. An
  error with a stack has it written beside; other records are written as they are.
\<close>

definition stackProperty :: "(string \<times> js_value) list \<Rightarrow> (string \<times> js_value) list" where
  "stackProperty obj =
     (if js_truthy (js_optional (property obj ''err'') ''stack'')
      then [(''stack_trace'', js_optional (property obj ''err'') ''stack'')] else [])"

definition requestProperties :: "(string \<times> js_value) list \<Rightarrow> (string \<times> js_value) list" where
  "requestProperties obj =
     (let session = js_optional (js_optional (property obj ''res'') ''req'') ''session'' in
      [(''httpRequest'', JObj obj), (''sessionId'', js_optional session ''id''),
       (''externalAccount'', js_optional session ''externalAccount''), (''res'', JUndefined), (''responseTime'', JUndefined)])"

lemma js_optional_Inr: "js_get v key = Inr x \<Longrightarrow> js_optional v key = x"
  by (simp add: js_optional_def)

lemma formatLog_Inr:
  "formatLog obj = Inr r \<Longrightarrow>
   r = (if ''res'' \<in> fst ` set obj then spread (spread obj (stackProperty obj)) (requestProperties obj)
        else spread obj (stackProperty obj))"
  by (cases "''res'' \<in> fst ` set obj"; cases "js_get (property obj ''res'') ''req''")
    (simp_all only: formatLog_def stackProperty_def requestProperties_def js_optional_Inr Let_def sum.case sum.inject
      sum.distinct if_True if_False)

theorem formatLog_request:
  assumes "formatLog obj = Inr r"
  shows "k \<notin> {''stack_trace'', ''httpRequest'', ''sessionId'', ''externalAccount'', ''res'', ''responseTime''} \<Longrightarrow>
       map_of r k = map_of obj k"
    and "js_truthy (js_optional (property obj ''err'') ''stack'') \<Longrightarrow>
       map_of r ''stack_trace'' = Some (js_optional (property obj ''err'') ''stack'')"
    and "''res'' \<in> fst ` set obj \<Longrightarrow> map_of r key = (case map_of (requestProperties obj) key of
       Some v \<Rightarrow> Some v | None \<Rightarrow> map_of (spread obj (stackProperty obj)) key)"
proof -
  note r = formatLog_Inr [OF assms]
  show "map_of r k = map_of obj k"
    if "k \<notin> {''stack_trace'', ''httpRequest'', ''sessionId'', ''externalAccount'', ''res'', ''responseTime''}"
    using that unfolding r
    by (simp add: map_of_spread_other stackProperty_def requestProperties_def Let_def)
  have "map_of (spread obj (stackProperty obj)) ''stack_trace'' = Some (js_optional (property obj ''err'') ''stack'')"
    if "js_truthy (js_optional (property obj ''err'') ''stack'')"
    using that by (simp add: map_of_spread stackProperty_def)
  moreover have "''stack_trace'' \<notin> fst ` set (requestProperties obj)" by (simp add: requestProperties_def Let_def)
  ultimately show "map_of r ''stack_trace'' = Some (js_optional (property obj ''err'') ''stack'')"
    if "js_truthy (js_optional (property obj ''err'') ''stack'')"
    using that unfolding r by (simp add: map_of_spread_other)
  have "distinct (map fst (requestProperties obj))" by (simp add: requestProperties_def Let_def)
  then have "map_of (rev (requestProperties obj)) = map_of (requestProperties obj)"
    by (subst map_of_inject_set) (simp_all add: rev_map [symmetric])
  then show "map_of r key = (case map_of (requestProperties obj) key of
       Some v \<Rightarrow> Some v | None \<Rightarrow> map_of (spread obj (stackProperty obj)) key)" if "''res'' \<in> fst ` set obj"
    using that unfolding r by (simp add: map_of_spread)
qed

end
