(* ===== verification/Reward_Interleaving.thy ===== *)
theory Reward_Interleaving
  imports Invite_Reward
begin

text \<open>
  Several instances of the rewards service at once: the comment of \<open>sendInviteRewards\<close>
  (\<open>packages/apps/rewards/src/invite/inviteReward.service.ts\<close>) relies on the unique columns of the table, the
  check of failed invites (\<open>rewardSender.service.ts\<close>) on locked rows. Here the handlers and the checks run
  in steps between two awaits, interleaved in any order, with relayers that answer late or never, updates that
  fail and database transactions that are rolled back; the runs of \<open>handleWithdrawalEvent\<close> and
  \<open>checkFailedInvites\<close> are sequences of these steps.
\<close>

section \<open>Steps\<close>

text \<open>
  A handler is idle, has read the inviter's weekly count and the invitee's reward or not (the flags say which
  were as required), is about to insert the row of an inviter, an invitee and an identifier, or is about to
  have the row of an id paid.
\<close>

datatype reward_pc =
    HIdle
  | HChecks string string string bool bool
  | HCreating string string string
  | HPaying string

text \<open>
  The table, the handlers, which check holds the lock of a row and what the row was when it was locked, the payments
  the relayers accepted (the row's id and the hash), for each row the accepted payment whose hash is on its way
  to the row, the requests that were given up and may still be accepted, the transactions that reverted, and the start
  of the week. Two fields are not of the program: the accepted payments whose hash did not reach the row
  or was rolled back, and the rows that ever failed.
\<close>

record reward_system =
  rsRows :: "invite_reward list"
  rsPcs :: "nat \<Rightarrow> reward_pc"
  rsLocks :: "string \<Rightarrow> nat option"
  rsBefore :: "string \<Rightarrow> reward_status \<times> string option"
  rsPayments :: "(string \<times> string) list"
  rsInFlight :: "string \<Rightarrow> string option"
  rsOverdue :: "string list"
  rsReverted :: "string set"
  rsWeek :: int
  rsUnrecorded :: "string set"
  rsEverFailed :: "string set"

text \<open>
  What the query of \<open>inviterHasNotReachedWeeklyLimit\<close> counts, what the primary key and the unique columns let in,
  when \<open>checkFailedInvites\<close> sends a row again, and the update of a row.
\<close>

definition countsFor :: "int \<Rightarrow> string \<Rightarrow> invite_reward \<Rightarrow> bool" where
  "countsFor week inviter r \<longleftrightarrow> irInviter r = inviter \<and> irState r \<noteq> RFailed \<and> week \<le> irCreatedAt r"

definition insertable :: "invite_reward \<Rightarrow> invite_reward list \<Rightarrow> bool" where
  "insertable r rows \<longleftrightarrow>
     (\<forall>r' \<in> set rows. irId r' \<noteq> irId r \<and> irInvitee r' \<noteq> irInvitee r \<and> irInviteeIdentifier r' \<noteq> irInviteeIdentifier r)"

definition payable :: "string set \<Rightarrow> invite_reward \<Rightarrow> bool" where
  "payable reverted r \<longleftrightarrow> (case irRewardTxHash r of None \<Rightarrow> True | Some h \<Rightarrow> h = [] \<or> h \<in> reverted)"

definition newHash :: "string \<Rightarrow> reward_system \<Rightarrow> bool" where
  "newHash h g \<longleftrightarrow> h \<noteq> [] \<and> h \<notin> snd ` set (rsPayments g)"

definition setRow :: "string \<Rightarrow> reward_status \<Rightarrow> string option \<Rightarrow> reward_system \<Rightarrow> reward_system" where
  "setRow x st h g = g\<lparr>rsRows := map (setReward x st h) (rsRows g),
     rsEverFailed := (if st = RFailed then insert x (rsEverFailed g) else rsEverFailed g)\<rparr>"

text \<open>
  A relayer accepts a payment; its hash reaches the row; it does not, because the reply comes too late or the
  update fails. A rollback puts the rows a check has locked back.
\<close>

definition accept :: "string \<Rightarrow> string \<Rightarrow> reward_system \<Rightarrow> reward_system" where
  "accept x h g = g\<lparr>rsPayments := (x, h) # rsPayments g, rsInFlight := (rsInFlight g)(x := Some h)\<rparr>"

definition recordHash :: "string \<Rightarrow> string \<Rightarrow> reward_system \<Rightarrow> reward_system" where
  "recordHash x h g = (setRow x RSubmitted (Some h) g)\<lparr>rsInFlight := (rsInFlight g)(x := None)\<rparr>"

definition loseHash :: "string \<Rightarrow> string \<Rightarrow> reward_system \<Rightarrow> reward_system" where
  "loseHash x h g = g\<lparr>rsInFlight := (rsInFlight g)(x := None), rsUnrecorded := insert h (rsUnrecorded g)\<rparr>"

definition savedRow :: "invite_reward list \<Rightarrow> string \<Rightarrow> reward_status \<times> string option" where
  "savedRow rows x = (case find (\<lambda>r. irId r = x) rows of None \<Rightarrow> (RCreated, None) | Some r \<Rightarrow> (irState r, irRewardTxHash r))"

definition restoreRow :: "nat \<Rightarrow> reward_system \<Rightarrow> invite_reward \<Rightarrow> invite_reward" where
  "restoreRow j g r =
     (if rsLocks g (irId r) = Some j
      then r\<lparr>irState := fst (rsBefore g (irId r)), irRewardTxHash := snd (rsBefore g (irId r))\<rparr> else r)"

definition rollBack :: "nat \<Rightarrow> reward_system \<Rightarrow> reward_system" where
  "rollBack j g = g\<lparr>rsRows := map (restoreRow j g) (rsRows g),
     rsLocks := (\<lambda>x. if rsLocks g x = Some j then None else rsLocks g x),
     rsInFlight := (\<lambda>x. if rsLocks g x = Some j then None else rsInFlight g x),
     rsUnrecorded := rsUnrecorded g \<union> {h. \<exists>x. (x, h) \<in> set (rsPayments g) \<and> rsLocks g x = Some j \<and>
       (rsInFlight g x = Some h \<or>
        snd (rsBefore g x) \<noteq> Some h \<and> (\<exists>r \<in> set (rsRows g). irId r = x \<and> irRewardTxHash r = Some h))}\<rparr>"

definition at_pc :: "nat \<Rightarrow> reward_pc \<Rightarrow> reward_system \<Rightarrow> reward_system" where
  "at_pc i c g = g\<lparr>rsPcs := (rsPcs g)(i := c)\<rparr>"

text \<open>
  Handlers \<open>i < n\<close> read, insert and have the row paid for the first time; a check \<open>j\<close> locks rows, all or none
  (\<open>pessimistic_write_or_fail\<close>), has those that are missing a transaction or whose transaction reverted paid again,
  and commits or is rolled back. Updates of a row wait for its lock. A row is locked half an hour after it was
  created at the earliest, when its handler, whose calls time out, is done.

  That a relayer accepts a payment (\<open>sent\<close>) and that the row is updated (\<open>recorded\<close>) are two steps. Between
  them the hash may be lost (\<open>lost\<close>): the reply comes after the timeout, the update fails, the process ends. A
  request may be given up before the relayer has acted on it (\<open>given_up\<close>), and be accepted later (\<open>accepted_late\<close>). A
  handler that has no hash marks the row as failed (\<open>not_paid\<close>), a check marks it as dead-lettered
  (\<open>marked_locked\<close>); either may also end without an update (\<open>leave\<close>, \<open>commit\<close>).
\<close>

inductive reward_step :: "nat \<Rightarrow> reward_system \<Rightarrow> reward_system \<Rightarrow> bool" for n where
  event: "i < n \<Longrightarrow> rsPcs g i = HIdle \<Longrightarrow> reward_step n g (at_pc i (HChecks a b c False False) g)"
| read_limit: "rsPcs g i = HChecks a b c l e \<Longrightarrow> length (filter (countsFor (rsWeek g) a) (rsRows g)) < WEEKLY_INVITE_LIMIT \<Longrightarrow>
     reward_step n g (at_pc i (HChecks a b c True e) g)"
| read_invitee: "rsPcs g i = HChecks a b c l e \<Longrightarrow> b \<notin> irInvitee ` set (rsRows g) \<Longrightarrow>
     reward_step n g (at_pc i (HChecks a b c l True) g)"
| admit: "rsPcs g i = HChecks a b c True True \<Longrightarrow> reward_step n g (at_pc i (HCreating a b c) g)"
| create: "rsPcs g i = HCreating a b c \<Longrightarrow>
     irInviter r = a \<Longrightarrow> irInvitee r = b \<Longrightarrow> irInviteeIdentifier r = c \<Longrightarrow> irState r = RCreated \<Longrightarrow> irRewardTxHash r = None \<Longrightarrow>
     rsWeek g \<le> irCreatedAt r \<Longrightarrow> insertable r (rsRows g) \<Longrightarrow>
     reward_step n g (at_pc i (HPaying (irId r)) (g\<lparr>rsRows := r # rsRows g\<rparr>))"
| leave: "(\<And>x. rsPcs g i = HPaying x \<Longrightarrow> rsInFlight g x = None) \<Longrightarrow> reward_step n g (at_pc i HIdle g)"
| sent: "rsPcs g i = HPaying x \<Longrightarrow> rsInFlight g x = None \<Longrightarrow> newHash h g \<Longrightarrow> reward_step n g (accept x h g)"
| recorded: "rsPcs g i = HPaying x \<Longrightarrow> rsInFlight g x = Some h \<Longrightarrow> rsLocks g x = None \<Longrightarrow>
     reward_step n g (at_pc i HIdle (recordHash x h g))"
| given_up: "rsPcs g i = HPaying x \<Longrightarrow> rsInFlight g x = None \<Longrightarrow> reward_step n g (g\<lparr>rsOverdue := x # rsOverdue g\<rparr>)"
| not_paid: "rsPcs g i = HPaying x \<Longrightarrow> rsInFlight g x = None \<Longrightarrow> rsLocks g x = None \<Longrightarrow>
     reward_step n g (at_pc i HIdle (setRow x RFailed None g))"
| lost: "rsInFlight g x = Some h \<Longrightarrow> reward_step n g (loseHash x h g)"
| accepted_late: "x \<in> set (rsOverdue g) \<Longrightarrow> newHash h g \<Longrightarrow>
     reward_step n g (g\<lparr>rsPayments := (x, h) # rsPayments g, rsUnrecorded := insert h (rsUnrecorded g),
       rsOverdue := remove1 x (rsOverdue g)\<rparr>)"
| lock: "(\<And>x. x \<in> X \<Longrightarrow> x \<in> irId ` set (rsRows g) \<and> rsLocks g x = None \<and> (\<forall>i. rsPcs g i \<noteq> HPaying x)) \<Longrightarrow>
     reward_step n g (g\<lparr>rsLocks := (\<lambda>x. if x \<in> X then Some j else rsLocks g x),
       rsBefore := (\<lambda>x. if x \<in> X then savedRow (rsRows g) x else rsBefore g x)\<rparr>)"
| sent_again: "rsLocks g x = Some j \<Longrightarrow> r \<in> set (rsRows g) \<Longrightarrow> irId r = x \<Longrightarrow> payable (rsReverted g) r \<Longrightarrow>
     rsInFlight g x = None \<Longrightarrow> newHash h g \<Longrightarrow> reward_step n g (accept x h g)"
| recorded_again: "rsLocks g x = Some j \<Longrightarrow> rsInFlight g x = Some h \<Longrightarrow> reward_step n g (recordHash x h g)"
| given_up_again: "rsLocks g x = Some j \<Longrightarrow> r \<in> set (rsRows g) \<Longrightarrow> irId r = x \<Longrightarrow> payable (rsReverted g) r \<Longrightarrow>
     rsInFlight g x = None \<Longrightarrow> reward_step n g (g\<lparr>rsOverdue := x # rsOverdue g\<rparr>)"
| marked_locked: "rsLocks g x = Some j \<Longrightarrow> st \<in> {RCompleted, RDeadLettered} \<Longrightarrow> reward_step n g (setRow x st None g)"
| commit: "(\<And>x. rsLocks g x = Some j \<Longrightarrow> rsInFlight g x = None) \<Longrightarrow>
     reward_step n g (g\<lparr>rsLocks := (\<lambda>x. if rsLocks g x = Some j then None else rsLocks g x)\<rparr>)"
| rolled_back: "reward_step n g (rollBack j g)"
| marked: "rsLocks g x = None \<Longrightarrow> st \<in> {RCompleted, RFailed, RDeadLettered} \<Longrightarrow> reward_step n g (setRow x st None g)"
| reverts: "h \<in> snd ` set (rsPayments g) \<Longrightarrow> reward_step n g (g\<lparr>rsReverted := insert h (rsReverted g)\<rparr>)"
| next_week: "rsWeek g \<le> t \<Longrightarrow> reward_step n g (g\<lparr>rsWeek := t\<rparr>)"

definition noRewards :: "int \<Rightarrow> reward_system" where
  "noRewards t = \<lparr>rsRows = [], rsPcs = (\<lambda>_. HIdle), rsLocks = (\<lambda>_. None), rsBefore = (\<lambda>_. (RCreated, None)),
     rsPayments = [], rsInFlight = (\<lambda>_. None), rsOverdue = [], rsReverted = {}, rsWeek = t, rsUnrecorded = {},
     rsEverFailed = {}\<rparr>"

inductive reward_reachable :: "nat \<Rightarrow> reward_system \<Rightarrow> bool" for n where
  start: "reward_reachable n (noRewards t)"
| step: "reward_reachable n g \<Longrightarrow> reward_step n g g' \<Longrightarrow> reward_reachable n g'"

section \<open>One payment per invitee\<close>

lemmas system_defs = at_pc_def accept_def recordHash_def loseHash_def setRow_def

lemma setReward_fields [simp]:
  "irId (setReward x st h r) = irId r" "irInvitee (setReward x st h r) = irInvitee r"
  "irInviter (setReward x st h r) = irInviter r" "irInviteeIdentifier (setReward x st h r) = irInviteeIdentifier r"
  "irCreatedAt (setReward x st h r) = irCreatedAt r"
  by (simp_all add: setReward_def)

lemma setReward_hash [simp]:
  "irRewardTxHash (setReward x st None r) = irRewardTxHash r"
  "irRewardTxHash (setReward x st (Some h) r) = (if irId r = x then Some h else irRewardTxHash r)"
  by (simp_all add: setReward_def)

lemma map_setReward [simp]:
  "map (\<lambda>r. irId (setReward x st h r)) rows = map irId rows"
  "map (\<lambda>r. irInvitee (setReward x st h r)) rows = map irInvitee rows"
  by simp_all

text \<open>
  Rows differ in id and invitee; every payment is of a row, and its hash is the one the row has, on its way to it,
  reverted or unrecorded; while a hash is on its way the row is still payable; a row about to be paid for the first
  time has no hash, one handler, and no lock.
\<close>

definition accounted :: "reward_system \<Rightarrow> string \<Rightarrow> string \<Rightarrow> bool" where
  "accounted g x h \<longleftrightarrow> h \<in> rsReverted g \<or> h \<in> rsUnrecorded g \<or> rsInFlight g x = Some h \<or>
     (\<exists>r \<in> set (rsRows g). irId r = x \<and> irRewardTxHash r = Some h)"

definition pays_once :: "reward_system \<Rightarrow> bool" where
  "pays_once g \<longleftrightarrow>
     distinct (map irId (rsRows g)) \<and> distinct (map irInvitee (rsRows g)) \<and>
     (\<forall>x h. (x, h) \<in> set (rsPayments g) \<longrightarrow> h \<noteq> [] \<and> x \<in> irId ` set (rsRows g) \<and> accounted g x h) \<and>
     distinct (map snd (rsPayments g)) \<and>
     (\<forall>x h. rsInFlight g x = Some h \<longrightarrow> (x, h) \<in> set (rsPayments g) \<and>
        (\<exists>r \<in> set (rsRows g). irId r = x \<and> payable (rsReverted g) r)) \<and>
     set (rsOverdue g) \<subseteq> irId ` set (rsRows g) \<and> rsUnrecorded g \<subseteq> snd ` set (rsPayments g) \<and>
     (\<forall>i x. rsPcs g i = HPaying x \<longrightarrow> (\<exists>r \<in> set (rsRows g). irId r = x \<and> irRewardTxHash r = None)) \<and>
     (\<forall>i j x. rsPcs g i = HPaying x \<longrightarrow> rsPcs g j = HPaying x \<longrightarrow> i = j) \<and>
     (\<forall>x j. rsLocks g x = Some j \<longrightarrow> x \<in> irId ` set (rsRows g) \<and> (\<forall>i. rsPcs g i \<noteq> HPaying x))"

lemma pays_onceI:
  assumes "distinct (map irId (rsRows g))" and "distinct (map irInvitee (rsRows g))"
    and "\<And>x h. (x, h) \<in> set (rsPayments g) \<Longrightarrow> h \<noteq> [] \<and> x \<in> irId ` set (rsRows g)"
    and "\<And>x h. (x, h) \<in> set (rsPayments g) \<Longrightarrow> accounted g x h"
    and "distinct (map snd (rsPayments g))"
    and "\<And>x h. rsInFlight g x = Some h \<Longrightarrow> (x, h) \<in> set (rsPayments g) \<and>
        (\<exists>r \<in> set (rsRows g). irId r = x \<and> payable (rsReverted g) r)"
    and "set (rsOverdue g) \<subseteq> irId ` set (rsRows g)" and "rsUnrecorded g \<subseteq> snd ` set (rsPayments g)"
    and "\<And>i x. rsPcs g i = HPaying x \<Longrightarrow> \<exists>r \<in> set (rsRows g). irId r = x \<and> irRewardTxHash r = None"
    and "\<And>i j x. rsPcs g i = HPaying x \<Longrightarrow> rsPcs g j = HPaying x \<Longrightarrow> i = j"
    and "\<And>i j x. rsLocks g x = Some j \<Longrightarrow> x \<in> irId ` set (rsRows g) \<and> rsPcs g i \<noteq> HPaying x"
  shows "pays_once g"
proof -
  have "\<forall>x h. (x, h) \<in> set (rsPayments g) \<longrightarrow> h \<noteq> [] \<and> x \<in> irId ` set (rsRows g) \<and> accounted g x h"
    using assms(3,4) by blast
  moreover have "\<forall>x h. rsInFlight g x = Some h \<longrightarrow> (x, h) \<in> set (rsPayments g) \<and>
        (\<exists>r \<in> set (rsRows g). irId r = x \<and> payable (rsReverted g) r)"
    by (intro allI impI, rule assms(6))
  moreover have "\<forall>i x. rsPcs g i = HPaying x \<longrightarrow> (\<exists>r \<in> set (rsRows g). irId r = x \<and> irRewardTxHash r = None)"
    by (intro allI impI, rule assms(9))
  moreover have "\<forall>i j x. rsPcs g i = HPaying x \<longrightarrow> rsPcs g j = HPaying x \<longrightarrow> i = j"
    by (intro allI impI, rule assms(10))
  moreover have "\<forall>x j. rsLocks g x = Some j \<longrightarrow> x \<in> irId ` set (rsRows g) \<and> (\<forall>i. rsPcs g i \<noteq> HPaying x)"
    using assms(11) by blast
  ultimately show ?thesis
    unfolding pays_once_def using assms(1,2,5,7,8) by (intro conjI)
qed

lemma pays_onceD:
  assumes "pays_once g"
  shows "distinct (map irId (rsRows g))" and "distinct (map irInvitee (rsRows g))"
    and "(x, h) \<in> set (rsPayments g) \<Longrightarrow> h \<noteq> []"
    and "(x, h) \<in> set (rsPayments g) \<Longrightarrow> x \<in> irId ` set (rsRows g)"
    and "(x, h) \<in> set (rsPayments g) \<Longrightarrow> accounted g x h"
    and "distinct (map snd (rsPayments g))"
    and "rsInFlight g x = Some h \<Longrightarrow> (x, h) \<in> set (rsPayments g)"
    and "rsInFlight g x = Some h \<Longrightarrow> \<exists>r \<in> set (rsRows g). irId r = x \<and> payable (rsReverted g) r"
    and "set (rsOverdue g) \<subseteq> irId ` set (rsRows g)" and "rsUnrecorded g \<subseteq> snd ` set (rsPayments g)"
    and "rsPcs g i = HPaying x \<Longrightarrow> \<exists>r \<in> set (rsRows g). irId r = x \<and> irRewardTxHash r = None"
    and "rsPcs g i = HPaying x \<Longrightarrow> rsPcs g j = HPaying x \<Longrightarrow> i = j"
    and "rsLocks g x = Some j \<Longrightarrow> x \<in> irId ` set (rsRows g)"
    and "rsLocks g x = Some j \<Longrightarrow> rsPcs g i \<noteq> HPaying x"
proof -
  note all = assms [unfolded pays_once_def]
  note flights = all [THEN conjunct2, THEN conjunct2, THEN conjunct2, THEN conjunct2]
  note paying = flights [THEN conjunct2, THEN conjunct2, THEN conjunct2]
  show "distinct (map irId (rsRows g))" and "distinct (map irInvitee (rsRows g))" and "distinct (map snd (rsPayments g))"
    and "set (rsOverdue g) \<subseteq> irId ` set (rsRows g)" and "rsUnrecorded g \<subseteq> snd ` set (rsPayments g)"
    using all by simp_all
  show "(x, h) \<in> set (rsPayments g) \<Longrightarrow> h \<noteq> []" and "(x, h) \<in> set (rsPayments g) \<Longrightarrow> x \<in> irId ` set (rsRows g)"
    and "(x, h) \<in> set (rsPayments g) \<Longrightarrow> accounted g x h"
    using all [THEN conjunct2, THEN conjunct2, THEN conjunct1] by simp_all
  show "rsInFlight g x = Some h \<Longrightarrow> (x, h) \<in> set (rsPayments g)"
    and "rsInFlight g x = Some h \<Longrightarrow> \<exists>r \<in> set (rsRows g). irId r = x \<and> payable (rsReverted g) r"
    using flights [THEN conjunct1] by simp_all
  show "rsPcs g i = HPaying x \<Longrightarrow> \<exists>r \<in> set (rsRows g). irId r = x \<and> irRewardTxHash r = None"
    using paying [THEN conjunct1] by simp
  show "rsPcs g i = HPaying x \<Longrightarrow> rsPcs g j = HPaying x \<Longrightarrow> i = j"
    using paying [THEN conjunct2, THEN conjunct1] by blast
  show "rsLocks g x = Some j \<Longrightarrow> x \<in> irId ` set (rsRows g)" and "rsLocks g x = Some j \<Longrightarrow> rsPcs g i \<noteq> HPaying x"
    using paying [THEN conjunct2, THEN conjunct2] by simp_all
qed

lemma same_row:
  "pays_once g \<Longrightarrow> r \<in> set (rsRows g) \<Longrightarrow> r' \<in> set (rsRows g) \<Longrightarrow> irId r = irId r' \<Longrightarrow> r = r'"
  by (auto dest!: pays_onceD(1) simp: distinct_map inj_on_def)

lemma same_invitee:
  "pays_once g \<Longrightarrow> r \<in> set (rsRows g) \<Longrightarrow> r' \<in> set (rsRows g) \<Longrightarrow> irInvitee r = irInvitee r' \<Longrightarrow> r = r'"
  by (auto dest!: pays_onceD(2) simp: distinct_map inj_on_def)

text \<open>Moving a handler elsewhere than to a payment, and changing the state of rows, keep it.\<close>

lemma pays_once_at_pc:
  assumes "pays_once g" and "\<And>x. c \<noteq> HPaying x"
  shows "pays_once (at_pc i c g)"
  using assms unfolding pays_once_def accounted_def at_pc_def by simp

lemma setRow_rows [simp]:
  "map irId (rsRows (setRow x st h g)) = map irId (rsRows g)"
  "map irInvitee (rsRows (setRow x st h g)) = map irInvitee (rsRows g)"
  "irId ` set (rsRows (setRow x st h g)) = irId ` set (rsRows g)"
  "rsPcs (setRow x st h g) = rsPcs g" "rsLocks (setRow x st h g) = rsLocks g"
  "rsPayments (setRow x st h g) = rsPayments g" "rsReverted (setRow x st h g) = rsReverted g"
  "rsInFlight (setRow x st h g) = rsInFlight g" "rsWeek (setRow x st h g) = rsWeek g"
  by (simp_all add: setRow_def image_image)

lemma pays_once_setRow: "pays_once g \<Longrightarrow> pays_once (setRow x st None g)"
  by (simp add: pays_once_def accounted_def payable_def setRow_def image_image o_def)

text \<open>A row that is payable has no other payment that counts.\<close>

lemma payable_accounts:
  assumes once: "pays_once g" and row: "r \<in> set (rsRows g)" "irId r = x" "payable (rsReverted g) r"
    and paid: "(x, k) \<in> set (rsPayments g)"
  shows "k \<in> rsReverted g \<or> k \<in> rsUnrecorded g \<or> rsInFlight g x = Some k"
proof -
  have "k \<in> rsReverted g" if "r' \<in> set (rsRows g)" "irId r' = x" "irRewardTxHash r' = Some k" for r'
  proof -
    from that row same_row [OF once] have "r' = r" by metis
    with that row(3) pays_onceD(3) [OF once paid] show ?thesis by (auto simp: payable_def)
  qed
  with pays_onceD(5) [OF once paid] show ?thesis by (auto simp: accounted_def)
qed

lemma pays_once_accept:
  assumes once: "pays_once g" and row: "r \<in> set (rsRows g)" "irId r = x" "payable (rsReverted g) r"
    and new: "newHash h g" and none: "rsInFlight g x = None"
  shows "pays_once (accept x h g)"
proof -
  let ?g = "accept x h g"
  have same: "rsRows ?g = rsRows g" "rsPayments ?g = (x, h) # rsPayments g" "rsInFlight ?g = (rsInFlight g)(x := Some h)"
    "rsPcs ?g = rsPcs g" "rsLocks ?g = rsLocks g" "rsReverted ?g = rsReverted g" "rsOverdue ?g = rsOverdue g"
    "rsUnrecorded ?g = rsUnrecorded g"
    by (simp_all add: accept_def)
  show ?thesis
  proof (rule pays_onceI)
    show "k \<noteq> [] \<and> y \<in> irId ` set (rsRows ?g)" if "(y, k) \<in> set (rsPayments ?g)" for y k
      using that row new pays_onceD(3,4) [OF once, of y k] by (auto simp: same newHash_def)
    show "accounted ?g y k" if "(y, k) \<in> set (rsPayments ?g)" for y k
      using that none pays_onceD(5) [OF once, of y k] by (auto simp: same accounted_def)
    show "(y, k) \<in> set (rsPayments ?g) \<and> (\<exists>r \<in> set (rsRows ?g). irId r = y \<and> payable (rsReverted ?g) r)"
      if "rsInFlight ?g y = Some k" for y k
      using that row pays_onceD(7,8) [OF once, of y k] by (auto simp: same split: if_splits)
    show "distinct (map snd (rsPayments ?g))" using pays_onceD(6) [OF once] new by (simp add: same newHash_def)
    show "rsUnrecorded ?g \<subseteq> snd ` set (rsPayments ?g)" using pays_onceD(10) [OF once] by (auto simp: same)
    show "y \<in> irId ` set (rsRows ?g) \<and> rsPcs ?g j \<noteq> HPaying y" if "rsLocks ?g y = Some l" for j l y
      using that pays_onceD(13,14) [OF once, of y l] by (simp add: same)
  qed (simp_all only: same pays_onceD(1,2,9,11,12) [OF once])
qed

lemma pays_once_record:
  assumes once: "pays_once g" and sent: "rsInFlight g x = Some h" and free: "\<And>j. rsPcs g j \<noteq> HPaying x"
  shows "pays_once (recordHash x h g)"
proof -
  let ?g = "recordHash x h g"
  have same: "set (rsRows ?g) = setReward x RSubmitted (Some h) ` set (rsRows g)" "rsPayments ?g = rsPayments g"
    "map irId (rsRows ?g) = map irId (rsRows g)" "map irInvitee (rsRows ?g) = map irInvitee (rsRows g)"
    "irId ` set (rsRows ?g) = irId ` set (rsRows g)"
    "rsInFlight ?g = (rsInFlight g)(x := None)" "rsPcs ?g = rsPcs g" "rsLocks ?g = rsLocks g"
    "rsReverted ?g = rsReverted g" "rsOverdue ?g = rsOverdue g" "rsUnrecorded ?g = rsUnrecorded g"
    by (simp_all add: recordHash_def setRow_def image_image)
  obtain r where row: "r \<in> set (rsRows g)" "irId r = x" "payable (rsReverted g) r" using pays_onceD(8) [OF once sent] by blast
  show ?thesis
  proof (rule pays_onceI)
    show "k \<noteq> [] \<and> y \<in> irId ` set (rsRows ?g)" if "(y, k) \<in> set (rsPayments ?g)" for y k
      using that pays_onceD(3,4) [OF once, of y k] unfolding same(2,5) by blast
    show "accounted ?g y k" if "(y, k) \<in> set (rsPayments ?g)" for y k
    proof (cases "y = x")
      case True
      with that payable_accounts [OF once row, of k] sent have "k \<in> rsReverted g \<or> k \<in> rsUnrecorded g \<or> k = h" by (auto simp: same)
      with row True show ?thesis by (auto simp: same accounted_def)
    next
      case False
      with that pays_onceD(5) [OF once, of y k] show ?thesis by (auto simp: same accounted_def)
    qed
    show "(y, k) \<in> set (rsPayments ?g) \<and> (\<exists>r \<in> set (rsRows ?g). irId r = y \<and> payable (rsReverted ?g) r)"
      if "rsInFlight ?g y = Some k" for y k
    proof -
      from that have y: "y \<noteq> x" "rsInFlight g y = Some k" by (simp_all add: same split: if_splits)
      from pays_onceD(8) [OF once y(2)] obtain q where q: "q \<in> set (rsRows g)" "irId q = y" "payable (rsReverted g) q" by blast
      with y(1) have "setReward x RSubmitted (Some h) q = q" by (simp add: setReward_def)
      with q pays_onceD(7) [OF once y(2)] show ?thesis by (force simp: same)
    qed
    show "\<exists>r \<in> set (rsRows ?g). irId r = y \<and> irRewardTxHash r = None" if "rsPcs ?g j = HPaying y" for j y
      using that pays_onceD(11) [OF once, of j y] free [of j] by (auto simp: same)
    show "j = l" if "rsPcs ?g j = HPaying y" and "rsPcs ?g l = HPaying y" for j l y
      using that pays_onceD(12) [OF once] by (simp add: same)
    show "y \<in> irId ` set (rsRows ?g) \<and> rsPcs ?g j \<noteq> HPaying y" if "rsLocks ?g y = Some l" for j l y
      using that pays_onceD(13,14) [OF once, of y l] unfolding same(5,7,8) by blast
    show "set (rsOverdue ?g) \<subseteq> irId ` set (rsRows ?g)" unfolding same(5,10) by (rule pays_onceD(9) [OF once])
  qed (simp_all only: same pays_onceD(1,2,6,10) [OF once])
qed

lemma pays_once_lose:
  assumes once: "pays_once g" and sent: "rsInFlight g x = Some h"
  shows "pays_once (loseHash x h g)"
proof -
  let ?g = "loseHash x h g"
  have same: "rsRows ?g = rsRows g" "rsPayments ?g = rsPayments g" "rsInFlight ?g = (rsInFlight g)(x := None)"
    "rsPcs ?g = rsPcs g" "rsLocks ?g = rsLocks g" "rsReverted ?g = rsReverted g" "rsOverdue ?g = rsOverdue g"
    "rsUnrecorded ?g = insert h (rsUnrecorded g)"
    by (simp_all add: loseHash_def)
  show ?thesis
  proof (rule pays_onceI)
    show "k \<noteq> [] \<and> y \<in> irId ` set (rsRows ?g)" if "(y, k) \<in> set (rsPayments ?g)" for y k
      using that pays_onceD(3,4) [OF once, of y k] by (simp add: same)
    show "accounted ?g y k" if "(y, k) \<in> set (rsPayments ?g)" for y k
      using that sent pays_onceD(5) [OF once, of y k] by (auto simp: same accounted_def)
    show "(y, k) \<in> set (rsPayments ?g) \<and> (\<exists>r \<in> set (rsRows ?g). irId r = y \<and> payable (rsReverted ?g) r)"
      if "rsInFlight ?g y = Some k" for y k
      using that pays_onceD(7,8) [OF once, of y k] by (simp add: same split: if_splits)
    show "rsUnrecorded ?g \<subseteq> snd ` set (rsPayments ?g)"
      using pays_onceD(10) [OF once] pays_onceD(7) [OF once sent] by (force simp: same)
    show "y \<in> irId ` set (rsRows ?g) \<and> rsPcs ?g j \<noteq> HPaying y" if "rsLocks ?g y = Some l" for j l y
      using that pays_onceD(13,14) [OF once, of y l] by (simp add: same)
  qed (simp_all only: same pays_onceD(1,2,6,9,11,12) [OF once])
qed

lemma pays_once_late:
  assumes once: "pays_once g" and "x \<in> set (rsOverdue g)" and new: "newHash h g"
  shows "pays_once (g\<lparr>rsPayments := (x, h) # rsPayments g, rsUnrecorded := insert h (rsUnrecorded g),
     rsOverdue := remove1 x (rsOverdue g)\<rparr>)" (is "pays_once ?g")
proof (rule pays_onceI)
  show "k \<noteq> [] \<and> y \<in> irId ` set (rsRows ?g)" if "(y, k) \<in> set (rsPayments ?g)" for y k
    using that assms(2) new pays_onceD(3,4) [OF once, of y k] pays_onceD(9) [OF once] by (auto simp: newHash_def)
  show "accounted ?g y k" if "(y, k) \<in> set (rsPayments ?g)" for y k
    using that pays_onceD(5) [OF once, of y k] by (auto simp: accounted_def)
  show "(y, k) \<in> set (rsPayments ?g) \<and> (\<exists>r \<in> set (rsRows ?g). irId r = y \<and> payable (rsReverted ?g) r)"
    if "rsInFlight ?g y = Some k" for y k
    using that pays_onceD(7,8) [OF once, of y k] by simp
  show "distinct (map snd (rsPayments ?g))" using pays_onceD(6) [OF once] new by (simp add: newHash_def)
  show "rsUnrecorded ?g \<subseteq> snd ` set (rsPayments ?g)" using pays_onceD(10) [OF once] by auto
  show "set (rsOverdue ?g) \<subseteq> irId ` set (rsRows ?g)"
    using pays_onceD(9) [OF once] set_remove1_subset [of x "rsOverdue g"] by auto
  show "y \<in> irId ` set (rsRows ?g) \<and> rsPcs ?g j \<noteq> HPaying y" if "rsLocks ?g y = Some l" for j l y
    using that pays_onceD(13,14) [OF once, of y l] by simp
  show "\<exists>r \<in> set (rsRows ?g). irId r = y \<and> irRewardTxHash r = None" if "rsPcs ?g j = HPaying y" for j y
    using that pays_onceD(11) [OF once, of j y] by simp
  show "j = l" if "rsPcs ?g j = HPaying y" and "rsPcs ?g l = HPaying y" for j l y
    using that pays_onceD(12) [OF once] by simp
qed (simp_all add: pays_onceD(1,2) [OF once])

lemma restoreRow_fields [simp]:
  "irId (restoreRow j g r) = irId r" "irInvitee (restoreRow j g r) = irInvitee r" "irInviter (restoreRow j g r) = irInviter r"
  "irCreatedAt (restoreRow j g r) = irCreatedAt r"
  by (simp_all add: restoreRow_def)

lemma pays_once_rollBack:
  assumes once: "pays_once g"
  shows "pays_once (rollBack j g)"
proof -
  let ?g = "rollBack j g"
  have same: "set (rsRows ?g) = restoreRow j g ` set (rsRows g)" "rsPayments ?g = rsPayments g"
    "map irId (rsRows ?g) = map irId (rsRows g)" "map irInvitee (rsRows ?g) = map irInvitee (rsRows g)"
    "irId ` set (rsRows ?g) = irId ` set (rsRows g)" "rsPcs ?g = rsPcs g" "rsReverted ?g = rsReverted g"
    "rsOverdue ?g = rsOverdue g" "rsLocks ?g = (\<lambda>x. if rsLocks g x = Some j then None else rsLocks g x)"
    "rsInFlight ?g = (\<lambda>x. if rsLocks g x = Some j then None else rsInFlight g x)"
    by (simp_all add: rollBack_def o_def image_image)
  have unlocked: "restoreRow j g r = r" if "rsLocks g (irId r) \<noteq> Some j" for r
    using that by (simp add: restoreRow_def)
  show ?thesis
  proof (rule pays_onceI)
    show "k \<noteq> [] \<and> y \<in> irId ` set (rsRows ?g)" if "(y, k) \<in> set (rsPayments ?g)" for y k
      using that pays_onceD(3,4) [OF once, of y k] unfolding same(2,5) by blast
    show "accounted ?g y k" if "(y, k) \<in> set (rsPayments ?g)" for y k
    proof -
      from that have paid: "(y, k) \<in> set (rsPayments g)" by (simp add: same)
      from pays_onceD(5) [OF once paid] consider "k \<in> rsReverted g" | "k \<in> rsUnrecorded g" | "rsInFlight g y = Some k"
        | r where "r \<in> set (rsRows g)" "irId r = y" "irRewardTxHash r = Some k" unfolding accounted_def by blast
      then show ?thesis
      proof cases
        case 1
        then show ?thesis by (simp add: accounted_def same)
      next
        case 2
        then show ?thesis by (simp add: accounted_def rollBack_def)
      next
        case 3
        with paid show ?thesis by (auto simp: accounted_def rollBack_def)
      next
        case (4 r)
        show ?thesis
        proof (cases "rsLocks g y = Some j \<and> snd (rsBefore g y) \<noteq> Some k")
          case True
          with 4 paid have "k \<in> rsUnrecorded ?g" by (auto simp: rollBack_def)
          then show ?thesis by (simp add: accounted_def)
        next
          case False
          with 4 have "irRewardTxHash (restoreRow j g r) = Some k" by (auto simp: restoreRow_def)
          with 4 have "\<exists>q \<in> set (rsRows ?g). irId q = y \<and> irRewardTxHash q = Some k" by (auto simp: same)
          then show ?thesis by (simp add: accounted_def)
        qed
      qed
    qed
    show "(y, k) \<in> set (rsPayments ?g) \<and> (\<exists>r \<in> set (rsRows ?g). irId r = y \<and> payable (rsReverted ?g) r)"
      if "rsInFlight ?g y = Some k" for y k
    proof -
      from that have y: "rsLocks g y \<noteq> Some j" "rsInFlight g y = Some k" by (auto simp: same split: if_splits)
      from pays_onceD(8) [OF once y(2)] obtain q where "q \<in> set (rsRows g)" "irId q = y" "payable (rsReverted g) q" by blast
      with y(1) unlocked [of q] pays_onceD(7) [OF once y(2)] show ?thesis by (force simp: same)
    qed
    show "rsUnrecorded ?g \<subseteq> snd ` set (rsPayments ?g)"
      using pays_onceD(10) [OF once] by (force simp: rollBack_def)
    show "\<exists>r \<in> set (rsRows ?g). irId r = y \<and> irRewardTxHash r = None" if "rsPcs ?g i = HPaying y" for i y
    proof -
      from that have i: "rsPcs g i = HPaying y" by (simp add: same)
      then have "rsLocks g y \<noteq> Some j" using pays_onceD(14) [OF once] by blast
      with pays_onceD(11) [OF once i] unlocked show ?thesis by (force simp: same)
    qed
    show "i = l" if "rsPcs ?g i = HPaying y" and "rsPcs ?g l = HPaying y" for i l y
      using that pays_onceD(12) [OF once] by (simp add: same)
    show "y \<in> irId ` set (rsRows ?g) \<and> rsPcs ?g i \<noteq> HPaying y" if "rsLocks ?g y = Some l" for i l y
    proof -
      from that have "rsLocks g y = Some l" by (simp add: same split: if_splits)
      with pays_onceD(13,14) [OF once, of y l] show ?thesis unfolding same(5,6) by blast
    qed
    show "set (rsOverdue ?g) \<subseteq> irId ` set (rsRows ?g)" unfolding same(5,8) by (rule pays_onceD(9) [OF once])
  qed (simp_all only: same pays_onceD(1,2,6) [OF once])
qed

lemma pays_once_create:
  assumes once: "pays_once g" and "irRewardTxHash r = None" and new: "insertable r (rsRows g)"
  shows "pays_once (at_pc i (HPaying (irId r)) (g\<lparr>rsRows := r # rsRows g\<rparr>))"
proof -
  let ?g = "at_pc i (HPaying (irId r)) (g\<lparr>rsRows := r # rsRows g\<rparr>)"
  have other: "irId r' \<noteq> irId r" "irInvitee r' \<noteq> irInvitee r" if "r' \<in> set (rsRows g)" for r'
    using new that by (auto simp: insertable_def)
  then have absent: "irId r \<notin> irId ` set (rsRows g)" "irInvitee r \<notin> irInvitee ` set (rsRows g)"
    by (metis imageE)+
  have fresh: "rsPcs g j \<noteq> HPaying (irId r)" for j
    using pays_onceD(11) [OF once, of j "irId r"] other by blast
  have rows: "rsRows ?g = r # rsRows g" "rsPcs ?g = (rsPcs g)(i := HPaying (irId r))" "rsLocks ?g = rsLocks g"
    "rsPayments ?g = rsPayments g" "rsReverted ?g = rsReverted g" "rsInFlight ?g = rsInFlight g"
    "rsOverdue ?g = rsOverdue g" "rsUnrecorded ?g = rsUnrecorded g"
    by (simp_all add: at_pc_def)
  show ?thesis
  proof (rule pays_onceI)
    show "distinct (map irId (rsRows ?g))" and "distinct (map irInvitee (rsRows ?g))"
      using pays_onceD(1,2) [OF once] absent by (simp_all add: rows)
    show "k \<noteq> [] \<and> y \<in> irId ` set (rsRows ?g)" if "(y, k) \<in> set (rsPayments ?g)" for y k
      using that pays_onceD(3,4) [OF once, of y k] by (simp add: rows)
    show "accounted ?g y k" if "(y, k) \<in> set (rsPayments ?g)" for y k
      using that pays_onceD(5) [OF once, of y k] by (auto simp: rows accounted_def)
    show "(y, k) \<in> set (rsPayments ?g) \<and> (\<exists>r \<in> set (rsRows ?g). irId r = y \<and> payable (rsReverted ?g) r)"
      if "rsInFlight ?g y = Some k" for y k
      using that pays_onceD(7,8) [OF once, of y k] by (auto simp: rows)
    show "set (rsOverdue ?g) \<subseteq> irId ` set (rsRows ?g)" using pays_onceD(9) [OF once] by (auto simp: rows)
    show "\<exists>r \<in> set (rsRows ?g). irId r = y \<and> irRewardTxHash r = None" if "rsPcs ?g j = HPaying y" for j y
      using that assms(2) pays_onceD(11) [OF once, of j y] by (auto simp: rows split: if_splits)
    show "j = l" if "rsPcs ?g j = HPaying y" and "rsPcs ?g l = HPaying y" for j l y
      using that fresh pays_onceD(12) [OF once, of j y l] by (auto simp: rows split: if_splits)
    show "y \<in> irId ` set (rsRows ?g) \<and> rsPcs ?g j \<noteq> HPaying y" if "rsLocks ?g y = Some l" for j l y
    proof -
      have "rsLocks g y = Some l" using that by (simp add: rows)
      from pays_onceD(13,14) [OF once this] absent(1) show ?thesis by (auto simp: rows)
    qed
  qed (simp_all only: rows pays_onceD(6,10) [OF once])
qed

lemma pays_once_other:
  assumes "pays_once g" and "rsRows g' = rsRows g" "rsPcs g' = rsPcs g" "rsPayments g' = rsPayments g"
    "rsInFlight g' = rsInFlight g" "rsUnrecorded g' = rsUnrecorded g" and "rsReverted g \<subseteq> rsReverted g'"
    and "set (rsOverdue g') \<subseteq> irId ` set (rsRows g)"
    and "\<And>x j i. rsLocks g' x = Some j \<Longrightarrow> x \<in> irId ` set (rsRows g) \<and> rsPcs g i \<noteq> HPaying x"
  shows "pays_once g'"
proof (rule pays_onceI)
  show "accounted g' y k" if "(y, k) \<in> set (rsPayments g')" for y k
    using that assms(2-7) pays_onceD(5) [OF assms(1), of y k] by (auto simp: accounted_def)
  show "(y, k) \<in> set (rsPayments g') \<and> (\<exists>r \<in> set (rsRows g'). irId r = y \<and> payable (rsReverted g') r)"
    if "rsInFlight g' y = Some k" for y k
    using that assms(2-7) pays_onceD(7,8) [OF assms(1), of y k] by (fastforce simp: payable_def split: option.splits)
  show "k \<noteq> [] \<and> y \<in> irId ` set (rsRows g')" if "(y, k) \<in> set (rsPayments g')" for y k
    using that assms(2-7) pays_onceD(3,4) [OF assms(1), of y k] by simp
  show "\<exists>r \<in> set (rsRows g'). irId r = y \<and> irRewardTxHash r = None" if "rsPcs g' i = HPaying y" for i y
    using that assms(2,3) pays_onceD(11) [OF assms(1), of i y] by simp
  show "i = l" if "rsPcs g' i = HPaying y" and "rsPcs g' l = HPaying y" for i l y
    using that assms(3) pays_onceD(12) [OF assms(1)] by simp
  show "y \<in> irId ` set (rsRows g') \<and> rsPcs g' i \<noteq> HPaying y" if "rsLocks g' y = Some l" for i l y
    using assms(9) [OF that] assms(2,3) by simp
qed (use assms pays_onceD(1,2,6,10) [OF assms(1)] in simp_all)

lemma pays_once_step:
  assumes once: "pays_once g" and step: "reward_step n g g'"
  shows "pays_once g'"
  using step
proof cases
  case (create i a b c r)
  with pays_once_create [OF once] show ?thesis by simp
next
  case (sent i x h)
  from pays_onceD(11) [OF once sent(2)] obtain r where "r \<in> set (rsRows g)" "irId r = x" "irRewardTxHash r = None" by blast
  with sent show ?thesis by (auto intro!: pays_once_accept [OF once, of r] simp: payable_def)
next
  case (sent_again x j r h)
  then show ?thesis by (auto intro: pays_once_accept [OF once])
next
  case (recorded i x h)
  let ?g = "at_pc i HIdle g"
  have "rsPcs ?g j \<noteq> HPaying x" for j
    using pays_onceD(12) [OF once recorded(2), of j] by (auto simp: at_pc_def)
  then have "pays_once (recordHash x h ?g)"
    using recorded(3) by (intro pays_once_record pays_once_at_pc once) (simp_all add: at_pc_def)
  moreover have "recordHash x h ?g = g'" using recorded(1) by (simp add: system_defs)
  ultimately show ?thesis by simp
next
  case (recorded_again x j h)
  with pays_onceD(14) [OF once recorded_again(2)] show ?thesis by (auto intro: pays_once_record [OF once])
next
  case (lost x h)
  with pays_once_lose [OF once] show ?thesis by simp
next
  case (accepted_late x h)
  with pays_once_late [OF once] show ?thesis by simp
next
  case (given_up i x)
  with pays_onceD(11) [OF once given_up(2)] pays_onceD(9) [OF once] show ?thesis
    by (intro pays_once_other [OF once]) (auto dest: pays_onceD(13,14) [OF once])
next
  case (given_up_again x j r)
  with pays_onceD(9) [OF once] show ?thesis
    by (intro pays_once_other [OF once]) (auto dest: pays_onceD(13,14) [OF once])
next
  case (lock X j)
  with pays_onceD(9) [OF once] show ?thesis
    by (intro pays_once_other [OF once]) (auto dest: pays_onceD(13,14) [OF once] split: if_splits)
next
  case (commit j)
  with pays_onceD(9) [OF once] show ?thesis
    by (intro pays_once_other [OF once]) (auto dest: pays_onceD(13,14) [OF once] split: if_splits)
next
  case (reverts h)
  with pays_onceD(9) [OF once] show ?thesis
    by (intro pays_once_other [OF once]) (auto dest: pays_onceD(13,14) [OF once])
next
  case (next_week t)
  with pays_onceD(9) [OF once] show ?thesis
    by (intro pays_once_other [OF once]) (auto dest: pays_onceD(13,14) [OF once])
next
  case (rolled_back j)
  with pays_once_rollBack [OF once] show ?thesis by simp
qed (simp_all add: once pays_once_at_pc pays_once_setRow)

lemma pays_once_reachable: "reward_reachable n g \<Longrightarrow> pays_once g"
proof (induction rule: reward_reachable.induct)
  case (start t)
  show ?case by (simp add: pays_once_def noRewards_def)
qed (rule pays_once_step)

section \<open>The weekly limit\<close>

text \<open>A handler that has read a count below the limit for this inviter and not inserted its row yet\<close>

definition admittedFor :: "string \<Rightarrow> reward_pc \<Rightarrow> bool" where
  "admittedFor a c \<longleftrightarrow> (\<exists>b x e. c = HChecks a b x True e) \<or> (\<exists>b x. c = HCreating a b x)"

text \<open>The rewards of an inviter created this week whose sending never failed\<close>

definition steadyRow :: "int \<Rightarrow> string set \<Rightarrow> string \<Rightarrow> invite_reward \<Rightarrow> bool" where
  "steadyRow week failed a r \<longleftrightarrow> irInviter r = a \<and> week \<le> irCreatedAt r \<and> irId r \<notin> failed"

definition steadyRewards :: "reward_system \<Rightarrow> string \<Rightarrow> nat" where
  "steadyRewards g a = length (filter (steadyRow (rsWeek g) (rsEverFailed g) a) (rsRows g))"

definition within_limit :: "nat \<Rightarrow> reward_system \<Rightarrow> bool" where
  "within_limit n g \<longleftrightarrow>
     (\<forall>i. n \<le> i \<longrightarrow> rsPcs g i = HIdle) \<and>
     (\<forall>r \<in> set (rsRows g). irState r = RFailed \<longrightarrow> irId r \<in> rsEverFailed g) \<and>
     (\<forall>x j. rsLocks g x = Some j \<longrightarrow> fst (rsBefore g x) = RFailed \<longrightarrow> x \<in> rsEverFailed g) \<and>
     (\<forall>a. Suc (steadyRewards g a + card {i. i < n \<and> admittedFor a (rsPcs g i)}) \<le> WEEKLY_INVITE_LIMIT + n)"

lemma length_filter_le:
  "(\<And>x. x \<in> set xs \<Longrightarrow> P x \<Longrightarrow> Q x) \<Longrightarrow> length (filter P xs) \<le> length (filter Q xs)"
  by (induction xs) (simp, fastforce)

lemma steady_pcs [simp]:
  "steadyRewards (at_pc i c g) = steadyRewards g" "steadyRewards (g\<lparr>rsLocks := l\<rparr>) = steadyRewards g"
  "steadyRewards (g\<lparr>rsReverted := R\<rparr>) = steadyRewards g" "steadyRewards (g\<lparr>rsPayments := P\<rparr>) = steadyRewards g"
  "steadyRewards (g\<lparr>rsInFlight := F\<rparr>) = steadyRewards g" "steadyRewards (accept x h g) = steadyRewards g"
  "steadyRewards (g\<lparr>rsLocks := l, rsBefore := f\<rparr>) = steadyRewards g"
  "steadyRewards (loseHash x h g) = steadyRewards g" "steadyRewards (rollBack j g) = steadyRewards g"
  by (simp_all add: fun_eq_iff steadyRewards_def steadyRow_def [abs_def] at_pc_def accept_def loseHash_def rollBack_def
      filter_map o_def)

lemma steady_setRow: "steadyRewards (setRow x st h g) a \<le> steadyRewards g a"
proof -
  have "steadyRewards (setRow x st h g) a = length (filter (\<lambda>r. steadyRow (rsWeek g) (rsEverFailed (setRow x st h g)) a (setReward x st h r)) (rsRows g))"
    by (simp add: steadyRewards_def setRow_def filter_map o_def)
  also have "\<dots> \<le> steadyRewards g a"
    unfolding steadyRewards_def by (intro length_filter_le) (auto simp: steadyRow_def setRow_def split: if_splits)
  finally show ?thesis .
qed

text \<open>A step that neither inserts a row nor reads a count only makes room.\<close>

lemma within_limit_mono:
  assumes "within_limit n g" and "\<And>i. n \<le> i \<Longrightarrow> rsPcs g' i = HIdle"
    and "\<And>r. r \<in> set (rsRows g') \<Longrightarrow> irState r = RFailed \<Longrightarrow> irId r \<in> rsEverFailed g'"
    and "\<And>x j. rsLocks g' x = Some j \<Longrightarrow> fst (rsBefore g' x) = RFailed \<Longrightarrow> x \<in> rsEverFailed g'"
    and "\<And>a. steadyRewards g' a \<le> steadyRewards g a"
    and "\<And>a i. admittedFor a (rsPcs g' i) \<Longrightarrow> admittedFor a (rsPcs g i)"
  shows "within_limit n g'"
proof -
  have "Suc (steadyRewards g' a + card {i. i < n \<and> admittedFor a (rsPcs g' i)}) \<le> WEEKLY_INVITE_LIMIT + n" for a
  proof -
    have "card {i. i < n \<and> admittedFor a (rsPcs g' i)} \<le> card {i. i < n \<and> admittedFor a (rsPcs g i)}"
      using assms(6) by (intro card_mono) auto
    with assms(1,5) show ?thesis unfolding within_limit_def by (meson Suc_le_mono add_mono le_trans)
  qed
  with assms(2-4) show ?thesis unfolding within_limit_def by blast
qed

text \<open>A step of the payments alone\<close>

lemma within_limit_payments:
  assumes "within_limit n g" and "rsRows g' = rsRows g" "rsPcs g' = rsPcs g" "rsLocks g' = rsLocks g" "rsBefore g' = rsBefore g"
    "rsEverFailed g' = rsEverFailed g" "rsWeek g' = rsWeek g"
  shows "within_limit n g'"
  using assms by (simp add: within_limit_def steadyRewards_def)

lemma within_limit_setRow:
  assumes "within_limit n g"
  shows "within_limit n (setRow x st h g)"
proof (rule within_limit_mono [OF assms])
  show "rsPcs (setRow x st h g) i = HIdle" if "n \<le> i" for i using assms that by (simp add: within_limit_def)
  show "irId r \<in> rsEverFailed (setRow x st h g)" if "r \<in> set (rsRows (setRow x st h g))" "irState r = RFailed" for r
    using assms that by (auto simp: within_limit_def setRow_def setReward_def split: if_splits)
  show "y \<in> rsEverFailed (setRow x st h g)"
    if "rsLocks (setRow x st h g) y = Some j" "fst (rsBefore (setRow x st h g) y) = RFailed" for y j
    using assms that by (auto simp: within_limit_def setRow_def)
qed (simp_all add: steady_setRow)

lemma within_limit_record: "within_limit n g \<Longrightarrow> within_limit n (recordHash x h g)"
  by (rule within_limit_payments [OF within_limit_setRow [of n g x RSubmitted "Some h"]]) (simp_all add: recordHash_def)

lemma within_limit_rollBack:
  assumes "within_limit n g"
  shows "within_limit n (rollBack j g)"
proof (rule within_limit_mono [OF assms])
  show "irId r \<in> rsEverFailed (rollBack j g)" if "r \<in> set (rsRows (rollBack j g))" "irState r = RFailed" for r
    using assms that by (auto simp: within_limit_def rollBack_def restoreRow_def split: if_splits)
  show "x \<in> rsEverFailed (rollBack j g)" if "rsLocks (rollBack j g) x = Some l" "fst (rsBefore (rollBack j g) x) = RFailed" for x l
    using assms that by (auto simp: within_limit_def rollBack_def split: if_splits)
  show "steadyRewards (rollBack j g) a \<le> steadyRewards g a" for a by simp
qed (use assms in \<open>simp_all add: within_limit_def rollBack_def\<close>)

lemma within_limit_at_pc:
  assumes "within_limit n g" and "\<And>a. admittedFor a c \<Longrightarrow> admittedFor a (rsPcs g i)" and "n \<le> i \<longrightarrow> c = HIdle"
  shows "within_limit n (at_pc i c g)"
  by (rule within_limit_mono [OF assms(1)])
    (use assms in \<open>auto simp: within_limit_def at_pc_def steadyRewards_def split: if_splits\<close>)

lemma within_limit_idle: "within_limit n g \<Longrightarrow> within_limit n (at_pc i HIdle g)"
  by (rule within_limit_at_pc) (auto simp: admittedFor_def)

lemma within_limit_read:
  assumes limit: "within_limit n g" and pc: "rsPcs g i = HChecks a b c l e"
    and count: "length (filter (countsFor (rsWeek g) a) (rsRows g)) < WEEKLY_INVITE_LIMIT"
  shows "within_limit n (at_pc i (HChecks a b c True e) g)"
proof -
  let ?g = "at_pc i (HChecks a b c True e) g"
  have i: "i < n" using limit pc unfolding within_limit_def by (metis not_le reward_pc.distinct(1))
  have "steadyRewards g a \<le> length (filter (countsFor (rsWeek g) a) (rsRows g))"
    unfolding steadyRewards_def using limit
    by (intro length_filter_le) (auto simp: steadyRow_def countsFor_def within_limit_def)
  with count have few: "steadyRewards g a < WEEKLY_INVITE_LIMIT" by linarith
  have "Suc (steadyRewards ?g d + card {j. j < n \<and> admittedFor d (rsPcs ?g j)}) \<le> WEEKLY_INVITE_LIMIT + n" for d
  proof (cases "d = a")
    case True
    have "card {j. j < n \<and> admittedFor d (rsPcs ?g j)} \<le> card {j. j < n}" by (intro card_mono) auto
    with few True show ?thesis by simp
  next
    case False
    then have "{j. j < n \<and> admittedFor d (rsPcs ?g j)} \<subseteq> {j. j < n \<and> admittedFor d (rsPcs g j)}"
      by (auto simp: at_pc_def admittedFor_def split: if_splits)
    then have "card {j. j < n \<and> admittedFor d (rsPcs ?g j)} \<le> card {j. j < n \<and> admittedFor d (rsPcs g j)}"
      by (intro card_mono) auto
    with limit show ?thesis unfolding within_limit_def steady_pcs by (meson Suc_le_mono add_left_mono le_trans)
  qed
  with limit i show ?thesis by (auto simp: within_limit_def at_pc_def)
qed

lemma within_limit_create:
  assumes limit: "within_limit n g" and pc: "rsPcs g i = HCreating (irInviter r) b c" and "irState r = RCreated"
  shows "within_limit n (at_pc i (HPaying (irId r)) (g\<lparr>rsRows := r # rsRows g\<rparr>))"
proof -
  let ?g = "at_pc i (HPaying (irId r)) (g\<lparr>rsRows := r # rsRows g\<rparr>)"
  have i: "i < n" using limit pc unfolding within_limit_def by (metis not_le reward_pc.distinct(3))
  let ?A = "\<lambda>d. {j. j < n \<and> admittedFor d (rsPcs g j)}"
  have A: "{j. j < n \<and> admittedFor d (rsPcs ?g j)} = ?A d - {i}" for d
    by (auto simp: at_pc_def admittedFor_def split: if_splits)
  have more: "steadyRewards ?g d \<le> steadyRewards g d + (if d = irInviter r then 1 else 0)" for d
    by (simp add: steadyRewards_def steadyRow_def at_pc_def)
  have "Suc (steadyRewards ?g d + card {j. j < n \<and> admittedFor d (rsPcs ?g j)}) \<le> WEEKLY_INVITE_LIMIT + n" for d
  proof -
    have bound: "Suc (steadyRewards g d + card (?A d)) \<le> WEEKLY_INVITE_LIMIT + n" using limit by (simp add: within_limit_def)
    have "card (?A d - {i}) + (if d = irInviter r then 1 else 0) \<le> card (?A d)"
    proof (cases "d = irInviter r")
      case True
      with i pc have "i \<in> ?A d" by (simp add: admittedFor_def)
      then have "card (?A d) = Suc (card (?A d - {i}))" by (intro card.remove) auto
      with True show ?thesis by simp
    qed (simp add: card_mono)
    with more [of d] bound show ?thesis unfolding A by linarith
  qed
  moreover have "\<forall>j. n \<le> j \<longrightarrow> rsPcs ?g j = HIdle" using limit i by (simp add: within_limit_def at_pc_def)
  moreover have "\<forall>r' \<in> set (rsRows ?g). irState r' = RFailed \<longrightarrow> irId r' \<in> rsEverFailed ?g"
    using limit assms(3) by (simp add: within_limit_def at_pc_def)
  moreover have "\<forall>x j. rsLocks ?g x = Some j \<longrightarrow> fst (rsBefore ?g x) = RFailed \<longrightarrow> x \<in> rsEverFailed ?g"
    using limit by (simp add: within_limit_def at_pc_def)
  ultimately show ?thesis unfolding within_limit_def by blast
qed

lemma within_limit_step:
  assumes limit: "within_limit n g" and step: "reward_step n g g'"
  shows "within_limit n g'"
  using step
proof cases
  case (event i a b c)
  then show ?thesis unfolding event(1) by (intro within_limit_at_pc [OF limit]) (simp_all add: admittedFor_def)
next
  case (read_limit i a b c l e)
  with within_limit_read [OF limit] show ?thesis by blast
next
  case (create i a b c r)
  with within_limit_create [OF limit, of i r b c] show ?thesis by simp
next
  case (recorded i x h)
  with limit show ?thesis by (simp add: within_limit_idle within_limit_record)
next
  case (recorded_again x j h)
  with limit show ?thesis by (simp add: within_limit_record)
next
  case (rolled_back j)
  with limit show ?thesis by (simp add: within_limit_rollBack)
next
  case (lock X j)
  have "x \<in> rsEverFailed g" if "x \<in> X" "fst (savedRow (rsRows g) x) = RFailed" for x
  proof -
    from that(2) obtain r where "find (\<lambda>r. irId r = x) (rsRows g) = Some r" "irState r = RFailed"
      by (auto simp: savedRow_def split: option.splits)
    then have "r \<in> set (rsRows g)" "irId r = x" by (auto simp: find_Some_iff)
    with \<open>irState r = RFailed\<close> limit show ?thesis by (auto simp: within_limit_def)
  qed
  with lock limit show ?thesis by (auto simp: within_limit_def split: if_splits)
next
  case (commit j)
  with limit show ?thesis by (auto simp: within_limit_def split: if_splits)
next
  case (not_paid i x)
  with limit show ?thesis by (simp add: within_limit_idle within_limit_setRow)
next
  case (next_week t)
  show ?thesis
  proof (rule within_limit_mono [OF limit])
    show "steadyRewards g' a \<le> steadyRewards g a" for a
      unfolding steadyRewards_def using next_week by (auto intro!: length_filter_le simp: steadyRow_def)
  qed (use limit next_week in \<open>simp_all add: within_limit_def\<close>)
next
  case (read_invitee i a b c l e)
  then have "i < n" using limit unfolding within_limit_def by (metis not_le reward_pc.distinct(1))
  with read_invitee show ?thesis
    unfolding read_invitee(1) by (intro within_limit_at_pc [OF limit]) (auto simp: admittedFor_def)
next
  case (admit i a b c)
  then have "i < n" using limit unfolding within_limit_def by (metis not_le reward_pc.distinct(1))
  with admit show ?thesis unfolding admit(1) by (intro within_limit_at_pc [OF limit]) (auto simp: admittedFor_def)
next
  case (leave i)
  with limit show ?thesis by (simp add: within_limit_idle)
next
  case (marked x st)
  with within_limit_setRow [OF limit] show ?thesis by simp
next
  case (marked_locked x j st)
  with within_limit_setRow [OF limit] show ?thesis by simp
qed (auto intro: within_limit_payments [OF limit] simp: accept_def loseHash_def)

lemma within_limit_reachable: "reward_reachable n g \<Longrightarrow> within_limit n g"
proof (induction rule: reward_reachable.induct)
  case (start t)
  have "steadyRewards (noRewards t) a = 0" for a by (simp add: steadyRewards_def noRewards_def)
  then show ?case by (simp add: within_limit_def noRewards_def WEEKLY_INVITE_LIMIT_def admittedFor_def)
qed (rule within_limit_step)

text \<open>An accepted payment whose hash reaches the row at once\<close>

lemma paid_at_once:
  assumes "rsInFlight g = (\<lambda>_. None)" and "newHash h g"
  shows "rsPcs g i = HPaying x \<Longrightarrow> rsLocks g x = None \<Longrightarrow>
      (reward_step n)\<^sup>*\<^sup>* g (at_pc i HIdle (recordHash x h (accept x h g)))"
    and "rsLocks g x = Some j \<Longrightarrow> r \<in> set (rsRows g) \<Longrightarrow> irId r = x \<Longrightarrow> payable (rsReverted g) r \<Longrightarrow>
      (reward_step n)\<^sup>*\<^sup>* g (recordHash x h (accept x h g))"
    and "rsRows (recordHash x h (accept x h g)) = map (setReward x RSubmitted (Some h)) (rsRows g)"
    and "rsPayments (recordHash x h (accept x h g)) = (x, h) # rsPayments g"
    and "rsPcs (recordHash x h (accept x h g)) = rsPcs g" and "rsLocks (recordHash x h (accept x h g)) = rsLocks g"
    and "rsWeek (recordHash x h (accept x h g)) = rsWeek g" and "rsReverted (recordHash x h (accept x h g)) = rsReverted g"
    and "rsInFlight (recordHash x h (accept x h g)) = (\<lambda>_. None)"
proof -
  assume pc: "rsPcs g i = HPaying x" "rsLocks g x = None"
  have "reward_step n g (accept x h g)" using pc(1) assms by (intro sent) simp_all
  moreover have "reward_step n (accept x h g) (at_pc i HIdle (recordHash x h (accept x h g)))"
    by (rule recorded) (simp_all add: accept_def pc)
  ultimately show "(reward_step n)\<^sup>*\<^sup>* g (at_pc i HIdle (recordHash x h (accept x h g)))" by auto
next
  assume lock: "rsLocks g x = Some j" and row: "r \<in> set (rsRows g)" "irId r = x" "payable (rsReverted g) r"
  have "reward_step n g (accept x h g)" by (rule sent_again [OF lock row]) (simp_all add: assms)
  moreover have "reward_step n (accept x h g) (recordHash x h (accept x h g))"
    by (rule recorded_again) (simp_all add: accept_def lock)
  ultimately show "(reward_step n)\<^sup>*\<^sup>* g (recordHash x h (accept x h g))" by auto
qed (simp_all add: recordHash_def accept_def setRow_def assms(1) fun_eq_iff)

lemma runs_reachable: "(reward_step n)\<^sup>*\<^sup>* g g' \<Longrightarrow> reward_reachable n g \<Longrightarrow> reward_reachable n g'"
  by (induction rule: rtranclp_induct) (auto intro: reward_reachable.step)

end
