(* ===== verification/Reward_Refinement.thy ===== *)
theory Reward_Refinement
  imports Reward_Interleaving
begin

text \<open>
  The runs of \<open>handleWithdrawalEvent\<close> and \<open>checkFailedInvites\<close> (\<open>packages/apps/rewards/src/invite\<close>) as sequences of the
  steps of \<open>Reward_Interleaving\<close>, on a table with the columns' constraints and relayers that reply in time; and
  what follows for payments and the weekly limit however the instances of the service interleave.
\<close>

section \<open>From runs to steps\<close>

text \<open>
  What a program turns: from a predicate of the outside world to one that depends on the value it returns, or to
  one that holds when it rejects.
\<close>

definition turns :: "('w \<Rightarrow> bool) \<Rightarrow> ('w, 'a) rw_io \<Rightarrow> ('a \<Rightarrow> 'w \<Rightarrow> bool) \<Rightarrow> ('w \<Rightarrow> bool) \<Rightarrow> bool" where
  "turns P m Q E \<longleftrightarrow>
     (\<forall>s w r s' w'. P w \<longrightarrow> m (s, w) = (r, (s', w')) \<longrightarrow> (case r of Inr x \<Rightarrow> Q x w' | Inl e \<Rightarrow> E w'))"

lemma turnsI:
  "(\<And>s w r s' w'. P w \<Longrightarrow> m (s, w) = (r, (s', w')) \<Longrightarrow> case r of Inr x \<Rightarrow> Q x w' | Inl e \<Rightarrow> E w') \<Longrightarrow> turns P m Q E"
  unfolding turns_def by auto

lemma turnsD:
  "turns P m Q E \<Longrightarrow> P w \<Longrightarrow> m (s, w) = (r, (s', w')) \<Longrightarrow> case r of Inr x \<Rightarrow> Q x w' | Inl e \<Rightarrow> E w'"
  unfolding turns_def by blast

lemma turns_weaken:
  "turns P m Q E \<Longrightarrow> (\<And>w. P' w \<Longrightarrow> P w) \<Longrightarrow> (\<And>x w. Q x w \<Longrightarrow> Q' x w) \<Longrightarrow> (\<And>w. E w \<Longrightarrow> E' w) \<Longrightarrow> turns P' m Q' E'"
  unfolding turns_def by (fastforce split: sum.splits)

lemma turns_ret: "(\<And>w. P w \<Longrightarrow> Q x w) \<Longrightarrow> turns P (ret x) Q E"
  by (rule turnsI) auto

lemma turns_throw: "(\<And>w. P w \<Longrightarrow> E w) \<Longrightarrow> turns P (throw e) Q E"
  by (rule turnsI) auto

lemma turns_andThen:
  assumes "turns P m Q E" and "\<And>x. turns (Q x) (f x) R E"
  shows "turns P (andThen m f) R E"
proof (rule turnsI)
  fix s w r s' w'
  assume P: "P w" and run: "andThen m f (s, w) = (r, (s', w'))"
  obtain q s1 w1 where m: "m (s, w) = (q, (s1, w1))" by (metis surj_pair)
  from turnsD [OF assms(1) P m] run m assms(2) show "case r of Inr x \<Rightarrow> R x w' | Inl e \<Rightarrow> E w'"
    by (cases q) (auto simp: andThen_def dest: turnsD)
qed

lemma turns_catching:
  assumes "turns P m Q E'" and "\<And>e. turns E' (h e) Q E"
  shows "turns P (catching m h) Q E"
proof (rule turnsI)
  fix s w r s' w'
  assume P: "P w" and run: "catching m h (s, w) = (r, (s', w'))"
  obtain q s1 w1 where m: "m (s, w) = (q, (s1, w1))" by (metis surj_pair)
  from turnsD [OF assms(1) P m] run m assms(2) show "case r of Inr x \<Rightarrow> Q x w' | Inl e \<Rightarrow> E w'"
    by (cases q) (auto simp: catching_def dest: turnsD)
qed

lemma turns_attempt:
  "turns P m Q E \<Longrightarrow> turns P (attempt m) (\<lambda>r w. case r of Inr x \<Rightarrow> Q x w | Inl e \<Rightarrow> E w) F"
  by (rule turnsI) (auto simp: attempt_def split: prod.splits dest: turnsD)

lemma turns_ext:
  "(\<And>w r w'. P w \<Longrightarrow> m w = (r, w') \<Longrightarrow> case r of Inr x \<Rightarrow> Q x w' | Inl e \<Rightarrow> E w') \<Longrightarrow> turns P (ext m) Q E"
  by (rule turnsI) (auto simp: ext_eq_iff)

lemma turns_keeps: "keeps_outside P m \<Longrightarrow> turns P m (\<lambda>_. P) P"
  by (rule turnsI) (auto dest: keeps_outsideD split: sum.split)

lemma turns_result:
  assumes "turns P m (\<lambda>_. Q) E" and "\<And>sw x sw'. m sw = (Inr x, sw') \<Longrightarrow> R x"
  shows "turns P m (\<lambda>x w. Q w \<and> R x) E"
proof (rule turnsI)
  fix s w r s' w'
  assume "P w" and run: "m (s, w) = (r, (s', w'))"
  with turnsD [OF assms(1)] assms(2) [of "(s, w)" _ "(s', w')"] show "case r of Inr x \<Rightarrow> Q w' \<and> R x | Inl e \<Rightarrow> E w'"
    by (cases r) fastforce+
qed

lemma keeps_outside_turns:
  assumes "turns P m (\<lambda>_. P) P"
  shows "keeps_outside P m"
  unfolding keeps_outside_def
proof (rule preservesI)
  fix sw r sw'
  assume "P (snd sw)" and "m sw = (r, sw')"
  with turnsD [OF assms, of "snd sw" "fst sw" r "fst sw'" "snd sw'"] show "P (snd sw')" by (auto split: sum.splits)
qed

text \<open>
  What the code relies on. Reading changes neither the rows, \<open>rows\<close>, nor the accepted payments, \<open>pays\<close>; the counts
  and the rewards that are read are those of the table; a row is inserted, this week, if the key and the unique
  columns allow it, or nothing happens; updates succeed; a relayer replies in time, with a new hash when it
  submitted the transfer and with an error when it did not; a receipt that says so is of a transaction
  that reverted; a database transaction commits.
\<close>

definition payments_known :: "'w relay_port \<Rightarrow> int \<Rightarrow> ('w \<Rightarrow> invite_reward list) \<Rightarrow> ('w \<Rightarrow> (string \<times> string) list) \<Rightarrow> bool" where
  "payments_known rp timeoutMs rows pays \<longleftrightarrow>
     (\<forall>input ctx w arrival reply w'. relaySend rp SubmitTransaction input ctx w = ((arrival, reply), w') \<longrightarrow>
        rows w' = rows w \<and> (\<exists>t. arrival = Some t \<and> t < timeoutMs) \<and>
        (case reply of
           Inl e \<Rightarrow> pays w' = pays w
         | Inr resp \<Rightarrow> rrPayload resp \<noteq> [] \<and> rrPayload resp \<notin> snd ` set (pays w) \<and>
                       pays w' = (traceId ctx, rrPayload resp) # pays w))"

definition updates_rows :: "'w reward_repo \<Rightarrow> ('w \<Rightarrow> invite_reward list) \<Rightarrow> ('w \<Rightarrow> (string \<times> string) list) \<Rightarrow> bool" where
  "updates_rows repo rows pays \<longleftrightarrow>
     (\<forall>x st h w r w'. updateReward repo x st h w = (r, w') \<longrightarrow>
        r = Inr () \<and> rows w' = map (setReward x st h) (rows w) \<and> pays w' = pays w)"

definition sender_tables ::
    "'w sender_port \<Rightarrow> sender_config \<Rightarrow> ('w \<Rightarrow> invite_reward list) \<Rightarrow> ('w \<Rightarrow> (string \<times> string) list) \<Rightarrow> bool" where
  "sender_tables p cfg rows pays \<longleftrightarrow>
     payments_known (spRelay p) (scRelayerRpcTimeoutMs cfg) rows pays \<and>
     updates_rows (spRepo p) rows pays \<and> updates_rows (spTxRepo p) rows pays \<and>
     (\<forall>R P. (\<forall>t. preserves (\<lambda>w. rows w = R \<and> pays w = P) (tokenAddress p t)) \<and>
        (\<forall>h. preserves (\<lambda>w. rows w = R \<and> pays w = P) (rewardReceipt p h)) \<and>
        (\<forall>q. preserves (\<lambda>w. rows w = R \<and> pays w = P) (findLocked p q)) \<and>
        (\<forall>w. rows w = R \<and> pays w = P \<longrightarrow> rows (snd (spNow p w)) = R \<and> pays (snd (spNow p w)) = P))"

definition invite_tables ::
    "'w invite_port \<Rightarrow> int \<Rightarrow> ('w \<Rightarrow> invite_reward list) \<Rightarrow> ('w \<Rightarrow> (string \<times> string) list) \<Rightarrow> bool" where
  "invite_tables p week rows pays \<longleftrightarrow>
     (\<forall>R P. reads_only p (\<lambda>w. rows w = R \<and> pays w = P) \<and>
        preserves (\<lambda>w. rows w = R \<and> pays w = P) (rwUuid (cpEvents (ipCopies p)))) \<and>
     (\<forall>a w k w'. weeklyInvites p a w = (Inr k, w') \<longrightarrow> k = length (filter (countsFor week a) (rows w))) \<and>
     (\<forall>b w w'. rewardOfInvitee p b w = (Inr None, w') \<longrightarrow> b \<notin> irInvitee ` set (rows w)) \<and>
     (\<forall>r w x w'. rewardSave p r w = (x, w') \<longrightarrow> pays w' = pays w \<and>
        (case x of
           Inl e \<Rightarrow> rows w' = rows w
         | Inr saved \<Rightarrow> saved = r \<and> week \<le> irCreatedAt r \<and> insertable r (rows w) \<and> rows w' = r # rows w))"

text \<open>
  A world is simulated when steps lead from the system at the beginning to one with the same rows and
  payments, these handlers and locks, and no hash on its way.
\<close>

definition simulated ::
    "nat \<Rightarrow> reward_system \<Rightarrow> ('w \<Rightarrow> invite_reward list) \<Rightarrow> ('w \<Rightarrow> (string \<times> string) list) \<Rightarrow>
     (nat \<Rightarrow> reward_pc) \<Rightarrow> (string \<Rightarrow> nat option) \<Rightarrow> 'w \<Rightarrow> bool" where
  "simulated n g0 rows pays pcs locks w \<longleftrightarrow>
     (\<exists>g. (reward_step n)\<^sup>*\<^sup>* g0 g \<and> rsRows g = rows w \<and> rsPayments g = pays w \<and> rsPcs g = pcs \<and> rsLocks g = locks \<and>
        rsWeek g = rsWeek g0 \<and> rsReverted g = rsReverted g0 \<and> rsInFlight g = (\<lambda>_. None))"

text \<open>A predicate of the rows and the payments alone\<close>

definition observes :: "('w \<Rightarrow> invite_reward list) \<Rightarrow> ('w \<Rightarrow> (string \<times> string) list) \<Rightarrow> ('w \<Rightarrow> bool) \<Rightarrow> bool" where
  "observes rows pays P \<longleftrightarrow> (\<forall>w w'. rows w' = rows w \<longrightarrow> pays w' = pays w \<longrightarrow> P w \<longrightarrow> P w')"

lemma observesD: "observes rows pays P \<Longrightarrow> P w \<Longrightarrow> rows w' = rows w \<Longrightarrow> pays w' = pays w \<Longrightarrow> P w'"
  unfolding observes_def by blast

lemma observes_simulated: "observes rows pays (simulated n g0 rows pays pcs locks)"
  unfolding observes_def simulated_def by simp

lemma observes_quiet:
  assumes "observes rows pays Q" and "\<And>R P. preserves (\<lambda>w. rows w = R \<and> pays w = P) m"
  shows "preserves Q m"
proof (rule preservesI)
  fix w r w'
  assume "Q w" and "m w = (r, w')"
  with preservesD [OF assms(2), of w "rows w" "pays w"] show "Q w'" by (auto intro: observesD [OF assms(1)])
qed

lemma simulated_step:
  assumes "simulated n g0 rows pays pcs locks w"
    and "\<And>g. rsRows g = rows w \<Longrightarrow> rsPayments g = pays w \<Longrightarrow> rsPcs g = pcs \<Longrightarrow> rsLocks g = locks \<Longrightarrow>
      rsWeek g = rsWeek g0 \<Longrightarrow> rsReverted g = rsReverted g0 \<Longrightarrow> rsInFlight g = (\<lambda>_. None) \<Longrightarrow>
      \<exists>g'. (reward_step n)\<^sup>*\<^sup>* g g' \<and> rsRows g' = rows w' \<and> rsPayments g' = pays w' \<and> rsPcs g' = pcs' \<and> rsLocks g' = locks' \<and>
        rsWeek g' = rsWeek g0 \<and> rsReverted g' = rsReverted g0 \<and> rsInFlight g' = (\<lambda>_. None)"
  shows "simulated n g0 rows pays pcs' locks' w'"
proof -
  from assms(1) obtain g where reached: "(reward_step n)\<^sup>*\<^sup>* g0 g" and
    g: "rsRows g = rows w" "rsPayments g = pays w" "rsPcs g = pcs" "rsLocks g = locks" "rsWeek g = rsWeek g0"
      "rsReverted g = rsReverted g0" "rsInFlight g = (\<lambda>_. None)"
    unfolding simulated_def by blast
  from assms(2) [OF g] obtain g' where next_g: "(reward_step n)\<^sup>*\<^sup>* g g'" and
    g': "rsRows g' = rows w'" "rsPayments g' = pays w'" "rsPcs g' = pcs'" "rsLocks g' = locks'" "rsWeek g' = rsWeek g0"
      "rsReverted g' = rsReverted g0" "rsInFlight g' = (\<lambda>_. None)"
    by blast
  from reached next_g have "(reward_step n)\<^sup>*\<^sup>* g0 g'" by (rule rtranclp_trans)
  with g' show ?thesis unfolding simulated_def by blast
qed

lemma sender_tablesD:
  assumes "sender_tables p cfg rows pays"
  shows "payments_known (spRelay p) (scRelayerRpcTimeoutMs cfg) rows pays"
    and "updates_rows (spRepo p) rows pays" and "updates_rows (spTxRepo p) rows pays"
    and "observes rows pays Q \<Longrightarrow> keeps_outside Q (ext (tokenAddress p t))"
    and "observes rows pays Q \<Longrightarrow> keeps_outside Q (ext (rewardReceipt p h))"
    and "observes rows pays Q \<Longrightarrow> preserves Q (findLocked p q)"
    and "observes rows pays Q \<Longrightarrow> keeps_outside Q (rwNow p)"
proof -
  show "payments_known (spRelay p) (scRelayerRpcTimeoutMs cfg) rows pays"
    "updates_rows (spRepo p) rows pays" "updates_rows (spTxRepo p) rows pays"
    using assms by (simp_all add: sender_tables_def)
  note quiet = assms [unfolded sender_tables_def, THEN conjunct2, THEN conjunct2, THEN conjunct2, rule_format]
  assume Q: "observes rows pays Q"
  show "keeps_outside Q (ext (tokenAddress p t))" "keeps_outside Q (ext (rewardReceipt p h))" "preserves Q (findLocked p q)"
    using quiet by (blast intro: keeps_outside_ext observes_quiet [OF Q])+
  show "keeps_outside Q (rwNow p)"
    unfolding rwNow_def
  proof (intro keeps_outside_ext preservesI)
    fix w r w'
    assume "Q w" and "(case spNow p w of (t, w') \<Rightarrow> (Inr t, w')) = (r, w')"
    moreover from this(2) have "w' = snd (spNow p w)" by (auto split: prod.splits)
    moreover have "rows (snd (spNow p w)) = rows w \<and> pays (snd (spNow p w)) = pays w" using quiet by simp
    ultimately show "Q w'" by (blast intro: observesD [OF Q])
  qed
qed

text \<open>What the relayer was asked to send is an accepted payment with a new hash, or nothing happened.\<close>

definition paid_from :: "('w \<Rightarrow> bool) \<Rightarrow> ('w \<Rightarrow> invite_reward list) \<Rightarrow> ('w \<Rightarrow> (string \<times> string) list) \<Rightarrow> string \<Rightarrow> string \<Rightarrow> 'w \<Rightarrow> bool" where
  "paid_from P rows pays x h w' \<longleftrightarrow>
     (\<exists>w. P w \<and> h \<noteq> [] \<and> h \<notin> snd ` set (pays w) \<and> rows w' = rows w \<and> pays w' = (x, h) # pays w)"

lemma observes_paid_from: "observes rows pays (paid_from P rows pays x h)"
  unfolding observes_def paid_from_def by auto

lemma turns_sendTx:
  assumes tables: "sender_tables p cfg rows pays" and P: "observes rows pays P"
  shows "turns P (sendTxThroughRelayer p cfg token transfer x)
    (\<lambda>res w. case res of Ok resp \<Rightarrow> paid_from P rows pays x (rrPayload resp) w | Err e \<Rightarrow> P w) P"
  unfolding relaying_defs
proof (rule turns_ext)
  let ?req = "\<lparr>reqId = x, reqSession = None\<rparr>"
    and ?input = "SubmitTransactionInput \<lparr>destination = token, txValue = ''0'', data = transfer\<rparr>"
  fix w r w'
  assume Pw: "P w" and run: "executeRelay (spRelay p) (scRelayerRpcTimeoutMs cfg) ?req SubmitTransaction ?input w = (r, w')"
  obtain arrival reply w1 where sent: "relaySend (spRelay p) SubmitTransaction ?input (requestContext ?req) w = ((arrival, reply), w1)"
    by (metis surj_pair)
  note known = sender_tablesD(1) [OF tables, unfolded payments_known_def, rule_format, OF sent]
  from known obtain t where arrival: "arrival = Some t" "t < scRelayerRpcTimeoutMs cfg" by blast
  show "case r of Inr res \<Rightarrow> (case res of Ok resp \<Rightarrow> paid_from P rows pays x (rrPayload resp) w' | Err e \<Rightarrow> P w') | Inl e \<Rightarrow> P w'"
  proof (cases reply)
    case (Inr resp)
    with run sent arrival have "r = Inr (Ok resp)" "w' = w1" by (simp_all add: executeRelay_def)
    with known Inr Pw show ?thesis by (auto simp: paid_from_def requestContext_def)
  next
    case (Inl e)
    with known have "P w1" using observesD [OF P Pw, of w1] by simp
    with run sent arrival Inl show ?thesis by (auto simp: executeRelay_def split: option.splits sum.splits)
  qed
qed

lemma turns_update:
  assumes "updates_rows repo rows pays"
    and "\<And>w w'. P w \<Longrightarrow> rows w' = map (setReward x st h) (rows w) \<Longrightarrow> pays w' = pays w \<Longrightarrow> Q w'"
  shows "turns P (ext (updateReward repo x st h)) (\<lambda>_. Q) E"
proof (rule turns_ext)
  fix w r w'
  assume "P w" and "updateReward repo x st h w = (r, w')"
  with assms show "case r of Inr u \<Rightarrow> Q w' | Inl e \<Rightarrow> E w'" unfolding updates_rows_def by fastforce
qed

lemma turns_sendInviteReward:
  assumes tables: "sender_tables p cfg rows pays" and repo: "updates_rows repo rows pays"
    and P: "observes rows pays P" and "\<And>w. P w \<Longrightarrow> Q w"
    and accepted: "\<And>w w' h. P w \<Longrightarrow> h \<noteq> [] \<Longrightarrow> h \<notin> snd ` set (pays w) \<Longrightarrow>
      rows w' = map (setReward (irId r) RSubmitted (Some h)) (rows w) \<Longrightarrow> pays w' = (irId r, h) # pays w \<Longrightarrow> Q w'"
    and refused: "\<And>w w'. P w \<Longrightarrow> rows w' = map (setReward (irId r) (if isRetry then RDeadLettered else RFailed) None) (rows w) \<Longrightarrow>
      pays w' = pays w \<Longrightarrow> Q w'"
    and Q: "observes rows pays Q"
  shows "turns P (sendInviteReward p cfg r isRetry repo) (\<lambda>_. Q) Q"
  unfolding sendInviteReward_def
proof (rule turns_andThen)
  show "turns P (ext (tokenAddress p (irInviteToken r))) (\<lambda>_. P) Q"
    by (rule turns_weaken [OF turns_keeps [OF sender_tablesD(4) [OF tables P]]]) (use assms(4) in auto)
  fix token
  have err: "turns P (andThen (rwEvent (EvRelayerSendingError (irId r) m)) (\<lambda>_.
         andThen (ext (updateReward repo (irId r) (if isRetry then RDeadLettered else RFailed) None)) (\<lambda>_.
         trackSending (if isRetry then SendDeadLettered else SendFailed) None (irId r)))) (\<lambda>_. Q) Q" for m
  proof (rule turns_andThen)
    show "turns P (rwEvent (EvRelayerSendingError (irId r) m)) (\<lambda>_. P) Q"
      by (rule turns_weaken [OF turns_keeps [where P = P, OF keeps_outside_rwEvent(2)]]) (use assms(4) in auto)
    show "turns P (andThen (ext (updateReward repo (irId r) (if isRetry then RDeadLettered else RFailed) None)) (\<lambda>_.
         trackSending (if isRetry then SendDeadLettered else SendFailed) None (irId r))) (\<lambda>_. Q) Q" for u
      by (intro turns_andThen [OF turns_update [where Q = Q, OF repo]] turns_keeps keeps_outside_modS) (erule (2) refused)
  qed
  have ok: "turns (paid_from P rows pays (irId r) h) (andThen (ext (updateReward repo (irId r) RSubmitted (Some h))) (\<lambda>_.
         andThen (rwNow p) (\<lambda>now.
         andThen (modS (addWatched (irId r) h isRetry now)) (\<lambda>_.
         trackSending SendSubmitted (Some h) (irId r))))) (\<lambda>_. Q) Q" for h
  proof (rule turns_andThen [OF turns_update [OF repo]])
    fix w w'
    assume "paid_from P rows pays (irId r) h w"
      and now: "rows w' = map (setReward (irId r) RSubmitted (Some h)) (rows w)" "pays w' = pays w"
    then obtain w0 where "P w0" "h \<noteq> []" "h \<notin> snd ` set (pays w0)" "rows w = rows w0" "pays w = (irId r, h) # pays w0"
      by (auto simp: paid_from_def)
    with now show "Q w'" by (intro accepted [of w0 h]) simp_all
  next
    show "turns Q (andThen (rwNow p) (\<lambda>now. andThen (modS (addWatched (irId r) h isRetry now)) (\<lambda>_.
         trackSending SendSubmitted (Some h) (irId r)))) (\<lambda>_. Q) Q" for u
      by (intro turns_keeps keeps_outside sender_tablesD(7) [OF tables Q] keeps_outside_modS)
  qed
  show "turns P (andThen (sendTxThroughRelayer p cfg token (encodeTransfer p (irInviter r) (rewardAmount cfg)) (irId r)) (\<lambda>resp.
     case resp of
       Err e \<Rightarrow>
         andThen (rwEvent (EvRelayerSendingError (irId r) (message (relayer_error_object e)))) (\<lambda>_.
         andThen (ext (updateReward repo (irId r) (if isRetry then RDeadLettered else RFailed) None)) (\<lambda>_.
         trackSending (if isRetry then SendDeadLettered else SendFailed) None (irId r)))
     | Ok q \<Rightarrow>
         andThen (ext (updateReward repo (irId r) RSubmitted (Some (rrPayload q)))) (\<lambda>_.
         andThen (rwNow p) (\<lambda>now.
         andThen (modS (addWatched (irId r) (rrPayload q) isRetry now)) (\<lambda>_.
         trackSending SendSubmitted (Some (rrPayload q)) (irId r)))))) (\<lambda>_. Q) Q"
  proof (rule turns_andThen)
    show "turns P (sendTxThroughRelayer p cfg token (encodeTransfer p (irInviter r) (rewardAmount cfg)) (irId r))
      (\<lambda>res. case res of Ok q \<Rightarrow> paid_from P rows pays (irId r) (rrPayload q) | Err e \<Rightarrow> P) Q"
      by (rule turns_weaken [OF turns_sendTx [OF tables P]]) (use assms(4) in \<open>auto split: result.splits\<close>)
    fix resp
    show "turns (case resp of Ok q \<Rightarrow> paid_from P rows pays (irId r) (rrPayload q) | Err e \<Rightarrow> P) (case resp of
       Err e \<Rightarrow>
         andThen (rwEvent (EvRelayerSendingError (irId r) (message (relayer_error_object e)))) (\<lambda>_.
         andThen (ext (updateReward repo (irId r) (if isRetry then RDeadLettered else RFailed) None)) (\<lambda>_.
         trackSending (if isRetry then SendDeadLettered else SendFailed) None (irId r)))
     | Ok q \<Rightarrow>
         andThen (ext (updateReward repo (irId r) RSubmitted (Some (rrPayload q)))) (\<lambda>_.
         andThen (rwNow p) (\<lambda>now.
         andThen (modS (addWatched (irId r) (rrPayload q) isRetry now)) (\<lambda>_.
         trackSending SendSubmitted (Some (rrPayload q)) (irId r))))) (\<lambda>_. Q) Q"
      using err ok by (cases resp) (simp_all only: result.case)
  qed
qed

text \<open>The moves of one handler\<close>

definition handlerAt ::
    "nat \<Rightarrow> reward_system \<Rightarrow> ('w \<Rightarrow> invite_reward list) \<Rightarrow> ('w \<Rightarrow> (string \<times> string) list) \<Rightarrow> nat \<Rightarrow> reward_pc \<Rightarrow> 'w \<Rightarrow> bool" where
  "handlerAt n g0 rows pays i c = simulated n g0 rows pays ((rsPcs g0)(i := c)) (\<lambda>_. None)"

lemma observes_handlerAt: "observes rows pays (handlerAt n g0 rows pays i c)"
  unfolding handlerAt_def by (rule observes_simulated)

lemma handlerAt_move:
  assumes "handlerAt n g0 rows pays i c w"
    and "\<And>g. rsRows g = rows w \<Longrightarrow> rsPayments g = pays w \<Longrightarrow> rsPcs g i = c \<Longrightarrow> rsLocks g = (\<lambda>_. None) \<Longrightarrow>
      rsWeek g = rsWeek g0 \<Longrightarrow> rsInFlight g = (\<lambda>_. None) \<Longrightarrow>
      \<exists>g1. (reward_step n)\<^sup>*\<^sup>* g (at_pc i c' g1) \<and> rsRows g1 = rows w' \<and> rsPayments g1 = pays w' \<and>
        rsPcs g1 = rsPcs g \<and> rsLocks g1 = rsLocks g \<and> rsWeek g1 = rsWeek g \<and> rsReverted g1 = rsReverted g \<and>
        rsInFlight g1 = (\<lambda>_. None)"
  shows "handlerAt n g0 rows pays i c' w'"
  using assms(1) unfolding handlerAt_def
proof (rule simulated_step)
  fix g :: reward_system
  assume g: "rsRows g = rows w" "rsPayments g = pays w" "rsPcs g = (rsPcs g0)(i := c)" "rsLocks g = (\<lambda>_. None)"
    "rsWeek g = rsWeek g0" "rsReverted g = rsReverted g0" "rsInFlight g = (\<lambda>_. None)"
  with assms(2) [of g] obtain g1 where "(reward_step n)\<^sup>*\<^sup>* g (at_pc i c' g1)" "rsRows g1 = rows w'" "rsPayments g1 = pays w'"
    "rsPcs g1 = rsPcs g" "rsLocks g1 = rsLocks g" "rsWeek g1 = rsWeek g" "rsReverted g1 = rsReverted g"
    "rsInFlight g1 = (\<lambda>_. None)" by auto
  with g show "\<exists>g'. (reward_step n)\<^sup>*\<^sup>* g g' \<and> rsRows g' = rows w' \<and> rsPayments g' = pays w' \<and>
      rsPcs g' = (rsPcs g0)(i := c') \<and> rsLocks g' = (\<lambda>_. None) \<and> rsWeek g' = rsWeek g0 \<and> rsReverted g' = rsReverted g0 \<and>
      rsInFlight g' = (\<lambda>_. None)"
    by (intro exI [of _ "at_pc i c' g1"]) (simp add: at_pc_def)
qed

lemma handlerAt_go:
  assumes "handlerAt n g0 rows pays i c w"
    and "\<And>g. rsRows g = rows w \<Longrightarrow> rsPcs g i = c \<Longrightarrow> rsWeek g = rsWeek g0 \<Longrightarrow> rsInFlight g = (\<lambda>_. None) \<Longrightarrow>
      reward_step n g (at_pc i c' g)"
  shows "handlerAt n g0 rows pays i c' w"
  using assms(1) by (rule handlerAt_move) (use assms(2) in blast)

lemma handlerAt_leave: "handlerAt n g0 rows pays i c w \<Longrightarrow> handlerAt n g0 rows pays i HIdle w"
  by (erule handlerAt_go) (rule leave, simp)

lemma handlerAt_admit:
  assumes "handlerAt n g0 rows pays i HIdle w" and "i < n"
    and few: "length (filter (countsFor (rsWeek g0) a) (rows w)) < WEEKLY_INVITE_LIMIT" and new: "b \<notin> irInvitee ` set (rows w)"
  shows "handlerAt n g0 rows pays i (HCreating a b c) w"
proof -
  have "handlerAt n g0 rows pays i (HChecks a b c False False) w"
    using assms(1) by (rule handlerAt_go) (rule event [OF assms(2)])
  then have "handlerAt n g0 rows pays i (HChecks a b c True False) w"
    by (rule handlerAt_go) (rule read_limit, assumption, use few in simp)
  then have "handlerAt n g0 rows pays i (HChecks a b c True True) w"
    by (rule handlerAt_go) (rule read_invitee, assumption, use new in simp)
  then show ?thesis by (rule handlerAt_go) (rule admit)
qed

lemma handlerAt_create:
  assumes "handlerAt n g0 rows pays i (HCreating (irInviter r) (irInvitee r) (irInviteeIdentifier r)) w"
    and "irState r = RCreated" "irRewardTxHash r = None" "rsWeek g0 \<le> irCreatedAt r" "insertable r (rows w)"
    and "rows w' = r # rows w" "pays w' = pays w"
  shows "handlerAt n g0 rows pays i (HPaying (irId r)) w'"
  using assms(1)
proof (rule handlerAt_move)
  fix g :: reward_system
  assume g: "rsRows g = rows w" "rsPayments g = pays w" "rsWeek g = rsWeek g0"
    "rsPcs g i = HCreating (irInviter r) (irInvitee r) (irInviteeIdentifier r)" "rsInFlight g = (\<lambda>_. None)"
  show "\<exists>g1. (reward_step n)\<^sup>*\<^sup>* g (at_pc i (HPaying (irId r)) g1) \<and> rsRows g1 = rows w' \<and> rsPayments g1 = pays w' \<and>
        rsPcs g1 = rsPcs g \<and> rsLocks g1 = rsLocks g \<and> rsWeek g1 = rsWeek g \<and> rsReverted g1 = rsReverted g \<and>
        rsInFlight g1 = (\<lambda>_. None)"
    by (intro exI [of _ "g\<lparr>rsRows := r # rsRows g\<rparr>"] conjI r_into_rtranclp [of "reward_step n"] create [OF g(4)])
      (use assms g in simp_all)
qed

lemma handlerAt_paid:
  assumes "handlerAt n g0 rows pays i (HPaying x) w" and "h \<noteq> []" "h \<notin> snd ` set (pays w)"
    and "rows w' = map (setReward x RSubmitted (Some h)) (rows w)" "pays w' = (x, h) # pays w"
  shows "handlerAt n g0 rows pays i HIdle w'"
  using assms(1)
proof (rule handlerAt_move)
  fix g :: reward_system
  assume g: "rsRows g = rows w" "rsPayments g = pays w" "rsPcs g i = HPaying x" "rsLocks g = (\<lambda>_. None)"
    "rsInFlight g = (\<lambda>_. None)"
  have "newHash h g" using assms(2,3) g(2) by (simp add: newHash_def)
  note paid = paid_at_once [OF g(5) this, where x = x]
  show "\<exists>g1. (reward_step n)\<^sup>*\<^sup>* g (at_pc i HIdle g1) \<and> rsRows g1 = rows w' \<and> rsPayments g1 = pays w' \<and>
        rsPcs g1 = rsPcs g \<and> rsLocks g1 = rsLocks g \<and> rsWeek g1 = rsWeek g \<and> rsReverted g1 = rsReverted g \<and>
        rsInFlight g1 = (\<lambda>_. None)"
    by (intro exI [of _ "recordHash x h (accept x h g)"] conjI paid(1) [OF g(3)]) (use assms g in \<open>simp_all add: paid(3-)\<close>)
qed

lemma handlerAt_refused:
  assumes "handlerAt n g0 rows pays i (HPaying x) w"
    and "rows w' = map (setReward x RFailed None) (rows w)" "pays w' = pays w"
  shows "handlerAt n g0 rows pays i HIdle w'"
  using assms(1)
proof (rule handlerAt_move)
  fix g :: reward_system
  assume g: "rsRows g = rows w" "rsPayments g = pays w" "rsPcs g i = HPaying x" "rsLocks g = (\<lambda>_. None)"
    "rsInFlight g = (\<lambda>_. None)"
  show "\<exists>g1. (reward_step n)\<^sup>*\<^sup>* g (at_pc i HIdle g1) \<and> rsRows g1 = rows w' \<and> rsPayments g1 = pays w' \<and>
        rsPcs g1 = rsPcs g \<and> rsLocks g1 = rsLocks g \<and> rsWeek g1 = rsWeek g \<and> rsReverted g1 = rsReverted g \<and>
        rsInFlight g1 = (\<lambda>_. None)"
    by (intro exI [of _ "setRow x RFailed None g"] conjI r_into_rtranclp [of "reward_step n"] not_paid [OF g(3)])
      (use assms g in \<open>simp_all add: setRow_def\<close>)
qed

text \<open>A handler's run\<close>

lemma conditions_met_under:
  assumes reads: "reads_only p Q" and "Q w"
    and "inviteRewardConditionsAreMet p inviter invitee identifier paymentId txHash (s, w) = (Inr True, sw')"
  shows "(\<exists>n u u'. Q u \<and> n < WEEKLY_INVITE_LIMIT \<and> weeklyInvites p inviter u = (Inr n, u'))
     \<and> (\<exists>u u'. Q u \<and> rewardOfInvitee p invitee u = (Inr None, u'))"
proof -
  let ?checks = "inviteChecks p inviter invitee identifier"
  from assms(3) obtain results u where res: "promiseAll (map fst ?checks) (s, w) = (Inr results, u)"
    and tracked: "trackFailedChecks (notRewarded txHash inviter (Some invitee) paymentId)
        (zip results (map snd ?checks)) True u = (Inr True, sw')"
    by (auto simp: inviteRewardConditionsAreMet_def andThen_eq_Inr Let_def)
  have "list_all2 (\<lambda>m x. \<exists>u u'. Q (snd u) \<and> m u = (Inr x, u')) (map fst ?checks) results"
    using res by (rule promiseAll_results_under [rotated 2])
      (use keeps_outside_inviteChecks [OF reads] assms(2) in \<open>auto simp: keeps_outside_def\<close>)
  then obtain a b c d where results: "results = [a, b, c, d]"
    and runs: "\<exists>u u'. Q (snd u) \<and> inviterHasNotReachedWeeklyLimit p inviter u = (Inr c, u')"
      "\<exists>u u'. Q (snd u) \<and> inviteeRewardNotInProgress p invitee u = (Inr d, u')"
    by (clarsimp simp: inviteChecks_def list_all2_Cons1) blast
  from trackFailedChecks_True [OF tracked] have "c" "d" by (simp_all add: results inviteChecks_def)
  with runs show ?thesis
    by (auto simp: inviterHasNotReachedWeeklyLimit_def inviteeRewardNotInProgress_def andThen_eq_Inr ext_eq_iff)
qed

lemma invite_tablesD:
  assumes "invite_tables p week rows pays"
  shows "reads_only p (\<lambda>w. rows w = R \<and> pays w = P)"
    and "preserves (\<lambda>w. rows w = R \<and> pays w = P) (rwUuid (cpEvents (ipCopies p)))"
    and "weeklyInvites p a w = (Inr k, w') \<Longrightarrow> k = length (filter (countsFor week a) (rows w))"
    and "rewardOfInvitee p b w = (Inr None, w') \<Longrightarrow> b \<notin> irInvitee ` set (rows w)"
    and "rewardSave p r w = (x, w') \<Longrightarrow> pays w' = pays w"
    and "rewardSave p r w = (Inl e, w') \<Longrightarrow> rows w' = rows w"
    and "rewardSave p r w = (Inr saved, w') \<Longrightarrow>
      saved = r \<and> week \<le> irCreatedAt r \<and> insertable r (rows w) \<and> rows w' = r # rows w"
proof -
  note all = assms [unfolded invite_tables_def]
  show "reads_only p (\<lambda>w. rows w = R \<and> pays w = P)" and "preserves (\<lambda>w. rows w = R \<and> pays w = P) (rwUuid (cpEvents (ipCopies p)))"
    using all [THEN conjunct1] by simp_all
  show "weeklyInvites p a w = (Inr k, w') \<Longrightarrow> k = length (filter (countsFor week a) (rows w))"
    using all [THEN conjunct2, THEN conjunct1] by simp
  show "rewardOfInvitee p b w = (Inr None, w') \<Longrightarrow> b \<notin> irInvitee ` set (rows w)"
    using all [THEN conjunct2, THEN conjunct2, THEN conjunct1] by simp
  note saves = all [THEN conjunct2, THEN conjunct2, THEN conjunct2, rule_format]
  show "rewardSave p r w = (x, w') \<Longrightarrow> pays w' = pays w" by (drule saves) simp
  show "rewardSave p r w = (Inl e, w') \<Longrightarrow> rows w' = rows w" by (drule saves) simp
  show "rewardSave p r w = (Inr saved, w') \<Longrightarrow>
      saved = r \<and> week \<le> irCreatedAt r \<and> insertable r (rows w) \<and> rows w' = r # rows w" by (drule saves) simp
qed

lemma reads_only_observes:
  assumes "invite_tables p week rows pays" and "observes rows pays Q"
  shows "reads_only p Q"
  using invite_tablesD(1) [OF assms(1)] unfolding reads_only_def by (blast intro: observes_quiet [OF assms(2)])

lemma turns_conditions:
  assumes tables: "invite_tables p (rsWeek g0) rows pays" and "i < n"
  shows "turns (handlerAt n g0 rows pays i HIdle) (inviteRewardConditionsAreMet p a b c paymentId h)
     (\<lambda>met. if met then handlerAt n g0 rows pays i (HCreating a b c) else handlerAt n g0 rows pays i HIdle)
     (handlerAt n g0 rows pays i HIdle)"
proof (rule turnsI)
  fix s w r s' w'
  assume idle: "handlerAt n g0 rows pays i HIdle w"
    and run: "inviteRewardConditionsAreMet p a b c paymentId h (s, w) = (r, (s', w'))"
  let ?Q = "\<lambda>v. rows v = rows w \<and> pays v = pays w"
  note reads = invite_tablesD(1) [OF tables, of "rows w" "pays w"]
  have same: "?Q w'" using keeps_outsideD [OF keeps_outside_conditions [OF reads] run] by simp
  then have idle': "handlerAt n g0 rows pays i HIdle w'" using observesD [OF observes_handlerAt idle] by simp
  show "case r of Inr met \<Rightarrow> (if met then handlerAt n g0 rows pays i (HCreating a b c) else handlerAt n g0 rows pays i HIdle) w'
      | Inl e \<Rightarrow> handlerAt n g0 rows pays i HIdle w'"
  proof (cases "r = Inr True")
    case True
    with conditions_met_under [OF reads _ run [unfolded True]] obtain k u u' v v' where
      "?Q u" "k < WEEKLY_INVITE_LIMIT" "weeklyInvites p a u = (Inr k, u')" "?Q v" "rewardOfInvitee p b v = (Inr None, v')"
      by auto
    with invite_tablesD(3,4) [OF tables] have
      "length (filter (countsFor (rsWeek g0) a) (rows w)) < WEEKLY_INVITE_LIMIT" "b \<notin> irInvitee ` set (rows w)"
      by metis+
    with handlerAt_admit [OF idle' assms(2)] same True show ?thesis by simp
  qed (use idle' in \<open>auto split: sum.split\<close>)
qed

lemma turns_createInviteReward:
  assumes tables: "invite_tables p (rsWeek g0) rows pays" "sender_tables (ipSender p) cfg rows pays"
  shows "turns (handlerAt n g0 rows pays i (HCreating a b c)) (createInviteReward p a b c paymentId token h)
     (\<lambda>res. case res of None \<Rightarrow> handlerAt n g0 rows pays i HIdle | Some r \<Rightarrow> handlerAt n g0 rows pays i (HPaying (irId r)))
     (handlerAt n g0 rows pays i HIdle)"
proof -
  let ?at = "handlerAt n g0 rows pays i"
  note start = observes_handlerAt [of rows pays n g0 i "HCreating a b c"]
  have save: "turns (?at (HCreating a b c))
      (ext (rewardSave p \<lparr>irId = x, irInviter = a, irInvitee = b, irInviteeIdentifier = c,
          irState = RCreated, irRewardTxHash = None, irInviteToken = token, irCreatedAt = now\<rparr>))
      (\<lambda>r. ?at (HPaying (irId r))) (?at HIdle)" (is "turns _ (ext (rewardSave p ?row)) _ _") for x now
  proof (rule turns_ext)
    fix w r w'
    assume w: "?at (HCreating a b c) w" and run: "rewardSave p ?row w = (r, w')"
    show "case r of Inr r \<Rightarrow> ?at (HPaying (irId r)) w' | Inl e \<Rightarrow> ?at HIdle w'"
    proof (cases r)
      case (Inr saved)
      with run invite_tablesD(5,7) [OF tables(1)] have saved: "saved = ?row"
        "rsWeek g0 \<le> irCreatedAt ?row" "insertable ?row (rows w)" "rows w' = ?row # rows w" "pays w' = pays w"
        by blast+
      have "?at (HPaying (irId ?row)) w'"
        by (rule handlerAt_create [where r = ?row and w = w]) (use w saved(2-) in simp_all)
      with saved(1) Inr show ?thesis by simp
    next
      case (Inl e)
      with run invite_tablesD(5,6) [OF tables(1)] have "rows w' = rows w" "pays w' = pays w" by blast+
      then have "?at HIdle w'" by (intro handlerAt_leave [OF observesD [OF start w]])
      with Inl show ?thesis by simp
    qed
  qed
  have uuid: "turns (?at (HCreating a b c)) (ext (rwUuid (cpEvents (ipCopies p)))) (\<lambda>_. ?at (HCreating a b c)) (?at HIdle)"
    by (rule turns_weaken [OF turns_keeps [where P = "?at (HCreating a b c)"]])
      (auto intro: keeps_outside_ext observes_quiet [OF start] invite_tablesD(2) [OF tables(1)] handlerAt_leave)
  have now: "turns (?at (HCreating a b c)) (rwNow (ipSender p)) (\<lambda>_. ?at (HCreating a b c)) (?at HIdle)"
    by (rule turns_weaken [OF turns_keeps [where P = "?at (HCreating a b c)"]])
      (auto intro: sender_tablesD(7) [OF tables(2) start] handlerAt_leave)
  have tracked: "turns (?at (HPaying x)) (rwEvent ev) (\<lambda>_. ?at (HPaying x)) (?at HIdle)" for x ev
    by (rule turns_weaken [OF turns_keeps [where P = "?at (HPaying x)"]]) (auto intro: keeps_outside_rwEvent handlerAt_leave)
  have failed: "turns (?at HIdle) (case thrown_message e of
          None \<Rightarrow> throw (typeError ''Cannot read property of undefined'')
        | Some msg \<Rightarrow>
            if js_includes msg duplicateKeyText then ret None
            else andThen (unexpected origin e) (\<lambda>_. ret None))
      (\<lambda>res. case res of None \<Rightarrow> ?at HIdle | Some r \<Rightarrow> ?at (HPaying (irId r))) (?at HIdle)" for e origin
  proof -
    let ?R = "\<lambda>res. case res of None \<Rightarrow> ?at HIdle | Some r \<Rightarrow> ?at (HPaying (irId r))"
    have none: "turns (?at HIdle) (ret None) ?R (?at HIdle)" by (rule turns_ret) simp
    then have "turns (?at HIdle) (andThen (unexpected origin e) (\<lambda>_. ret None)) ?R (?at HIdle)"
      by (intro turns_andThen [OF turns_keeps [where P = "?at HIdle", OF keeps_outside_rwEvent(3)]])
    with none show ?thesis by (cases "thrown_message e") (auto intro: turns_throw)
  qed
  show ?thesis
    unfolding createInviteReward_def ignoringDuplicates_def
    by (rule turns_catching [OF _ failed], rule turns_andThen, rule turns_andThen [OF uuid], rule turns_andThen [OF now],
        rule turns_andThen [OF save], rule turns_andThen [OF tracked], rule turns_ret, assumption, rule turns_ret, simp)
qed

lemma turns_rewardInvite:
  assumes tables: "invite_tables p (rsWeek g0) rows pays" "sender_tables (ipSender p) (icSender cfg) rows pays" and "i < n"
  shows "turns (handlerAt n g0 rows pays i HIdle) (rewardInvite p cfg ev inviter invitee token)
     (\<lambda>_. handlerAt n g0 rows pays i HIdle) (handlerAt n g0 rows pays i HIdle)"
proof -
  let ?at = "handlerAt n g0 rows pays i"
  have sent: "turns (?at (HPaying (irId r))) (sendInviteReward (ipSender p) (icSender cfg) r False (spRepo (ipSender p)))
      (\<lambda>_. ?at HIdle) (?at HIdle)" for r
  proof (rule turns_sendInviteReward [OF tables(2) sender_tablesD(2) [OF tables(2)] observes_handlerAt])
    show "?at HIdle w'" if "?at (HPaying (irId r)) w" "h \<noteq> []" "h \<notin> snd ` set (pays w)"
      "rows w' = map (setReward (irId r) RSubmitted (Some h)) (rows w)" "pays w' = (irId r, h) # pays w" for w w' h
      using that by (rule handlerAt_paid)
    show "?at HIdle w'" if "?at (HPaying (irId r)) w"
      "rows w' = map (setReward (irId r) (if False then RDeadLettered else RFailed) None) (rows w)" "pays w' = pays w" for w w'
      using that by (auto intro: handlerAt_refused)
  qed (auto intro: handlerAt_leave observes_handlerAt)
  have rewarded: "turns (case res of None \<Rightarrow> ?at HIdle | Some r \<Rightarrow> ?at (HPaying (irId r))) (case res of
         None \<Rightarrow> ret ()
       | Some r \<Rightarrow>
           andThen (attempt (sendInviteReward (ipSender p) (icSender cfg) r False (spRepo (ipSender p)))) (\<lambda>_. ret ()))
      (\<lambda>_. ?at HIdle) (?at HIdle)" for res
  proof (cases res)
    case (Some r)
    have "turns (?at (HPaying (irId r))) (andThen (attempt
        (sendInviteReward (ipSender p) (icSender cfg) r False (spRepo (ipSender p)))) (\<lambda>_. ret ())) (\<lambda>_. ?at HIdle) (?at HIdle)"
      by (rule turns_andThen [OF turns_attempt [OF sent]], rule turns_ret) (auto split: sum.splits)
    with Some show ?thesis by simp
  qed (auto intro: turns_ret)
  have created: "turns (if met then ?at (HCreating inviter invitee c) else ?at HIdle) (if \<not> met then ret ()
     else
       andThen (createInviteReward p inviter invitee c (evReturn ev ''paymentId'') token (evTxHash ev)) (\<lambda>reward.
       case reward of
         None \<Rightarrow> ret ()
       | Some r \<Rightarrow>
           andThen (attempt (sendInviteReward (ipSender p) (icSender cfg) r False (spRepo (ipSender p)))) (\<lambda>_. ret ())))
     (\<lambda>_. ?at HIdle) (?at HIdle)" for met c
    using turns_andThen [OF turns_createInviteReward [OF tables] rewarded] by (cases met) (auto intro: turns_ret)
  show ?thesis
    unfolding rewardInvite_def by (rule turns_andThen [OF turns_conditions [OF tables(1) assms(3)] created])
qed

lemma handleWithdrawalEvent_simulated:
  assumes tables: "invite_tables p (rsWeek g0) rows pays" "sender_tables (ipSender p) (icSender cfg) rows pays" and "i < n"
  shows "keeps_outside (handlerAt n g0 rows pays i HIdle) (handleWithdrawalEvent p cfg ev)"
proof -
  let ?P = "handlerAt n g0 rows pays i HIdle"
  have found: "keeps_outside ?P (handleRedeemTx p cfg ev a token tx)" for a token tx
    unfolding handleRedeemTx_def Let_def notRewarded_def
    using keeps_outside_turns [OF turns_rewardInvite [OF tables assms(3)]] by (intro keeps_outside)
  have fetched: "keeps_outside ?P (ext (withdrawalTx p h))" for h
    using reads_only_observes [OF tables(1) observes_handlerAt] unfolding reads_only_def
    by (intro keeps_outside_ext) blast
  have after: "keeps_outside ?P (case tx of None \<Rightarrow> throw e | Some t \<Rightarrow> handleRedeemTx p cfg ev a token t)" for tx e a token
    using found by (cases tx) (simp_all add: keeps_outside)
  have "keeps_outside ?P (case token of
        None \<Rightarrow> notRewarded h a b d e
      | Some token \<Rightarrow> andThen (ext (withdrawalTx p k)) (\<lambda>tx. case tx of None \<Rightarrow> throw x | Some t \<Rightarrow> handleRedeemTx p cfg ev y token t))"
    for token h a b d e k x y
    using keeps_outside_andThen [OF fetched after]
    by (cases token) (simp_all add: notRewarded_def keeps_outside)
  then show ?thesis
    unfolding handleWithdrawalEvent_def Let_def getInviteToken_def by (intro keeps_outside keeps_outside_modS)
qed

text \<open>
  A check's run. The query returns rows of the table that no handler is about to have paid; a receipt that says
  so is of a transaction that reverted; the database transaction commits.
\<close>

definition check_tables ::
    "'w sender_port \<Rightarrow> sender_config \<Rightarrow> reward_system \<Rightarrow> ('w \<Rightarrow> invite_reward list) \<Rightarrow> ('w \<Rightarrow> (string \<times> string) list) \<Rightarrow> bool" where
  "check_tables p cfg g0 rows pays \<longleftrightarrow>
     sender_tables p cfg rows pays \<and> (\<forall>m sw. inTransaction p m sw = m sw) \<and>
     (\<forall>w rs w'. findLocked p failedQuery w = (Inr rs, w') \<longrightarrow> set rs \<subseteq> set (rows w) \<and> distinct (map irId rs) \<and>
        (\<forall>r \<in> set rs. \<forall>i. rsPcs g0 i \<noteq> HPaying (irId r))) \<and>
     (\<forall>h w w'. rewardReceipt p h w = (Inr (Some False), w') \<longrightarrow> h \<in> rsReverted g0)"

lemma check_tablesD:
  assumes "check_tables p cfg g0 rows pays"
  shows "sender_tables p cfg rows pays" and "inTransaction p m sw = m sw"
    and "findLocked p failedQuery w = (Inr rs, w') \<Longrightarrow> set rs \<subseteq> set (rows w)"
    and "findLocked p failedQuery w = (Inr rs, w') \<Longrightarrow> distinct (map irId rs)"
    and "findLocked p failedQuery w = (Inr rs, w') \<Longrightarrow> r \<in> set rs \<Longrightarrow> rsPcs g0 i \<noteq> HPaying (irId r)"
    and "rewardReceipt p h w = (Inr (Some False), w') \<Longrightarrow> h \<in> rsReverted g0"
  using assms unfolding check_tables_def by (simp_all, meson+)

definition lockedAt ::
    "nat \<Rightarrow> reward_system \<Rightarrow> ('w \<Rightarrow> invite_reward list) \<Rightarrow> ('w \<Rightarrow> (string \<times> string) list) \<Rightarrow> nat \<Rightarrow> string set \<Rightarrow> 'w \<Rightarrow> bool" where
  "lockedAt n g0 rows pays j X = simulated n g0 rows pays (rsPcs g0) (\<lambda>x. if x \<in> X then Some j else None)"

lemma observes_lockedAt: "observes rows pays (\<lambda>w. lockedAt n g0 rows pays j X w \<and> S \<subseteq> set (rows w))"
  using observes_simulated [of rows pays n g0 "rsPcs g0" "\<lambda>x. if x \<in> X then Some j else None"]
  unfolding observes_def lockedAt_def by auto

lemma lockedAt_move:
  assumes "lockedAt n g0 rows pays j X w"
    and "\<And>g. rsRows g = rows w \<Longrightarrow> rsPayments g = pays w \<Longrightarrow> rsLocks g = (\<lambda>x. if x \<in> X then Some j else None) \<Longrightarrow>
      rsReverted g = rsReverted g0 \<Longrightarrow> rsInFlight g = (\<lambda>_. None) \<Longrightarrow>
      \<exists>g'. (reward_step n)\<^sup>*\<^sup>* g g' \<and> rsRows g' = rows w' \<and> rsPayments g' = pays w' \<and>
        rsPcs g' = rsPcs g \<and> rsLocks g' = rsLocks g \<and> rsWeek g' = rsWeek g \<and> rsReverted g' = rsReverted g \<and>
        rsInFlight g' = (\<lambda>_. None)"
  shows "lockedAt n g0 rows pays j X w'"
  using assms(1) unfolding lockedAt_def
proof (rule simulated_step)
  fix g :: reward_system
  assume g: "rsRows g = rows w" "rsPayments g = pays w" "rsPcs g = rsPcs g0" "rsLocks g = (\<lambda>x. if x \<in> X then Some j else None)"
    "rsWeek g = rsWeek g0" "rsReverted g = rsReverted g0" "rsInFlight g = (\<lambda>_. None)"
  from assms(2) [OF g(1,2,4,6,7)] g
  show "\<exists>g'. (reward_step n)\<^sup>*\<^sup>* g g' \<and> rsRows g' = rows w' \<and> rsPayments g' = pays w' \<and> rsPcs g' = rsPcs g0 \<and>
      rsLocks g' = (\<lambda>x. if x \<in> X then Some j else None) \<and> rsWeek g' = rsWeek g0 \<and> rsReverted g' = rsReverted g0 \<and>
      rsInFlight g' = (\<lambda>_. None)"
    by auto
qed

lemma lockedAt_paid:
  assumes "lockedAt n g0 rows pays j X w" and "irId r \<in> X" "r \<in> set (rows w)" "payable (rsReverted g0) r"
    and "h \<noteq> []" "h \<notin> snd ` set (pays w)"
    and "rows w' = map (setReward (irId r) RSubmitted (Some h)) (rows w)" "pays w' = (irId r, h) # pays w"
  shows "lockedAt n g0 rows pays j X w'"
  using assms(1)
proof (rule lockedAt_move)
  fix g :: reward_system
  assume g: "rsRows g = rows w" "rsPayments g = pays w" "rsLocks g = (\<lambda>x. if x \<in> X then Some j else None)"
    "rsReverted g = rsReverted g0" "rsInFlight g = (\<lambda>_. None)"
  have "newHash h g" using assms(5,6) g(2) by (simp add: newHash_def)
  note paid = paid_at_once [OF g(5) this, where x = "irId r"]
  have "(reward_step n)\<^sup>*\<^sup>* g (recordHash (irId r) h (accept (irId r) h g))"
    by (rule paid(2) [where r = r and j = j]) (use assms g in simp_all)
  then show "\<exists>g'. (reward_step n)\<^sup>*\<^sup>* g g' \<and> rsRows g' = rows w' \<and> rsPayments g' = pays w' \<and>
        rsPcs g' = rsPcs g \<and> rsLocks g' = rsLocks g \<and> rsWeek g' = rsWeek g \<and> rsReverted g' = rsReverted g \<and>
        rsInFlight g' = (\<lambda>_. None)"
    by (intro exI [of _ "recordHash (irId r) h (accept (irId r) h g)"] conjI) (use assms g in \<open>simp_all add: paid(3-)\<close>)
qed

lemma lockedAt_marked:
  assumes "lockedAt n g0 rows pays j X w" and "x \<in> X" "st \<in> {RCompleted, RDeadLettered}"
    and "rows w' = map (setReward x st None) (rows w)" "pays w' = pays w"
  shows "lockedAt n g0 rows pays j X w'"
  using assms(1)
proof (rule lockedAt_move)
  fix g :: reward_system
  assume g: "rsRows g = rows w" "rsPayments g = pays w" "rsLocks g = (\<lambda>x. if x \<in> X then Some j else None)"
    "rsInFlight g = (\<lambda>_. None)"
  show "\<exists>g'. (reward_step n)\<^sup>*\<^sup>* g g' \<and> rsRows g' = rows w' \<and> rsPayments g' = pays w' \<and>
        rsPcs g' = rsPcs g \<and> rsLocks g' = rsLocks g \<and> rsWeek g' = rsWeek g \<and> rsReverted g' = rsReverted g \<and>
        rsInFlight g' = (\<lambda>_. None)"
    by (intro exI [of _ "setRow x st None g"] conjI r_into_rtranclp [of "reward_step n"] marked_locked [where j = j])
      (use assms g in \<open>simp_all add: setRow_def\<close>)
qed

lemma other_rows_stay:
  assumes "set rs \<subseteq> set (rows w)" and "irId r \<notin> irId ` set rs" and "rows w' = map (setReward (irId r) st h) (rows w)"
  shows "set rs \<subseteq> set (rows w')"
proof
  fix r' assume r': "r' \<in> set rs"
  with assms(2) have "irId r' \<noteq> irId r" by (metis imageI)
  then have "setReward (irId r) st h r' = r'" by (simp add: setReward_def)
  with r' assms(1,3) show "r' \<in> set (rows w')" by (metis image_eqI list.set_map subsetD)
qed

lemma turns_checkFailedInvite:
  assumes tables: "check_tables p cfg g0 rows pays" and X: "irId r \<in> X" and new: "irId r \<notin> irId ` set rs"
  shows "turns (\<lambda>w. lockedAt n g0 rows pays j X w \<and> set (r # rs) \<subseteq> set (rows w)) (checkFailedInvite p cfg r)
     (\<lambda>_ w. lockedAt n g0 rows pays j X w \<and> set rs \<subseteq> set (rows w)) (\<lambda>w. lockedAt n g0 rows pays j X w \<and> set rs \<subseteq> set (rows w))"
    (is "turns ?P _ (\<lambda>_. ?Q) _")
proof -
  note sender = check_tablesD(1) [OF tables]
  have P: "observes rows pays ?P" and Q: "observes rows pays ?Q" by (rule observes_lockedAt)+
  let ?status = "case irRewardTxHash r of Some h \<Rightarrow> if h \<noteq> [] then getTxStatus p h else ret TxFailed | None \<Rightarrow> ret TxFailed"
  have "turns ?P (getTxStatus p h) (\<lambda>_. ?P) ?P" for h
    unfolding getTxStatus_def by (intro turns_keeps keeps_outside sender_tablesD(5) [OF sender P])
  then have "turns ?P ?status (\<lambda>_. ?P) ?P" by (auto intro: turns_ret split: option.split)
  moreover have "payable (rsReverted g0) r" if "?status sw = (Inr TxFailed, sw')" for sw sw'
    using that getTxStatus_failed [of p _ sw sw'] check_tablesD(6) [OF tables]
    by (auto simp: payable_def split: option.splits if_splits)
  ultimately have "turns ?P ?status (\<lambda>st w. ?P w \<and> (st = TxFailed \<longrightarrow> payable (rsReverted g0) r)) ?P"
    by (intro turns_result) blast+
  then have status: "turns ?P ?status (\<lambda>st w. ?P w \<and> (st = TxFailed \<longrightarrow> payable (rsReverted g0) r)) ?Q"
    by (rule turns_weaken) simp_all
  have marked: "?Q w'" if "?P w" "st \<in> {RCompleted, RDeadLettered}" "rows w' = map (setReward (irId r) st None) (rows w)"
    "pays w' = pays w" for w w' st
  proof
    show "lockedAt n g0 rows pays j X w'"
      by (rule lockedAt_marked [of n g0 rows pays j X w "irId r" st]) (use that X in simp_all)
    show "set rs \<subseteq> set (rows w')" by (rule other_rows_stay [of rs rows w r w' st None]) (use that new in simp_all)
  qed
  have "turns ?P (sendInviteReward p cfg r True (spTxRepo p)) (\<lambda>_. ?Q) ?Q" if "payable (rsReverted g0) r"
  proof (rule turns_sendInviteReward [OF sender sender_tablesD(3) [OF sender] P _ _ _ Q])
    show "?Q w'" if "?P w" "h \<noteq> []" "h \<notin> snd ` set (pays w)" "rows w' = map (setReward (irId r) RSubmitted (Some h)) (rows w)"
      "pays w' = (irId r, h) # pays w" for w w' h
    proof
      show "lockedAt n g0 rows pays j X w'"
        by (rule lockedAt_paid [of n g0 rows pays j X w r h]) (use that X \<open>payable (rsReverted g0) r\<close> in simp_all)
      show "set rs \<subseteq> set (rows w')" by (rule other_rows_stay [of rs rows w r w' RSubmitted "Some h"]) (use that new in simp_all)
    qed
    show "?Q w'" if "?P w" "rows w' = map (setReward (irId r) (if True then RDeadLettered else RFailed) None) (rows w)"
      "pays w' = pays w" for w w'
      using marked [of w RDeadLettered w'] that by simp
  qed simp
  moreover have "turns ?P (andThen (ext (updateReward (spTxRepo p) (irId r) RCompleted None)) (\<lambda>_.
      trackSending SendCompleted (irRewardTxHash r) (irId r))) (\<lambda>_. ?Q) ?Q"
  proof (rule turns_andThen [OF turns_update [where Q = ?Q, OF sender_tablesD(3) [OF sender]]])
    show "?Q w'" if "?P w" "rows w' = map (setReward (irId r) RCompleted None) (rows w)" "pays w' = pays w" for w w'
      using marked [of w RCompleted w'] that by simp
  qed (intro turns_keeps keeps_outside_modS)
  ultimately have after: "turns (\<lambda>w. ?P w \<and> (st = TxFailed \<longrightarrow> payable (rsReverted g0) r)) (case st of
         TxCompleted \<Rightarrow> andThen (ext (updateReward (spTxRepo p) (irId r) RCompleted None)) (\<lambda>_.
           trackSending SendCompleted (irRewardTxHash r) (irId r))
       | TxFailed \<Rightarrow> sendInviteReward p cfg r True (spTxRepo p)
       | TxPending \<Rightarrow> ret ()) (\<lambda>_. ?Q) ?Q"
    (is "turns ?PF ?body _ _") for st
  proof (cases st)
    case TxCompleted
    assume "turns ?P (andThen (ext (updateReward (spTxRepo p) (irId r) RCompleted None)) (\<lambda>_.
      trackSending SendCompleted (irRewardTxHash r) (irId r))) (\<lambda>_. ?Q) ?Q"
    then show ?thesis unfolding TxCompleted tx_status.case by (rule turns_weaken) simp_all
  next
    case TxFailed
    assume sent: "payable (rsReverted g0) r \<Longrightarrow> turns ?P (sendInviteReward p cfg r True (spTxRepo p)) (\<lambda>_. ?Q) ?Q"
    show ?thesis
    proof (cases "payable (rsReverted g0) r")
      case True
      from sent [OF this] show ?thesis unfolding TxFailed tx_status.case by (rule turns_weaken) simp_all
    next
      case False
      with TxFailed show ?thesis by (simp add: turns_def)
    qed
  next
    case TxPending
    show ?thesis unfolding TxPending tx_status.case by (rule turns_ret) simp
  qed
  show ?thesis unfolding checkFailedInvite_def by (rule turns_andThen [OF status after])
qed

lemma turns_settle_checks:
  assumes tables: "check_tables p cfg g0 rows pays"
  shows "irId ` set rs \<subseteq> X \<Longrightarrow> distinct (map irId rs) \<Longrightarrow>
    turns (\<lambda>w. lockedAt n g0 rows pays j X w \<and> set rs \<subseteq> set (rows w)) (settleAll (map (checkFailedInvite p cfg) rs))
      (\<lambda>_. lockedAt n g0 rows pays j X) (lockedAt n g0 rows pays j X)"
proof (induction rs)
  case Nil
  show ?case by (simp add: turns_ret)
next
  case (Cons r rs)
  let ?Q = "\<lambda>w. lockedAt n g0 rows pays j X w \<and> set rs \<subseteq> set (rows w)"
  have "turns (\<lambda>w. lockedAt n g0 rows pays j X w \<and> set (r # rs) \<subseteq> set (rows w)) (attempt (checkFailedInvite p cfg r))
      (\<lambda>_. ?Q) (lockedAt n g0 rows pays j X)"
    using Cons.prems
    by (intro turns_weaken [OF turns_attempt [OF turns_checkFailedInvite [OF tables, where rs = rs and X = X]]])
      (auto split: sum.splits)
  then show ?case
    unfolding list.map settleAll.simps
    by (rule turns_andThen, intro turns_andThen [OF Cons.IH] turns_ret) (use Cons.prems in simp_all)
qed

lemma lockedAt_lock:
  assumes "lockedAt n g0 rows pays j {} w" and "X \<subseteq> irId ` set (rows w)" and "\<And>x i. x \<in> X \<Longrightarrow> rsPcs g0 i \<noteq> HPaying x"
  shows "lockedAt n g0 rows pays j X w"
  using assms(1) unfolding lockedAt_def
proof (rule simulated_step)
  fix g :: reward_system
  assume g: "rsRows g = rows w" "rsPayments g = pays w" "rsPcs g = rsPcs g0"
    "rsLocks g = (\<lambda>x. if x \<in> {} then Some j else None)" "rsWeek g = rsWeek g0" "rsReverted g = rsReverted g0"
    "rsInFlight g = (\<lambda>_. None)"
  let ?g = "g\<lparr>rsLocks := (\<lambda>x. if x \<in> X then Some j else rsLocks g x),
      rsBefore := (\<lambda>x. if x \<in> X then savedRow (rsRows g) x else rsBefore g x)\<rparr>"
  have "reward_step n g ?g"
    by (rule lock) (use assms(2,3) g in auto)
  with g show "\<exists>g'. (reward_step n)\<^sup>*\<^sup>* g g' \<and> rsRows g' = rows w \<and> rsPayments g' = pays w \<and> rsPcs g' = rsPcs g0 \<and>
      rsLocks g' = (\<lambda>x. if x \<in> X then Some j else None) \<and> rsWeek g' = rsWeek g0 \<and> rsReverted g' = rsReverted g0 \<and>
      rsInFlight g' = (\<lambda>_. None)"
    by (intro exI [of _ ?g] conjI r_into_rtranclp [of "reward_step n"]) (simp_all add: fun_eq_iff)
qed

lemma lockedAt_commit:
  assumes "lockedAt n g0 rows pays j X w"
  shows "lockedAt n g0 rows pays j {} w"
  using assms unfolding lockedAt_def
proof (rule simulated_step)
  fix g :: reward_system
  assume g: "rsRows g = rows w" "rsPayments g = pays w" "rsPcs g = rsPcs g0"
    "rsLocks g = (\<lambda>x. if x \<in> X then Some j else None)" "rsWeek g = rsWeek g0" "rsReverted g = rsReverted g0"
    "rsInFlight g = (\<lambda>_. None)"
  then have "reward_step n g (g\<lparr>rsLocks := (\<lambda>x. if rsLocks g x = Some j then None else rsLocks g x)\<rparr>)"
    by (intro commit) simp
  with g show "\<exists>g'. (reward_step n)\<^sup>*\<^sup>* g g' \<and> rsRows g' = rows w \<and> rsPayments g' = pays w \<and> rsPcs g' = rsPcs g0 \<and>
      rsLocks g' = (\<lambda>x. if x \<in> {} then Some j else None) \<and> rsWeek g' = rsWeek g0 \<and> rsReverted g' = rsReverted g0 \<and>
      rsInFlight g' = (\<lambda>_. None)"
    by (intro exI [of _ "g\<lparr>rsLocks := (\<lambda>x. if rsLocks g x = Some j then None else rsLocks g x)\<rparr>"] conjI
        r_into_rtranclp [of "reward_step n"]) (auto simp: fun_eq_iff)
qed

lemma checkFailedInvites_simulated:
  assumes tables: "check_tables p cfg g0 rows pays"
  shows "keeps_outside (lockedAt n g0 rows pays j {}) (checkFailedInvites p cfg)"
proof -
  let ?U = "lockedAt n g0 rows pays j {}"
  have found: "turns ?U (ext (findLocked p failedQuery)) (\<lambda>rs w. (lockedAt n g0 rows pays j (irId ` set rs) w \<and> set rs \<subseteq> set (rows w))
      \<and> distinct (map irId rs)) ?U"
  proof (rule turns_ext)
    fix w r w'
    assume w: "?U w" and run: "findLocked p failedQuery w = (r, w')"
    have still: "observes rows pays (\<lambda>v. ?U v \<and> rows v = rows w)"
      using observes_lockedAt [of rows pays n g0 j "{}" "{}"] by (auto simp: observes_def)
    have w': "?U w'" "rows w' = rows w"
      using preservesD [OF sender_tablesD(6) [OF check_tablesD(1) [OF tables] still] _ run] w by simp_all
    show "case r of Inr rs \<Rightarrow> (lockedAt n g0 rows pays j (irId ` set rs) w' \<and> set rs \<subseteq> set (rows w')) \<and> distinct (map irId rs)
        | Inl e \<Rightarrow> ?U w'"
    proof (cases r)
      case (Inr rs)
      note rows = check_tablesD(3-5) [OF tables run [unfolded Inr]]
      have "lockedAt n g0 rows pays j (irId ` set rs) w'"
      proof (rule lockedAt_lock [OF w'(1)])
        show "irId ` set rs \<subseteq> irId ` set (rows w')" using rows(1) w'(2) by (simp add: image_mono)
        show "rsPcs g0 i \<noteq> HPaying x" if "x \<in> irId ` set rs" for x i using that rows(3) by blast
      qed
      with Inr rows w' show ?thesis by simp
    qed (use w' in simp)
  qed
  have "turns (\<lambda>w. (lockedAt n g0 rows pays j (irId ` set rs) w \<and> set rs \<subseteq> set (rows w)) \<and> distinct (map irId rs))
     (andThen (if rs \<noteq> [] then rwWrite (LogText LDebug (''Found '' @ show_nat (length rs) @ '' failed or submitted invites''))
        else ret ()) (\<lambda>_. andThen (settleAll (map (checkFailedInvite p cfg) rs)) (\<lambda>results.
      forEach (\<lambda>r. case r of Inl e \<Rightarrow> unexpected ''Resending failed invites'' e | Inr u \<Rightarrow> ret ()) results))) (\<lambda>_. ?U) ?U"
    (is "turns ?F _ _ _") for rs
  proof (cases "distinct (map irId rs)")
    case True
    let ?L = "lockedAt n g0 rows pays j (irId ` set rs)" and ?G = "\<lambda>w. lockedAt n g0 rows pays j (irId ` set rs) w \<and> set rs \<subseteq> set (rows w)"
    let ?told = "\<lambda>results. forEach (\<lambda>r. case r of Inl e \<Rightarrow> unexpected ''Resending failed invites'' e | Inr u \<Rightarrow> ret ()) results"
    have told: "keeps_outside ?L (?told (results :: (thrown + unit) list))" for results
      by (rule keeps_outside_settle_forEach) (auto intro!: keeps_outside split: sum.split)
    have settled: "turns ?G (andThen (settleAll (map (checkFailedInvite p cfg) rs)) ?told) (\<lambda>_. ?L) ?L"
      by (rule turns_andThen [OF turns_settle_checks [OF tables subset_refl True]]) (rule turns_keeps [OF told])
    have logged: "turns ?G (if rs \<noteq> [] then rwWrite x else ret ()) (\<lambda>_. ?G) ?L" for x
      by (rule turns_weaken [OF turns_keeps [where P = ?G]]) (auto intro: keeps_outside)
    show ?thesis
      by (rule turns_weaken [OF turns_andThen [OF logged settled]]) (auto intro: lockedAt_commit)
  qed (simp add: turns_def)
  then have "turns ?U (resendFailed p cfg) (\<lambda>_. ?U) ?U"
    unfolding resendFailed_def by (rule turns_andThen [OF found])
  then have resend: "keeps_outside ?U (resendFailed p cfg)" by (rule keeps_outside_turns)
  have "inTransaction p m = m" for m by (rule HOL.ext) (rule check_tablesD(2) [OF tables])
  then show ?thesis
    unfolding checkFailedInvites_def
    by (intro keeps_outside_guardedRun keeps_outside)
      (auto intro!: keeps_outside resend split: option.split)
qed

section \<open>The refinement\<close>

lemma handlerAt_start:
  assumes "rsRows g = rows w" "rsPayments g = pays w" "rsLocks g = (\<lambda>_. None)" "rsInFlight g = (\<lambda>_. None)" "rsPcs g i = HIdle"
  shows "handlerAt n g rows pays i HIdle w" and "lockedAt n g rows pays j {} w"
proof -
  have "(rsPcs g)(i := HIdle) = rsPcs g" using assms(5) by (simp add: fun_upd_idem)
  with assms show "handlerAt n g rows pays i HIdle w" "lockedAt n g rows pays j {} w"
    unfolding handlerAt_def lockedAt_def simulated_def by auto
qed

text \<open>
  A table with the unique columns and a relayer whose hashes are new, in a world of rows and accepted payments:
  the inviter's weekly count, the invitee's reward and insertions are those of the table. When the relayer
  is down it answers with an error.
\<close>

type_synonym table_world = "invite_reward list \<times> (string \<times> string) list"

definition tableRepo :: "table_world reward_repo" where
  "tableRepo = \<lparr>updateReward = (\<lambda>x st h w. (Inr (), (map (setReward x st h) (fst w), snd w)))\<rparr>"

definition tableRelay :: "bool \<Rightarrow> table_world relay_port" where
  "tableRelay working = \<lparr>relaySend = (\<lambda>cmd input ctx w.
     let h = replicate (Suc (sum_list (map (length \<circ> snd) (snd w)))) CHR ''h'' in
     if working then ((Some 1, Inr \<lparr>rrPayload = h, rrAddress = ''0xrelayer''\<rparr>), (fst w, (traceId ctx, h) # snd w))
     else ((Some 1, Inl (JObj [(''message'', JStr ''down'')])), w))\<rparr>"

definition tableSender :: "bool \<Rightarrow> table_world sender_port" where
  "tableSender working =
     \<lparr>spRepo = tableRepo, spTxRepo = tableRepo, inTransaction = (\<lambda>m. m),
      findLocked = (\<lambda>q w. (Inr (if distinct (map irId (fst w))
        then take (qLimit q) (filter (\<lambda>r. irState r \<in> set (qStates q)) (fst w)) else []), w)),
      rewardReceipt = (\<lambda>h. ret None), tokenAddress = (\<lambda>t. ret ''0xtoken''),
      encodeTransfer = (\<lambda>a n. a), spRelay = tableRelay working, spNow = (\<lambda>w. (1, w))\<rparr>"

definition tablePort :: "bool \<Rightarrow> table_world invite_port" where
  "tablePort working =
     \<lparr>ipCopies =
        \<lparr>cpEvents = \<lparr>loadContract = (\<lambda>_. ret ()), blockNumber = ret 20, pastEvents = (\<lambda>_ _ _. ret []),
           nbFindOne = (\<lambda>_. ret None), nbInsert = (\<lambda>_. ret ()), nbUpdate = (\<lambda>_ _ _. ret ()),
           rwUuid = (\<lambda>w. (Inr (replicate (Suc (length (fst w))) CHR ''i''), w)), stringifyEvent = evTxHash\<rparr>,
         cpNow = ret 5, attestationSave = ret, mappingSave = ret, mappingFind = (\<lambda>_. ret [])\<rparr>,
      ipSender = tableSender working,
      stableTokenAddress = (\<lambda>t. ret (case t of CUSD \<Rightarrow> ''0xa'' | CEUR \<Rightarrow> ''0xb'')),
      withdrawalTx = (\<lambda>h. ret (Some \<lparr>wtFrom = ''0xrelayer'', wtTo = Some h\<rparr>)),
      attestedPairs = (\<lambda>as. ret (map (\<lambda>a. (''id'', a)) as)), verifiedFor = (\<lambda>_ _. ret True),
      weeklyInvites = (\<lambda>a w. (Inr (length (filter (countsFor 0 a) (fst w))), w)),
      rewardOfInvitee = (\<lambda>i w. (Inr (find (\<lambda>r. irInvitee r = i) (fst w)), w)),
      rewardSave = (\<lambda>r w. if insertable r (fst w) \<and> 0 \<le> irCreatedAt r then (Inr r, (r # fst w, snd w))
        else (Inl (ErrorObject (plain_error duplicateKeyText)), w))\<rparr>"

lemma tableRelay_known: "payments_known (tableRelay working) 5000 fst snd"
proof -
  have "length h \<le> sum_list (map (length \<circ> snd) ps)" if "h \<in> snd ` set ps" for h and ps :: "(string \<times> string) list"
    using that by (induction ps) fastforce+
  then have "replicate (Suc (sum_list (map (length \<circ> snd) ps))) CHR ''h'' \<notin> snd ` set ps" for ps :: "(string \<times> string) list"
    by (metis length_replicate not_less_eq_eq order_refl)
  then show ?thesis by (auto simp: payments_known_def tableRelay_def Let_def split: if_splits)
qed

lemma table_sender: "sender_tables (tableSender working) demoSenderConfig fst snd"
  using tableRelay_known [of working]
  by (auto simp: sender_tables_def tableSender_def demoSenderConfig_def updates_rows_def tableRepo_def preserves_def ret_def)

lemma table_invites: "invite_tables (tablePort working) 0 fst snd"
  by (auto simp: invite_tables_def tablePort_def reads_only_def preserves_def ret_def find_None_iff split: if_splits)

lemma table_checks: "check_tables (tableSender working) demoSenderConfig (noRewards 0) fst snd"
proof -
  have "set (take k (filter P xs)) \<subseteq> set xs" for k P and xs :: "invite_reward list"
    by (meson filter_is_subset order_trans set_take_subset)
  moreover have "distinct (map irId (take k (filter P xs)))" if "distinct (map irId xs)" for k P and xs :: "invite_reward list"
    using that by (metis distinct_map_filter distinct_take take_map)
  ultimately show ?thesis
    using table_sender [of working]
    by (auto simp: check_tables_def tableSender_def noRewards_def ret_def dest: in_set_takeD split: if_splits)
qed

text \<open>A withdrawal by its transaction, for an invitee and an identifier of their own\<close>

definition withdrawalOf :: "string \<Rightarrow> event_log" where
  "withdrawalOf h = (demoEventLog h 12)\<lparr>evReturn := (\<lambda>k.
     if k = ''token'' then ''0xa'' else if k = ''to'' then ''0xinviter'' else if k = ''identifier'' then h else ''p'')\<rparr>"

lemma table_run:
  "snd (snd (snd (handleWithdrawalEvent (tablePort True) demoInviteConfig (withdrawalOf ''0xc'') (demoRewards, ([], []))))) =
     [(''i'', ''h'')]"
  "length (fst (snd (snd (handleWithdrawalEvent (tablePort True) demoInviteConfig (withdrawalOf ''0xc'') (demoRewards, ([], [])))))) = 1"
  by code_simp+

lemma demoInviteConfig_sender: "icSender demoInviteConfig = demoSenderConfig" "ipSender (tablePort working) = tableSender working"
  by (simp_all add: demoInviteConfig_def tablePort_def)

lemma table_reachable: "\<exists>g. reward_reachable 1 g \<and> rsPayments g = [(''i'', ''h'')] \<and> length (rsRows g) = 1"
proof -
  let ?m = "handleWithdrawalEvent (tablePort True) demoInviteConfig (withdrawalOf ''0xc'')"
  have "handlerAt 1 (noRewards 0) fst snd 0 HIdle ([], [])"
    by (rule handlerAt_start) (simp_all add: noRewards_def)
  moreover have keeps: "keeps_outside (handlerAt 1 (noRewards 0) fst snd 0 HIdle) ?m"
    by (rule handleWithdrawalEvent_simulated) (simp_all add: noRewards_def table_invites table_sender demoInviteConfig_sender)
  ultimately have "handlerAt 1 (noRewards 0) fst snd 0 HIdle (snd (snd (?m (demoRewards, ([], [])))))"
    using keeps_outsideD [OF keeps, of "(demoRewards, ([], []))"] by (cases "?m (demoRewards, ([], []))") auto
  then obtain g where "(reward_step 1)\<^sup>*\<^sup>* (noRewards 0) g" "rsPayments g = [(''i'', ''h'')]" "length (rsRows g) = 1"
    unfolding handlerAt_def simulated_def using table_run by auto
  then show ?thesis using runs_reachable reward_reachable.start by blast
qed

text \<open>
  C35. The runs of the code are steps of the interleaving: for a system whose rows, payments and locks are those of
  the world, and in which no hash is on its way to a row, an idle handler's run of \<open>handleWithdrawalEvent\<close> and a run
  of \<open>checkFailedInvites\<close> each end in a world whose rows and payments a sequence of steps leads to, with the handlers
  and locks where they were and again no hash on its way.
\<close>

theorem reward_runs_refine_steps:
  assumes "invite_tables p (rsWeek g) rows pays" and "check_tables (ipSender p) (icSender cfg) g rows pays"
    and start: "rsRows g = rows w" "rsPayments g = pays w" "rsLocks g = (\<lambda>_. None)" "rsInFlight g = (\<lambda>_. None)"
    and "i < n" "rsPcs g i = HIdle"
    and run: "handleWithdrawalEvent p cfg ev (s, w) = (r, (s', w')) \<or>
      checkFailedInvites (ipSender p) (icSender cfg) (s, w) = (r, (s', w'))"
  shows "\<exists>g'. (reward_step n)\<^sup>*\<^sup>* g g' \<and> rsRows g' = rows w' \<and> rsPayments g' = pays w'
     \<and> rsPcs g' = rsPcs g \<and> rsLocks g' = (\<lambda>_. None) \<and> rsInFlight g' = (\<lambda>_. None)"
proof -
  have same: "(rsPcs g)(i := HIdle) = rsPcs g" using assms(8) by (simp add: fun_upd_idem)
  note begins = handlerAt_start [where rows = rows and pays = pays and w = w and n = n, OF start assms(8)]
  from run have "simulated n g rows pays (rsPcs g) (\<lambda>_. None) w'"
  proof
    assume "handleWithdrawalEvent p cfg ev (s, w) = (r, (s', w'))"
    with keeps_outsideD [OF handleWithdrawalEvent_simulated [OF assms(1) check_tablesD(1) [OF assms(2)] assms(7)]] begins(1)
    have "handlerAt n g rows pays i HIdle w'" by fastforce
    then show ?thesis by (simp add: handlerAt_def same)
  next
    assume "checkFailedInvites (ipSender p) (icSender cfg) (s, w) = (r, (s', w'))"
    with keeps_outsideD [OF checkFailedInvites_simulated [OF assms(2)]] begins(2)
    have "lockedAt n g rows pays j {} w'" for j by fastforce
    then show ?thesis by (simp add: lockedAt_def)
  qed
  then show ?thesis unfolding simulated_def by blast
qed

lemma reward_runs_refine_steps_witness:
  "\<exists>g'. (reward_step 1)\<^sup>*\<^sup>* (noRewards 0) g' \<and> rsPayments g' = [(''i'', ''h'')] \<and> length (rsRows g') = 1"
proof -
  let ?m = "handleWithdrawalEvent (tablePort True) demoInviteConfig (withdrawalOf ''0xc'')"
  obtain r s' w' where run: "?m (demoRewards, ([], [])) = (r, (s', w'))" by (metis surj_pair)
  have "\<exists>g'. (reward_step 1)\<^sup>*\<^sup>* (noRewards 0) g' \<and> rsRows g' = fst w' \<and> rsPayments g' = snd w'
     \<and> rsPcs g' = rsPcs (noRewards 0) \<and> rsLocks g' = (\<lambda>_. None) \<and> rsInFlight g' = (\<lambda>_. None)"
    by (rule reward_runs_refine_steps [where p = "tablePort True" and cfg = demoInviteConfig and i = 0,
          OF _ _ _ _ _ _ _ _ disjI1 [OF run]])
      (simp_all add: noRewards_def table_invites table_checks [unfolded noRewards_def] demoInviteConfig_sender)
  with table_run [unfolded run] show ?thesis by auto
qed

section \<open>What holds however they interleave\<close>

text \<open>
  A hash that is lost costs the payment: the check sends the row again, and both payments stand.
\<close>

lemma lost_hash_pays_twice:
  "\<exists>g h. reward_reachable 1 g \<and> rsPayments g = [(''i'', h), (''i'', ''h'')] \<and> h \<noteq> ''h'' \<and> rsReverted g = {}"
  (is "\<exists>g h. ?P g h")
proof -
  let ?row = "\<lparr>irId = ''i'', irInviter = ''a'', irInvitee = ''b'', irInviteeIdentifier = ''c'', irState = RCreated,
      irRewardTxHash = None, irInviteToken = CUSD, irCreatedAt = 1\<rparr>"
  note go = reward_reachable.step [where n = 1]
  have "reward_reachable 1 (at_pc 0 (HChecks ''a'' ''b'' ''c'' False False) (noRewards 0))"
    by (rule go [OF reward_reachable.start event]) (simp_all add: noRewards_def)
  then have "reward_reachable 1 (at_pc 0 (HChecks ''a'' ''b'' ''c'' True False)
      (at_pc 0 (HChecks ''a'' ''b'' ''c'' False False) (noRewards 0)))"
    by (rule go) (rule read_limit, auto simp: at_pc_def noRewards_def WEEKLY_INVITE_LIMIT_def)
  then have "reward_reachable 1 (at_pc 0 (HChecks ''a'' ''b'' ''c'' True True) (at_pc 0 (HChecks ''a'' ''b'' ''c'' True False)
      (at_pc 0 (HChecks ''a'' ''b'' ''c'' False False) (noRewards 0))))"
    by (rule go) (rule read_invitee, auto simp: at_pc_def noRewards_def)
  then have "reward_reachable 1 (at_pc 0 (HChecks ''a'' ''b'' ''c'' True True) (noRewards 0))"
    by (simp add: at_pc_def)
  then have "reward_reachable 1 (at_pc 0 (HCreating ''a'' ''b'' ''c'') (at_pc 0 (HChecks ''a'' ''b'' ''c'' True True) (noRewards 0)))"
    (is "reward_reachable 1 ?g0")
    by (rule go) (rule admit, auto simp: at_pc_def)
  then have "reward_reachable 1 (at_pc 0 (HPaying (irId ?row)) (?g0\<lparr>rsRows := ?row # rsRows ?g0\<rparr>))" (is "reward_reachable 1 ?g1")
    by (rule go) (rule create, auto simp: at_pc_def noRewards_def insertable_def)
  then have "reward_reachable 1 (accept ''i'' ''h'' ?g1)" (is "reward_reachable 1 ?g2")
    by (rule go) (rule sent, auto simp: at_pc_def noRewards_def newHash_def)
  then have "reward_reachable 1 (loseHash ''i'' ''h'' ?g2)" (is "reward_reachable 1 ?g3")
    by (rule go) (rule lost, simp add: accept_def)
  then have "reward_reachable 1 (at_pc 0 HIdle ?g3)" (is "reward_reachable 1 ?g4")
    by (rule go) (rule leave, simp add: loseHash_def at_pc_def accept_def)
  then have "reward_reachable 1 (?g4\<lparr>rsLocks := (\<lambda>x. if x \<in> {''i''} then Some 7 else rsLocks ?g4 x),
      rsBefore := (\<lambda>x. if x \<in> {''i''} then savedRow (rsRows ?g4) x else rsBefore ?g4 x)\<rparr>)" (is "reward_reachable 1 ?g5")
    by (rule go) (rule lock, auto simp: at_pc_def loseHash_def accept_def noRewards_def)
  then have "reward_reachable 1 (accept ''i'' ''hh'' ?g5)"
    by (rule go) (rule sent_again [where r = ?row and j = 7],
      auto simp: at_pc_def loseHash_def accept_def noRewards_def newHash_def payable_def)
  then have "?P (accept ''i'' ''hh'' ?g5) ''hh''"
    by (auto simp: at_pc_def loseHash_def accept_def noRewards_def)
  then show ?thesis by blast
qed



text \<open>
  C36. The weekly limit under concurrency: while \<open>n\<close> handlers run at the same time, an inviter has at most
  \<open>19 + n\<close> rewards created this week whose sending never failed.
\<close>

theorem weekly_limit_under_concurrency:
  assumes "reward_reachable n g"
  shows "length (filter (\<lambda>r. irInviter r = inviter \<and> rsWeek g \<le> irCreatedAt r \<and> irId r \<notin> rsEverFailed g) (rsRows g)) < 20 + n"
proof -
  have "Suc (steadyRewards g inviter) \<le> WEEKLY_INVITE_LIMIT + n"
    using within_limit_reachable [OF assms] unfolding within_limit_def by (meson Suc_le_mono le_add1 le_trans)
  then show ?thesis by (simp add: steadyRewards_def steadyRow_def [abs_def] WEEKLY_INVITE_LIMIT_def)
qed

lemma weekly_limit_under_concurrency_witness:
  "\<exists>g. reward_reachable 1 g \<and> length (rsRows g) = 1
     \<and> length (filter (\<lambda>r. irInviter r = ''0xinviter'' \<and> rsWeek g \<le> irCreatedAt r \<and> irId r \<notin> rsEverFailed g) (rsRows g)) < 21"
proof -
  obtain g where "reward_reachable 1 g" "length (rsRows g) = 1" using table_reachable by blast
  with weekly_limit_under_concurrency [OF this(1), of "''0xinviter''"] show ?thesis by auto
qed

text \<open>Nineteen rewards of an inviter, and what an outage of the relayer during two withdrawals leads to\<close>

definition earlierRewards :: "invite_reward list" where
  "earlierRewards = map (\<lambda>k. \<lparr>irId = replicate k CHR ''e'', irInviter = ''0xinviter'', irInvitee = replicate k CHR ''e'',
     irInviteeIdentifier = replicate k CHR ''e'', irState = RCompleted, irRewardTxHash = Some (replicate (Suc k) CHR ''x''),
     irInviteToken = CUSD, irCreatedAt = 1\<rparr>) [0..<19]"

definition afterOutage :: table_world where
  "afterOutage =
     (case handleWithdrawalEvent (tablePort False) demoInviteConfig (withdrawalOf ''0xc'') (demoRewards, (earlierRewards, [])) of
        (_, sw1) \<Rightarrow>
          (case handleWithdrawalEvent (tablePort False) demoInviteConfig (withdrawalOf ''0xd'') sw1 of
             (_, sw2) \<Rightarrow> snd (snd (checkFailedInvites (tableSender True) demoSenderConfig sw2))))"

text \<open>
  The limit does not hold for rewards whose sending failed: they are not counted when the next withdrawal is
  checked, but they are sent again half an hour later. Here the relayer is down for two withdrawals
  of an inviter with 19 rewards this week; when it is back, the inviter has 21.
\<close>

lemma failed_rewards_evade_weekly_limit:
  "length (filter (countsFor 0 ''0xinviter'') earlierRewards) = 19
   \<and> length (filter (countsFor 0 ''0xinviter'') (fst afterOutage)) = 21 \<and> length (snd afterOutage) = 2"
  by code_simp

end
