(* ===== verification/Spec2Isabelle.thy ===== *)
theory Spec2Isabelle
  imports Kit Api Nonce_Lock Invite_Reward Relayer_App Funding Tx_Pool Deployer Load_Test Kit_Over_Api Session_Flow
    Service_Config Db_Schema Example_Flow Logger_Config Reward_Refinement
begin

text \<open>
  Verification of Komenci, the onboarding service of the Celo wallet: mobile clients prove that they are
  not bots, and Komenci then pays for their first transactions. The repository is a workspace of
  TypeScript packages; the model covers those that carry its logic.

  \<^bold>\<open>The program.\<close> A client uses the kit (\<open>packages/libs/komencikit\<close>), a library that calls the api over HTTP,
  signs meta-transactions and talks to contracts. The api (\<open>packages/apps/api\<close>) starts a session for an
  account that passes the gateway's rules, guards its endpoints by token, throttle and quota, admits
  only meta-transactions that call allowed methods, and hands transactions to a relayer. A relayer
  (\<open>packages/apps/relayer\<close>) owns one account: it submits with consecutive nonces, watches what it submitted,
  replaces what is stuck, and queries ODIS. The rewards service (\<open>packages/apps/rewards\<close>) follows contract
  events, decides which invites are rewarded and pays them through a relayer. The command line tools
  (\<open>packages/apps/cli\<close>) fund the relayers. The libraries hold errors, configuration, logging, throttling
  and the access to the chain. The parts meet in the calls api to relayer and rewards to relayer (a
  message and a reply raced against a timeout), in the database rows of sessions and rewards, and on the
  chain.

  \<^bold>\<open>How code becomes definitions.\<close> A pure function is a function. A method with effects is a program
  \<open>('w, 'e, 'a) io\<close> of \<open>Komenci_Prelude\<close>: from a state to a value or an exception and a new state, with
  \<open>andThen\<close> for \<open>await\<close> and sequencing, \<open>catching\<close> for \<open>try/catch\<close>, \<open>finallyDo\<close> for \<open>finally\<close>, \<open>throw\<close> for
  \<open>throw\<close> and a rejected promise, \<open>settleAll\<close> and \<open>promiseAll\<close> for promises that run together (here one after
  the other, in order; all of them run even when one rejects). The state is a pair of the service's own
  fields, a record, and the outside world, on which the calls of other code run: \<open>ext\<close> lifts them. Other
  code (databases, nodes, contracts, codecs, clocks, HTTP) is a record of functions, a port; what a
  theorem needs of a port is a named predicate (\<open>stores_in\<close>, \<open>block_rows\<close>, \<open>only_relay_submits\<close>,
  \<open>records_transfers\<close>, ...), and every theorem that has one has a witness on a port that satisfies it. A
  \<open>Result\<close> of the code is the datatype \<open>result\<close>; an error class is a constructor with its error object
  (\<open>Core_Lib\<close>), which keeps type, message and metadata, so that filters and log records can be computed.
  A \<open>TypeError\<close> of the language (a property of \<open>undefined\<close>) is an exception like any other.

  \<^bold>\<open>Theories.\<close>
  \<^item> \<open>Komenci_Prelude\<close>: results, programs and their laws, the collections \<open>runs\<close> (inversion of a run),
    \<open>keeps\<close> (preservation of a predicate) and \<open>no_throw\<close>, strings, ordered sets, the rounding of JavaScript
    numbers, and \<open>running_flag\<close>, the locale of the flags that keep two runs of a job apart.
  \<^item> \<open>Core_Lib\<close>: \<open>packages/libs/core/src\<close> (\<open>errors.ts\<close>, \<open>hex.ts\<close>, \<open>network.config.ts\<close>).
  \<^item> \<open>Logger_Lib\<close>: \<open>packages/libs/logger/src\<close> and \<open>packages/libs/analytics/src\<close>: events and payloads, the
    rendering of errors, the exception filters.
  \<^item> \<open>Retry\<close>: the decorator of \<open>komencikit/src/retry.ts\<close>, whose \<open>while (true)\<close> is a partial function; with at least
    one try it is the total function \<open>retried\<close>, with none it can run for ever.
  \<^item> \<open>Kit_Client\<close>, \<open>Wallet_Verify\<close>, \<open>Kit\<close>: \<open>client.ts\<close>, \<open>actions.ts\<close>, \<open>errors.ts\<close>; \<open>verifyWallet.ts\<close>; \<open>kit.ts\<close>, \<open>login.ts\<close>.
  \<^item> \<open>Session\<close>: \<open>api/src/session\<close> and the quota, with the interleaving of concurrent requests.
  \<^item> \<open>Tx_Parser\<close>: \<open>api/src/wallet/decode-txs.ts\<close>, \<open>method-filter.ts\<close>, \<open>tx-parser.service.ts\<close>. The decoder is a
    parameter; a number it returns is a plain one, as the code declares it, or an object of a big-number library.
  \<^item> \<open>Relayer_Proxy\<close>: \<open>api/src/relayer\<close>. \<open>Wallet_Service\<close>: \<open>api/src/wallet/wallet.service.ts\<close>, \<open>api/src/subsidy\<close>.
  \<^item> \<open>Gateway\<close>: \<open>api/src/gateway\<close>, \<open>api/src/auth\<close>, \<open>packages/libs/throttler/src\<close>. \<open>Api\<close>: \<open>api/src/app.controller.ts\<close>.
  \<^item> \<open>Transaction_Service\<close>, \<open>Nonce_Lock\<close>: \<open>relayer/src/chain\<close>; the second is the lock of the nonce as a step
    relation over interleaved submissions, dead letters and refreshes, with a node that may lose an answer or be
    behind, which the body of the lock refines.
  \<^item> \<open>Relayer_App\<close>: \<open>relayer/src/app.controller.ts\<close>, \<open>odis/odis.service.ts\<close>, \<open>contracts\<close>, and the relayer seen from
    the proxies, which composes the two applications.
  \<^item> \<open>Rewards_Events\<close>, \<open>Reward_Sender\<close>, \<open>Invite_Reward\<close>: \<open>rewards/src\<close>: polling and copied events, the sending of
    rewards, the choice of the invites that are rewarded and the endpoint that looks one up.
  \<^item> \<open>Reward_Interleaving\<close>, \<open>Reward_Refinement\<close>: several instances of the rewards service at once, as a step relation
    over the table, the handlers, the row locks and the payments, with relayers that answer late or never, updates that
    fail and transactions that are rolled back; and the proof that the runs of the handler and of the check of failed
    invites are sequences of its steps, on a table as documented and relayers that reply in time.
  \<^item> \<open>Funding\<close>: \<open>blockchain/src/funding.service.ts\<close>, wallet configurations and \<open>cli/src/fund.command.ts\<close>.
    \<open>Deployer\<close>: \<open>cli/src/deployer.command.ts\<close>. \<open>Tx_Pool\<close>: \<open>blockchain/src/blockchain.service.ts\<close>.
  \<^item> \<open>Dto\<close>: the validation rules of \<open>api/src/dto\<close> and \<open>relayer/src/dto\<close> as data and their evaluation.
    \<open>Kit_Over_Api\<close>: the endpoints of the api behind the kit's \<open>fetch\<close>, with guards, validation and error filter, down to
    the relayer's transaction service. \<open>Session_Flow\<close>: the throttled endpoints, and a session from its start by the
    kit to the guards of the requests that use it.
  \<^item> \<open>Load_Test\<close>, \<open>Example_Flow\<close>: \<open>packages/load-testing/src/processor.ts\<close> and the kit's \<open>examples/attestation-flow.ts\<close>.
  \<^item> \<open>Service_Config\<close>, \<open>Logger_Config\<close>, \<open>Db_Schema\<close>: the configurations of the services, the providers they start with,
    the deployment of the contracts; the options of the logger; migrations and entities of both databases.

  Definitions keep the names of the code; where a name is taken they have a prefix (\<open>api...\<close> for endpoints of
  the api, \<open>ctrl...\<close> for commands of the relayer, \<open>kit...\<close> for operations of the kit).

  \<^bold>\<open>What the theorems show.\<close> Admission: a request changes something outside only past every guard and rule,
  the parser admits exactly the batches of which it decodes allowed calls, decoders recover what encoders wrote, and
  a batch of three with big-number lengths can hide a call from it. Accounting: what a
  session counts, one call at a time and under interleaving, and where the code lets the quota be
  exceeded or bypassed. Transactions: nonces of accepted submissions are distinct under any
  interleaving wherever service and node agree, watched hashes and the cache agree, prices are capped except for dead letters, a mined
  transaction is unwatched, and a batch submitted through the proxies is the submission by the service.
  Clients: requests and polling end, responses are classified, a wallet that is handed out was verified,
  a session that the kit starts over the api is the one its later requests are handled for, and when the
  throttler refuses, nothing else of the api is asked.
  Rewards: no event is skipped, invites are rewarded only under the rules, what is resent was not seen to
  be paid; however several instances interleave, a second payment for an invitee that stands needs one whose hash did not
  reach its row, and the weekly limit is exceeded by the number of concurrent handlers at most, but for the
  rewards whose first sending failed; and the timeout that pays twice. Funds: a disbursement stays within the balances it read.
  Where the code does not do what it means to, the theorem states what it does.

  \<^bold>\<open>Locales.\<close> Each states what a client relies on and is interpreted on the model: \<open>running_flag\<close> (three jobs of
  the rewards service), \<open>result_method\<close> and \<open>retried_method\<close> (the retried request of the kit), \<open>allow_list\<close>
  (the method filter), \<open>keyed_table\<close> and \<open>tx_invariant\<close> (the watch list and the invariants of the
  transaction service) and \<open>sender_invariant\<close> (the watched rewards).

  \<^bold>\<open>Bounds and fuel.\<close> No definition has fuel that the code does not have. Loops of the code are structural, have a
  measure (batches of blocks, polls until a deadline, retries left), or are the partial function of the
  decorator. Batches are 10000 blocks, queries 100 rows, rewards 20 a week, requests three attempts, as in
  the code. Numbers of the code are rationals or integers where it uses \<open>BigNumber\<close> or whole amounts;
  where it multiplies JavaScript numbers the rounding to 53 bits is written out (\<open>js_mul\<close>).

  \<^bold>\<open>Not modelled.\<close> Dependency injection, module declarations and the listening servers of \<open>*.module.ts\<close> and
  \<open>main.ts\<close>, which the framework reads; the framework itself, TypeORM, class-validator, pino, io-ts, web3 and
  contractkit, of which the ports state what is relied on; the contracts and ODIS; the tests. Cron schedules
  are the callers' business: every job is a program that may be run at any time. Within one job the awaits
  run in one order; interleavings are modelled where they matter, for session usage, for nonces and for
  rewards. The steps of the rewards take it that a handler is done half an hour after its row was created, when the
  row can first be locked. \<open>waitForReceipt\<close> is total, for a positive polling interval; for others the loop of the code
  does not end. Infinite amounts on the command line are left out; \<open>NaN\<close> is in.
\<close>

end
